(* ===== verification/Prelude.thy ===== *)
theory Prelude
  imports Main "HOL-Library.Word" "HOL-Library.Char_ord" "HOL-Library.List_Lexorder"
    "HOL-Library.Multiset" "HOL-Library.Sublist"
begin

text \<open>
  The vocabulary the components of Sponge OS share: machine integers, C strings and the
  fixed-capacity buffers they are copied into, the scanning idioms of the hand-written parsers
  (skip, trim, split, lines), and the selection sort by name that \<open>sponge_configd\<close> and
  \<open>sponge_pkgd\<close> run before every report they emit.

  A NUL-terminated C string is the list of the characters before its NUL. A raw buffer (a ROM
  dataspace, read with its size) is the list of all its bytes, NULs included.
\<close>

section \<open>Types and collections of facts\<close>

type_synonym u32 = "32 word"
type_synonym u64 = "64 word"

named_theorems bounded \<open>length bounds of the fixed-capacity buffers\<close>

section \<open>Characters\<close>

abbreviation TAB :: char where "TAB \<equiv> CHR 0x09"
abbreviation NL :: char where "NL \<equiv> CHR 0x0A"
abbreviation CR :: char where "CR \<equiv> CHR 0x0D"
abbreviation SP :: char where "SP \<equiv> CHR 0x20"
abbreviation DQ :: char where "DQ \<equiv> CHR 0x22"
abbreviation SQ :: char where "SQ \<equiv> CHR 0x27"
abbreviation NUL :: char where "NUL \<equiv> CHR 0x00"

definition is_digit :: "char \<Rightarrow> bool" where
  "is_digit c \<longleftrightarrow> CHR ''0'' \<le> c \<and> c \<le> CHR ''9''"

definition is_lower :: "char \<Rightarrow> bool" where
  "is_lower c \<longleftrightarrow> CHR ''a'' \<le> c \<and> c \<le> CHR ''z''"

definition is_upper :: "char \<Rightarrow> bool" where
  "is_upper c \<longleftrightarrow> CHR ''A'' \<le> c \<and> c \<le> CHR ''Z''"

definition digit_val :: "char \<Rightarrow> nat" where
  "digit_val c = of_char c - 48"

definition json_ws :: "char \<Rightarrow> bool" where
  "json_ws c \<longleftrightarrow> c = SP \<or> c = TAB \<or> c = CR \<or> c = NL"

definition blank :: "char \<Rightarrow> bool" where
  "blank c \<longleftrightarrow> c = SP \<or> c = TAB \<or> c = CR"

lemma digit_val_less: "is_digit c \<Longrightarrow> digit_val c < 10"
proof -
  assume "is_digit c"
  then have "of_char c \<le> (57 :: nat)" by (simp add: is_digit_def less_eq_char_def)
  then show ?thesis by (simp add: digit_val_def)
qed

text \<open>A literal in which backquotes stand for double quotes.\<close>

definition jq :: "string \<Rightarrow> string" where
  "jq s = map (\<lambda>c. if c = CHR 0x60 then DQ else c) s"

section \<open>Fixed-capacity strings and buffers\<close>

text \<open>
  \<open>String<N>\<close> keeps at most \<open>N - 1\<close> characters of what it is built from; a \<open>char buf[N]\<close>
  filled by a bounded append loop keeps what still fits, leaving \<open>slack\<close> bytes free
  (one for the NUL in most loops, four in the arrow-separated one).
\<close>

definition gstr :: "nat \<Rightarrow> string \<Rightarrow> string" where
  "gstr n s = take (n - 1) s"

definition buf_append :: "nat \<Rightarrow> nat \<Rightarrow> string \<Rightarrow> string \<Rightarrow> string" where
  "buf_append slack cap buf s = buf @ take (cap - slack - length buf) s"

lemma length_gstr [bounded]: "length (gstr n s) \<le> n - 1"
  by (simp add: gstr_def)

lemma gstr_id [simp]: "length s < n \<Longrightarrow> gstr n s = s"
  by (simp add: gstr_def)

lemma gstr_Nil [simp]: "gstr n [] = []"
  by (simp add: gstr_def)

lemma gstr_gstr [simp]: "gstr n (gstr n s) = gstr n s"
  by (simp add: gstr_def)

lemma length_buf_append [bounded]:
  "length buf \<le> cap - slack \<Longrightarrow> length (buf_append slack cap buf s) \<le> cap - slack"
  by (simp add: buf_append_def)

lemma buf_append_fits [simp]:
  "length buf + length s \<le> cap - slack \<Longrightarrow> buf_append slack cap buf s = buf @ s"
  by (simp add: buf_append_def)

text \<open>A buffer read back as a C string ends at its first NUL.\<close>

definition cstr :: "string \<Rightarrow> string" where
  "cstr s = takeWhile (\<lambda>c. c \<noteq> NUL) s"

lemma cstr_id [simp]: "NUL \<notin> set s \<Longrightarrow> cstr s = s"
  by (simp add: cstr_def takeWhile_eq_all_conv) (metis)

text \<open>A run of appends to one buffer.\<close>

definition buf_appends :: "nat \<Rightarrow> nat \<Rightarrow> string \<Rightarrow> string list \<Rightarrow> string" where
  "buf_appends slack cap buf ss = fold (\<lambda>s b. buf_append slack cap b s) ss buf"

lemma buf_appends_simps [simp]:
  "buf_appends slack cap buf [] = buf"
  "buf_appends slack cap buf (s # ss) = buf_appends slack cap (buf_append slack cap buf s) ss"
  by (simp_all add: buf_appends_def)

lemma length_buf_appends [bounded]:
  "length buf \<le> cap - slack \<Longrightarrow> length (buf_appends slack cap buf ss) \<le> cap - slack"
  by (induction ss arbitrary: buf) (auto intro: length_buf_append)

lemma buf_appends_fits:
  "length buf + sum_list (map length ss) \<le> cap - slack
    \<Longrightarrow> buf_appends slack cap buf ss = buf @ concat ss"
  by (induction ss arbitrary: buf) auto

section \<open>Scanning\<close>

lemma drop_diff_append [simp]: "drop (length (x @ y) - length y) (x @ y) = y"
  by simp

lemma takeWhile_stop [simp]:
  "\<forall>x \<in> set v. P x \<Longrightarrow> \<not> P e \<Longrightarrow> takeWhile P (v @ e # r) = v"
  by (induction v) auto

lemma take_diff_append [simp]: "take (length (x @ y) - length y) (x @ y) = x"
  by simp

text \<open>
  \<open>while (i < size \<and> p (buf[i])) ++i\<close>: the index after the run of characters that satisfy \<open>p\<close>.
\<close>

definition skip_while :: "(char \<Rightarrow> bool) \<Rightarrow> string \<Rightarrow> nat \<Rightarrow> nat" where
  "skip_while p buf i = i + length (takeWhile p (drop i buf))"

lemma skip_while_ge [simp]: "i \<le> skip_while p buf i"
  by (simp add: skip_while_def)

lemma skip_while_le: "i \<le> length buf \<Longrightarrow> skip_while p buf i \<le> length buf"
proof -
  assume i: "i \<le> length buf"
  have "length (takeWhile p (drop i buf)) \<le> length (drop i buf)"
    by (rule length_takeWhile_le)
  with i show ?thesis by (simp add: skip_while_def)
qed

text \<open>The characters of the half-open index range \<open>[i, j)\<close>.\<close>

definition slice :: "string \<Rightarrow> nat \<Rightarrow> nat \<Rightarrow> string" where
  "slice s i j = take (j - i) (drop i s)"

lemma length_slice [bounded]: "length (slice s i j) \<le> j - i"
  by (simp add: slice_def)

text \<open>
  The two loops that move \<open>first\<close> up and \<open>last\<close> down over white space.
\<close>

definition trim :: "(char \<Rightarrow> bool) \<Rightarrow> string \<Rightarrow> string" where
  "trim p s = rev (dropWhile p (rev (dropWhile p s)))"

text \<open>The loop that lowers \<open>len\<close> over the padding of a dataspace.\<close>

definition strip_nuls :: "string \<Rightarrow> string" where
  "strip_nuls s = rev (dropWhile (\<lambda>c. c = NUL) (rev s))"

text \<open>The tokens between separators, the empty ones included.\<close>

fun split_on :: "char \<Rightarrow> string \<Rightarrow> string list" where
  "split_on c [] = [[]]"
| "split_on c (x # xs) =
     (if x = c then [] # split_on c xs
      else case split_on c xs of [] \<Rightarrow> [[x]] | t # ts \<Rightarrow> (x # t) # ts)"

lemma split_on_not_Nil [simp]: "split_on c s \<noteq> []"
  by (cases s) (auto split: list.split)

lemma split_on_notin: "c \<notin> set s \<Longrightarrow> split_on c s = [s]"
  by (induction s) auto

lemma split_on_append: "c \<notin> set s \<Longrightarrow> split_on c (s @ c # t) = s # split_on c t"
  by (induction s) auto

lemma split_on_unfold:
  "split_on c s = takeWhile (\<lambda>x. x \<noteq> c) s #
     (case dropWhile (\<lambda>x. x \<noteq> c) s of [] \<Rightarrow> [] | _ # r \<Rightarrow> split_on c r)"
  by (induction s) (auto split: list.split)

lemma split_on_sep_free: "t \<in> set (split_on c s) \<Longrightarrow> c \<notin> set t"
proof (induction s arbitrary: t)
  case Nil
  then show ?case by simp
next
  case (Cons x xs)
  then show ?case
    by (cases "split_on c xs") (auto split: if_splits)
qed

text \<open>
  The lines of a buffer as a \<open>while (line_start < length)\<close> loop sees them: a final newline ends
  the last line and does not start another.
\<close>

definition lines_of :: "string \<Rightarrow> string list" where
  "lines_of s = (let ls = split_on NL s in if last ls = [] then butlast ls else ls)"

section \<open>Sorting by name\<close>

text \<open>
  The selection sort that precedes every generated report: an index array is permuted until the
  names it points to ascend. \<open>strcmp(a, b) < 0\<close> is the lexicographic order of the characters
  (\<open>HOL-Library.List_Lexorder\<close> over \<open>HOL-Library.Char_ord\<close>).
\<close>

definition sel_best :: "('a::linorder) list \<Rightarrow> nat list \<Rightarrow> nat \<Rightarrow> nat" where
  "sel_best names order i =
     foldl (\<lambda>best j. if names ! (order ! j) < names ! (order ! best) then j else best)
       i [Suc i..<length order]"

definition sel_step :: "('a::linorder) list \<Rightarrow> nat list \<Rightarrow> nat \<Rightarrow> nat list" where
  "sel_step names order i =
     (let best = sel_best names order i
      in if best \<noteq> i then order[i := order ! best, best := order ! i] else order)"

definition sel_order :: "('a::linorder) list \<Rightarrow> nat list" where
  "sel_order names = foldl (sel_step names) [0..<length names] [0..<length names]"

lemma sel_best_props:
  fixes names :: "('a::linorder) list"
  assumes "i < n" and "n = length order" and "k \<le> n" and "Suc i \<le> k"
  shows "let b = foldl (\<lambda>best j. if names ! (order ! j) < names ! (order ! best) then j else best)
           i [Suc i..<k]
         in i \<le> b \<and> b < k \<and> (\<forall>j. i \<le> j \<and> j < k \<longrightarrow> names ! (order ! b) \<le> names ! (order ! j))"
  using assms(4) assms(3)
proof (induction k rule: dec_induct)
  case base
  then show ?case by (auto simp: Let_def less_Suc_eq)
next
  case (step k)
  then show ?case
    by (auto simp: Let_def less_Suc_eq not_less intro: less_imp_le order.trans)
qed

lemma sel_best:
  assumes "i < length order"
  shows "i \<le> sel_best names order i" and "sel_best names order i < length order"
    and "\<And>j. i \<le> j \<Longrightarrow> j < length order
      \<Longrightarrow> names ! (order ! sel_best names order i) \<le> names ! (order ! j)"
  using sel_best_props [of i "length order" order "length order" names] assms
  by (auto simp: sel_best_def Let_def)

lemma length_sel_step [simp]: "length (sel_step names order i) = length order"
  by (simp add: sel_step_def Let_def)

lemma mset_sel_step: "i < length order \<Longrightarrow> mset (sel_step names order i) = mset order"
  using sel_best(2) [of i order names] by (auto simp: sel_step_def Let_def mset_swap)

text \<open>What the outer loop keeps: a sorted prefix whose names are below all the others.\<close>

definition sel_inv :: "('a::linorder) list \<Rightarrow> nat list \<Rightarrow> nat \<Rightarrow> bool" where
  "sel_inv names order i \<longleftrightarrow>
     (\<forall>a b. a < i \<and> a \<le> b \<and> b < length order \<longrightarrow> names ! (order ! a) \<le> names ! (order ! b))"

lemma sel_inv_step:
  assumes inv: "sel_inv names order i" and i: "i < length order"
  shows "sel_inv names (sel_step names order i) (Suc i)"
proof -
  let ?m = "sel_best names order i"
  let ?o = "sel_step names order i"
  have m: "i \<le> ?m" "?m < length order" using sel_best(1,2) [OF i] by auto
  have get: "?o ! b = (if b = ?m then order ! i else if b = i then order ! ?m else order ! b)"
    if "b < length order" for b
    using that m i by (auto simp: sel_step_def Let_def nth_list_update)
  have "names ! (?o ! a) \<le> names ! (?o ! b)"
    if a: "a < Suc i" and ab: "a \<le> b" and b: "b < length order" for a b
  proof (cases "a < i")
    case True
    then have "names ! (order ! a) \<le> names ! (order ! c)" if "a \<le> c" "c < length order" for c
      using inv that by (auto simp: sel_inv_def)
    then show ?thesis using True ab b m i get [of a] get [of b] by auto
  next
    case False
    then have "a = i" using a by simp
    then show ?thesis
      using get [of a] get [of b] b i m ab sel_best(3) [OF i, where names = names] by (auto split: if_splits)
  qed
  then show ?thesis by (simp add: sel_inv_def)
qed

lemma sel_fold:
  assumes "k \<le> length names"
  defines "r \<equiv> foldl (sel_step names) [0..<length names] [0..<k]"
  shows "mset r = mset [0..<length names]" and "length r = length names" and "sel_inv names r k"
proof -
  have "mset r = mset [0..<length names] \<and> length r = length names \<and> sel_inv names r k"
    using assms(1) unfolding r_def
  proof (induction k)
    case 0
    then show ?case by (simp add: sel_inv_def)
  next
    case (Suc k)
    then show ?case by (simp add: mset_sel_step sel_inv_step del: mset_upt)
  qed
  then show "mset r = mset [0..<length names]" and "length r = length names" and "sel_inv names r k"
    by auto
qed

lemma mset_sel_order: "mset (sel_order names) = mset [0..<length names]"
  unfolding sel_order_def by (rule sel_fold) simp

lemma length_sel_order [simp]: "length (sel_order names) = length names"
  unfolding sel_order_def by (rule sel_fold) simp

lemma set_sel_order [simp]: "set (sel_order names) = {0..<length names}"
  using mset_sel_order [of names] mset_eq_setD by fastforce

lemma distinct_sel_order [simp]: "distinct (sel_order names)"
  using mset_eq_imp_distinct_iff [OF mset_sel_order [of names]] by simp

lemma sorted_sel_order: "sorted (map ((!) names) (sel_order names))"
proof -
  have "sel_inv names (sel_order names) (length names)"
    unfolding sel_order_def by (rule sel_fold) simp
  then show ?thesis by (auto simp: sel_inv_def sorted_iff_nth_mono)
qed

text \<open>
  The names in sorted order: what every generator emits. It depends on the multiset of names
  only, never on the order in which the components were stored.
\<close>

lemma sel_order_names: "map ((!) names) (sel_order names) = sort names"
proof -
  have "mset (map ((!) names) (sel_order names)) = image_mset ((!) names) (mset [0..<length names])"
    by (simp add: mset_sel_order del: mset_upt)
  also have "\<dots> = mset (map ((!) names) [0..<length names])" by (simp del: mset_upt)
  also have "\<dots> = mset names" by (simp only: map_nth)
  finally show ?thesis by (metis properties_for_sort sorted_sel_order)
qed

lemma map_nth_sel_order:
  "map (\<lambda>i. f (xs ! i)) (sel_order (map key xs)) = map f (map ((!) xs) (sel_order (map key xs)))"
  by simp

lemma mset_nth_sel_order: "mset (map ((!) xs) (sel_order (map key xs))) = mset xs"
proof -
  have "mset (map ((!) xs) (sel_order (map key xs))) = image_mset ((!) xs) (mset [0..<length xs])"
    by (simp add: mset_sel_order del: mset_upt)
  also have "\<dots> = mset (map ((!) xs) [0..<length xs])" by (simp del: mset_upt)
  finally show ?thesis by (simp only: map_nth)
qed

lemma keys_nth_sel_order: "map key (map ((!) xs) (sel_order (map key xs))) = sort (map key xs)"
proof -
  have "map key (map ((!) xs) (sel_order (map key xs))) = map ((!) (map key xs)) (sel_order (map key xs))"
    by auto
  then show ?thesis by (simp only: sel_order_names)
qed

text \<open>Two lists with the same elements and distinct keys come out in the same order.\<close>

lemma nth_sel_order_unique:
  assumes "mset xs = mset ys" and "distinct (map key xs)"
  shows "map ((!) xs) (sel_order (map key xs)) = map ((!) ys) (sel_order (map key ys))"
    (is "?l xs = ?l ys")
proof -
  have m: "mset (?l xs) = mset (?l ys)" using assms(1) by (simp only: mset_nth_sel_order)
  have k: "map key (?l xs) = map key (?l ys)"
    using assms(1) by (simp only: keys_nth_sel_order) (metis mset_map sorted_list_of_multiset_mset)
  have "inj_on key (set (?l xs))"
    using assms(2) mset_nth_sel_order [of xs key] by (metis distinct_map set_mset_mset)
  moreover have "set (?l xs) = set (?l ys)" using m by (rule mset_eq_setD)
  ultimately show ?thesis using k by (metis map_inj_on sup.idem)
qed

section \<open>Validation loops\<close>

text \<open>
  A validator is \<open>None\<close> when it accepts and the reason when it rejects. A loop over lines or tokens
  stops at the first rejection.
\<close>

fun first_error :: "('a \<Rightarrow> string option) \<Rightarrow> 'a list \<Rightarrow> string option" where
  "first_error f [] = None"
| "first_error f (x # xs) = (case f x of None \<Rightarrow> first_error f xs | Some e \<Rightarrow> Some e)"

lemma first_error_None [simp]: "first_error f xs = None \<longleftrightarrow> (\<forall>x \<in> set xs. f x = None)"
  by (induction xs) (auto split: option.split)

text \<open>Subtraction of \<open>size_t\<close> values wraps below zero.\<close>

definition size_sub :: "nat \<Rightarrow> nat \<Rightarrow> nat" where
  "size_sub a b = (if b \<le> a then a - b else 2 ^ 64 + a - b)"

section \<open>Association of indices\<close>

lemma find_index_Some:
  "find (\<lambda>i. P (xs ! i)) [0..<length xs] = Some k \<Longrightarrow> k < length xs \<and> P (xs ! k)"
  by (auto simp: find_Some_iff)

lemma find_index_None:
  "find (\<lambda>i. P (xs ! i)) [0..<length xs] = None \<longleftrightarrow> (\<forall>x \<in> set xs. \<not> P x)"
  by (fastforce simp: find_None_iff in_set_conv_nth)

lemma find_only:
  assumes "y \<in> set xs" and "P y" and "\<And>z. z \<in> set xs \<Longrightarrow> P z \<Longrightarrow> z = y"
  shows "find P xs = Some y"
  using assms
proof (induction xs)
  case (Cons x xs)
  show ?case
  proof (cases "P x")
    case True
    then have "x = y" by (intro Cons.prems) simp_all
    with True show ?thesis by simp
  next
    case False
    then have "y \<in> set xs" using Cons.prems(1,2) by auto
    then have "find P xs = Some y"
      using Cons.prems(2) by (rule Cons.IH) (rule Cons.prems(3), simp_all)
    then show ?thesis using False by simp
  qed
qed simp

lemma find_append: "find P (xs @ ys) = (case find P xs of None \<Rightarrow> find P ys | Some x \<Rightarrow> Some x)"
proof (induction xs)
  case (Cons x xs)
  then show ?case by (cases "P x") simp_all
qed simp

section \<open>Wrapping counters\<close>

text \<open>Tick counters and deadlines are unsigned: differences are taken modulo 2^32.\<close>

lemma unat_Suc_word: "unat (v :: u32) < 2 ^ 32 - 1 \<Longrightarrow> unat (v + 1) = Suc (unat v)"
  by (simp add: unat_word_ariths)

lemma unat_Suc_le: "unat (x + 1 :: u32) \<le> Suc (unat x)"
  using mod_less_eq_dividend [of "Suc (unat x)" "2 ^ 32"] by (simp add: unat_word_ariths)
lemma unat_diff_Suc: "unat (a + 1 - b :: u32) \<le> Suc (unat (a - b))"
  using unat_Suc_le [of "a - b"] by (simp only: diff_add_eq)
lemma unat_u32_bound: "unat (x :: u32) < 2 ^ 32"
  using unsigned_less [of x] by simp
lemma elapsed_less:
  assumes "Suc k < max 1 (unat g)"
  shows "t + of_nat (Suc k) - t < (g :: u32)"
proof -
  have k: "Suc k < unat g" using assms by (simp split: if_splits)
  then have "unat (of_nat (Suc k) :: u32) = Suc k"
    using unat_u32_bound [of g] by (simp add: unat_of_nat take_bit_nat_eq_self del: of_nat_Suc)
  with k show ?thesis by (simp add: word_less_nat_alt del: of_nat_Suc)
qed

lemma elapsed_ge:
  "\<not> (t + of_nat (max 1 (unat g)) - t < (g :: u32))"
proof (cases "g = 0")
  case False
  then have "max 1 (unat g) = unat g" by (simp add: max_def unat_gt_0 Suc_leI not_le)
  then show ?thesis by simp
qed simp
end
