(* ===== verification/Genode_Iface.thy ===== *)
theory Genode_Iface
  imports Prelude
begin

text \<open>
  What the components of \<open>repos/sponge\<close> see of the Genode framework, which is a git submodule and
  not part of the repository. Nothing of Genode is defined here. Its parsers and tables are the
  fields of the record \<open>genode\<close>, an argument of every definition that calls them; parsed
  documents are trees of nodes, attributes and text; generated documents are the trees of the
  generator calls the code makes; and every file-system call is an operation in the trace of the
  component, its result taken from a script of answers that the environment chooses.
\<close>

section \<open>Documents\<close>

text \<open>
  \<open>Elem tag attributes children text\<close> is a parsed node (\<open>Xml_node\<close>, \<open>Hid_node\<close>) or a generated
  one (\<open>Xml_generator::node\<close>); \<open>Raw\<close> is text appended to the output without escaping
  (\<open>Xml_generator::append\<close>).
\<close>

datatype xml =
    Elem (xtag: string) (xattrs: "(string \<times> string) list") (xkids: "xml list") (xtext: string)
  | Raw string

abbreviation leaf :: "string \<Rightarrow> (string \<times> string) list \<Rightarrow> xml" where
  "leaf t as \<equiv> Elem t as [] []"

abbreviation node :: "string \<Rightarrow> (string \<times> string) list \<Rightarrow> xml list \<Rightarrow> xml" where
  "node t as ks \<equiv> Elem t as ks []"

fun has_type :: "xml \<Rightarrow> string \<Rightarrow> bool" where
  "has_type (Elem t as ks c) n \<longleftrightarrow> t = n"
| "has_type (Raw s) n \<longleftrightarrow> False"

fun attr :: "xml \<Rightarrow> string \<Rightarrow> string option" where
  "attr (Elem t as ks c) n = map_of as n"
| "attr (Raw s) n = None"

fun kids :: "xml \<Rightarrow> xml list" where
  "kids (Elem t as ks c) = ks"
| "kids (Raw s) = []"

fun content :: "xml \<Rightarrow> string" where
  "content (Elem t as ks c) = c"
| "content (Raw s) = s"

text \<open>\<open>attribute_value(name, String<N>())\<close>: the value cut to the capacity, empty when absent.\<close>

definition attr_str :: "nat \<Rightarrow> xml \<Rightarrow> string \<Rightarrow> string" where
  "attr_str n x k = (case attr x k of None \<Rightarrow> [] | Some v \<Rightarrow> gstr n v)"

definition kids_of_type :: "xml \<Rightarrow> string \<Rightarrow> xml list" where
  "kids_of_type x t = filter (\<lambda>k. has_type k t) (kids x)"

lemma length_attr_str [bounded]: "length (attr_str n x k) \<le> n - 1"
  by (simp add: attr_str_def gstr_def split: option.split)

lemma gstr_attr_str [simp]: "gstr n (attr_str n x k) = attr_str n x k"
  by (simp add: attr_str_def split: option.split)

text \<open>
  What a ROM session delivers: nothing, a text that is no document, or a document. \<open>Rom_malformed\<close>
  stands for a content on which the code's look at the node throws \<open>Xml_node::Invalid_syntax\<close>;
  \<open>Attached_rom_dataspace::xml()\<close> itself answers an empty node for such a content and never throws,
  so that a call of it outside a \<open>try\<close> block is harmless.
\<close>

datatype rom = Rom_invalid | Rom_malformed | Rom_node xml

text \<open>\<open>with_optional_sub_node\<close>: the document has a child of the type.\<close>

definition has_sub_node :: "rom \<Rightarrow> string \<Rightarrow> bool" where
  "has_sub_node r t = (case r of Rom_node x \<Rightarrow> kids_of_type x t \<noteq> [] | _ \<Rightarrow> False)"

section \<open>The framework's functions\<close>

text \<open>
  \<open>key_known n\<close>: \<open>Input::key_code(n)\<close> is not \<open>KEY_UNKNOWN\<close>. \<open>parse_xml\<close>: the \<open>Xml_node\<close>
  constructor, \<open>None\<close> where it throws \<open>Invalid_syntax\<close>. \<open>parse_hid\<close>: the \<open>Hid_node\<close> constructor,
  which does not throw. \<open>to_u32\<close>, \<open>to_bool\<close>: the conversions behind \<open>attribute_value\<close> with an
  unsigned or boolean default. \<open>ser_config\<close>: the text \<open>Xml_generator::generate\<close> writes for a
  \<open>config\<close> node with the attributes and the content of the given node, \<open>None\<close> when the buffer is
  exceeded. \<open>print_nat\<close>: how a number is printed into a string or an attribute. \<open>report_fits b n\<close>:
  \<open>Reporter::generate\<close> with a buffer of \<open>b\<close> bytes accepts a report of \<open>n\<close> bytes.
\<close>

record genode =
  key_known :: "string \<Rightarrow> bool"
  parse_xml :: "string \<Rightarrow> xml option"
  parse_hid :: "string \<Rightarrow> xml"
  to_u32 :: "string \<Rightarrow> u32 option"
  to_bool :: "string \<Rightarrow> bool option"
  ser_config :: "xml \<Rightarrow> string option"
  print_nat :: "nat \<Rightarrow> string"
  report_fits :: "nat \<Rightarrow> nat \<Rightarrow> bool"

definition attr_u32 :: "genode \<Rightarrow> xml \<Rightarrow> string \<Rightarrow> u32 \<Rightarrow> u32" where
  "attr_u32 G x k d =
     (case attr x k of None \<Rightarrow> d | Some v \<Rightarrow> (case to_u32 G v of None \<Rightarrow> d | Some n \<Rightarrow> n))"

definition attr_bool :: "genode \<Rightarrow> xml \<Rightarrow> string \<Rightarrow> bool \<Rightarrow> bool" where
  "attr_bool G x k d =
     (case attr x k of None \<Rightarrow> d | Some v \<Rightarrow> (case to_bool G v of None \<Rightarrow> d | Some b \<Rightarrow> b))"

text \<open>
  Strings of the framework. A Genode string that was default-constructed is \<open>None\<close>; one made from
  characters, an empty one included, is \<open>Some\<close>. \<open>str_length\<close> is \<open>String::length()\<close>; what the code
  of this repository documents of it is \<open>counts_nul\<close>. \<open>range_string\<close> is what the constructor
  \<open>String<N>(ptr, n)\<close> makes of a pointer and a number, as documented at \<open>parse_panel_id_key\<close> in
  \<open>sponge-de/config/config_controller.cc\<close>: it prints its arguments one after the other, the C string
  the pointer leads to and the decimal number.
\<close>

record str_genode = genode +
  str_length :: "string option \<Rightarrow> nat"

definition counts_nul :: "'a str_genode_scheme \<Rightarrow> bool" where
  "counts_nul G \<longleftrightarrow> str_length G None = 0 \<and> (\<forall>s. str_length G (Some s) = Suc (length s))"

definition range_string :: "'a genode_scheme \<Rightarrow> nat \<Rightarrow> string \<Rightarrow> nat \<Rightarrow> string" where
  "range_string G cap ptr n = gstr cap (cstr ptr @ print_nat G n)"

section \<open>File-system calls\<close>

datatype vfs_op =
    Vfs_open string
  | Vfs_create string
  | Vfs_truncate string nat
  | Vfs_write string nat string
  | Vfs_sync string
  | Vfs_rename string string

datatype open_ans = Open_ok | Open_unaccessible | Open_err
datatype read_ans = Read_retry | Read_err | Read_bytes string
datatype write_ans = Write_retry | Write_err | Write_ok nat

text \<open>
  How an I/O loop ends: done, failed, or still waiting in \<open>commit_and_wait\<close> because the script of
  answers is used up.
\<close>

datatype io_end = Done | Failed | Blocked

text \<open>
  The answers to one save and one load of a store file. \<open>sv_trunc\<close> and \<open>sv_synced\<close> say whether the
  truncation and the final synchronisation succeed; the code ignores both results.
\<close>

record save_io =
  sv_open :: open_ans
  sv_create :: open_ans
  sv_trunc :: bool
  sv_writes :: "write_ans list"
  sv_syncs :: "bool list"
  sv_synced :: bool
  sv_rename :: bool

record load_io =
  ld_stat :: "nat option"
  ld_open :: open_ans
  ld_reads :: "read_ans list"

text \<open>
  The read loop: each \<open>RETRY\<close> waits and reads again at the same position, an error or an empty
  read ends the loop, everything else advances \<open>total\<close> until the size is reached.
\<close>

fun read_loop :: "nat \<Rightarrow> string \<Rightarrow> read_ans list \<Rightarrow> io_end \<times> string" where
  "read_loop sz buf [] = (if sz \<le> length buf then Done else Blocked, buf)"
| "read_loop sz buf (a # as) =
     (if sz \<le> length buf then (Done, buf)
      else case a of
        Read_retry \<Rightarrow> read_loop sz buf as
      | Read_err \<Rightarrow> (Failed, buf)
      | Read_bytes bs \<Rightarrow> (if bs = [] then (Failed, buf) else read_loop sz (buf @ bs) as))"

text \<open>The write loop: the operations that took effect, and how it ended.\<close>

fun write_loop :: "string \<Rightarrow> string \<Rightarrow> nat \<Rightarrow> write_ans list \<Rightarrow> io_end \<times> vfs_op list" where
  "write_loop path buf off [] = (if length buf \<le> off then Done else Blocked, [])"
| "write_loop path buf off (a # as) =
     (if length buf \<le> off then (Done, [])
      else case a of
        Write_retry \<Rightarrow> write_loop path buf off as
      | Write_err \<Rightarrow> (Failed, [])
      | Write_ok n \<Rightarrow>
          (if n = 0 then (Failed, [])
           else let (e, ops) = write_loop path buf (off + n) as
                in (e, Vfs_write path off (take n (drop off buf)) # ops)))"

text \<open>\<open>while (sync() == RETRY) commit_and_wait()\<close>: \<open>True\<close> stands for \<open>RETRY\<close>.\<close>

fun sync_loop :: "bool list \<Rightarrow> io_end" where
  "sync_loop [] = Blocked"
| "sync_loop (retry # as) = (if retry then sync_loop as else Done)"

text \<open>The truncation and the synchronisation, as far as they take effect.\<close>

definition trunc_ops :: "save_io \<Rightarrow> string \<Rightarrow> nat \<Rightarrow> vfs_op list" where
  "trunc_ops io path n = (if sv_trunc io then [Vfs_truncate path n] else [])"

definition sync_ops :: "save_io \<Rightarrow> string \<Rightarrow> vfs_op list" where
  "sync_ops io path = (if sv_synced io then [Vfs_sync path] else [])"

lemma sync_loop_Done: "sync_loop as = Done \<longleftrightarrow> False \<in> set as"
  by (induction as) auto

lemma write_loop_paths: "write_loop path buf off as = (e, ops) \<Longrightarrow> op \<in> set ops
    \<Longrightarrow> \<exists>i s. op = Vfs_write path i s"
  by (induction path buf off as arbitrary: e ops rule: write_loop.induct)
     (auto split: if_splits write_ans.splits prod.splits simp: Let_def)

lemma read_loop_Done: "read_loop sz buf as = (Done, r) \<Longrightarrow> sz \<le> length r"
  by (induction sz buf as rule: read_loop.induct)
     (auto split: if_splits read_ans.splits)

lemma read_loop_prefix: "read_loop sz buf as = (e, r) \<Longrightarrow> prefix buf r"
  by (induction sz buf as rule: read_loop.induct)
     (auto split: if_splits read_ans.splits simp: prefix_def)

text \<open>A write loop that meets only progress and retries is done after at most one write per byte.\<close>

definition write_ok_script :: "write_ans list \<Rightarrow> nat \<Rightarrow> bool" where
  "write_ok_script as n \<longleftrightarrow>
     Write_err \<notin> set as \<and> Write_ok 0 \<notin> set as \<and> n \<le> length (filter (\<lambda>a. a \<noteq> Write_retry) as)"

lemma write_loop_finishes:
  "write_ok_script as (length buf - off) \<Longrightarrow> fst (write_loop path buf off as) = Done"
proof (induction path buf off as rule: write_loop.induct)
  case (1 path buf off)
  then show ?case by (simp add: write_ok_script_def)
next
  case (2 path buf off a as)
  show ?case
  proof (cases "length buf \<le> off")
    case True
    then show ?thesis by simp
  next
    case F: False
    show ?thesis
    proof (cases a)
      case Write_retry
      then show ?thesis using 2 F by (simp add: write_ok_script_def)
    next
      case Write_err
      then show ?thesis using 2 by (simp add: write_ok_script_def)
    next
      case (Write_ok n)
      then have "n \<noteq> 0" using 2(3) by (auto simp: write_ok_script_def)
      moreover from this have "write_ok_script as (length buf - (off + n))"
        using 2(3) Write_ok F by (auto simp: write_ok_script_def)
      ultimately show ?thesis using 2(2) F Write_ok by (simp add: Let_def case_prod_beta)
    qed
  qed
qed

section \<open>What the code relies on of the file system\<close>

text \<open>
  A disk maps paths to contents. The store code relies on two documented facts about the
  operations it issues: an operation changes the files it names and no other, and a rename makes
  the target hold what the source held.
\<close>

type_synonym disk = "string \<Rightarrow> string option"

fun op_paths :: "vfs_op \<Rightarrow> string set" where
  "op_paths (Vfs_open p) = {}"
| "op_paths (Vfs_create p) = {p}"
| "op_paths (Vfs_truncate p n) = {p}"
| "op_paths (Vfs_write p i s) = {p}"
| "op_paths (Vfs_sync p) = {}"
| "op_paths (Vfs_rename p q) = {p, q}"

definition disk_frame :: "(vfs_op \<Rightarrow> disk \<Rightarrow> disk) \<Rightarrow> bool" where
  "disk_frame ap \<longleftrightarrow> (\<forall>op d p. p \<notin> op_paths op \<longrightarrow> ap op d p = d p)"

definition disk_rename :: "(vfs_op \<Rightarrow> disk \<Rightarrow> disk) \<Rightarrow> bool" where
  "disk_rename ap \<longleftrightarrow> (\<forall>d p q. ap (Vfs_rename p q) d q = d p)"

text \<open>
  For the contents themselves: creating keeps a file that exists, truncation sets the length
  (padding with NUL), a write that starts inside the file replaces the bytes it covers and appends the
  others.
\<close>

definition disk_write :: "(vfs_op \<Rightarrow> disk \<Rightarrow> disk) \<Rightarrow> bool" where
  "disk_write ap \<longleftrightarrow>
     (\<forall>d p. ap (Vfs_create p) d p = Some (case d p of None \<Rightarrow> [] | Some c \<Rightarrow> c)) \<and>
     (\<forall>d p n c. d p = Some c \<longrightarrow>
        ap (Vfs_truncate p n) d p = Some (take n c @ replicate (n - length c) NUL)) \<and>
     (\<forall>d p i s c. d p = Some c \<longrightarrow> i \<le> length c \<longrightarrow>
        ap (Vfs_write p i s) d p = Some (take i c @ s @ drop (i + length s) c))"

text \<open>An in-memory disk that has these properties, for the concrete instances.\<close>

fun mem_disk :: "vfs_op \<Rightarrow> disk \<Rightarrow> disk" where
  "mem_disk (Vfs_open p) d = d"
| "mem_disk (Vfs_create p) d = d(p \<mapsto> (case d p of None \<Rightarrow> [] | Some c \<Rightarrow> c))"
| "mem_disk (Vfs_truncate p n) d =
     (case d p of None \<Rightarrow> d | Some c \<Rightarrow> d(p \<mapsto> take n c @ replicate (n - length c) NUL))"
| "mem_disk (Vfs_write p i s) d =
     (case d p of None \<Rightarrow> d | Some c \<Rightarrow> d(p \<mapsto> take i c @ s @ drop (i + length s) c))"
| "mem_disk (Vfs_sync p) d = d"
| "mem_disk (Vfs_rename p q) d = d(q := d p, p := if p = q then d p else None)"

lemma mem_disk_frame: "disk_frame mem_disk"
proof -
  have "mem_disk op d p = d p" if "p \<notin> op_paths op" for op d p
    using that by (cases op) (auto split: option.split)
  then show ?thesis by (simp add: disk_frame_def)
qed

lemma mem_disk_rename: "disk_rename mem_disk"
  by (simp add: disk_rename_def)

lemma mem_disk_write: "disk_write mem_disk"
  by (simp add: disk_write_def)

definition run_disk :: "(vfs_op \<Rightarrow> disk \<Rightarrow> disk) \<Rightarrow> vfs_op list \<Rightarrow> disk \<Rightarrow> disk" where
  "run_disk ap ops d = fold ap ops d"

lemma run_disk_simps [simp]:
  "run_disk ap [] d = d"
  "run_disk ap (op # ops) d = run_disk ap ops (ap op d)"
  by (simp_all add: run_disk_def)

lemma run_disk_append: "run_disk ap (xs @ ys) d = run_disk ap ys (run_disk ap xs d)"
  by (simp add: run_disk_def)

lemma run_disk_frame:
  "disk_frame ap \<Longrightarrow> (\<And>op. op \<in> set ops \<Longrightarrow> p \<notin> op_paths op) \<Longrightarrow> run_disk ap ops d p = d p"
  by (induction ops arbitrary: d) (auto simp: disk_frame_def)

text \<open>
  What a crash leaves. The content of a file that was created, truncated, written or renamed to, and
  not synchronised since, may be anything afterwards; all other files are as the operations left them.
  A rename is atomic and carries over whether the content is safe.
\<close>

fun unsynced_after :: "vfs_op \<Rightarrow> string set \<Rightarrow> string set" where
  "unsynced_after (Vfs_open p) u = u"
| "unsynced_after (Vfs_create p) u = insert p u"
| "unsynced_after (Vfs_truncate p n) u = insert p u"
| "unsynced_after (Vfs_write p i s) u = insert p u"
| "unsynced_after (Vfs_sync p) u = u - {p}"
| "unsynced_after (Vfs_rename p q) u = (if p \<in> u then insert q u else u - {q}) - {p}"

definition unsynced :: "vfs_op list \<Rightarrow> string set" where
  "unsynced ops = fold unsynced_after ops {}"

definition after_crash :: "(vfs_op \<Rightarrow> disk \<Rightarrow> disk) \<Rightarrow> vfs_op list \<Rightarrow> disk \<Rightarrow> disk \<Rightarrow> bool" where
  "after_crash ap ops d e \<longleftrightarrow> (\<forall>p. p \<notin> unsynced ops \<longrightarrow> e p = run_disk ap ops d p)"

lemma unsynced_frame:
  "(\<And>op. op \<in> set ops \<Longrightarrow> p \<notin> op_paths op) \<Longrightarrow> p \<notin> unsynced ops"
proof -
  have "p \<notin> u \<Longrightarrow> (\<And>op. op \<in> set ops \<Longrightarrow> p \<notin> op_paths op) \<Longrightarrow> p \<notin> fold unsynced_after ops u" for u
  proof (induction ops arbitrary: u)
    case (Cons op ops)
    have "p \<notin> op_paths op" using Cons.prems(2) by simp
    then have "p \<notin> unsynced_after op u" using Cons.prems(1) by (cases op) auto
    then show ?case using Cons by simp
  qed simp
  then show "(\<And>op. op \<in> set ops \<Longrightarrow> p \<notin> op_paths op) \<Longrightarrow> p \<notin> unsynced ops" by (simp add: unsynced_def)
qed

lemma unsynced_snoc: "unsynced (ops @ [op]) = unsynced_after op (unsynced ops)"
  by (simp add: unsynced_def)

text \<open>
  A completed write loop leaves the buffer at the start of the file, and behind it what the file held
  beyond the length of the buffer.
\<close>

lemma write_loop_disk:
  assumes "disk_write ap"
  shows "write_loop path buf off as = (Done, ops) \<Longrightarrow> d path = Some c \<Longrightarrow> take off c = take off buf
    \<Longrightarrow> off \<le> length buf \<Longrightarrow> off \<le> length c \<Longrightarrow> run_disk ap ops d path = Some (buf @ drop (length buf) c)"
proof (induction path buf off as arbitrary: ops d c rule: write_loop.induct)
  case (1 path buf off)
  then have "off = length buf" "ops = []" by (simp_all split: if_splits)
  then have "c = buf @ drop (length buf) c" using 1(3) by (metis append_take_drop_id take_all_iff order_refl)
  then show ?case using 1(2) \<open>ops = []\<close> by simp
next
  case (2 path buf off a as)
  show ?case
  proof (cases "length buf \<le> off")
    case True
    then have "off = length buf" "ops = []" using 2 by simp_all
    then have "c = buf @ drop (length buf) c" using 2(5) by (metis append_take_drop_id take_all_iff order_refl)
    then show ?thesis using 2(4) \<open>ops = []\<close> by simp
  next
    case F: False
    show ?thesis
    proof (cases a)
      case Write_retry
      then show ?thesis using 2 F by simp
    next
      case Write_err
      then show ?thesis using 2 F by simp
    next
      case (Write_ok n)
      have n: "n \<noteq> 0" using 2(3) F Write_ok by (auto split: if_splits)
      obtain ops' where ops': "write_loop path buf (off + n) as = (Done, ops')"
        and ops: "ops = Vfs_write path off (take n (drop off buf)) # ops'"
        using 2(3) F Write_ok n by (auto simp: Let_def split: prod.splits)
      let ?s = "take n (drop off buf)"
      let ?c = "take off buf @ ?s @ drop (off + length ?s) c"
      have d: "ap (Vfs_write path off ?s) d path = Some ?c"
        using assms 2(4,5,7) F by (simp add: disk_write_def)
      show ?thesis
      proof (cases "off + n \<le> length buf")
        case True
        have tk: "take (off + n) ?c = take (off + n) buf" using True by (simp add: take_add min_absorb2)
        have dr: "drop (length buf) ?c = drop (length buf) c" using True by (simp add: min_absorb2)
        have "run_disk ap ops' (ap (Vfs_write path off ?s) d) path = Some (buf @ drop (length buf) ?c)"
          by (rule 2(2) [where c = ?c]) (use F Write_ok n True in simp, rule Write_ok, rule n, rule ops',
              rule d, rule tk, rule True, use True in simp)
        then show ?thesis using ops dr by simp
      next
        case False
        then have "ops' = []" using ops' by (cases as) (auto split: if_splits)
        moreover have "?c = buf @ drop (length buf) c" using False F by simp
        ultimately show ?thesis using ops d by simp
      qed
    qed
  qed
qed

end
