(* ===== verification/Text_Scan.thy ===== *)
theory Text_Scan
  imports Prelude
begin

text \<open>
  \<open>sponge_supervisor/text_scan.h\<close> (the copy in \<open>sponge_console\<close> is identical): the tolerant
  scanners of the control components. A \<open>char const *\<close> into a buffer of known size is the suffix
  of the buffer it points to; a \<open>(pointer, length)\<close> pair that a scanner returns is the text of
  that span.
\<close>

section \<open>Elementary comparisons and copies\<close>

definition tag_at :: "string \<Rightarrow> nat \<Rightarrow> string \<Rightarrow> bool" where
  "tag_at text at what \<longleftrightarrow>
     at + length what \<le> length text \<and> take (length what) (drop at text) = what"

definition copy_bounded :: "string \<Rightarrow> nat \<Rightarrow> nat \<Rightarrow> string" where
  "copy_bounded src n cap = take (min n (cap - 1)) src"

definition copy_value :: "string \<Rightarrow> nat \<Rightarrow> nat \<Rightarrow> string" where
  "copy_value v len cap = copy_bounded v len cap"

lemma tag_at_iff_prefix: "tag_at text at what \<longleftrightarrow> at \<le> length text \<and> prefix what (drop at text)"
proof -
  have "prefix what ys \<longleftrightarrow> length what \<le> length ys \<and> take (length what) ys = what" for ys :: string
    by (auto simp: prefix_def) (metis append_take_drop_id)
  then show ?thesis by (auto simp: tag_at_def)
qed

lemma length_copy_value [bounded]: "length (copy_value v len cap) \<le> cap - 1"
  by (simp add: copy_value_def copy_bounded_def)

section \<open>Attributes in either spelling\<close>

definition name_char :: "char \<Rightarrow> bool" where
  "name_char p \<longleftrightarrow> is_lower p \<or> is_upper p \<or> is_digit p \<or> p = CHR ''_'' \<or> p = CHR ''-'' \<or> p = CHR '':''"

definition bare_end :: "char \<Rightarrow> bool" where
  "bare_end c \<longleftrightarrow> c = SP \<or> c = TAB \<or> c = NL \<or> c = CR \<or> c = CHR ''|'' \<or> c = DQ
     \<or> c = CHR ''<'' \<or> c = CHR ''/''"

text \<open>
  What follows the separator: a quoted value up to the closing quote, a bare one up to the next
  delimiter, nothing when the buffer ends there (\<open>return false\<close>).
\<close>

definition attr_value_at :: "string \<Rightarrow> string option" where
  "attr_value_at rest =
     (case dropWhile (\<lambda>c. c = SP) rest of
        [] \<Rightarrow> None
      | c # cs \<Rightarrow>
          (if c = DQ then Some (takeWhile (\<lambda>x. x \<noteq> DQ) cs)
           else Some (takeWhile (\<lambda>x. \<not> bare_end x) (c # cs))))"

text \<open>
  The scan: \<open>prev\<close> is the character before the current position, none at the start. The loop
  guard \<open>i + key_len < sz\<close> keeps the separator inside the buffer.
\<close>

fun scan_from :: "string \<Rightarrow> char option \<Rightarrow> string \<Rightarrow> string option" where
  "scan_from key prev [] = None"
| "scan_from key prev (c # cs) =
     (if length (c # cs) \<le> length key then None
      else if take (length key) (c # cs) \<noteq> key then scan_from key (Some c) cs
      else if (case prev of None \<Rightarrow> False | Some p \<Rightarrow> name_char p) then scan_from key (Some c) cs
      else let sep = (c # cs) ! length key in
           if sep \<noteq> CHR ''='' \<and> sep \<noteq> CHR '':'' then scan_from key (Some c) cs
           else attr_value_at (drop (Suc (length key)) (c # cs)))"

definition scan_attr :: "string \<Rightarrow> string \<Rightarrow> string option" where
  "scan_attr cfg key = scan_from key None cfg"

text \<open>
  A stretch of text the scan passes over: no position of it starts the attribute, whatever
  follows. \<open>key_free\<close> is the executable form, on the text with its successor.
\<close>

fun key_free :: "string \<Rightarrow> char option \<Rightarrow> string \<Rightarrow> string \<Rightarrow> bool" where
  "key_free key prev [] rest = True"
| "key_free key prev (c # cs) rest =
     ((length key < length (c # cs @ rest) \<and>
       \<not> (take (length key) (c # cs @ rest) = key
          \<and> (case prev of None \<Rightarrow> True | Some p \<Rightarrow> \<not> name_char p)
          \<and> (c # cs @ rest) ! length key \<in> {CHR ''='', CHR '':''}))
      \<and> key_free key (Some c) cs rest)"

definition last_char :: "char option \<Rightarrow> string \<Rightarrow> char option" where
  "last_char prev s = (if s = [] then prev else Some (last s))"

lemma scan_from_skip:
  "key_free key prev pre rest \<Longrightarrow> scan_from key prev (pre @ rest) = scan_from key (last_char prev pre) rest"
proof (induction pre arbitrary: prev)
  case Nil
  then show ?case by (simp add: last_char_def)
next
  case (Cons c pre)
  then have IH: "scan_from key (Some c) (pre @ rest) = scan_from key (last_char prev (c # pre)) rest"
    by (auto simp: last_char_def)
  from Cons.prems show ?case
    by (auto simp: IH Let_def split: option.splits)
qed

lemma scan_from_hit:
  assumes "case p of None \<Rightarrow> True | Some c \<Rightarrow> \<not> name_char c"
    and "sep = CHR ''='' \<or> sep = CHR '':''"
  shows "scan_from key p (key @ sep # rest) = attr_value_at rest"
proof (cases key)
  case Nil
  with assms show ?thesis by (auto split: option.splits)
next
  case (Cons k ks)
  have "scan_from key p (key @ sep # rest) =
      (if length (key @ sep # rest) \<le> length key then None
       else if take (length key) (key @ sep # rest) \<noteq> key then scan_from key (Some k) (ks @ sep # rest)
       else if (case p of None \<Rightarrow> False | Some c \<Rightarrow> name_char c) then scan_from key (Some k) (ks @ sep # rest)
       else let s = (key @ sep # rest) ! length key in
            if s \<noteq> CHR ''='' \<and> s \<noteq> CHR '':'' then scan_from key (Some k) (ks @ sep # rest)
            else attr_value_at (drop (Suc (length key)) (key @ sep # rest)))"
    by (simp add: Cons)
  also have "\<dots> = attr_value_at rest"
    using assms by (auto split: option.splits)
  finally show ?thesis .
qed

lemma attr_value_quoted: "DQ \<notin> set v \<Longrightarrow> attr_value_at (DQ # v @ DQ # rest) = Some v"
proof -
  assume "DQ \<notin> set v"
  then have "takeWhile (\<lambda>x. x \<noteq> DQ) (v @ DQ # rest) = v" by (intro takeWhile_stop) auto
  then show ?thesis by (simp add: attr_value_at_def)
qed

lemma attr_value_bare:
  assumes "v \<noteq> []" and "\<forall>c \<in> set v. \<not> bare_end c" and "bare_end e"
  shows "attr_value_at (SP # v @ e # rest) = Some v"
proof -
  obtain c cs where v: "v = c # cs" using assms(1) by (cases v) auto
  have c: "c \<noteq> SP" "c \<noteq> DQ" using assms(2) v by (auto simp: bare_end_def)
  have "takeWhile (\<lambda>x. \<not> bare_end x) (v @ e # rest) = v"
    using assms(2,3) by (intro takeWhile_stop) auto
  then show ?thesis using c v by (simp add: attr_value_at_def)
qed

section \<open>Elements\<close>

text \<open>Whether the text right after a \<open><\<close> opens or closes an element of the given name.\<close>

definition tag_delim :: "char \<Rightarrow> bool" where
  "tag_delim c \<longleftrightarrow> c = CHR ''>'' \<or> c = CHR ''/'' \<or> c = SP \<or> c = TAB \<or> c = NL \<or> c = CR"

definition is_open :: "string \<Rightarrow> string \<Rightarrow> bool" where
  "is_open name cs \<longleftrightarrow>
     take (length name) cs = name \<and> length name < length cs \<and> tag_delim (cs ! length name)"

definition is_close :: "string \<Rightarrow> string \<Rightarrow> bool" where
  "is_close name cs \<longleftrightarrow>
     (case cs of [] \<Rightarrow> False | c # r \<Rightarrow> c = CHR ''/'' \<and> take (length name) r = name)"

text \<open>
  The characters up to and including the \<open>>\<close> that ends the tag, quoted attribute values stepped
  over; the rest of the buffer when no such \<open>>\<close> follows.
\<close>

fun skip_tag :: "char option \<Rightarrow> string \<Rightarrow> nat" where
  "skip_tag q [] = 0"
| "skip_tag (Some q) (c # cs) = Suc (skip_tag (if c = q then None else Some q) cs)"
| "skip_tag None (c # cs) =
     (if c = DQ \<or> c = SQ then Suc (skip_tag (Some c) cs)
      else if c = CHR ''>'' then 1
      else Suc (skip_tag None cs))"

text \<open>
  The loop of \<open>element_text\<close>: \<open>start\<close> is the suffix at the first opening tag. A self-closing tag
  changes no depth, a closing tag at depth one ends the search with the span from \<open>start\<close> to the
  end of that tag.
\<close>

function elem_go :: "string \<Rightarrow> nat \<Rightarrow> string option \<Rightarrow> string \<Rightarrow> string option" where
  "elem_go name depth start [] = None"
| "elem_go name depth start (c # cs) =
     (if c \<noteq> CHR ''<'' then elem_go name depth start cs
      else if is_open name cs then
        let k = 1 + length name + skip_tag None (drop (length name) cs);
            leaf = (2 \<le> k \<and> (c # cs) ! (k - 2) = CHR ''/'');
            start' = (case start of None \<Rightarrow> c # cs | Some s \<Rightarrow> s)
        in elem_go name (if leaf then depth else Suc depth) (Some start') (drop (k - 1) cs)
      else if is_close name cs then
        let k = 2 + length name + skip_tag None (drop (Suc (length name)) cs);
            rest = drop (k - 1) cs
        in if depth = 1
           then map_option (\<lambda>s. take (length s - length rest) s) start
           else elem_go name (depth - 1) start rest
      else elem_go name depth start cs)"
  by pat_completeness auto
termination
  by (relation "measure (\<lambda>(name, depth, start, rest). length rest)") auto

declare elem_go.simps(2) [simp del]

definition element_text :: "string \<Rightarrow> string \<Rightarrow> string option" where
  "element_text text name = elem_go name 0 None text"

lemma elem_go_char: "c \<noteq> CHR ''<'' \<Longrightarrow> elem_go name d st (c # cs) = elem_go name d st cs"
  by (simp add: elem_go.simps)

lemma elem_go_no_lt: "CHR ''<'' \<notin> set pre \<Longrightarrow> elem_go name d st (pre @ rest) = elem_go name d st rest"
  by (induction pre) (auto simp: elem_go_char)

text \<open>
  What stands between the name and the tag's end: attributes whose quotes are closed, in which anything
  but the quote itself may stand, and no \<open>>\<close> outside quotes.
\<close>

fun in_tag :: "char option \<Rightarrow> string \<Rightarrow> bool" where
  "in_tag q [] \<longleftrightarrow> q = None"
| "in_tag (Some q) (c # cs) \<longleftrightarrow> in_tag (if c = q then None else Some q) cs"
| "in_tag None (c # cs) \<longleftrightarrow>
     (if c = DQ \<or> c = SQ then in_tag (Some c) cs else c \<noteq> CHR ''>'' \<and> in_tag None cs)"

definition tag_attrs :: "string \<Rightarrow> bool" where
  "tag_attrs as \<longleftrightarrow> in_tag None as \<and> (case as of [] \<Rightarrow> True | c # _ \<Rightarrow> tag_delim c)"

lemma skip_tag_attrs: "in_tag q as \<Longrightarrow> skip_tag q (as @ CHR ''>'' # rest) = Suc (length as)"
  by (induction q as rule: in_tag.induct) (auto split: if_splits)

lemma in_tag_slash: "in_tag q as \<Longrightarrow> in_tag q (as @ ''/'')"
  by (induction q as rule: in_tag.induct) (auto split: if_splits)

abbreviation open_tag :: "string \<Rightarrow> string \<Rightarrow> string" where
  "open_tag name as \<equiv> CHR ''<'' # name @ as @ [CHR ''>'']"

abbreviation close_tag :: "string \<Rightarrow> string" where
  "close_tag name \<equiv> CHR ''<'' # CHR ''/'' # name @ [CHR ''>'']"

text \<open>
  Text in which elements of the given name are properly nested: other characters and other tags
  may stand anywhere, as long as they do not look like a tag of the name (a closing tag does already
  when the name is the beginning of its own); an element of the name is closed by its own closing tag.
\<close>

inductive nested :: "string \<Rightarrow> string \<Rightarrow> bool" for name :: string where
  Nil: "nested name []"
| Char: "nested name s \<Longrightarrow> c \<noteq> CHR ''<'' \<Longrightarrow> nested name (c # s)"
| Other: "nested name s \<Longrightarrow> length name < length s \<Longrightarrow> \<not> is_open name s \<Longrightarrow> \<not> is_close name s
    \<Longrightarrow> nested name (CHR ''<'' # s)"
| Leaf: "nested name s \<Longrightarrow> tag_attrs as \<Longrightarrow> nested name (open_tag name (as @ ''/'') @ s)"
| Elem: "nested name body \<Longrightarrow> nested name s \<Longrightarrow> tag_attrs as
    \<Longrightarrow> (as = [] \<or> last as \<noteq> CHR ''/'')
    \<Longrightarrow> nested name (open_tag name as @ body @ close_tag name @ s)"

inductive_cases nested_ConsE: "nested name (c # s)"

lemma elem_go_open:
  assumes as: "tag_attrs as" "as = [] \<or> last as \<noteq> CHR ''/''" and name: "name \<noteq> []" "last name \<noteq> CHR ''/''"
  shows "elem_go name d st (open_tag name as @ rest)
    = elem_go name (Suc d) (Some (case st of None \<Rightarrow> open_tag name as @ rest | Some s \<Rightarrow> s)) rest"
proof -
  have op: "is_open name (name @ as @ CHR ''>'' # rest)"
    using as(1) by (cases as) (auto simp: is_open_def tag_attrs_def tag_delim_def)
  have sk: "skip_tag None (as @ CHR ''>'' # rest) = Suc (length as)"
    using as(1) by (intro skip_tag_attrs) (simp add: tag_attrs_def)
  have lf: "(CHR ''<'' # name @ as @ CHR ''>'' # rest) ! (length name + length as) \<noteq> CHR ''/''"
  proof (cases as rule: rev_cases)
    case Nil
    have "(CHR ''<'' # name @ CHR ''>'' # rest) ! length name = last name"
      using name(1) by (cases name rule: rev_cases) (auto simp: nth_Cons' nth_append)
    then show ?thesis using name(2) Nil by simp
  next
    case (snoc as' a)
    then show ?thesis using as(2) by (simp add: nth_Cons' nth_append)
  qed
  show ?thesis
    using op sk lf by (simp add: elem_go.simps Let_def numeral_2_eq_2 split: option.split)
qed

lemma elem_go_leaf:
  assumes as: "tag_attrs as"
  shows "elem_go name (Suc d) (Some st) (open_tag name (as @ ''/'') @ rest)
    = elem_go name (Suc d) (Some st) rest"
proof -
  have op: "is_open name (name @ as @ CHR ''/'' # CHR ''>'' # rest)"
    using as by (cases as) (auto simp: is_open_def tag_attrs_def tag_delim_def)
  have sk: "skip_tag None (as @ CHR ''/'' # CHR ''>'' # rest) = Suc (Suc (length as))"
    using skip_tag_attrs [of None "as @ ''/''" rest] in_tag_slash [of None as] as by (simp add: tag_attrs_def)
  have lf: "(CHR ''<'' # name @ as @ CHR ''/'' # CHR ''>'' # rest) ! (Suc (length name + length as)) = CHR ''/''"
    by (simp add: nth_append)
  show ?thesis using op sk lf by (simp add: elem_go.simps Let_def numeral_2_eq_2)
qed

lemma elem_go_close:
  assumes "name \<noteq> []" "hd name \<noteq> CHR ''/''"
  shows "elem_go name (Suc d) (Some st) (close_tag name @ rest)
    = (if d = 0 then Some (take (length st - length rest) st) else elem_go name d (Some st) rest)"
proof -
  have no: "\<not> is_open name (CHR ''/'' # name @ CHR ''>'' # rest)"
    using assms by (cases name) (auto simp: is_open_def)
  have cl: "is_close name (CHR ''/'' # name @ CHR ''>'' # rest)"
    by (simp add: is_close_def)
  show ?thesis using no cl by (simp add: elem_go.simps Let_def)
qed

lemma elem_go_other:
  assumes "length name < length s" "\<not> is_open name s" "\<not> is_close name s"
  shows "elem_go name d st (CHR ''<'' # s @ rest) = elem_go name d st (s @ rest)"
proof -
  obtain c cs where s: "s = c # cs" using assms(1) by (cases s) auto
  have "\<not> is_open name (s @ rest)" using assms(1,2) by (auto simp: is_open_def nth_append)
  moreover have "\<not> is_close name (s @ rest)" using assms(1,3) by (auto simp: is_close_def s)
  ultimately show ?thesis by (simp add: elem_go.simps)
qed

text \<open>Text before an element in which no tag of the name begins.\<close>

fun untagged :: "string \<Rightarrow> string \<Rightarrow> string \<Rightarrow> bool" where
  "untagged name [] rest \<longleftrightarrow> True"
| "untagged name (c # cs) rest \<longleftrightarrow>
     (c = CHR ''<'' \<longrightarrow> \<not> is_open name (cs @ rest) \<and> \<not> is_close name (cs @ rest)) \<and> untagged name cs rest"

lemma elem_go_untagged: "untagged name pre rest \<Longrightarrow> elem_go name d st (pre @ rest) = elem_go name d st rest"
  by (induction pre) (auto simp: elem_go.simps)

text \<open>Nested text is passed over at any positive depth.\<close>

lemma elem_go_nested:
  assumes name: "name \<noteq> []" "hd name \<noteq> CHR ''/''" "last name \<noteq> CHR ''/''"
  shows "nested name s \<Longrightarrow> elem_go name (Suc d) (Some st) (s @ rest) = elem_go name (Suc d) (Some st) rest"
proof (induction s arbitrary: d rest rule: nested.induct)
  case Nil
  then show ?case by simp
next
  case (Char s c)
  then show ?case by (simp add: elem_go_char)
next
  case (Other s)
  then show ?case using elem_go_other [of name s "Suc d" "Some st" rest] by simp
next
  case (Leaf s as)
  then show ?case using elem_go_leaf [of as name d st "s @ rest"] by simp
next
  case (Elem body s as)
  have "elem_go name (Suc d) (Some st) ((open_tag name as @ body @ close_tag name @ s) @ rest)
      = elem_go name (Suc (Suc d)) (Some st) (body @ close_tag name @ s @ rest)"
    using elem_go_open [of as name "Suc d" "Some st" "body @ close_tag name @ s @ rest"] Elem.hyps name
    by simp
  also have "\<dots> = elem_go name (Suc (Suc d)) (Some st) (close_tag name @ s @ rest)"
    by (rule Elem.IH(1))
  also have "\<dots> = elem_go name (Suc d) (Some st) (s @ rest)"
    using elem_go_close [of name "Suc d" st "s @ rest"] name by simp
  also have "\<dots> = elem_go name (Suc d) (Some st) rest"
    by (rule Elem.IH(2))
  finally show ?case .
qed

lemma element_text_nested:
  assumes name: "name \<noteq> []" "hd name \<noteq> CHR ''/''" "last name \<noteq> CHR ''/''"
    and pre: "untagged name pre (open_tag name as @ body @ close_tag name @ post)" and as: "tag_attrs as" "as = [] \<or> last as \<noteq> CHR ''/''"
    and body: "nested name body"
  shows "element_text (pre @ open_tag name as @ body @ close_tag name @ post) name
    = Some (open_tag name as @ body @ close_tag name)"
proof -
  let ?st = "open_tag name as @ body @ close_tag name @ post"
  have "element_text (pre @ ?st) name = elem_go name 0 None ?st"
    unfolding element_text_def by (rule elem_go_untagged) (rule pre)
  also have "\<dots> = elem_go name (Suc 0) (Some ?st) (body @ close_tag name @ post)"
    using elem_go_open [OF as name(1,3), of 0 None "body @ close_tag name @ post"] by simp
  also have "\<dots> = elem_go name (Suc 0) (Some ?st) (close_tag name @ post)"
    by (rule elem_go_nested [OF name body])
  also have "\<dots> = Some (take (length ?st - length post) ?st)"
    using elem_go_close [OF name(1,2), of 0 ?st post] by simp
  also have "take (length ?st - length post) ?st = open_tag name as @ body @ close_tag name"
    using take_diff_append [of "open_tag name as @ body @ close_tag name" post]
    by (simp only: append_assoc append_Cons)
  finally show ?thesis .
qed

section \<open>Substituting the restart counter\<close>

text \<open>The decimal rendering of an unsigned number.\<close>

definition digit_char :: "nat \<Rightarrow> char" where
  "digit_char n = char_of (48 + n)"

fun decimal :: "nat \<Rightarrow> string" where
  "decimal n = (if n < 10 then [digit_char n] else decimal (n div 10) @ [digit_char (n mod 10)])"

declare decimal.simps [simp del]

lemma decimal_not_Nil [simp]: "decimal n \<noteq> []"
  by (subst decimal.simps) simp

function subst_go :: "string \<Rightarrow> string \<Rightarrow> nat \<Rightarrow> string \<Rightarrow> string \<Rightarrow> string" where
  "subst_go marker digits cap out src =
     (if src = [] \<or> digits = [] then out
      else if take (length marker) src = marker then
        (if cap \<le> length out + length digits + 1 then out
         else subst_go marker digits cap (out @ digits) (drop (length marker) src))
      else if cap \<le> length out + 2 then out
      else subst_go marker digits cap (out @ [hd src]) (tl src))"
  by pat_completeness auto
termination
  by (relation "measure (\<lambda>(marker, digits, cap, out, src). cap - length out)")
     (auto simp flip: length_greater_0_conv)

declare subst_go.simps [simp del]

definition substitute_decimal :: "string \<Rightarrow> string \<Rightarrow> u32 \<Rightarrow> nat \<Rightarrow> string" where
  "substitute_decimal src marker v cap = subst_go marker (decimal (unat v)) cap [] src"

text \<open>The reference: every occurrence replaced, from the left, without overlap.\<close>

function replace_all :: "string \<Rightarrow> string \<Rightarrow> string \<Rightarrow> string" where
  "replace_all marker digits src =
     (if src = [] \<or> marker = [] then src
      else if take (length marker) src = marker
      then digits @ replace_all marker digits (drop (length marker) src)
      else hd src # replace_all marker digits (tl src))"
  by pat_completeness auto
termination
  by (relation "measure (\<lambda>(marker, digits, src). length src)") auto

declare replace_all.simps [simp del]

lemma length_subst_go:
  "length out + 2 \<le> cap \<Longrightarrow> length (subst_go marker digits cap out src) + 2 \<le> cap"
proof (induction marker digits cap out src rule: subst_go.induct)
  case (1 marker digits cap out src)
  then show ?case
    by (subst subst_go.simps) (auto simp: not_le)
qed

lemma subst_go_fits:
  "marker \<noteq> [] \<Longrightarrow> digits \<noteq> [] \<Longrightarrow> length out + length (replace_all marker digits src) + 2 \<le> cap
    \<Longrightarrow> subst_go marker digits cap out src = out @ replace_all marker digits src"
proof (induction marker digits cap out src rule: subst_go.induct)
  case (1 marker digits cap out src)
  show ?case
  proof (cases "src = []")
    case True
    then show ?thesis by (simp add: subst_go.simps replace_all.simps)
  next
    case ne: False
    show ?thesis
    proof (cases "take (length marker) src = marker")
      case True
      have r: "replace_all marker digits src = digits @ replace_all marker digits (drop (length marker) src)"
        using ne True 1(3) by (simp add: replace_all.simps [of marker digits src])
      have fit: "\<not> cap \<le> length out + length digits + 1" using 1(5) r by simp
      have "subst_go marker digits cap (out @ digits) (drop (length marker) src)
          = (out @ digits) @ replace_all marker digits (drop (length marker) src)"
        by (rule 1(1)) (use ne True fit 1(3,4,5) r in auto)
      then show ?thesis using ne True fit 1(4) r by (simp add: subst_go.simps [of marker digits cap out src])
    next
      case False
      have r: "replace_all marker digits src = hd src # replace_all marker digits (tl src)"
        using ne False 1(3) by (simp add: replace_all.simps [of marker digits src])
      have fit: "\<not> cap \<le> length out + 2" using 1(5) r by simp
      have "subst_go marker digits cap (out @ [hd src]) (tl src)
          = (out @ [hd src]) @ replace_all marker digits (tl src)"
        by (rule 1(2)) (use ne False fit 1(3,4,5) r in auto)
      then show ?thesis using ne False fit 1(4) r by (simp add: subst_go.simps [of marker digits cap out src])
    qed
  qed
qed

lemma length_substitute_decimal [bounded]:
  "2 \<le> cap \<Longrightarrow> length (substitute_decimal src marker v cap) + 2 \<le> cap"
  unfolding substitute_decimal_def by (rule length_subst_go) simp

lemma substitute_decimal_replaces:
  "marker \<noteq> [] \<Longrightarrow> length (replace_all marker (decimal (unat v)) src) + 2 \<le> cap
    \<Longrightarrow> substitute_decimal src marker v cap = replace_all marker (decimal (unat v)) src"
  unfolding substitute_decimal_def by (subst subst_go_fits) simp_all

lemma replace_all_append:
  "set marker \<inter> set b = {} \<Longrightarrow> marker \<noteq> []
    \<Longrightarrow> replace_all marker digits (a @ b) = replace_all marker digits a @ b"
proof (induction marker digits a rule: replace_all.induct)
  case (1 marker digits a)
  have no: "take (length marker) (c # cs @ b) = marker \<longleftrightarrow> take (length marker) (c # cs) = marker" for c cs
  proof (cases "length marker \<le> length (c # cs)")
    case True
    then show ?thesis by (cases marker) auto
  next
    case False
    then have l: "length (c # cs) < length marker" by simp
    have "take (length marker) (c # cs @ b) \<noteq> marker"
    proof
      assume eq: "take (length marker) (c # cs @ b) = marker"
      then have lb: "length marker \<le> length (c # cs @ b)"
        by (metis length_take min.absorb_iff2 min.commute)
      then have "marker ! (length (c # cs)) = b ! 0"
        using l eq by (metis append_Cons diff_self_eq_0 less_irrefl nth_append nth_take)
      moreover have "b \<noteq> []" using l lb by auto
      ultimately show False using "1.prems"(1) l by (metis disjoint_iff length_greater_0_conv nth_mem)
    qed
    moreover have "take (length marker) (c # cs) \<noteq> marker" using l by (metis length_take min_less_iff_conj nat_neq_iff)
    ultimately show ?thesis by blast
  qed
  have rb: "replace_all marker digits b = b" if "set marker \<inter> set b = {}" "marker \<noteq> []" for b
    using that
  proof (induction b)
    case Nil
    then show ?case by (simp add: replace_all.simps)
  next
    case (Cons c cs)
    have "take (length marker) (c # cs) \<noteq> marker" using Cons.prems by (cases marker) auto
    with Cons show ?case by (simp add: replace_all.simps [of marker digits "c # cs"])
  qed
  show ?case
  proof (cases a)
    case Nil
    then show ?thesis using rb 1(3,4) by (simp add: replace_all.simps [of marker digits "[]"])
  next
    case (Cons c cs)
    show ?thesis
    proof (cases "take (length marker) (c # cs) = marker")
      case True
      then have "length marker \<le> length (c # cs)" by (metis length_take min.absorb_iff2 min.commute)
      then have d: "drop (length marker) (c # cs @ b) = drop (length marker) (c # cs) @ b"
        using drop_append [of "length marker" "c # cs" b] by simp
      show ?thesis using True Cons 1 no [of c cs]
        by (simp add: d replace_all.simps [of marker digits "c # cs"] replace_all.simps [of marker digits "c # cs @ b"])
    next
      case False
      then show ?thesis using Cons 1 no [of c cs]
        by (simp add: replace_all.simps [of marker digits "c # cs"] replace_all.simps [of marker digits "c # cs @ b"])
    qed
  qed
qed

lemma length_subst_go_cut:
  assumes "marker \<noteq> []" and "digits \<noteq> []"
  shows "subst_go marker digits cap out src = out @ replace_all marker digits src
    \<or> cap \<le> length (subst_go marker digits cap out src) + length digits + 1"
  using assms
proof (induction marker digits cap out src rule: subst_go.induct)
  case (1 marker digits cap out src)
  let ?r = "subst_go marker digits cap out src"
  have d: "Suc 0 \<le> length digits" using 1(4) by (simp add: Suc_le_eq)
  consider "src = []" | (hit) "src \<noteq> []" "take (length marker) src = marker"
    | (char) "src \<noteq> []" "take (length marker) src \<noteq> marker" by blast
  then show ?case
  proof cases
    case 1
    then show ?thesis by (simp add: subst_go.simps replace_all.simps)
  next
    case hit
    have r: "replace_all marker digits src = digits @ replace_all marker digits (drop (length marker) src)"
      using hit "1.prems" by (simp add: replace_all.simps [of marker digits src])
    show ?thesis
    proof (cases "cap \<le> length out + length digits + 1")
      case True
      then have "?r = out" using hit by (subst subst_go.simps) simp
      then show ?thesis using True by simp
    next
      case False
      then have "?r = subst_go marker digits cap (out @ digits) (drop (length marker) src)"
        using hit "1.prems" by (subst subst_go.simps) simp
      then show ?thesis using "1.IH"(1) hit "1.prems" False r by simp
    qed
  next
    case char
    have r: "replace_all marker digits src = hd src # replace_all marker digits (tl src)"
      using char "1.prems" by (simp add: replace_all.simps [of marker digits src])
    show ?thesis
    proof (cases "cap \<le> length out + 2")
      case True
      then have "?r = out" using char by (subst subst_go.simps) simp
      then show ?thesis using True d by simp
    next
      case False
      then have "?r = subst_go marker digits cap (out @ [hd src]) (tl src)"
        using char "1.prems" by (subst subst_go.simps) simp
      then show ?thesis using "1.IH"(2) char "1.prems" False r by simp
    qed
  qed
qed

lemma length_decimal_bound: "n < 10 ^ k \<Longrightarrow> 0 < k \<Longrightarrow> length (decimal n) \<le> k"
proof (induction n arbitrary: k rule: decimal.induct)
  case (1 n)
  show ?case
  proof (cases "n < 10")
    case True
    then show ?thesis using 1(3) by (subst decimal.simps) simp
  next
    case False
    then have "1 < k" using 1(2,3) by (cases "k = 1") auto
    then obtain j where k: "k = Suc j" "0 < j" by (cases k) auto
    have "n div 10 < 10 ^ j" using 1(2) k by (simp add: less_mult_imp_div_less mult.commute)
    then show ?thesis using 1(1) [OF False] k False by (subst decimal.simps) simp
  qed
qed

lemma length_decimal_u32: "length (decimal (unat (v :: u32))) \<le> 10"
proof (rule length_decimal_bound)
  have "unat v < 2 ^ 32" by (rule unat_u32_bound)
  then show "unat v < 10 ^ 10" by simp
qed simp

lemma prefix_subst_go:
  "marker \<noteq> [] \<Longrightarrow> digits \<noteq> []
    \<Longrightarrow> prefix (subst_go marker digits cap out src) (out @ replace_all marker digits src)"
proof (induction marker digits cap out src rule: subst_go.induct)
  case (1 marker digits cap out src)
  let ?r = "subst_go marker digits cap out src"
  consider "src = []" | (hit) "src \<noteq> []" "take (length marker) src = marker"
    | (char) "src \<noteq> []" "take (length marker) src \<noteq> marker" by blast
  then show ?case
  proof cases
    case 1
    then show ?thesis by (simp add: subst_go.simps replace_all.simps)
  next
    case hit
    have r: "replace_all marker digits src = digits @ replace_all marker digits (drop (length marker) src)"
      using hit "1.prems" by (simp add: replace_all.simps [of marker digits src])
    have "?r = (if cap \<le> length out + length digits + 1 then out
        else subst_go marker digits cap (out @ digits) (drop (length marker) src))"
      using hit "1.prems" by (subst subst_go.simps) simp
    then show ?thesis using "1.IH"(1) hit "1.prems" r by (simp split: if_splits)
  next
    case char
    have r: "replace_all marker digits src = hd src # replace_all marker digits (tl src)"
      using char "1.prems" by (simp add: replace_all.simps [of marker digits src])
    have "?r = (if cap \<le> length out + 2 then out else subst_go marker digits cap (out @ [hd src]) (tl src))"
      using char "1.prems" by (subst subst_go.simps) simp
    then show ?thesis using "1.IH"(2) char "1.prems" r by (simp split: if_splits)
  qed
qed

end
