(* ===== verification/Machine.thy ===== *)
theory Machine
  imports Main
begin

text \<open>
  The contract every long-lived component of the system is verified against: it starts in some
  state, reacts to one input at a time on a single entrypoint thread, and keeps an invariant. The
  facts about whole runs are proved here once; the components interpret the locales on their own
  start states, handlers and invariants.
\<close>

definition run :: "('i \<Rightarrow> 's \<Rightarrow> 's) \<Rightarrow> 's \<Rightarrow> 'i list \<Rightarrow> 's" where
  "run step s is = fold step is s"

lemma run_simps [simp]:
  "run step s [] = s"
  "run step s (i # is) = run step (step i s) is"
  by (simp_all add: run_def)

lemma run_append: "run step s (xs @ ys) = run step (run step s xs) ys"
  by (simp add: run_def)

lemma run_snoc: "run step s (xs @ [y]) = step y (run step s xs)"
  by (simp add: run_append)

locale machine =
  fixes start :: "'s \<Rightarrow> bool"
    and step :: "'i \<Rightarrow> 's \<Rightarrow> 's"
    and inv :: "'s \<Rightarrow> bool"
  assumes start_inv: "start s \<Longrightarrow> inv s"
    and step_inv: "inv s \<Longrightarrow> inv (step i s)"
begin

lemma run_inv: "inv s \<Longrightarrow> inv (run step s is)"
  by (induction "is" arbitrary: s) (auto intro: step_inv)

lemma reach_inv: "start s \<Longrightarrow> inv (run step s is)"
  by (blast intro: run_inv start_inv)

end

text \<open>A component with a measure that no reaction decreases: a counter, a growing set.\<close>

locale growing_machine = machine start step inv
  for start :: "'s \<Rightarrow> bool" and step :: "'i \<Rightarrow> 's \<Rightarrow> 's" and inv :: "'s \<Rightarrow> bool" +
  fixes rank :: "'s \<Rightarrow> nat"
  assumes step_rank: "inv s \<Longrightarrow> rank s \<le> rank (step i s)"
begin

lemma run_rank: "inv s \<Longrightarrow> rank s \<le> rank (run step s is)"
proof (induction "is" arbitrary: s)
  case Nil
  then show ?case by simp
next
  case (Cons i "is")
  have "rank s \<le> rank (step i s)" using Cons.prems by (rule step_rank)
  also have "\<dots> \<le> rank (run step (step i s) is)"
    by (rule Cons.IH) (rule step_inv [OF Cons.prems])
  finally show ?case by simp
qed

end

text \<open>A component whose reactions only ever add to what it has emitted.\<close>

locale emitting_machine = machine start step inv
  for start :: "'s \<Rightarrow> bool" and step :: "'i \<Rightarrow> 's \<Rightarrow> 's" and inv :: "'s \<Rightarrow> bool" +
  fixes trace :: "'s \<Rightarrow> 'o list"
  assumes step_trace: "inv s \<Longrightarrow> \<exists>new. trace (step i s) = trace s @ new"
begin

lemma run_trace: "inv s \<Longrightarrow> \<exists>new. trace (run step s is) = trace s @ new"
proof (induction "is" arbitrary: s)
  case Nil
  then show ?case by simp
next
  case (Cons i "is")
  obtain n1 where n1: "trace (step i s) = trace s @ n1" using step_trace [OF Cons.prems] by blast
  obtain n2 where "trace (run step (step i s) is) = trace (step i s) @ n2"
    using Cons.IH [OF step_inv [OF Cons.prems]] by blast
  with n1 show ?case by simp
qed

end

sublocale emitting_machine \<subseteq> outs: growing_machine start step inv "\<lambda>s. length (trace s)"
proof unfold_locales
  fix s i
  assume "inv s"
  from step_trace [OF this, of i] show "length (trace s) \<le> length (trace (step i s))" by auto
qed

end
