(* ===== verification/Supervisor.thy ===== *)
theory Supervisor
  imports Genode_Iface Text_Scan Machine
begin

text \<open>
  \<open>sponge_supervisor/main.cc\<close>: the top-level supervisor. It owns the configuration of the
  supervised \<open>system\<close> sandbox and the switch of the fault console, reads the sandbox's state
  report, and on its own periodic timer moves through the phases BOOT, NOMINAL, CONTAIN, CONSOLE
  and RELEASE. Ticks, deadlines and counters are 32-bit words, as in the code. Log lines are left
  out; the reports are the trace of the model.
\<close>

section \<open>State\<close>

datatype phase = BOOT | NOMINAL | CONTAIN | CONSOLE | RELEASE

text \<open>
  What leaves the component: the armed or disarmed report of the console, and a published sandbox
  configuration with the template's name and the restart counter substituted into it.
\<close>

datatype sup_out =
    Console_report bool
  | System_report string u32 string

record sup =
  poll_ms :: u32
  fault_skipped :: u32
  boot_grace_ms :: u32
  grace_ms :: u32
  console_hold_ms :: u32
  settle_ms :: u32
  ignore_exited :: string
  boot_grace_ticks :: u32
  grace_ticks :: u32
  console_ticks :: u32
  settle_ticks :: u32
  kill_version :: u32
  ticks :: u32
  last_idle :: u32
  phase :: phase
  phase_since :: u32
  healthy_since :: u32
  ever_healthy :: bool
  fault_since :: u32
  exited_baseline :: u32
  state_seen :: bool
  state_at :: u32
  max_skipped :: u32
  exited :: u32
  starting :: u32
  ignore_starting :: bool
  reporters :: bool
  sup_out :: "sup_out list"

text \<open>The member initialisers.\<close>

definition sup_init :: sup where
  "sup_init = \<lparr>poll_ms = 250, fault_skipped = 3, boot_grace_ms = 30000, grace_ms = 4000,
     console_hold_ms = 4000, settle_ms = 3000, ignore_exited = [], boot_grace_ticks = 0,
     grace_ticks = 0, console_ticks = 0, settle_ticks = 0, kill_version = 0, ticks = 0,
     last_idle = 0, phase = BOOT, phase_since = 0, healthy_since = 0, ever_healthy = False,
     fault_since = 0, exited_baseline = 0, state_seen = False, state_at = 0, max_skipped = 0,
     exited = 0, starting = 0, ignore_starting = True, reporters = False, sup_out = []\<rparr>"

section \<open>Policy\<close>

definition policy_num :: "string \<Rightarrow> string \<Rightarrow> u32 \<Rightarrow> u32" where
  "policy_num cfg key dflt =
     (case scan_attr cfg key of
        None \<Rightarrow> dflt
      | Some v \<Rightarrow>
          (if v = [] then dflt
           else foldl (\<lambda>r c. r * 10 + of_nat (digit_val c)) 0 (takeWhile is_digit v)))"

definition policy_bool :: "string \<Rightarrow> string \<Rightarrow> bool \<Rightarrow> bool" where
  "policy_bool cfg key dflt =
     (case scan_attr cfg key of
        None \<Rightarrow> dflt
      | Some v \<Rightarrow> (if v = ''yes'' then True else if v = ''no'' then False else dflt))"

definition to_ticks :: "u32 \<Rightarrow> u32 \<Rightarrow> u32" where
  "to_ticks poll ms = (ms + poll - 1) div poll"

definition read_policy :: "string option \<Rightarrow> sup \<Rightarrow> sup" where
  "read_policy config s =
     (case config of
        None \<Rightarrow> s
      | Some cfg \<Rightarrow>
          (let s = s\<lparr>poll_ms := policy_num cfg ''poll_ms'' (poll_ms s),
                     fault_skipped := policy_num cfg ''fault_skipped'' (fault_skipped s),
                     boot_grace_ms := policy_num cfg ''boot_grace_ms'' (boot_grace_ms s),
                     grace_ms := policy_num cfg ''grace_ms'' (grace_ms s),
                     console_hold_ms := policy_num cfg ''console_hold_ms'' (console_hold_ms s),
                     settle_ms := policy_num cfg ''settle_ms'' (settle_ms s),
                     ignore_starting := policy_bool cfg ''ignore_starting'' (ignore_starting s)\<rparr>;
               ign = (case scan_attr cfg ''ignore_exited'' of None \<Rightarrow> [] | Some v \<Rightarrow> v);
               s = (if length ign < 128
                    then s\<lparr>ignore_exited := copy_value ign (length ign) 128\<rparr> else s);
               poll = (if poll_ms s \<noteq> 0 then poll_ms s else 250)
           in s\<lparr>boot_grace_ticks := to_ticks poll (boot_grace_ms s),
                grace_ticks := to_ticks poll (grace_ms s),
                console_ticks := to_ticks poll (console_hold_ms s),
                settle_ticks := to_ticks poll (settle_ms s)\<rparr>))"

section \<open>Templates and reports\<close>

definition template_text :: "string option \<Rightarrow> string \<Rightarrow> string option" where
  "template_text templates name =
     (case templates of
        None \<Rightarrow> None
      | Some t \<Rightarrow>
          (case element_text t name of
             None \<Rightarrow> None
           | Some wrapped \<Rightarrow> element_text wrapped ''config''))"

definition construct_reporters :: "sup \<Rightarrow> sup" where
  "construct_reporters s = s\<lparr>reporters := True\<rparr>"

definition console_text :: "bool \<Rightarrow> string" where
  "console_text armed =
     (if armed
      then ''<config armed=\"yes\" color=\"#601010\" title=\"SYSTEM FAULT - RESTARTING\"/>''
      else ''<config armed=\"no\"/>'')"

definition arm_console :: "genode \<Rightarrow> bool \<Rightarrow> sup \<Rightarrow> sup" where
  "arm_console G armed s =
     (if \<not> reporters s then s
      else if \<not> report_fits G (4 * 1024) (length (console_text armed)) then s
      else s\<lparr>sup_out := sup_out s @ [Console_report armed]\<rparr>)"

abbreviation KILL :: string where "KILL \<equiv> ''@KILL@''"
abbreviation CONFIG_END :: string where "CONFIG_END \<equiv> ''</config>''"
abbreviation publish_cap :: nat where "publish_cap \<equiv> 160 * 1024"

definition publish :: "genode \<Rightarrow> string option \<Rightarrow> string \<Rightarrow> sup \<Rightarrow> sup" where
  "publish G templates name s =
     (case template_text templates name of
        None \<Rightarrow> s
      | Some src \<Rightarrow>
          (if length src < 9 \<or> drop (length src - 9) src \<noteq> CONFIG_END then s
           else
             let v = kill_version s + 1;
                 s = s\<lparr>kill_version := v\<rparr>;
                 out = substitute_decimal src KILL v publish_cap
             in if publish_cap \<le> length out + 1 then s
                else if \<not> report_fits G (128 * 1024) (length out) then s
                else s\<lparr>sup_out := sup_out s @ [System_report name v out]\<rparr>))"

definition publish_nominal :: "genode \<Rightarrow> string option \<Rightarrow> sup \<Rightarrow> sup" where
  "publish_nominal G templates s = publish G templates ''system'' s"

section \<open>Observation\<close>

text \<open>
  \<open>_excluded\<close>: walk the comma-separated list and compare each span with the name.
\<close>

function excluded_go :: "string \<Rightarrow> string \<Rightarrow> bool" where
  "excluded_go name p =
     (if p = [] then False
      else if takeWhile (\<lambda>c. c \<noteq> CHR '','') p = name then True
      else excluded_go name (tl (dropWhile (\<lambda>c. c \<noteq> CHR '','') p)))"
  by pat_completeness auto
termination
proof (relation "measure (\<lambda>(name, p). length p)", simp)
  fix name p :: string
  assume "p \<noteq> []"
  have "length (dropWhile (\<lambda>c. c \<noteq> CHR '','') p) \<le> length p" by (rule length_dropWhile_le)
  with \<open>p \<noteq> []\<close> show "((name, tl (dropWhile (\<lambda>c. c \<noteq> CHR '','') p)), (name, p))
      \<in> measure (\<lambda>(name, p). length p)" by (cases p) auto
qed

declare excluded_go.simps [simp del]

definition excluded :: "sup \<Rightarrow> string \<Rightarrow> bool" where
  "excluded s name = excluded_go name (cstr (ignore_exited s))"

text \<open>One \<open>child\<close> node: the three counters in the order the code updates them.\<close>

definition count_starting :: "bool \<Rightarrow> sup \<Rightarrow> sup" where
  "count_starting is_starting s = (if is_starting then s\<lparr>starting := starting s + 1\<rparr> else s)"

definition raise_skipped :: "u32 \<Rightarrow> bool \<Rightarrow> sup \<Rightarrow> sup" where
  "raise_skipped skipped is_starting s =
     (if max_skipped s < skipped \<and> \<not> (is_starting \<and> ignore_starting s)
      then s\<lparr>max_skipped := skipped\<rparr> else s)"

definition count_exited :: "bool \<Rightarrow> string \<Rightarrow> sup \<Rightarrow> sup" where
  "count_exited gone name s =
     (if gone \<and> \<not> excluded s name then s\<lparr>exited := exited s + 1\<rparr> else s)"

definition scan_child :: "genode \<Rightarrow> xml \<Rightarrow> sup \<Rightarrow> sup" where
  "scan_child G n s =
     (if \<not> has_type n ''child'' then s
      else
        let skipped = attr_u32 G n ''skipped_heartbeats'' 0;
            gone = (attr n ''exited'' \<noteq> None);
            is_starting = (attr_str 16 n ''heartbeat_state'' = ''starting'')
        in count_exited gone (attr_str 64 n ''name'')
             (raise_skipped skipped is_starting (count_starting is_starting s)))"

definition scan_state :: "genode \<Rightarrow> string option \<Rightarrow> sup \<Rightarrow> sup" where
  "scan_state G state s =
     (case state of
        None \<Rightarrow> s
      | Some bytes \<Rightarrow>
          fold (scan_child G) (kids (parse_hid G bytes))
            (s\<lparr>state_seen := True, state_at := ticks s, max_skipped := 0, exited := 0,
               starting := 0\<rparr>))"

definition handle_state :: "genode \<Rightarrow> string option \<Rightarrow> sup \<Rightarrow> sup" where
  "handle_state G state s = scan_state G state s"

definition faulted :: "sup \<Rightarrow> bool" where
  "faulted s \<longleftrightarrow>
     (if fault_skipped s \<le> max_skipped s then True
      else if exited_baseline s < exited s then True
      else \<not> state_seen s \<and> boot_grace_ticks s < ticks s)"

section \<open>The phases\<close>

definition to_idle_ticks :: "sup \<Rightarrow> u32" where
  "to_idle_ticks s = (let poll = (if poll_ms s \<noteq> 0 then poll_ms s else 250) in (10000 + poll - 1) div poll)"

definition enter :: "phase \<Rightarrow> sup \<Rightarrow> sup" where
  "enter p s =
     (let s = s\<lparr>phase := p, phase_since := ticks s\<rparr>
      in if p = NOMINAL then s\<lparr>fault_since := 0\<rparr> else s)"

definition tick_boot :: "genode \<Rightarrow> string option \<Rightarrow> sup \<Rightarrow> sup" where
  "tick_boot G T s = enter NOMINAL (publish_nominal G T (arm_console G False (construct_reporters s)))"

definition tick_nominal :: "genode \<Rightarrow> string option \<Rightarrow> bool \<Rightarrow> sup \<Rightarrow> sup" where
  "tick_nominal G T fault s =
     (if \<not> fault then
        let s = s\<lparr>fault_since := 0\<rparr>
        in if to_idle_ticks s \<le> ticks s - last_idle s then s\<lparr>last_idle := ticks s\<rparr> else s
      else if fault_since s = 0 then s\<lparr>fault_since := ticks s\<rparr>
      else if ticks s - fault_since s < grace_ticks s then s
      else enter CONTAIN ((publish G T ''system'' s)\<lparr>fault_since := 0, ever_healthy := False\<rparr>))"

text \<open>The settle discipline that CONTAIN and CONSOLE share: remember the first healthy tick.\<close>

definition note_healthy :: "sup \<Rightarrow> sup" where
  "note_healthy s =
     (if ever_healthy s then s else s\<lparr>ever_healthy := True, healthy_since := ticks s\<rparr>)"

definition tick_contain :: "genode \<Rightarrow> string option \<Rightarrow> bool \<Rightarrow> sup \<Rightarrow> sup" where
  "tick_contain G T fault s =
     (if \<not> fault then
        let s = note_healthy s
        in if ticks s - healthy_since s < settle_ticks s then s
           else enter NOMINAL (s\<lparr>exited_baseline := exited s\<rparr>)
      else
        let s = s\<lparr>ever_healthy := False\<rparr>
        in if ticks s - phase_since s < grace_ticks s then s
           else enter CONSOLE (arm_console G True (publish G T ''system_console'' s)))"

definition tick_console :: "genode \<Rightarrow> bool \<Rightarrow> sup \<Rightarrow> sup" where
  "tick_console G fault s =
     (if fault then
        let s = s\<lparr>ever_healthy := False\<rparr>
        in if ticks s - phase_since s < console_ticks s then s
           else enter RELEASE (arm_console G False s)
      else
        let s = note_healthy s
        in if ticks s - healthy_since s < settle_ticks s then s
           else enter RELEASE (arm_console G False s))"

definition tick_release :: "genode \<Rightarrow> string option \<Rightarrow> sup \<Rightarrow> sup" where
  "tick_release G T s =
     (if ticks s - phase_since s < settle_ticks s then s
      else enter NOMINAL (publish_nominal G T s))"

definition handle_tick :: "genode \<Rightarrow> string option \<Rightarrow> sup \<Rightarrow> sup" where
  "handle_tick G T s =
     (let s = s\<lparr>ticks := ticks s + 1\<rparr>;
          fault = faulted s
      in case phase s of
           BOOT \<Rightarrow> tick_boot G T s
         | NOMINAL \<Rightarrow> tick_nominal G T fault s
         | CONTAIN \<Rightarrow> tick_contain G T fault s
         | CONSOLE \<Rightarrow> tick_console G fault s
         | RELEASE \<Rightarrow> tick_release G T s)"

text \<open>The constructor, and the two signals that drive the component afterwards.\<close>

definition construct :: "genode \<Rightarrow> string option \<Rightarrow> string option \<Rightarrow> sup" where
  "construct G config state = handle_state G state (read_policy config sup_init)"

datatype sup_event = Tick | State "string option"

fun sup_step :: "genode \<Rightarrow> string option \<Rightarrow> sup_event \<Rightarrow> sup \<Rightarrow> sup" where
  "sup_step G T Tick s = handle_tick G T s"
| "sup_step G T (State b) s = handle_state G b s"

definition sup_start :: "genode \<Rightarrow> sup \<Rightarrow> bool" where
  "sup_start G s \<longleftrightarrow> (\<exists>config state. s = construct G config state)"

section \<open>Facts shared by the proofs\<close>

lemmas tick_defs = tick_boot_def tick_nominal_def tick_contain_def tick_console_def
  tick_release_def note_healthy_def enter_def publish_nominal_def construct_reporters_def

fun console_report :: "sup_out \<Rightarrow> bool option" where
  "console_report (Console_report b) = Some b"
| "console_report (System_report n v x) = None"

fun system_report :: "sup_out \<Rightarrow> u32 option" where
  "system_report (Console_report b) = None"
| "system_report (System_report n v x) = Some v"

definition console_reports :: "sup \<Rightarrow> bool list" where
  "console_reports s = List.map_filter console_report (sup_out s)"

definition versions :: "sup \<Rightarrow> nat list" where
  "versions s = map unat (List.map_filter system_report (sup_out s))"

lemma publish_disj:
  "publish G T n s = s \<or> publish G T n s = s\<lparr>kill_version := kill_version s + 1\<rparr>
    \<or> (\<exists>x. publish G T n s = s\<lparr>kill_version := kill_version s + 1,
        sup_out := sup_out s @ [System_report n (kill_version s + 1) x]\<rparr>)"
proof (cases "template_text T n")
  case None
  then show ?thesis by (simp add: publish_def)
next
  case (Some src)
  define out where "out = substitute_decimal src KILL (kill_version s + 1) publish_cap"
  show ?thesis using Some by (simp add: publish_def Let_def flip: out_def) blast
qed

lemma publish_cases:
  obtains (silent) "publish G T n s = s"
  | (counted) "publish G T n s = s\<lparr>kill_version := kill_version s + 1\<rparr>"
  | (sent) x where "publish G T n s = s\<lparr>kill_version := kill_version s + 1,
        sup_out := sup_out s @ [System_report n (kill_version s + 1) x]\<rparr>"
  using publish_disj [of G T n s] by blast

lemma publish_frame [simp]:
  "phase (publish G T n s) = phase s" "ticks (publish G T n s) = ticks s"
  "phase_since (publish G T n s) = phase_since s" "fault_since (publish G T n s) = fault_since s"
  "reporters (publish G T n s) = reporters s" "console_reports (publish G T n s) = console_reports s"
  "max_skipped (publish G T n s) = max_skipped s" "fault_skipped (publish G T n s) = fault_skipped s"
  "grace_ticks (publish G T n s) = grace_ticks s" "console_ticks (publish G T n s) = console_ticks s"
  "settle_ticks (publish G T n s) = settle_ticks s" "ever_healthy (publish G T n s) = ever_healthy s"
  "healthy_since (publish G T n s) = healthy_since s" "exited_baseline (publish G T n s) = exited_baseline s"
  "exited (publish G T n s) = exited s" "state_seen (publish G T n s) = state_seen s"
  "boot_grace_ticks (publish G T n s) = boot_grace_ticks s"
  by (cases rule: publish_cases [of G T n s];
      simp add: console_reports_def List.map_filter_def)+

lemma arm_console_frame [simp]:
  "phase (arm_console G b s) = phase s" "ticks (arm_console G b s) = ticks s"
  "phase_since (arm_console G b s) = phase_since s" "fault_since (arm_console G b s) = fault_since s"
  "reporters (arm_console G b s) = reporters s" "kill_version (arm_console G b s) = kill_version s"
  "max_skipped (arm_console G b s) = max_skipped s" "fault_skipped (arm_console G b s) = fault_skipped s"
  "grace_ticks (arm_console G b s) = grace_ticks s" "console_ticks (arm_console G b s) = console_ticks s"
  "settle_ticks (arm_console G b s) = settle_ticks s" "ever_healthy (arm_console G b s) = ever_healthy s"
  "versions (arm_console G b s) = versions s"
  by (simp_all add: arm_console_def versions_def List.map_filter_def)

lemma scan_parts_frame:
  "sup_out (count_starting b s) = sup_out s" "phase (count_starting b s) = phase s"
  "ticks (count_starting b s) = ticks s" "fault_since (count_starting b s) = fault_since s"
  "reporters (count_starting b s) = reporters s" "kill_version (count_starting b s) = kill_version s"
  "grace_ticks (count_starting b s) = grace_ticks s"
  "ignore_exited (count_starting b s) = ignore_exited s"
  "ignore_starting (count_starting b s) = ignore_starting s"
  "sup_out (raise_skipped v b s) = sup_out s" "phase (raise_skipped v b s) = phase s"
  "ticks (raise_skipped v b s) = ticks s" "fault_since (raise_skipped v b s) = fault_since s"
  "reporters (raise_skipped v b s) = reporters s" "kill_version (raise_skipped v b s) = kill_version s"
  "grace_ticks (raise_skipped v b s) = grace_ticks s"
  "ignore_exited (raise_skipped v b s) = ignore_exited s"
  "ignore_starting (raise_skipped v b s) = ignore_starting s"
  "sup_out (count_exited b n s) = sup_out s" "phase (count_exited b n s) = phase s"
  "ticks (count_exited b n s) = ticks s" "fault_since (count_exited b n s) = fault_since s"
  "reporters (count_exited b n s) = reporters s" "kill_version (count_exited b n s) = kill_version s"
  "grace_ticks (count_exited b n s) = grace_ticks s"
  "ignore_exited (count_exited b n s) = ignore_exited s"
  "ignore_starting (count_exited b n s) = ignore_starting s"
  by (simp_all add: count_starting_def raise_skipped_def count_exited_def)

lemma scan_child_frame:
  "sup_out (scan_child G n s) = sup_out s" "phase (scan_child G n s) = phase s"
  "ticks (scan_child G n s) = ticks s" "fault_since (scan_child G n s) = fault_since s"
  "reporters (scan_child G n s) = reporters s" "kill_version (scan_child G n s) = kill_version s"
  "grace_ticks (scan_child G n s) = grace_ticks s" "ignore_exited (scan_child G n s) = ignore_exited s"
  "ignore_starting (scan_child G n s) = ignore_starting s"
  by (simp_all add: scan_child_def Let_def scan_parts_frame)

lemma handle_state_frame [simp]:
  "sup_out (handle_state G b s) = sup_out s" "phase (handle_state G b s) = phase s"
  "ticks (handle_state G b s) = ticks s" "fault_since (handle_state G b s) = fault_since s"
  "reporters (handle_state G b s) = reporters s" "kill_version (handle_state G b s) = kill_version s"
  "grace_ticks (handle_state G b s) = grace_ticks s"
proof -
  have f: "sup_out (fold (scan_child G) ns s) = sup_out s \<and> phase (fold (scan_child G) ns s) = phase s
      \<and> ticks (fold (scan_child G) ns s) = ticks s \<and> fault_since (fold (scan_child G) ns s) = fault_since s
      \<and> reporters (fold (scan_child G) ns s) = reporters s
      \<and> kill_version (fold (scan_child G) ns s) = kill_version s
      \<and> grace_ticks (fold (scan_child G) ns s) = grace_ticks s" for ns s
    by (induction ns arbitrary: s) (simp_all add: scan_child_frame)
  show "sup_out (handle_state G b s) = sup_out s" "phase (handle_state G b s) = phase s"
    "ticks (handle_state G b s) = ticks s" "fault_since (handle_state G b s) = fault_since s"
    "reporters (handle_state G b s) = reporters s" "kill_version (handle_state G b s) = kill_version s"
    "grace_ticks (handle_state G b s) = grace_ticks s"
    by (simp_all add: handle_state_def scan_state_def f split: option.split)
qed

lemma read_policy_frame [simp]:
  "sup_out (read_policy c s) = sup_out s" "phase (read_policy c s) = phase s"
  "reporters (read_policy c s) = reporters s" "kill_version (read_policy c s) = kill_version s"
  by (simp_all add: read_policy_def Let_def split: option.split)

lemma construct_frame [simp]:
  "sup_out (construct G c st) = []" "phase (construct G c st) = BOOT"
  "reporters (construct G c st) = False" "kill_version (construct G c st) = 0"
  by (simp_all add: construct_def sup_init_def)

section \<open>The console is armed exactly while the phase is CONSOLE\<close>

definition console_fits :: "genode \<Rightarrow> bool" where
  "console_fits G \<longleftrightarrow> (\<forall>b. report_fits G (4 * 1024) (length (console_text b)))"

definition console_inv :: "sup \<Rightarrow> bool" where
  "console_inv s \<longleftrightarrow>
     (if phase s = BOOT then sup_out s = []
      else reporters s \<and> console_reports s \<noteq> [] \<and> (last (console_reports s) \<longleftrightarrow> phase s = CONSOLE))"

lemma console_reports_arm:
  "console_fits G \<Longrightarrow> reporters s
    \<Longrightarrow> console_reports (arm_console G b s) = console_reports s @ [b]"
  by (simp add: arm_console_def console_fits_def console_reports_def List.map_filter_def)

lemma console_reports_upd [simp]:
  "console_reports (s\<lparr>ticks := a\<rparr>) = console_reports s"
  "console_reports (s\<lparr>fault_since := a\<rparr>) = console_reports s"
  "console_reports (s\<lparr>last_idle := a\<rparr>) = console_reports s"
  "console_reports (s\<lparr>phase := p\<rparr>) = console_reports s"
  "console_reports (s\<lparr>phase_since := a\<rparr>) = console_reports s"
  "console_reports (s\<lparr>ever_healthy := h\<rparr>) = console_reports s"
  "console_reports (s\<lparr>healthy_since := a\<rparr>) = console_reports s"
  "console_reports (s\<lparr>exited_baseline := a\<rparr>) = console_reports s"
  "console_reports (s\<lparr>reporters := h\<rparr>) = console_reports s"
  by (simp_all add: console_reports_def)

lemma console_inv_tick:
  assumes "console_fits G" and "console_inv s"
  shows "console_inv (handle_tick G T s)"
proof (cases "phase s")
  case BOOT
  then show ?thesis using assms
    by (simp add: console_inv_def handle_tick_def tick_defs Let_def console_reports_arm)
qed (use assms in \<open>auto simp: console_inv_def handle_tick_def tick_defs Let_def console_reports_arm\<close>)

lemma console_inv_step:
  assumes "console_fits G \<longrightarrow> console_inv s"
  shows "console_fits G \<longrightarrow> console_inv (sup_step G T e s)"
  using assms by (cases e) (auto simp: console_inv_tick, auto simp: console_inv_def console_reports_def)

lemma sup_step_emits: "\<exists>new. sup_out (sup_step G T e s) = sup_out s @ new"
proof (cases e)
  case (State b)
  then show ?thesis by simp
next
  case Tick
  have p: "\<exists>new. sup_out (publish G T n t) = sup_out t @ new" for n t
    by (cases rule: publish_cases [of G T n t]) auto
  have a: "\<exists>new. sup_out (arm_console G b t) = sup_out t @ new" for b t
    by (simp add: arm_console_def)
  have trans: "\<exists>new. z = x @ new" if "\<exists>new. y = x @ new" "\<exists>new. z = y @ new" for x y z :: "sup_out list"
    using that by auto
  have pa: "\<exists>new. sup_out (publish G T n (arm_console G b t)) = sup_out t @ new" for n b t
    by (rule trans [OF a p])
  have ap: "\<exists>new. sup_out (arm_console G b (publish G T n t)) = sup_out t @ new" for n b t
    by (rule trans [OF p a])
  let ?t = "s\<lparr>ticks := ticks s + 1\<rparr>"
  have "\<exists>new. sup_out (tick_boot G T ?t) = sup_out ?t @ new"
    using pa [of "''system''" False "?t\<lparr>reporters := True\<rparr>"] by (simp add: tick_defs)
  moreover have "\<exists>new. sup_out (tick_nominal G T f ?t) = sup_out ?t @ new" for f
    using p [of "''system''" ?t] by (simp add: tick_defs Let_def)
  moreover have "\<exists>new. sup_out (tick_contain G T f ?t) = sup_out ?t @ new" for f
    using ap [of True "''system_console''" "?t\<lparr>ever_healthy := False\<rparr>"] by (simp add: tick_defs Let_def)
  moreover have "\<exists>new. sup_out (tick_console G f ?t) = sup_out ?t @ new" for f
    using a [of False "?t\<lparr>ever_healthy := False\<rparr>"] a [of False ?t]
      a [of False "?t\<lparr>ever_healthy := True, healthy_since := ticks s + 1\<rparr>"]
    by (cases "ever_healthy s") (simp_all add: tick_defs Let_def)
  moreover have "\<exists>new. sup_out (tick_release G T ?t) = sup_out ?t @ new"
    using p [of "''system''" ?t] by (simp add: tick_defs)
  ultimately show ?thesis using Tick by (simp add: handle_tick_def Let_def split: phase.split)
qed

interpretation sup: emitting_machine "sup_start G" "sup_step G T"
  "\<lambda>s. console_fits G \<longrightarrow> console_inv s" sup_out for G T
proof unfold_locales
  fix s
  assume "sup_start G s"
  then show "console_fits G \<longrightarrow> console_inv s" by (auto simp: sup_start_def console_inv_def)
qed (auto simp: console_inv_step sup_step_emits)

end
