(* ===== verification/Supervisor_Props.thy ===== *)
theory Supervisor_Props
  imports Supervisor
begin

text \<open>
  What the supervisor of \<open>sponge_supervisor/main.cc\<close> guarantees: its console switch follows its
  phase, its restart counter never repeats, a fault is escalated after its grace period and not
  before, and what it forwards is the complete substituted template.
\<close>

section \<open>The console\<close>

text \<open>A framework instance for the concrete runs: reports fit when they are no longer than the buffer.\<close>

definition plain_genode :: genode where
  "plain_genode = \<lparr>key_known = (\<lambda>k. True), parse_xml = (\<lambda>s. None), parse_hid = (\<lambda>s. Raw s),
     to_u32 = (\<lambda>s. None), to_bool = (\<lambda>s. None), ser_config = (\<lambda>x. None), print_nat = decimal,
     report_fits = (\<lambda>b n. n \<le> b)\<rparr>"

lemma plain_console_fits: "console_fits plain_genode"
  by (simp add: console_fits_def plain_genode_def console_text_def)

text \<open>
  C6: in every state the supervisor reaches after its first tick, whatever state reports and ticks
  arrive, the last report sent to the fault console arms it exactly when the phase is CONSOLE; so
  the console never keeps the display in another phase, and before the first tick nothing is sent.
\<close>

theorem console_armed_iff_console_phase:
  assumes "console_fits G" and "sup_start G s0"
  shows "let s = run (sup_step G T) s0 es
         in if phase s = BOOT then sup_out s = []
            else console_reports s \<noteq> [] \<and> (last (console_reports s) \<longleftrightarrow> phase s = CONSOLE)"
  using sup.reach_inv [OF assms(2), of T es] assms(1)
  by (simp add: console_inv_def Let_def split: if_splits)

theorem console_armed_iff_console_phase_witness:
  "let s = run (sup_step plain_genode None) (construct plain_genode None None) [Tick]
   in if phase s = BOOT then sup_out s = []
      else console_reports s \<noteq> [] \<and> (last (console_reports s) \<longleftrightarrow> phase s = CONSOLE)"
  by (rule console_armed_iff_console_phase)
     (rule plain_console_fits, auto simp: sup_start_def)

section \<open>The restart counter\<close>

definition version_inv :: "nat \<Rightarrow> sup \<Rightarrow> bool" where
  "version_inv n s \<longleftrightarrow> unat (kill_version s) \<le> n \<and> sorted_wrt (<) (versions s)
     \<and> (\<forall>v \<in> set (versions s). 0 < v \<and> v \<le> unat (kill_version s))"

definition counted :: "sup \<Rightarrow> sup \<Rightarrow> bool" where
  "counted s s' \<longleftrightarrow>
     (kill_version s' = kill_version s \<and> versions s' = versions s)
     \<or> (kill_version s' = kill_version s + 1
        \<and> (versions s' = versions s \<or> versions s' = versions s @ [unat (kill_version s + 1)]))"

lemma versions_upd [simp]:
  "versions (s\<lparr>ticks := a\<rparr>) = versions s" "versions (s\<lparr>fault_since := a\<rparr>) = versions s"
  "versions (s\<lparr>last_idle := a\<rparr>) = versions s" "versions (s\<lparr>phase := p\<rparr>) = versions s"
  "versions (s\<lparr>phase_since := a\<rparr>) = versions s" "versions (s\<lparr>ever_healthy := h\<rparr>) = versions s"
  "versions (s\<lparr>healthy_since := a\<rparr>) = versions s" "versions (s\<lparr>exited_baseline := a\<rparr>) = versions s"
  "versions (s\<lparr>reporters := h\<rparr>) = versions s"
  by (simp_all add: versions_def)

lemma counted_refl: "counted s s"
  by (simp add: counted_def)

lemma counted_publish: "counted s (publish G T n s)"
  by (cases rule: publish_cases [of G T n s])
     (auto simp: counted_def versions_def List.map_filter_def)

lemma counted_cong:
  "counted s s' \<Longrightarrow> kill_version t = kill_version s \<Longrightarrow> versions t = versions s
    \<Longrightarrow> kill_version t' = kill_version s' \<Longrightarrow> versions t' = versions s' \<Longrightarrow> counted t t'"
  by (simp add: counted_def)

lemma counted_tick: "counted s (handle_tick G T s)"
proof -
  let ?t = "s\<lparr>ticks := ticks s + 1\<rparr>"
  have p: "counted s (publish G T n t)" if "kill_version t = kill_version s" "versions t = versions s" for n t
    using counted_publish [of t G T n] that by (simp add: counted_def)
  note kv = p [unfolded counted_def, simplified]
  show ?thesis
  proof (cases "phase s")
    case BOOT
    then show ?thesis using kv [of "arm_console G False (s\<lparr>ticks := ticks s + 1, reporters := True\<rparr>)" "''system''"]
      by (simp add: handle_tick_def tick_defs Let_def counted_def)
  next
    case NOMINAL
    then show ?thesis using kv [of ?t "''system''"]
      by (simp add: handle_tick_def tick_defs Let_def counted_def)
  next
    case CONTAIN
    then show ?thesis using kv [of "s\<lparr>ticks := ticks s + 1, ever_healthy := False\<rparr>" "''system_console''"]
      by (simp add: handle_tick_def tick_defs Let_def counted_def)
  next
    case CONSOLE
    then show ?thesis by (simp add: handle_tick_def tick_defs Let_def counted_def)
  next
    case RELEASE
    then show ?thesis using kv [of ?t "''system''"]
      by (simp add: handle_tick_def tick_defs Let_def counted_def)
  qed
qed

lemma counted_step: "counted s (sup_step G T e s)"
  by (cases e) (simp_all add: counted_tick, simp add: counted_def versions_def)

lemma version_inv_step:
  assumes "version_inv n s" and "n < 2 ^ 32 - 1"
  shows "version_inv (Suc n) (sup_step G T e s)"
proof -
  have "unat (kill_version s + 1) = Suc (unat (kill_version s))"
    using assms by (intro unat_Suc_word) (simp add: version_inv_def)
  then show ?thesis
    using counted_step [of s G T e] assms(1)
    by (auto simp: counted_def version_inv_def sorted_wrt_append less_Suc_eq_le le_SucI)
qed

lemma version_inv_run:
  assumes "sup_start G s0"
  shows "length es < 2 ^ 32 \<Longrightarrow> version_inv (length es) (run (sup_step G T) s0 es)"
proof (induction es rule: rev_induct)
  case Nil
  then show ?case using assms by (auto simp: sup_start_def version_inv_def versions_def List.map_filter_def)
next
  case (snoc e es)
  then show ?case by (simp add: run_snoc version_inv_step)
qed

text \<open>
  Over any run of fewer than 2^32 events the restart counters that are published with the
  sandbox configurations strictly increase and start above zero, so no two publications restart the
  subtree under the same version, even when a publication in between was refused.
\<close>

theorem published_versions_increase:
  assumes "sup_start G s0" and "length es < 2 ^ 32"
  shows "sorted_wrt (<) (versions (run (sup_step G T) s0 es))
    \<and> (\<forall>v \<in> set (versions (run (sup_step G T) s0 es)). 0 < v \<and> v \<le> length es)"
  using version_inv_run [OF assms, of T] by (auto simp: version_inv_def)

theorem published_versions_increase_witness:
  "sorted_wrt (<) (versions (run (sup_step plain_genode None) (construct plain_genode None None) [Tick, Tick]))"
  using published_versions_increase [of plain_genode "construct plain_genode None None" "[Tick, Tick]" None]
  by (auto simp: sup_start_def)

section \<open>Escalation\<close>

definition tick_count :: "sup_event list \<Rightarrow> nat" where
  "tick_count es = length (filter (\<lambda>e. e = Tick) es)"

definition grace_len :: "sup \<Rightarrow> nat" where
  "grace_len s = max 1 (unat (grace_ticks s))"

text \<open>The window: \<open>n\<close> ticks ago at most, the fault was first seen.\<close>

definition watching :: "nat \<Rightarrow> sup \<Rightarrow> bool" where
  "watching n s \<longleftrightarrow> phase s = NOMINAL
     \<and> (fault_since s = 0 \<or> (0 < n \<and> unat (ticks s - fault_since s) \<le> n - 1))"

lemma watching_tick:
  assumes w: "watching n s" and n: "Suc n \<le> grace_len s"
  shows "watching (Suc n) (handle_tick G T s) \<and> sup_out (handle_tick G T s) = sup_out s
    \<and> kill_version (handle_tick G T s) = kill_version s
    \<and> grace_ticks (handle_tick G T s) = grace_ticks s"
proof (cases "faulted (s\<lparr>ticks := ticks s + 1\<rparr>) \<and> fault_since s \<noteq> 0")
  case True
  then have d: "0 < n" "unat (ticks s - fault_since s) \<le> n - 1" using w by (auto simp: watching_def)
  then have d': "unat (ticks s + 1 - fault_since s) \<le> n"
    using unat_diff_Suc [of "ticks s" "fault_since s"] by simp
  moreover have "n < unat (grace_ticks s)" using n d(1) by (simp add: grace_len_def split: if_splits)
  ultimately have "ticks s + 1 - fault_since s < grace_ticks s" by (simp add: word_less_nat_alt)
  then show ?thesis using True w d' by (simp add: handle_tick_def tick_nominal_def watching_def Let_def)
next
  case False
  then show ?thesis using w by (auto simp: handle_tick_def tick_nominal_def watching_def Let_def)
qed

lemma watching_run:
  "watching n s \<Longrightarrow> n + tick_count es \<le> grace_len s
    \<Longrightarrow> phase (run (sup_step G T) s es) = NOMINAL \<and> sup_out (run (sup_step G T) s es) = sup_out s
      \<and> kill_version (run (sup_step G T) s es) = kill_version s"
proof (induction es arbitrary: n s)
  case Nil
  then show ?case by (simp add: watching_def)
next
  case (Cons e es)
  show ?case
  proof (cases e)
    case Tick
    have le: "Suc n \<le> grace_len s" "Suc n + tick_count es \<le> grace_len s"
      using Cons.prems(2) Tick by (auto simp: tick_count_def)
    note wt = watching_tick [OF Cons.prems(1) le(1), of G T]
    then have "grace_len (handle_tick G T s) = grace_len s" by (simp add: grace_len_def)
    then show ?thesis using Cons.IH [of "Suc n" "handle_tick G T s"] wt le(2) Tick by simp
  next
    case (State b)
    have "watching n (handle_state G b s)" using Cons.prems(1) by (simp add: watching_def)
    moreover have "n + tick_count es \<le> grace_len (handle_state G b s)"
      using Cons.prems(2) State by (simp add: tick_count_def grace_len_def)
    ultimately show ?thesis using Cons.IH [of n "handle_state G b s"] State by simp
  qed
qed

text \<open>
  A healthy tick in NOMINAL closes the escalation window: during the next \<open>max 1 grace_ticks\<close>
  ticks, with any state reports in between, the supervisor publishes nothing and stays in NOMINAL.
  A fault that the sandbox repairs within the grace period never restarts the subtree.
\<close>

theorem no_kill_within_grace:
  assumes "phase s = NOMINAL" and "\<not> faulted (s\<lparr>ticks := ticks s + 1\<rparr>)"
    and "tick_count es \<le> max 1 (unat (grace_ticks s))"
  shows "let s' = run (sup_step G T) s (Tick # es)
         in phase s' = NOMINAL \<and> sup_out s' = sup_out s \<and> kill_version s' = kill_version s"
proof -
  let ?h = "handle_tick G T s"
  have h: "watching 0 ?h \<and> sup_out ?h = sup_out s \<and> kill_version ?h = kill_version s
      \<and> grace_ticks ?h = grace_ticks s"
    using assms(1,2) by (simp add: handle_tick_def tick_nominal_def watching_def Let_def)
  then have "0 + tick_count es \<le> grace_len ?h" using assms(3) by (simp add: grace_len_def)
  with h show ?thesis using watching_run [of 0 ?h es G T] by (simp add: Let_def)
qed

definition healthy_sup :: sup where
  "healthy_sup = sup_init\<lparr>phase := NOMINAL, state_seen := True, grace_ticks := 16,
     console_ticks := 16, settle_ticks := 12, reporters := True\<rparr>"

theorem no_kill_within_grace_witness:
  "let s' = run (sup_step plain_genode None) healthy_sup (Tick # replicate 16 Tick)
   in phase s' = NOMINAL \<and> sup_out s' = sup_out healthy_sup \<and> kill_version s' = kill_version healthy_sup"
  by (rule no_kill_within_grace) (simp_all add: healthy_sup_def sup_init_def faulted_def tick_count_def)

text \<open>Ticks on which nothing happens.\<close>

lemma run_idle:
  assumes "\<And>k. k < n \<Longrightarrow> handle_tick G T (s\<lparr>ticks := ticks s + of_nat k\<rparr>) = s\<lparr>ticks := ticks s + of_nat (Suc k)\<rparr>"
  shows "run (sup_step G T) s (replicate n Tick) = s\<lparr>ticks := ticks s + of_nat n\<rparr>"
  using assms
proof (induction n)
  case 0
  then show ?case by simp
next
  case (Suc n)
  have "run (sup_step G T) s (replicate (Suc n) Tick) = run (sup_step G T) s (replicate n Tick @ [Tick])"
    by (simp add: replicate_append_same)
  also have "\<dots> = handle_tick G T (s\<lparr>ticks := ticks s + of_nat n\<rparr>)"
    using Suc by (simp add: run_append)
  also have "\<dots> = s\<lparr>ticks := ticks s + of_nat (Suc n)\<rparr>" by (rule Suc.prems) simp
  finally show ?case .
qed

text \<open>The states a wedged subtree passes through.\<close>

abbreviation wedged :: "sup \<Rightarrow> bool" where
  "wedged s \<equiv> fault_skipped s \<le> max_skipped s"

definition hold_for :: "sup \<Rightarrow> nat" where
  "hold_for s = max 1 (unat (case phase s of CONSOLE \<Rightarrow> console_ticks s | RELEASE \<Rightarrow> settle_ticks s
     | _ \<Rightarrow> grace_ticks s))"

text \<open>A phase has just begun: its reference tick is now, and the settle discipline is reset.\<close>

definition begun :: "sup \<Rightarrow> bool" where
  "begun s \<longleftrightarrow> wedged s \<and> phase s \<noteq> BOOT \<and>
     (if phase s = NOMINAL then fault_since s = ticks s \<and> ticks s \<noteq> 0
      else phase_since s = ticks s \<and> \<not> ever_healthy s)"

lemma wedged_hold:
  assumes "begun s" and "n < hold_for s"
  shows "run (sup_step G T) s (replicate n Tick) = s\<lparr>ticks := ticks s + of_nat n\<rparr>"
proof (rule run_idle)
  fix k
  assume "k < n"
  then have "Suc k < hold_for s" using assms(2) by simp
  then have e: "ticks s + of_nat (Suc k) - ticks s <
      (case phase s of CONSOLE \<Rightarrow> console_ticks s | RELEASE \<Rightarrow> settle_ticks s | _ \<Rightarrow> grace_ticks s)"
    unfolding hold_for_def by (rule elapsed_less)
  have c: "ticks s + of_nat k + 1 = ticks s + of_nat (Suc k)" by simp
  have eh: "s\<lparr>ticks := a, ever_healthy := False\<rparr> = s\<lparr>ticks := a\<rparr>" if "\<not> ever_healthy s" for a
    using that by (cases s) simp
  show "handle_tick G T (s\<lparr>ticks := ticks s + of_nat k\<rparr>) = s\<lparr>ticks := ticks s + of_nat (Suc k)\<rparr>"
    using assms(1) e
    by (cases "phase s") (simp_all add: begun_def handle_tick_def tick_nominal_def tick_contain_def
        tick_console_def tick_release_def faulted_def c eh Let_def del: of_nat_Suc)
qed

fun next_phase :: "phase \<Rightarrow> phase" where
  "next_phase BOOT = NOMINAL"
| "next_phase NOMINAL = CONTAIN"
| "next_phase CONTAIN = CONSOLE"
| "next_phase CONSOLE = RELEASE"
| "next_phase RELEASE = NOMINAL"

definition same_policy :: "sup \<Rightarrow> sup \<Rightarrow> bool" where
  "same_policy s s' \<longleftrightarrow> grace_ticks s' = grace_ticks s \<and> console_ticks s' = console_ticks s
     \<and> settle_ticks s' = settle_ticks s \<and> reporters s' = reporters s \<and> (wedged s' \<longleftrightarrow> wedged s)"

lemma wedged_leave:
  fixes s :: sup and T :: "string option"
  assumes b: "begun s" and fits: "console_fits G" "reporters s"
  defines "s' \<equiv> run (sup_step G T) s (replicate (hold_for s) Tick)"
  shows "phase s' = next_phase (phase s) \<and> same_policy s s' \<and> ticks s' = ticks s + of_nat (hold_for s)
    \<and> (phase s \<noteq> RELEASE \<longrightarrow> begun s') \<and> (phase s = RELEASE \<longrightarrow> fault_since s' = 0)
    \<and> console_reports s' = console_reports s
        @ (if phase s = CONTAIN then [True] else if phase s = CONSOLE then [False] else [])"
proof -
  define n where "n = hold_for s - 1"
  have n: "hold_for s = Suc n" "n < hold_for s" by (auto simp: n_def hold_for_def)
  have "s' = run (sup_step G T) s (replicate n Tick @ [Tick])"
    unfolding s'_def n(1) by (simp add: replicate_append_same)
  also have "\<dots> = handle_tick G T (s\<lparr>ticks := ticks s + of_nat n\<rparr>)"
    by (simp only: run_snoc wedged_hold [OF b n(2)] sup_step.simps)
  finally have s': "s' = handle_tick G T (s\<lparr>ticks := ticks s + of_nat n\<rparr>)" .
  have c: "ticks s + of_nat n + 1 = ticks s + of_nat (hold_for s)" by (simp add: n(1))
  have e: "\<not> (ticks s + of_nat (hold_for s) - ticks s <
      (case phase s of CONSOLE \<Rightarrow> console_ticks s | RELEASE \<Rightarrow> settle_ticks s | _ \<Rightarrow> grace_ticks s))"
    unfolding hold_for_def by (rule elapsed_ge)
  show ?thesis using b e fits
    by (cases "phase s") (simp_all add: s' begun_def handle_tick_def tick_defs faulted_def c Let_def
        same_policy_def console_reports_arm del: of_nat_Suc)
qed

lemma hold_for_simps:
  "phase s = NOMINAL \<Longrightarrow> hold_for s = grace_len s" "phase s = CONTAIN \<Longrightarrow> hold_for s = grace_len s"
  "phase s = CONSOLE \<Longrightarrow> hold_for s = max 1 (unat (console_ticks s))"
  "phase s = RELEASE \<Longrightarrow> hold_for s = max 1 (unat (settle_ticks s))"
  by (simp_all add: hold_for_def grace_len_def)

lemma same_policy_len: "same_policy s s' \<Longrightarrow> grace_len s' = grace_len s"
  by (simp add: same_policy_def grace_len_def)

text \<open>
  C2: the takeover is live and exactly timed. When the sandbox reports a child past its heartbeat
  threshold and no report changes that, a supervisor in NOMINAL whose window is closed restarts the
  subtree (CONTAIN) on tick \<open>1 + g\<close>, arms the fault console (CONSOLE) on tick \<open>1 + 2 g\<close>, disarms it
  after \<open>max 1 console_ticks\<close> more (RELEASE), and is back in NOMINAL after \<open>max 1 settle_ticks\<close>
  more, where \<open>g = max 1 grace_ticks\<close>; the console is armed once and disarmed once.
\<close>

theorem wedged_takeover:
  fixes s :: sup and T :: "string option"
  assumes fits: "console_fits G" and rep: "reporters s" and ph: "phase s = NOMINAL"
    and fs: "fault_since s = 0" and w: "fault_skipped s \<le> max_skipped s" and tk: "ticks s + 1 \<noteq> 0"
  defines "g \<equiv> max 1 (unat (grace_ticks s))" and "c \<equiv> max 1 (unat (console_ticks s))"
    and "d \<equiv> max 1 (unat (settle_ticks s))" and "after \<equiv> \<lambda>n. run (sup_step G T) s (replicate n Tick)"
  shows "phase (after (1 + g)) = CONTAIN \<and> phase (after (1 + 2 * g)) = CONSOLE
    \<and> phase (after (1 + 2 * g + c)) = RELEASE \<and> phase (after (1 + 2 * g + c + d)) = NOMINAL
    \<and> console_reports (after (1 + 2 * g)) = console_reports s @ [True]
    \<and> console_reports (after (1 + 2 * g + c + d)) = console_reports s @ [True, False]"
proof -
  have add: "after (m + n) = run (sup_step G T) (after m) (replicate n Tick)" for m n
    by (simp add: after_def replicate_add run_append)
  have a1: "after 1 = s\<lparr>ticks := ticks s + 1, fault_since := ticks s + 1\<rparr>"
    using ph fs w by (simp add: after_def handle_tick_def tick_nominal_def faulted_def Let_def)
  then have b1: "begun (after 1)" and p1: "phase (after 1) = NOMINAL" "same_policy s (after 1)"
    and r1: "console_reports (after 1) = console_reports s"
    using ph w tk by (auto simp: begun_def same_policy_def)
  have h1: "hold_for (after 1) = g"
    using p1 hold_for_simps(1) [OF p1(1)] same_policy_len [OF p1(2)] by (simp add: g_def grace_len_def)
  have rep1: "reporters (after 1)" using p1(2) rep by (simp add: same_policy_def)
  note l1 = wedged_leave [OF b1 fits rep1, of T, unfolded h1, folded add, simplified p1(1)]
  have p2: "phase (after (1 + g)) = CONTAIN" "same_policy s (after (1 + g))" "begun (after (1 + g))"
    "console_reports (after (1 + g)) = console_reports s"
    using l1 p1(2) r1 by (auto simp: same_policy_def)
  have h2: "hold_for (after (1 + g)) = g"
    using hold_for_simps(2) [OF p2(1)] same_policy_len [OF p2(2)] by (simp add: g_def grace_len_def)
  have rep2: "reporters (after (1 + g))" using p2(2) rep by (simp add: same_policy_def)
  note l2 = wedged_leave [OF p2(3) fits rep2, of T, unfolded h2, folded add, simplified p2(1)]
  have e2: "1 + g + g = 1 + 2 * g" by simp
  have p3: "phase (after (1 + 2 * g)) = CONSOLE" "same_policy s (after (1 + 2 * g))"
    "begun (after (1 + 2 * g))" "console_reports (after (1 + 2 * g)) = console_reports s @ [True]"
    using l2 p2(2,4) unfolding e2 by (auto simp: same_policy_def)
  have h3: "hold_for (after (1 + 2 * g)) = c"
    using hold_for_simps(3) [OF p3(1)] p3(2) by (simp add: c_def same_policy_def)
  have rep3: "reporters (after (1 + 2 * g))" using p3(2) rep by (simp add: same_policy_def)
  note l3 = wedged_leave [OF p3(3) fits rep3, of T, unfolded h3, folded add, simplified p3(1)]
  have p4: "phase (after (1 + 2 * g + c)) = RELEASE" "same_policy s (after (1 + 2 * g + c))"
    "begun (after (1 + 2 * g + c))"
    "console_reports (after (1 + 2 * g + c)) = console_reports s @ [True, False]"
    using l3 p3(2,4) by (auto simp: same_policy_def)
  have h4: "hold_for (after (1 + 2 * g + c)) = d"
    using hold_for_simps(4) [OF p4(1)] p4(2) by (simp add: d_def same_policy_def)
  have rep4: "reporters (after (1 + 2 * g + c))" using p4(2) rep by (simp add: same_policy_def)
  note l4 = wedged_leave [OF p4(3) fits rep4, of T, unfolded h4, folded add, simplified p4(1)]
  show ?thesis using p2(1) p3(1,4) p4(1,4) l4 by simp
qed

definition wedged_sup :: sup where
  "wedged_sup = healthy_sup\<lparr>grace_ticks := 2, console_ticks := 2, settle_ticks := 1, max_skipped := 5\<rparr>"

theorem wedged_takeover_witness:
  "let after = (\<lambda>n. run (sup_step plain_genode None) wedged_sup (replicate n Tick))
   in phase (after 3) = CONTAIN \<and> phase (after 5) = CONSOLE \<and> phase (after 7) = RELEASE
    \<and> phase (after 8) = NOMINAL"
proof -
  have w: "reporters wedged_sup" "phase wedged_sup = NOMINAL" "fault_since wedged_sup = 0"
    "fault_skipped wedged_sup \<le> max_skipped wedged_sup" "ticks wedged_sup + 1 \<noteq> 0"
    "unat (grace_ticks wedged_sup) = 2" "unat (console_ticks wedged_sup) = 2"
    "unat (settle_ticks wedged_sup) = 1"
    by (simp_all add: wedged_sup_def healthy_sup_def sup_init_def)
  show ?thesis
    using wedged_takeover [OF plain_console_fits w(1-5), of None]
    by (simp add: w(6-8) Let_def eval_nat_numeral del: replicate_Suc)
qed

section \<open>What is forwarded\<close>

text \<open>
  A sandbox configuration that is published is complete. Whatever the templates hold, either
  nothing is sent, or the report is the \<open>config\<close> element of the template with every occurrence of
  the marker replaced by the new restart counter, still ending in its closing tag, and at most 128 KiB
  long; a cut text is never forwarded (given that the report session refuses what exceeds its buffer).
\<close>

theorem published_config_complete:
  assumes fits: "\<And>b n. report_fits G b n \<Longrightarrow> n \<le> b" and t: "template_text T name = Some src"
  shows "sup_out (publish G T name s) = sup_out s
    \<or> (\<exists>out. sup_out (publish G T name s)
          = sup_out s @ [System_report name (kill_version s + 1) out]
        \<and> out = replace_all KILL (decimal (unat (kill_version s + 1))) src
        \<and> suffix CONFIG_END out \<and> length out \<le> 128 * 1024)"
proof (cases "sup_out (publish G T name s) = sup_out s")
  case False
  define v where "v = kill_version s + 1"
  define out where "out = substitute_decimal src KILL v publish_cap"
  have tail: "9 \<le> length src" "drop (length src - 9) src = CONFIG_END"
    using False t by (auto simp: publish_def split: if_splits)
  have rf: "report_fits G (128 * 1024) (length out)"
    and pub: "sup_out (publish G T name s) = sup_out s @ [System_report name v out]"
    using False t tail by (auto simp: publish_def Let_def out_def v_def split: if_splits)
  have len: "length out \<le> 128 * 1024" using fits [OF rf] by simp
  have "length (decimal (unat v)) \<le> 10" by (rule length_decimal_u32)
  with len have "\<not> publish_cap \<le> length out + length (decimal (unat v)) + 1" by simp
  then have out: "out = replace_all KILL (decimal (unat v)) src"
    using length_subst_go_cut [of KILL "decimal (unat v)" publish_cap "[]" src]
    by (simp add: out_def substitute_decimal_def)
  have src: "src = take (length src - 9) src @ CONFIG_END"
    using append_take_drop_id [of "length src - 9" src] unfolding tail(2) by simp
  have "out = replace_all KILL (decimal (unat v)) (take (length src - 9) src @ CONFIG_END)"
    using out src by simp
  also have "\<dots> = replace_all KILL (decimal (unat v)) (take (length src - 9) src) @ CONFIG_END"
    by (rule replace_all_append) simp_all
  finally have "suffix CONFIG_END out" by (simp add: suffix_def)
  with pub out len show ?thesis by (auto simp: v_def)
qed simp

definition small_templates :: string where
  "small_templates = ''<system><config v=@KILL@></config></system>''"

theorem published_config_complete_witness:
  "sup_out (publish plain_genode (Some small_templates) ''system'' sup_init)
    = [System_report ''system'' 1 ''<config v=1></config>'']"
proof -
  have t: "template_text (Some small_templates) ''system'' = Some ''<config v=@KILL@></config>''"
    by code_simp
  have d: "decimal (unat (1 :: u32)) = ''1''" by code_simp
  have r: "replace_all KILL ''1'' ''<config v=@KILL@></config>'' = ''<config v=1></config>''"
    by code_simp
  have o: "substitute_decimal ''<config v=@KILL@></config>'' KILL 1 publish_cap = ''<config v=1></config>''"
    using substitute_decimal_replaces [of KILL 1 "''<config v=@KILL@></config>''" publish_cap]
    unfolding d r by simp
  have n: "sup_out (publish plain_genode (Some small_templates) ''system'' sup_init) \<noteq> []"
    by (simp add: publish_def t sup_init_def o [simplified] plain_genode_def Let_def)
  have f: "report_fits plain_genode b n \<Longrightarrow> n \<le> b" for b n by (simp add: plain_genode_def)
  from published_config_complete [where G = plain_genode and s = sup_init, OF f t] n show ?thesis
    by (simp add: sup_init_def d [simplified] r [simplified])
qed

section \<open>What counts as a fault\<close>

lemma excluded_go_iff:
  "name \<noteq> [] \<Longrightarrow> excluded_go name p \<longleftrightarrow> name \<in> set (split_on CHR '','' p)"
proof (induction name p rule: excluded_go.induct)
  case (1 name p)
  show ?case
  proof (cases p)
    case Nil
    then show ?thesis using 1(2) by (simp add: excluded_go.simps)
  next
    case (Cons c cs)
    let ?t = "takeWhile (\<lambda>c. c \<noteq> CHR '','') p" and ?d = "dropWhile (\<lambda>c. c \<noteq> CHR '','') p"
    have u: "set (split_on CHR '','' p) = insert ?t (case ?d of [] \<Rightarrow> {} | _ # r \<Rightarrow> set (split_on CHR '','' r))"
      by (cases ?d; simp only: split_on_unfold [of "CHR '',''" p] list.case list.set)
    have e: "excluded_go name p \<longleftrightarrow> ?t = name \<or> excluded_go name (tl ?d)"
      using Cons by (subst excluded_go.simps) simp
    show ?thesis
    proof (cases "?t = name")
      case True
      then show ?thesis using e u by auto
    next
      case False
      then have "excluded_go name (tl ?d) \<longleftrightarrow> name \<in> set (split_on CHR '','' (tl ?d))"
        using 1 Cons by simp
      then show ?thesis using e u False 1(2) by (cases ?d) auto
    qed
  qed
qed

definition unexpected_exit :: "sup \<Rightarrow> xml \<Rightarrow> bool" where
  "unexpected_exit s n \<longleftrightarrow> attr n ''exited'' \<noteq> None
     \<and> attr_str 64 n ''name'' \<notin> set (split_on CHR '','' (cstr (ignore_exited s)))"

definition exempt :: "sup \<Rightarrow> xml \<Rightarrow> bool" where
  "exempt s n \<longleftrightarrow> attr_str 16 n ''heartbeat_state'' = ''starting'' \<and> ignore_starting s"

definition skips :: "genode \<Rightarrow> xml \<Rightarrow> u32" where
  "skips G n = attr_u32 G n ''skipped_heartbeats'' 0"

lemma scan_parts_counts:
  "max_skipped (count_starting b s) = max_skipped s" "exited (count_starting b s) = exited s"
  "max_skipped (raise_skipped v b s) = (if b \<and> ignore_starting s then max_skipped s else max (max_skipped s) v)"
  "exited (raise_skipped v b s) = exited s"
  "max_skipped (count_exited g n s) = max_skipped s"
  "exited (count_exited g n s) = exited s + (if g \<and> \<not> excluded s n then 1 else 0)"
  by (simp_all add: count_starting_def raise_skipped_def count_exited_def max_def less_imp_le)

lemma scan_parts_config:
  "fault_skipped (count_starting b s) = fault_skipped s" "state_seen (count_starting b s) = state_seen s"
  "exited_baseline (count_starting b s) = exited_baseline s"
  "fault_skipped (raise_skipped v b s) = fault_skipped s" "state_seen (raise_skipped v b s) = state_seen s"
  "exited_baseline (raise_skipped v b s) = exited_baseline s"
  "fault_skipped (count_exited g n s) = fault_skipped s" "state_seen (count_exited g n s) = state_seen s"
  "exited_baseline (count_exited g n s) = exited_baseline s"
  by (simp_all add: count_starting_def raise_skipped_def count_exited_def)

lemma scan_child_counts:
  assumes "has_type n ''child''" and "attr_str 64 n ''name'' \<noteq> []"
  shows "max_skipped (scan_child G n s) = (if exempt s n then max_skipped s else max (max_skipped s) (skips G n))"
    and "exited (scan_child G n s) = exited s + (if unexpected_exit s n then 1 else 0)"
  using assms
  by (simp_all add: scan_child_def Let_def scan_parts_counts scan_parts_frame exempt_def
      unexpected_exit_def skips_def excluded_def excluded_go_iff)

lemma scan_child_config:
  "fault_skipped (scan_child G n s) = fault_skipped s" "ignore_starting (scan_child G n s) = ignore_starting s"
  "ignore_exited (scan_child G n s) = ignore_exited s" "state_seen (scan_child G n s) = state_seen s"
  "exited_baseline (scan_child G n s) = exited_baseline s"
  by (simp_all add: scan_child_def Let_def scan_parts_config scan_parts_frame)

lemma scan_children_counts:
  assumes "\<forall>n \<in> set ns. has_type n ''child'' \<longrightarrow> attr_str 64 n ''name'' \<noteq> []"
  defines "cs \<equiv> filter (\<lambda>n. has_type n ''child'') ns"
  shows "max_skipped (fold (scan_child G) ns s) = foldl max (max_skipped s) (map (skips G) (filter (\<lambda>n. \<not> exempt s n) cs))
    \<and> exited (fold (scan_child G) ns s) = exited s + of_nat (length (filter (unexpected_exit s) cs))
    \<and> fault_skipped (fold (scan_child G) ns s) = fault_skipped s
    \<and> state_seen (fold (scan_child G) ns s) = state_seen s
    \<and> exited_baseline (fold (scan_child G) ns s) = exited_baseline s"
  using assms(1) unfolding cs_def
proof (induction ns arbitrary: s)
  case Nil
  then show ?case by simp
next
  case (Cons n ns)
  let ?s = "scan_child G n s"
  have same: "exempt ?s = exempt s" "unexpected_exit ?s = unexpected_exit s"
    by (auto simp: fun_eq_iff exempt_def unexpected_exit_def scan_child_config)
  show ?case
  proof (cases "has_type n ''child''")
    case True
    then show ?thesis using Cons scan_child_counts [OF True, of G s] by (simp add: same scan_child_config)
  next
    case False
    then have "?s = s" by (simp add: scan_child_def)
    then show ?thesis using Cons False by simp
  qed
qed

lemma le_foldl_max: "(x::u32) \<le> foldl max a xs \<longleftrightarrow> x \<le> a \<or> (\<exists>y \<in> set xs. x \<le> y)"
  by (induction xs arbitrary: a) (auto simp: le_max_iff_disj)

text \<open>
  After a state report the subtree counts as faulted exactly when the configured threshold is
  zero, or some child that is not exempt as still starting has skipped at least the configured number
  of heartbeats, or the number of children that exited without being on the comma-separated
  \<open>ignore_exited\<close> list (as a 32-bit count) is above the baseline of the last containment; earlier
  reports leave no trace, and report age is no fault.
\<close>

theorem fault_after_report:
  assumes "\<forall>n \<in> set (kids (parse_hid G bytes)). has_type n ''child'' \<longrightarrow> attr_str 64 n ''name'' \<noteq> []"
  defines "cs \<equiv> kids_of_type (parse_hid G bytes) ''child''"
  shows "faulted (handle_state G (Some bytes) s) \<longleftrightarrow>
      fault_skipped s = 0
      \<or> (\<exists>n \<in> set cs. \<not> exempt s n \<and> fault_skipped s \<le> skips G n)
      \<or> exited_baseline s < of_nat (length (filter (unexpected_exit s) cs))"
proof -
  let ?s0 = "s\<lparr>state_seen := True, state_at := ticks s, max_skipped := 0, exited := 0, starting := 0\<rparr>"
  have e: "exempt ?s0 = exempt s" "unexpected_exit ?s0 = unexpected_exit s"
    by (auto simp: fun_eq_iff exempt_def unexpected_exit_def)
  note c = scan_children_counts [OF assms(1), of G ?s0, folded kids_of_type_def, folded cs_def, unfolded e]
  show ?thesis
    using c by (auto simp: faulted_def handle_state_def scan_state_def le_foldl_max)
qed

definition report_genode :: genode where
  "report_genode = plain_genode\<lparr>
     parse_hid := (\<lambda>b. node ''state'' []
       [leaf ''child'' [(''name'', ''nitpicker''), (''skipped_heartbeats'', ''5'')],
        leaf ''child'' [(''name'', ''alpha_probe''), (''exited'', ''0'')]]),
     to_u32 := (\<lambda>v. if v = ''5'' then Some 5 else None)\<rparr>"

theorem fault_after_report_witness:
  "faulted (handle_state report_genode (Some []) sup_init)"
  using fault_after_report [of report_genode "[]" sup_init]
  by (simp add: report_genode_def attr_str_def kids_of_type_def exempt_def sup_init_def skips_def
       attr_u32_def)

end
