(* ===== verification/Text_Scan_Props.thy ===== *)
theory Text_Scan_Props
  imports Text_Scan
begin

text \<open>
  What the scanners of \<open>text_scan.h\<close> return: attributes in either spelling, complete elements,
  and the bounded substitution of the restart counter; and where an element is cut short.
\<close>

section \<open>Attributes\<close>

text \<open>
  An attribute is found with the same value whether its configuration was serialised as XML
  (\<open>key="v"\<close>) or as HID (\<open>key: v\<close>), provided no earlier position of the text starts the attribute.
\<close>

theorem scan_attr_both_spellings:
  assumes "key_free key None pre (key @ CHR ''='' # DQ # v @ DQ # rest)"
    and "key_free key None pre' (key @ CHR '':'' # SP # v @ e # rest')"
    and "case last_char None pre of None \<Rightarrow> True | Some c \<Rightarrow> \<not> name_char c"
    and "case last_char None pre' of None \<Rightarrow> True | Some c \<Rightarrow> \<not> name_char c"
    and "v \<noteq> []" and "\<forall>c \<in> set v. \<not> bare_end c" and "bare_end e"
  shows "scan_attr (pre @ key @ CHR ''='' # DQ # v @ DQ # rest) key = Some v
    \<and> scan_attr (pre' @ key @ CHR '':'' # SP # v @ e # rest') key = Some v"
proof
  have dq: "DQ \<notin> set v" using assms(6) by (auto simp: bare_end_def)
  show "scan_attr (pre @ key @ CHR ''='' # DQ # v @ DQ # rest) key = Some v"
    using assms(1,3) dq by (simp add: scan_attr_def scan_from_skip scan_from_hit attr_value_quoted)
  show "scan_attr (pre' @ key @ CHR '':'' # SP # v @ e # rest') key = Some v"
    using assms(2,4-7) by (simp add: scan_attr_def scan_from_skip scan_from_hit attr_value_bare)
qed

theorem scan_attr_both_spellings_witness:
  "scan_attr (''<config '' @ ''poll_ms'' @ CHR ''='' # DQ # ''250'' @ DQ # ''/>'') ''poll_ms'' = Some ''250''
   \<and> scan_attr (''config | '' @ ''poll_ms'' @ CHR '':'' # SP # ''250'' @ NL # []) ''poll_ms'' = Some ''250''"
  by (rule scan_attr_both_spellings)
     (simp_all add: last_char_def name_char_def bare_end_def is_lower_def is_upper_def is_digit_def
       less_eq_char_def)

section \<open>Elements\<close>

text \<open>
  C34: the element that is extracted is complete: from its opening tag, attributes with quoted values of
  any content included, to the closing tag that matches it, with elements of the same name nested inside
  it to any depth, self-closing ones included, and other markup inside and before it. The other markup
  must not look like a tag of the name, which a closing tag does that only begins with the name.
\<close>

theorem element_text_complete:
  assumes "name \<noteq> []" and "hd name \<noteq> CHR ''/''" and "last name \<noteq> CHR ''/''"
    and "untagged name pre (open_tag name as @ body @ close_tag name @ post)"
    and "tag_attrs as" and "as = [] \<or> last as \<noteq> CHR ''/''"
    and "nested name body"
  shows "element_text (pre @ open_tag name as @ body @ close_tag name @ post) name
    = Some (open_tag name as @ body @ close_tag name)"
  using assms by (rule element_text_nested)

lemma nested_chars: "CHR ''<'' \<notin> set s \<Longrightarrow> nested name s"
  by (induction s) (auto intro: nested.intros)

text \<open>An attribute whose value holds the end of a tag and a slash.\<close>

definition tricky_attr :: string where
  "tricky_attr = '' a='' @ [DQ] @ ''x>/y'' @ [DQ]"

lemma tricky_attr_ok: "tag_attrs tricky_attr" "last tricky_attr \<noteq> CHR ''/''" "tricky_attr \<noteq> []"
  by (simp_all add: tricky_attr_def tag_attrs_def tag_delim_def)

lemma nested_example: "nested ''config'' (open_tag ''config'' tricky_attr @ ''x'' @ close_tag ''config'' @ ''<config/>'')"
proof -
  have "nested ''config'' (open_tag ''config'' ([] @ ''/'') @ [])"
    by (rule nested.Leaf) (auto intro: nested.Nil simp: tag_attrs_def)
  then have "nested ''config'' (open_tag ''config'' tricky_attr @ ''x'' @ close_tag ''config''
      @ (open_tag ''config'' ([] @ ''/'') @ []))"
    by (rule nested.Elem [rotated]) (simp_all add: tricky_attr_ok nested_chars)
  then show ?thesis by simp
qed

theorem element_text_complete_witness:
  "element_text (''<configs>'' @ open_tag ''config'' tricky_attr
      @ (open_tag ''config'' tricky_attr @ ''x'' @ close_tag ''config'' @ ''<config/>'') @ close_tag ''config'' @ ''y'') ''config''
    = Some (open_tag ''config'' tricky_attr
      @ (open_tag ''config'' tricky_attr @ ''x'' @ close_tag ''config'' @ ''<config/>'') @ close_tag ''config'')"
  by (rule element_text_complete)
    (simp_all only: tricky_attr_ok nested_example, simp_all add: is_open_def is_close_def tag_delim_def)

text \<open>
  A closing tag is recognised by its prefix only. Where an element contains a child whose name
  extends its own, the extraction stops at the closing tag of the child, and the text handed on is
  not the element: the closing tag of the element itself is cut off.
\<close>

theorem element_text_stops_at_longer_name:
  assumes "name \<noteq> []" and "hd name \<noteq> CHR ''/''" and "last name \<noteq> CHR ''/''"
    and "nested name body" and "in_tag None ext"
  shows "element_text (open_tag name [] @ body @ close_tag (name @ ext) @ post) name
    = Some (open_tag name [] @ body @ close_tag (name @ ext))"
proof -
  let ?st = "open_tag name [] @ body @ close_tag (name @ ext) @ post"
  have no: "\<not> is_open name (CHR ''/'' # name @ ext @ CHR ''>'' # post)"
    using assms(1,2) by (cases name) (auto simp: is_open_def)
  have cl: "is_close name (CHR ''/'' # name @ ext @ CHR ''>'' # post)"
    by (simp add: is_close_def)
  have sk: "skip_tag None (ext @ CHR ''>'' # post) = Suc (length ext)"
    using assms(5) by (rule skip_tag_attrs)
  have "element_text ?st name = elem_go name (Suc 0) (Some ?st) (body @ close_tag (name @ ext) @ post)"
    using elem_go_open [of "[]" name 0 None "body @ close_tag (name @ ext) @ post"] assms(1,3)
    by (simp add: element_text_def tag_attrs_def)
  also have "\<dots> = elem_go name (Suc 0) (Some ?st) (close_tag (name @ ext) @ post)"
    using assms(1-4) by (intro elem_go_nested)
  also have "\<dots> = Some (take (length ?st - length post) ?st)"
    using no cl sk by (simp add: elem_go.simps Let_def)
  also have "take (length ?st - length post) ?st = open_tag name [] @ body @ close_tag (name @ ext)"
    using take_diff_append [of "open_tag name [] @ body @ close_tag (name @ ext)" post]
    by (simp only: append_assoc append_Cons)
  finally show ?thesis .
qed

lemma nested_other_example: "nested ''config'' (''<other>x'')"
  by (rule nested.Other) (simp_all add: nested_chars is_open_def is_close_def)

theorem element_text_stops_at_longer_name_witness:
  "element_text (open_tag ''config'' [] @ ''<other>x'' @ close_tag (''config'' @ ''_rom'')
      @ ''</other></config>'') ''config''
    = Some (open_tag ''config'' [] @ ''<other>x'' @ close_tag (''config'' @ ''_rom''))"
  by (rule element_text_stops_at_longer_name) (simp_all add: nested_other_example)

section \<open>Substitution\<close>

text \<open>
  Substituting the restart counter never exceeds the buffer, NUL included; what is written is
  a prefix of the text with every marker replaced, and it is the whole of it unless the buffer was
  filled up to less than the length of one number.
\<close>

theorem substitute_decimal_bounded:
  assumes "2 \<le> cap" and "marker \<noteq> []"
  shows "length (substitute_decimal src marker v cap) + 2 \<le> cap
    \<and> prefix (substitute_decimal src marker v cap) (replace_all marker (decimal (unat v)) src)
    \<and> (substitute_decimal src marker v cap = replace_all marker (decimal (unat v)) src
       \<or> cap \<le> length (substitute_decimal src marker v cap) + 11)"
proof (intro conjI)
  show "length (substitute_decimal src marker v cap) + 2 \<le> cap"
    using assms(1) by (rule length_substitute_decimal)
  show "prefix (substitute_decimal src marker v cap) (replace_all marker (decimal (unat v)) src)"
    using prefix_subst_go [OF assms(2), of "decimal (unat v)" cap "[]" src]
    by (simp add: substitute_decimal_def)
  show "substitute_decimal src marker v cap = replace_all marker (decimal (unat v)) src
      \<or> cap \<le> length (substitute_decimal src marker v cap) + 11"
    using length_subst_go_cut [OF assms(2), of "decimal (unat v)" cap "[]" src] length_decimal_u32 [of v]
    by (auto simp: substitute_decimal_def)
qed

theorem substitute_decimal_bounded_witness:
  "length (substitute_decimal ''a@K@b'' ''@K@'' 17 4) + 2 \<le> 4
   \<and> prefix (substitute_decimal ''a@K@b'' ''@K@'' 17 4) (replace_all ''@K@'' (decimal (unat (17 :: u32))) ''a@K@b'')
   \<and> (substitute_decimal ''a@K@b'' ''@K@'' 17 4 = replace_all ''@K@'' (decimal (unat (17 :: u32))) ''a@K@b''
      \<or> 4 \<le> length (substitute_decimal ''a@K@b'' ''@K@'' 17 4) + 11)"
  by (rule substitute_decimal_bounded) simp_all

end
