(* ===== verification/Configd_Registry.thy ===== *)
theory Configd_Registry
  imports Genode_Iface
begin

text \<open>
  \<open>sponge_configd/main.cc\<close>, the stateless half: the key registry, the pattern templates for the
  per-panel keys, the matching of a key against them, and the validators of the nine value kinds.
  A validator returns \<open>None\<close> for \<open>true\<close> and the structured reason for \<open>false\<close>.
\<close>

section \<open>Key definitions\<close>

datatype kind =
    Kind_String | Kind_Enum | Kind_UintRange | Kind_EnumList | Kind_FormatString
  | Kind_HexColor | Kind_Allowlist | Kind_CommaList | Kind_Shortcuts

record key_def =
  kname :: string
  is_enum :: bool
  enum_values :: "string list"
  default_value :: string
  kind :: kind
  min_value :: u32
  max_value :: u32
  allowed_paths :: "string list"

abbreviation MAX_PATTERN_KEYS :: nat where "MAX_PATTERN_KEYS \<equiv> 32"

definition registry :: "key_def list" where
  "registry =
    [\<lparr>kname = ''background.color'', is_enum = False, enum_values = [], default_value = ''#1e1e2e'',
       kind = Kind_HexColor, min_value = 0, max_value = 0, allowed_paths = []\<rparr>,
     \<lparr>kname = ''background.image'', is_enum = False, enum_values = [],
       default_value = ''/system/background/default.png'', kind = Kind_Allowlist,
       min_value = 0, max_value = 0, allowed_paths = [''/system/background/default.png'']\<rparr>,
     \<lparr>kname = ''bake.applied'', is_enum = True, enum_values = [''yes'', ''no''], default_value = ''no'',
       kind = Kind_Enum, min_value = 0, max_value = 0, allowed_paths = []\<rparr>,
     \<lparr>kname = ''bake.profile'', is_enum = False, enum_values = [], default_value = ''none'',
       kind = Kind_String, min_value = 0, max_value = 0, allowed_paths = []\<rparr>,
     \<lparr>kname = ''bake.version'', is_enum = False, enum_values = [], default_value = ''0'',
       kind = Kind_UintRange, min_value = 0, max_value = 2 ^ 32 - 1, allowed_paths = []\<rparr>,
     \<lparr>kname = ''clock.format'', is_enum = False, enum_values = [], default_value = ''HH:mm'',
       kind = Kind_FormatString, min_value = 0, max_value = 0, allowed_paths = []\<rparr>,
     \<lparr>kname = ''leitzentrale.enabled'', is_enum = True, enum_values = [''true'', ''false''],
       default_value = ''false'', kind = Kind_Enum, min_value = 0, max_value = 0, allowed_paths = []\<rparr>,
     \<lparr>kname = ''launcher.sort_by'', is_enum = True, enum_values = [''manual'', ''alpha''],
       default_value = ''alpha'', kind = Kind_Enum, min_value = 0, max_value = 0, allowed_paths = []\<rparr>,
     \<lparr>kname = ''panel.height'', is_enum = False, enum_values = [], default_value = ''28'',
       kind = Kind_UintRange, min_value = 16, max_value = 128, allowed_paths = []\<rparr>,
     \<lparr>kname = ''panel.ids'', is_enum = False, enum_values = [], default_value = [],
       kind = Kind_CommaList, min_value = 0, max_value = 0, allowed_paths = []\<rparr>,
     \<lparr>kname = ''panel.position'', is_enum = True, enum_values = [''top'', ''bottom'', ''left'', ''right''],
       default_value = ''bottom'', kind = Kind_Enum, min_value = 0, max_value = 0, allowed_paths = []\<rparr>,
     \<lparr>kname = ''panel.visible_widgets'', is_enum = False,
       enum_values = [''clock'', ''launcher'', ''tasklist''], default_value = ''clock,launcher'',
       kind = Kind_EnumList, min_value = 0, max_value = 0, allowed_paths = []\<rparr>,
     \<lparr>kname = ''shortcuts.bindings'', is_enum = False, enum_values = [],
       default_value = ''launcher'' @ [TAB] @ ''Super'' @ [NL] @ ''focus_next'' @ [TAB] @ ''Alt-Tab''
         @ [NL] @ ''dismiss'' @ [TAB] @ ''Escape'',
       kind = Kind_Shortcuts, min_value = 0, max_value = 0, allowed_paths = []\<rparr>,
     \<lparr>kname = ''theme.active'', is_enum = False, enum_values = [], default_value = ''light'',
       kind = Kind_String, min_value = 0, max_value = 0, allowed_paths = []\<rparr>]"

definition pattern_registry :: "key_def list" where
  "pattern_registry =
    [\<lparr>kname = ''panel.<id>.height'', is_enum = False, enum_values = [], default_value = ''28'',
       kind = Kind_UintRange, min_value = 16, max_value = 128, allowed_paths = []\<rparr>,
     \<lparr>kname = ''panel.<id>.position'', is_enum = True,
       enum_values = [''top'', ''bottom'', ''left'', ''right''], default_value = ''bottom'',
       kind = Kind_Enum, min_value = 0, max_value = 0, allowed_paths = []\<rparr>,
     \<lparr>kname = ''panel.<id>.visible_widgets'', is_enum = False,
       enum_values = [''clock'', ''launcher'', ''tasklist''], default_value = ''clock,launcher'',
       kind = Kind_EnumList, min_value = 0, max_value = 0, allowed_paths = []\<rparr>]"

definition find_key :: "string \<Rightarrow> nat option" where
  "find_key key = find (\<lambda>i. kname (registry ! i) = key) [0..<length registry]"

section \<open>Pattern keys\<close>

definition id_charset_ok :: "char \<Rightarrow> bool" where
  "id_charset_ok c \<longleftrightarrow> is_lower c \<or> is_digit c \<or> c = CHR ''_'' \<or> c = CHR ''-''"

abbreviation panel_prefix :: string where "panel_prefix \<equiv> ''panel.''"

definition id_suffixes :: "string list" where
  "id_suffixes = [''.height'', ''.position'', ''.visible_widgets'']"

text \<open>The three \<open>continue\<close> conditions of one iteration.\<close>

definition shape_fits :: "string \<Rightarrow> string \<Rightarrow> bool" where
  "shape_fits key suf \<longleftrightarrow> length suf < length key
     \<and> take (length panel_prefix) key = panel_prefix
     \<and> drop (length key - length suf) key = suf"

definition pattern_shape_match :: "string \<Rightarrow> bool" where
  "pattern_shape_match key \<longleftrightarrow> (\<exists>suf \<in> set id_suffixes. shape_fits key suf)"

definition pattern_extract_id :: "string \<Rightarrow> string option" where
  "pattern_extract_id key =
     (case find (shape_fits key) id_suffixes of
        None \<Rightarrow> None
      | Some suf \<Rightarrow>
          (let id_len = size_sub (size_sub (length key) (length panel_prefix)) (length suf)
           in if id_len = 0 \<or> 16 < id_len then None
              else let ident = take id_len (drop (length panel_prefix) key)
                   in if list_all id_charset_ok ident then Some ident else None))"

text \<open>The template whose suffix ends the key; the first one when none does, as in the code.\<close>

definition template_index :: "string \<Rightarrow> nat" where
  "template_index key =
     (case find (\<lambda>t. drop (length key - length (id_suffixes ! t)) key = id_suffixes ! t) [0..<3] of
        None \<Rightarrow> 0 | Some t \<Rightarrow> t)"

definition clone_of :: "string \<Rightarrow> key_def" where
  "clone_of key = (pattern_registry ! template_index key)\<lparr>kname := gstr 128 key\<rparr>"

section \<open>Shortcuts\<close>

definition actions :: "string list" where
  "actions = [''launcher'', ''focus_next'', ''dismiss'']"

definition synonyms :: "(string \<times> string) list" where
  "synonyms =
    [(''Super'', ''KEY_LEFTMETA''), (''Meta'', ''KEY_LEFTMETA''), (''MetaL'', ''KEY_LEFTMETA''),
     (''MetaR'', ''KEY_RIGHTMETA''), (''Esc'', ''KEY_ESC''), (''Escape'', ''KEY_ESC''),
     (''Tab'', ''KEY_TAB''), (''Return'', ''KEY_ENTER''), (''Enter'', ''KEY_ENTER''),
     (''Backspace'', ''KEY_BACKSPACE''), (''Alt'', ''KEY_LEFTALT''), (''AltL'', ''KEY_LEFTALT''),
     (''AltR'', ''KEY_RIGHTALT''), (''Ctrl'', ''KEY_LEFTCTRL''), (''CtrlL'', ''KEY_LEFTCTRL''),
     (''Shift'', ''KEY_LEFTSHIFT''), (''Space'', ''KEY_SPACE'')]"

definition resolve_key :: "string \<Rightarrow> string" where
  "resolve_key kn = (case map_of synonyms kn of None \<Rightarrow> kn | Some c \<Rightarrow> c)"

definition on_line :: "genode \<Rightarrow> nat \<Rightarrow> string" where
  "on_line G n = gstr 8 (print_nat G n)"

definition key_name_valid :: "genode \<Rightarrow> nat \<Rightarrow> string \<Rightarrow> string option" where
  "key_name_valid G n kn =
     (if length kn = 0 \<or> 32 \<le> length kn
      then Some (gstr 256 (''empty key in sequence on line '' @ on_line G n @ '' of shortcuts.bindings''))
      else if \<not> key_known G (gstr 22 (resolve_key kn))
      then Some (gstr 256 (''unknown key '' @ [SQ] @ gstr 32 kn @ [SQ] @ '' on line '' @ on_line G n
        @ '' of shortcuts.bindings (expected: Genode Input-event key name like KEY_TAB)''))
      else None)"

text \<open>
  The key names the loop \<open>while (ks < seq_last)\<close> visits: the spans between the dashes; a dash at
  the very end moves \<open>ks\<close> to \<open>seq_last\<close> and ends the loop, so no empty name follows it.
\<close>

definition key_names :: "string \<Rightarrow> string list" where
  "key_names sq = (let ns = split_on CHR ''-'' sq in if last ns = [] then butlast ns else ns)"

definition binding_valid :: "genode \<Rightarrow> nat \<Rightarrow> string \<Rightarrow> string option" where
  "binding_valid G n raw =
     (let line = trim blank raw in
      if line = [] then Some (gstr 256 (''empty line '' @ on_line G n @ '' in shortcuts.bindings''))
      else if length (filter (\<lambda>c. c = TAB) line) \<noteq> 1
      then Some (gstr 256 (''line '' @ on_line G n @
        '' of shortcuts.bindings must have exactly one TAB between action and key sequence''))
      else
        let act = takeWhile (\<lambda>c. c \<noteq> TAB) line;
            sq = tl (dropWhile (\<lambda>c. c \<noteq> TAB) line)
        in if length act = 0 \<or> 32 \<le> length act
           then Some (gstr 256 (''missing action token on line '' @ on_line G n @ '' of shortcuts.bindings''))
           else if act \<notin> set actions
           then Some (gstr 256 (''unknown action token '' @ [SQ] @ gstr 32 act @ [SQ] @ '' on line ''
             @ on_line G n @ '' of shortcuts.bindings (expected: launcher, focus_next, dismiss)''))
           else first_error (key_name_valid G n) (key_names sq))"

fun bindings_valid :: "genode \<Rightarrow> nat \<Rightarrow> string list \<Rightarrow> string option" where
  "bindings_valid G n [] = None"
| "bindings_valid G n (l # ls) =
     (case binding_valid G (Suc n) l of None \<Rightarrow> bindings_valid G (Suc n) ls | Some e \<Rightarrow> Some e)"

definition shortcuts_valid :: "genode \<Rightarrow> string \<Rightarrow> string option" where
  "shortcuts_valid G v =
     (case bindings_valid G 0 (lines_of v) of
        Some e \<Rightarrow> Some e
      | None \<Rightarrow> if lines_of v = [] then Some (gstr 256 ''shortcuts.bindings value is empty'') else None)"

section \<open>Values\<close>

abbreviation for_key :: "key_def \<Rightarrow> string" where
  "for_key d \<equiv> '' for key '' @ [SQ] @ kname d @ [SQ]"

abbreviation invalid_value :: "string \<Rightarrow> key_def \<Rightarrow> string" where
  "invalid_value v d \<equiv> ''invalid value '' @ [SQ] @ gstr 128 v @ [SQ] @ for_key d"

definition empty_expected :: "kind \<Rightarrow> string" where
  "empty_expected k =
     (case k of
        Kind_EnumList \<Rightarrow> ''non-empty comma-separated list''
      | Kind_FormatString \<Rightarrow> ''non-empty printable ASCII string''
      | Kind_Shortcuts \<Rightarrow> ''non-empty multi-line binding list''
      | Kind_CommaList \<Rightarrow> ''non-empty comma-separated list''
      | _ \<Rightarrow> ''non-empty value'')"

text \<open>The number of a \<open>UintRange\<close> value; \<open>None\<close> at a non-digit or where it would not fit 32 bits.\<close>

fun parse_uint :: "u32 \<Rightarrow> string \<Rightarrow> u32 option" where
  "parse_uint acc [] = Some acc"
| "parse_uint acc (c # cs) =
     (if \<not> is_digit c then None
      else let digit = of_nat (digit_val c)
           in if (- 1 - digit) div 10 < acc then None
              else parse_uint (acc * 10 + digit) cs)"

definition num_range :: "genode \<Rightarrow> key_def \<Rightarrow> string" where
  "num_range G d = ''['' @ print_nat G (unat (min_value d)) @ ''..'' @ print_nat G (unat (max_value d)) @ '']''"

definition uint_valid :: "genode \<Rightarrow> key_def \<Rightarrow> string \<Rightarrow> string option" where
  "uint_valid G d v =
     (case parse_uint 0 v of
        None \<Rightarrow> Some (gstr 256 (invalid_value v d
          @ '' (expected: base-10 unsigned integer in range '' @ num_range G d @ '')''))
      | Some n \<Rightarrow>
          (if n < min_value d \<or> max_value d < n
           then Some (gstr 256 (''value '' @ [SQ] @ gstr 128 v @ [SQ] @ for_key d
             @ '' out of range '' @ num_range G d))
           else None))"

definition printable :: "char \<Rightarrow> bool" where
  "printable c \<longleftrightarrow> CHR 0x20 \<le> c \<and> c \<le> CHR 0x7E"

definition format_valid :: "key_def \<Rightarrow> string \<Rightarrow> string option" where
  "format_valid d v =
     (if 64 < length v
      then Some (gstr 256 (invalid_value v d @ '' (expected: at most 64 printable ASCII characters)''))
      else if \<not> list_all printable v
      then Some (gstr 256 (invalid_value v d @ '' (expected: printable ASCII characters 0x20..0x7e)''))
      else None)"

definition hex_digit :: "char \<Rightarrow> bool" where
  "hex_digit c \<longleftrightarrow> is_digit c \<or> (CHR ''a'' \<le> c \<and> c \<le> CHR ''f'') \<or> (CHR ''A'' \<le> c \<and> c \<le> CHR ''F'')"

definition color_valid :: "key_def \<Rightarrow> string \<Rightarrow> string option" where
  "color_valid d v =
     (if length v \<noteq> 7 \<or> hd v \<noteq> CHR ''#''
      then Some (gstr 256 (invalid_value v d @ '' (expected: #RRGGBB hex literal, 7 characters)''))
      else if \<not> list_all hex_digit (tl v)
      then Some (gstr 256 (invalid_value v d @ '' (expected: #RRGGBB hex literal, digits 0-9 a-f A-F)''))
      else None)"

fun path_listing :: "string \<Rightarrow> string list \<Rightarrow> string" where
  "path_listing acc [] = acc"
| "path_listing acc (p # ps) =
     path_listing (gstr 256 ((if acc = [] then [] else gstr 256 (acc @ '', '')) @ p)) ps"

definition allowlist_valid :: "key_def \<Rightarrow> string \<Rightarrow> string option" where
  "allowlist_valid d v =
     (if v \<in> set (allowed_paths d) then None
      else Some (gstr 256 (invalid_value v d @ '' (allowed: '' @ path_listing [] (allowed_paths d) @ '')'')))"

definition tab_or_space :: "char \<Rightarrow> bool" where
  "tab_or_space c \<longleftrightarrow> c = SP \<or> c = TAB"

definition id_token_valid :: "key_def \<Rightarrow> string \<Rightarrow> string option" where
  "id_token_valid d raw =
     (let tok = trim tab_or_space raw in
      if length tok = 0 \<or> 16 < length tok
      then Some (gstr 256 (''invalid token length in list'' @ for_key d @ '' (expected: each token 1..16 chars)''))
      else case find (\<lambda>c. \<not> id_charset_ok c) tok of
             Some c \<Rightarrow> Some (gstr 256 (''invalid character '' @ [SQ, c, SQ] @ '' in list'' @ for_key d
               @ '' (expected: [a-z0-9_-]{1,16})''))
           | None \<Rightarrow> None)"

definition comma_list_valid :: "key_def \<Rightarrow> string \<Rightarrow> string option" where
  "comma_list_valid d v = first_error (id_token_valid d) (split_on CHR '','' v)"

text \<open>The bounded listing of the enumerators; a separator is written whole or not at all.\<close>

fun enum_listing :: "string \<Rightarrow> bool \<Rightarrow> string list \<Rightarrow> string" where
  "enum_listing buf later [] = buf"
| "enum_listing buf later (e # es) =
     (let buf = (if later \<and> length buf + 2 < 128 then buf @ '', '' else buf)
      in enum_listing (buf_append 1 128 buf e) True es)"

definition expected_enums :: "key_def \<Rightarrow> string" where
  "expected_enums d = enum_listing ''expected: '' False (enum_values d)"

definition enum_valid :: "key_def \<Rightarrow> string \<Rightarrow> string option" where
  "enum_valid d v =
     (if v \<in> set (enum_values d) then None
      else Some (gstr 256 (''invalid value '' @ [SQ] @ gstr 128 v @ [SQ] @ '' for key '' @ [SQ]
        @ gstr 64 (kname d) @ [SQ] @ '' ('' @ gstr 128 (expected_enums d) @ '')'')))"

definition enum_token_valid :: "key_def \<Rightarrow> string \<Rightarrow> string option" where
  "enum_token_valid d raw =
     (let tok = trim json_ws raw in
      if 0 < length tok \<and> length tok < 128 \<and> take 127 tok \<in> set (enum_values d) then None
      else Some (gstr 256 (''invalid token '' @ [SQ] @ gstr 128 (take 127 tok) @ [SQ] @ '' in list'' @ for_key d
        @ '' ('' @ gstr 128 (expected_enums d) @ '')'')))"

definition enum_list_valid :: "key_def \<Rightarrow> string \<Rightarrow> string option" where
  "enum_list_valid d v = first_error (enum_token_valid d) (split_on CHR '','' v)"

definition value_valid :: "genode \<Rightarrow> key_def \<Rightarrow> string \<Rightarrow> string option" where
  "value_valid G d v =
     (if v = []
      then Some (gstr 256 (''invalid value '' @ [SQ, SQ] @ for_key d @ '' (expected: ''
        @ empty_expected (kind d) @ '')''))
      else case kind d of
             Kind_String \<Rightarrow> None
           | Kind_UintRange \<Rightarrow> uint_valid G d v
           | Kind_FormatString \<Rightarrow> format_valid d v
           | Kind_HexColor \<Rightarrow> color_valid d v
           | Kind_Allowlist \<Rightarrow> allowlist_valid d v
           | Kind_CommaList \<Rightarrow> comma_list_valid d v
           | Kind_Enum \<Rightarrow> enum_valid d v
           | Kind_EnumList \<Rightarrow> enum_list_valid d v
           | Kind_Shortcuts \<Rightarrow> shortcuts_valid G v)"

section \<open>Suggestions\<close>

text \<open>
  One row of the edit-distance table from the row above: \<open>prev\<close> holds the distances of the shorter
  prefix, \<open>left\<close> is the entry just written.
\<close>

fun lev_cells :: "char \<Rightarrow> string \<Rightarrow> nat list \<Rightarrow> nat \<Rightarrow> nat list" where
  "lev_cells c (d # ds) (p # q # ps) left =
     (let sub = p + (if c = d then 0 else 1);
          ins = left + 1;
          del = q + 1;
          best = sub;
          best = (if ins < best then ins else best);
          best = (if del < best then del else best)
      in best # lev_cells c ds (q # ps) best)"
| "lev_cells c ds ps left = []"

definition lev_row :: "string \<Rightarrow> nat list \<Rightarrow> nat \<Rightarrow> char \<Rightarrow> nat list" where
  "lev_row b prev i c = i # lev_cells c b prev i"

fun lev_rows :: "string \<Rightarrow> nat list \<Rightarrow> nat \<Rightarrow> string \<Rightarrow> nat list" where
  "lev_rows b prev i [] = prev"
| "lev_rows b prev i (c # cs) = lev_rows b (lev_row b prev i c) (Suc i) cs"

definition lev :: "string \<Rightarrow> string \<Rightarrow> nat" where
  "lev a b = lev_rows b [0..<Suc (length b)] 1 a ! length b"

text \<open>The running best candidate; \<open>None\<close> stands for the initial distance \<open>~0U\<close>.\<close>

definition weigh :: "string \<Rightarrow> (string \<times> nat) option \<Rightarrow> string \<Rightarrow> (string \<times> nat) option" where
  "weigh key best cand =
     (let d = lev key cand
      in case best of None \<Rightarrow> Some (cand, d) | Some (b, bd) \<Rightarrow> if d < bd then Some (cand, d) else best)"

definition suggest_similar :: "string list \<Rightarrow> string \<Rightarrow> string" where
  "suggest_similar names key =
     (case foldl (weigh key) None names of
        None \<Rightarrow> []
      | Some (b, d) \<Rightarrow> if 3 < d then [] else gstr 128 b)"

end
