(* ===== verification/Configd_Registry_Props.thy ===== *)
theory Configd_Registry_Props
  imports Configd_Registry
begin

text \<open>
  The registry, its pattern keys, the validators and the suggestions of \<open>sponge_configd\<close>: what is
  accepted, stated without the loops that decide it.
\<close>

section \<open>Pattern keys\<close>

lemma shape_fits_iff:
  "shape_fits key suf \<longleftrightarrow> length suf < length key \<and> prefix panel_prefix key \<and> suffix suf key"
proof -
  have "prefix p key \<longleftrightarrow> take (length p) key = p" for p :: string
    by (auto simp: prefix_def) (metis append_take_drop_id)
  moreover have "suffix suf key \<longleftrightarrow> drop (length key - length suf) key = suf"
    by (auto simp: suffix_def) (metis append_take_drop_id)
  ultimately show ?thesis by (simp add: shape_fits_def)
qed

lemma suffixes_last: "suf \<in> set id_suffixes \<Longrightarrow> suffix suf key \<Longrightarrow>
    last key = (if suf = ''.height'' then CHR ''t'' else if suf = ''.position'' then CHR ''n'' else CHR ''s'')"
  by (auto simp: id_suffixes_def suffix_def)

lemma suffixes_unique:
  assumes "a \<in> set id_suffixes" "b \<in> set id_suffixes" "suffix a key" "suffix b key"
  shows "a = b"
  using suffixes_last [OF assms(1,3)] suffixes_last [OF assms(2,4)] assms(1,2)
  by (auto simp: id_suffixes_def split: if_splits)

text \<open>
  The identifier of a per-panel key. It is extracted exactly when the key is \<open>panel.\<close>, an
  identifier of 1 to 16 characters from \<open>[a-z0-9_-]\<close>, and one of the three suffixes, and it is that
  identifier; a key like \<open>panel.height\<close>, whose dot would have to serve twice, has none, although the
  length computed for it wraps around.
\<close>

theorem pattern_extract_id_iff:
  assumes "length key < 2 ^ 63"
  shows "pattern_extract_id key = Some ident \<longleftrightarrow>
    (\<exists>suf \<in> set id_suffixes. key = panel_prefix @ ident @ suf)
    \<and> 1 \<le> length ident \<and> length ident \<le> 16 \<and> list_all id_charset_ok ident"
proof
  assume e: "pattern_extract_id key = Some ident"
  then obtain suf where f: "find (shape_fits key) id_suffixes = Some suf"
    by (auto simp: pattern_extract_id_def split: option.splits)
  then have suf: "suf \<in> set id_suffixes" "shape_fits key suf"
    by (auto simp: find_Some_iff in_set_conv_nth)
  define n where "n = size_sub (size_sub (length key) (length panel_prefix)) (length suf)"
  have n: "n \<noteq> 0" "n \<le> 16" and id: "ident = take n (drop (length panel_prefix) key)"
    "list_all id_charset_ok ident"
    using e f by (auto simp: pattern_extract_id_def Let_def n_def split: if_splits)
  have ls: "length suf \<le> 16" using suf(1) by (auto simp: id_suffixes_def)
  have "length panel_prefix \<le> length key"
    using suf(2) by (auto simp: shape_fits_iff dest: prefix_length_le)
  then have len: "length key = length panel_prefix + n + length suf"
    using n ls assms by (auto simp: n_def size_sub_def split: if_splits)
  obtain r where r: "key = panel_prefix @ r" using suf(2) by (auto simp: shape_fits_iff prefix_def)
  obtain l where l: "key = l @ suf" using suf(2) by (auto simp: shape_fits_iff suffix_def)
  have "drop n r = suf"
  proof -
    have "drop (length panel_prefix + n) key = drop n r" by (simp add: r)
    moreover have "drop (length panel_prefix + n) key = suf" using len l by simp
    ultimately show ?thesis by simp
  qed
  then have "key = panel_prefix @ ident @ suf" using r id(1) append_take_drop_id [of n r] by simp
  then show "(\<exists>suf \<in> set id_suffixes. key = panel_prefix @ ident @ suf)
      \<and> 1 \<le> length ident \<and> length ident \<le> 16 \<and> list_all id_charset_ok ident"
    using suf(1) n id len by auto
next
  assume r: "(\<exists>suf \<in> set id_suffixes. key = panel_prefix @ ident @ suf)
      \<and> 1 \<le> length ident \<and> length ident \<le> 16 \<and> list_all id_charset_ok ident"
  then obtain suf where suf: "suf \<in> set id_suffixes" "key = panel_prefix @ ident @ suf" by auto
  have "suffix suf key" using suf(2) by (metis append_assoc suffixI)
  then have fits: "shape_fits key suf" using suf(2) by (simp add: shape_fits_iff)
  then obtain t where t: "find (shape_fits key) id_suffixes = Some t"
    using suf(1) by (cases "find (shape_fits key) id_suffixes") (auto simp: find_None_iff)
  then have "t \<in> set id_suffixes" "shape_fits key t" by (auto simp: find_Some_iff in_set_conv_nth)
  then have "t = suf" using suffixes_unique [OF _ suf(1), of t key] fits by (simp add: shape_fits_iff)
  moreover have "size_sub (size_sub (length key) (length panel_prefix)) (length suf) = length ident"
    using suf(2) by (simp add: size_sub_def)
  moreover have "take (length ident) (drop (length panel_prefix) key) = ident" using suf(2) by simp
  ultimately show "pattern_extract_id key = Some ident"
    using t r by (auto simp: pattern_extract_id_def Let_def)
qed

theorem pattern_extract_id_iff_witness:
  "pattern_extract_id ''panel.alpha.height'' = Some ''alpha'' \<and> pattern_extract_id ''panel.height'' \<noteq> Some []"
  using pattern_extract_id_iff [of "''panel.alpha.height''" "''alpha''"]
    pattern_extract_id_iff [of "''panel.height''" "[]"]
  by (simp add: id_suffixes_def id_charset_ok_def is_lower_def less_eq_char_def)

section \<open>Edit distance\<close>

text \<open>\<open>edits a b n\<close>: \<open>a\<close> becomes \<open>b\<close> by \<open>n\<close> insertions, deletions and substitutions.\<close>

inductive edits :: "string \<Rightarrow> string \<Rightarrow> nat \<Rightarrow> bool" where
  Done: "edits [] [] 0"
| Keep: "edits a b n \<Longrightarrow> edits (a @ [c]) (b @ [c]) n"
| Subst: "edits a b n \<Longrightarrow> edits (a @ [c]) (b @ [d]) (Suc n)"
| Ins: "edits a b n \<Longrightarrow> edits a (b @ [d]) (Suc n)"
| Del: "edits a b n \<Longrightarrow> edits (a @ [c]) b (Suc n)"

text \<open>The table: the distance between the first \<open>i\<close> and the first \<open>j\<close> characters.\<close>

fun dist :: "string \<Rightarrow> string \<Rightarrow> nat \<Rightarrow> nat \<Rightarrow> nat" where
  "dist a b 0 j = j"
| "dist a b (Suc i) 0 = Suc i"
| "dist a b (Suc i) (Suc j) =
     min (min (dist a b i j + (if a ! i = b ! j then 0 else 1)) (dist a b (Suc i) j + 1)) (dist a b i (Suc j) + 1)"

lemma edits_dist: "i \<le> length a \<Longrightarrow> j \<le> length b \<Longrightarrow> edits (take i a) (take j b) (dist a b i j)"
proof (induction a b i j rule: dist.induct)
  case (1 a b j)
  then show ?case
    by (induction j) (auto simp: take_Suc_conv_app_nth intro: edits.intros)
next
  case (2 a b i)
  have "edits (take k a) [] k" if "k \<le> length a" for k
    using that by (induction k) (auto simp: take_Suc_conv_app_nth intro: edits.intros)
  from this [of "Suc i"] 2 show ?case by simp
next
  case (3 a b i j)
  have e: "take (Suc i) a = take i a @ [a ! i]" "take (Suc j) b = take j b @ [b ! j]"
    using 3(4,5) by (simp_all add: take_Suc_conv_app_nth)
  have m: "edits (take i a) (take j b) (dist a b i j)"
    "edits (take (Suc i) a) (take j b) (dist a b (Suc i) j)"
    "edits (take i a) (take (Suc j) b) (dist a b i (Suc j))"
    using 3 by auto
  have s: "edits (take (Suc i) a) (take (Suc j) b) (dist a b i j + (if a ! i = b ! j then 0 else 1))"
    using edits.Keep [OF m(1), of "a ! i"] edits.Subst [OF m(1), of "a ! i" "b ! j"] e
    by (cases "a ! i = b ! j") simp_all
  have i: "edits (take (Suc i) a) (take (Suc j) b) (dist a b (Suc i) j + 1)"
    using edits.Ins [OF m(2), of "b ! j"] e by simp
  have d: "edits (take (Suc i) a) (take (Suc j) b) (dist a b i (Suc j) + 1)"
    using edits.Del [OF m(3), of "a ! i"] e by simp
  show ?case using s i d unfolding dist.simps(3) min_def by (auto simp del: dist.simps)
qed

lemma dist_Suc_Suc_le:
  "dist a b (Suc i) (Suc j) \<le> dist a b i j + 1"
  "dist a b (Suc i) (Suc j) \<le> dist a b (Suc i) j + 1"
  "dist a b (Suc i) (Suc j) \<le> dist a b i (Suc j) + 1"
  "a ! i = b ! j \<Longrightarrow> dist a b (Suc i) (Suc j) \<le> dist a b i j"
  by auto

lemma dist_take: "i \<le> k \<Longrightarrow> j \<le> l \<Longrightarrow> dist (take k a) (take l b) i j = dist a b i j"
proof (induction a b i j rule: dist.induct)
  case (3 a b i j)
  then show ?case by (simp add: Suc_le_eq)
qed auto

lemma dist_append: "dist (a @ x) (b @ y) (length a) (length b) = dist a b (length a) (length b)"
  using dist_take [of "length a" "length a" "length b" "length b" "a @ x" "b @ y"] by simp

lemma dist_del_le: "dist a b (Suc i) j \<le> dist a b i j + 1"
  by (cases j) (auto, cases i, auto)

lemma dist_ins_le: "dist a b i (Suc j) \<le> dist a b i j + 1"
  by (cases i) auto

lemma dist_le_edits: "edits a b n \<Longrightarrow> dist a b (length a) (length b) \<le> n"
proof (induction rule: edits.induct)
  case (Keep a b n c)
  have "dist (a @ [c]) (b @ [c]) (Suc (length a)) (Suc (length b)) \<le> dist (a @ [c]) (b @ [c]) (length a) (length b)"
    by (rule dist_Suc_Suc_le(4)) simp
  then show ?case using Keep.IH dist_append [of a "[c]" b "[c]"] by simp
next
  case (Subst a b n c d)
  then show ?case
    using dist_Suc_Suc_le(1) [of "a @ [c]" "b @ [d]" "length a" "length b"] dist_append [of a "[c]" b "[d]"]
    by simp
next
  case (Ins a b n d)
  then show ?case using dist_ins_le [of a "b @ [d]" "length a" "length b"] dist_append [of a "[]" b "[d]"] by simp
next
  case (Del a b n c)
  then show ?case using dist_del_le [of "a @ [c]" b "length a" "length b"] dist_append [of a "[c]" b "[]"] by simp
qed simp

lemma lev_cells_row:
  assumes "k \<le> length b" and "left = dist a b (Suc i) k"
  shows "lev_cells (a ! i) (drop k b) (map (dist a b i) [k..<Suc (length b)]) left
    = map (dist a b (Suc i)) [Suc k..<Suc (length b)]"
  using assms
proof (induction "length b - k" arbitrary: k left)
  case 0
  then show ?case by simp
next
  case (Suc n)
  then have k: "k < length b" by simp
  have d: "drop k b = b ! k # drop (Suc k) b" using k by (simp add: Cons_nth_drop_Suc)
  have u: "[k..<Suc (length b)] = k # Suc k # [Suc (Suc k)..<Suc (length b)]"
    "[Suc k..<Suc (length b)] = Suc k # [Suc (Suc k)..<Suc (length b)]"
    using k by (simp_all add: upt_conv_Cons)
  have IH: "lev_cells (a ! i) (drop (Suc k) b) (map (dist a b i) [Suc k..<Suc (length b)]) (dist a b (Suc i) (Suc k))
      = map (dist a b (Suc i)) [Suc (Suc k)..<Suc (length b)]"
    using Suc(2) k by (intro Suc(1)) simp_all
  have best: "(let sub = dist a b i k + (if a ! i = b ! k then 0 else 1); ins = left + 1;
      del = dist a b i (Suc k) + 1; best = sub; best = (if ins < best then ins else best)
      in if del < best then del else best) = dist a b (Suc i) (Suc k)"
    using Suc.prems(2) by (simp add: Let_def min_def)
  have "lev_cells (a ! i) (drop k b) (map (dist a b i) [k..<Suc (length b)]) left
      = (let best = dist a b (Suc i) (Suc k)
         in best # lev_cells (a ! i) (drop (Suc k) b) (map (dist a b i) [Suc k..<Suc (length b)]) best)"
    using best by (simp only: d u(1) list.map lev_cells.simps Let_def) (simp only: u(2) list.map)
  then show ?case using IH by (simp only: Let_def u(2) list.map)
qed

lemma lev_rows_dist:
  "i \<le> length a \<Longrightarrow> lev_rows b (map (dist a b i) [0..<Suc (length b)]) (Suc i) (drop i a)
    = map (dist a b (length a)) [0..<Suc (length b)]"
proof (induction "length a - i" arbitrary: i)
  case 0
  then show ?case by simp
next
  case (Suc n)
  then have i: "i < length a" by simp
  have d: "drop i a = a ! i # drop (Suc i) a" using i by (simp add: Cons_nth_drop_Suc)
  have "lev_row b (map (dist a b i) [0..<Suc (length b)]) (Suc i) (a ! i)
      = map (dist a b (Suc i)) [0..<Suc (length b)]"
    using lev_cells_row [of 0 b "Suc i" a i] by (simp add: lev_row_def upt_conv_Cons del: upt_Suc)
  then show ?case using Suc(1) [of "Suc i"] Suc(2) i by (simp only: d lev_rows.simps)
qed

lemma lev_dist: "lev a b = dist a b (length a) (length b)"
proof -
  have "map (dist a b 0) [0..<Suc (length b)] = [0..<Suc (length b)]" by (simp add: map_idI)
  then show ?thesis using lev_rows_dist [of 0 a b] unfolding lev_def
    by (simp only: drop_0 One_nat_def) (simp del: upt_Suc)
qed

text \<open>
  C22: the two-row table of the suggestion code computes the edit distance: \<open>lev a b\<close> edits turn \<open>a\<close>
  into \<open>b\<close>, and no fewer do.
\<close>

theorem lev_is_edit_distance:
  "edits a b (lev a b) \<and> (\<forall>n. edits a b n \<longrightarrow> lev a b \<le> n)"
  using edits_dist [of "length a" a "length b" b] dist_le_edits by (simp add: lev_dist)

theorem lev_is_edit_distance_witness: "edits ''hieght'' ''height'' (lev ''hieght'' ''height'')"
  using lev_is_edit_distance [of "''hieght''" "''height''"] by simp

lemma foldl_weigh:
  "(case foldl (weigh key) best names of
      None \<Rightarrow> best = None \<and> names = []
    | Some (n, d) \<Rightarrow> (n \<in> set names \<and> d = lev key n \<or> best = Some (n, d))
        \<and> (\<forall>m \<in> set names. d \<le> lev key m) \<and> (\<forall>b bd. best = Some (b, bd) \<longrightarrow> d \<le> bd))"
proof (induction names arbitrary: best)
  case Nil
  then show ?case by (auto split: option.split)
next
  case (Cons m ms)
  have w: "\<exists>n d. weigh key best m = Some (n, d) \<and> (n = m \<and> d = lev key m \<or> best = Some (n, d))
      \<and> d \<le> lev key m \<and> (\<forall>b bd. best = Some (b, bd) \<longrightarrow> d \<le> bd)"
    by (auto simp: weigh_def Let_def split: option.split)
  then obtain n d where nd: "weigh key best m = Some (n, d)" "n = m \<and> d = lev key m \<or> best = Some (n, d)"
    "d \<le> lev key m" "\<forall>b bd. best = Some (b, bd) \<longrightarrow> d \<le> bd" by blast
  show ?case using Cons [of "weigh key best m"] nd
    by (auto split: option.splits)
qed

text \<open>
  The suggestion for an unknown key is a known key at the smallest edit distance, and there is
  one exactly when some known key is at most three edits away.
\<close>

theorem suggestion_nearest:
  assumes "\<forall>n \<in> set names. n \<noteq> [] \<and> length n < 128"
  shows "(suggest_similar names key = [] \<longleftrightarrow> (\<forall>n \<in> set names. 3 < lev key n))
    \<and> (suggest_similar names key \<noteq> [] \<longrightarrow>
         suggest_similar names key \<in> set names
         \<and> (\<forall>n \<in> set names. lev key (suggest_similar names key) \<le> lev key n))"
proof (cases "foldl (weigh key) None names")
  case None
  then show ?thesis using foldl_weigh [where key = key and best = None and names = names] by (simp add: suggest_similar_def)
next
  case (Some p)
  obtain n d where p: "p = (n, d)" by fastforce
  have n: "n \<in> set names" "d = lev key n" "\<forall>m \<in> set names. d \<le> lev key m"
    using foldl_weigh [where key = key and best = None and names = names] Some p by auto
  then have g: "gstr 128 n = n" "n \<noteq> []" using assms by auto
  show ?thesis
  proof (cases "3 < d")
    case True
    then show ?thesis using Some p n by (auto simp: suggest_similar_def)
  next
    case False
    then show ?thesis using Some p n g by (auto simp: suggest_similar_def)
  qed
qed

theorem suggestion_nearest_witness:
  "suggest_similar [''panel.height'', ''theme.active''] ''theme.actve'' = ''theme.active''"
proof -
  let ?s = "suggest_similar [''panel.height'', ''theme.active''] ''theme.actve''"
  have l: "lev ''theme.actve'' ''theme.active'' = 1" "lev ''theme.actve'' ''panel.height'' = 11"
    by code_simp+
  have "(?s = [] \<longleftrightarrow> (\<forall>n \<in> set [''panel.height'', ''theme.active'']. 3 < lev ''theme.actve'' n))
    \<and> (?s \<noteq> [] \<longrightarrow> ?s \<in> set [''panel.height'', ''theme.active'']
        \<and> (\<forall>n \<in> set [''panel.height'', ''theme.active'']. lev ''theme.actve'' ?s \<le> lev ''theme.actve'' n))"
    by (rule suggestion_nearest) simp
  then have "?s = ''panel.height'' \<or> ?s = ''theme.active''" "lev ''theme.actve'' ?s \<le> lev ''theme.actve'' ''theme.active''"
    by (simp_all add: l)
  then show ?thesis using l by (elim disjE) simp_all
qed

section \<open>Values\<close>

lemma parse_uint_acc:
  "parse_uint acc v = Some n \<longleftrightarrow> list_all is_digit v
     \<and> foldl (\<lambda>m c. m * 10 + digit_val c) (unat acc) v < 2 ^ 32
     \<and> unat n = foldl (\<lambda>m c. m * 10 + digit_val c) (unat acc) v"
proof (induction v arbitrary: acc)
  case Nil
  have "unat acc < 2 ^ 32" by (rule unat_u32_bound)
  then show ?case by (auto simp: word_unat_eq_iff)
next
  case (Cons c v)
  show ?case
  proof (cases "is_digit c")
    case False
    then show ?thesis by simp
  next
    case True
    define k where "k = digit_val c"
    have k: "k < 10" using digit_val_less [OF True] by (simp add: k_def)
    then have uk: "unat (of_nat k :: u32) = k" by (simp add: unat_of_nat take_bit_nat_eq_self)
    have um: "unat (- 1 - of_nat k :: u32) = 2 ^ 32 - 1 - k"
    proof -
      have "(of_nat k :: u32) \<le> - 1" by simp
      then have "unat (- 1 - of_nat k :: u32) = unat (- 1 :: u32) - unat (of_nat k :: u32)"
        by (rule unat_sub)
      then show ?thesis using uk by (simp add: unsigned_minus_1_eq_mask mask_eq_exp_minus_1)
    qed
    have guard: "(- 1 - of_nat k) div 10 < acc \<longleftrightarrow> 2 ^ 32 \<le> unat acc * 10 + k"
    proof -
      have "(- 1 - of_nat k) div 10 < acc \<longleftrightarrow> (2 ^ 32 - 1 - k) div 10 < unat acc"
        by (simp add: word_less_nat_alt unat_div um)
      also have "\<dots> \<longleftrightarrow> 2 ^ 32 - 1 - k < unat acc * 10" by (rule div_less_iff_less_mult) simp
      also have "\<dots> \<longleftrightarrow> 2 ^ 32 \<le> unat acc * 10 + k" using k by (simp, arith)
      finally show ?thesis .
    qed
    have mono: "m \<le> foldl (\<lambda>m c. m * 10 + digit_val c) m w" for m w
    proof (induction w arbitrary: m)
      case (Cons x w)
      have "m \<le> m * 10 + digit_val x" by simp
      also have "\<dots> \<le> foldl (\<lambda>m c. m * 10 + digit_val c) (m * 10 + digit_val x) w" by (rule Cons)
      finally show ?case by simp
    qed simp
    show ?thesis
    proof (cases "2 ^ 32 \<le> unat acc * 10 + k")
      case big: True
      then have "parse_uint acc (c # v) = None" using True guard by (simp add: k_def [symmetric] Let_def)
      moreover have "2 ^ 32 \<le> foldl (\<lambda>m c. m * 10 + digit_val c) (unat acc * 10 + k) v"
        using big mono by (rule order.trans)
      ultimately show ?thesis by (simp add: k_def)
    next
      case False
      have "unat (acc * 10 + of_nat k) = unat acc * 10 + k"
        using False uk by (simp add: unat_word_ariths)
      then show ?thesis using Cons.IH [of "acc * 10 + of_nat k"] True guard False
        by (simp add: k_def [symmetric] Let_def)
    qed
  qed
qed

text \<open>The number a string of digits stands for.\<close>

definition number :: "string \<Rightarrow> nat" where
  "number v = foldl (\<lambda>m c. m * 10 + digit_val c) 0 v"

lemma uint_valid_iff:
  "uint_valid G d v = None \<longleftrightarrow> list_all is_digit v
    \<and> unat (min_value d) \<le> number v \<and> number v \<le> unat (max_value d)"
proof (cases "parse_uint 0 v")
  case None
  then have n: "\<not> (list_all is_digit v \<and> number v < 2 ^ 32 \<and> unat n = number v)" for n :: u32
    using parse_uint_acc [of 0 v n] by (simp add: number_def)
  have "\<not> (list_all is_digit v \<and> number v \<le> unat (max_value d))"
  proof
    assume h: "list_all is_digit v \<and> number v \<le> unat (max_value d)"
    have "unat (max_value d) < 2 ^ 32" by (rule unat_u32_bound)
    then have "number v < 2 ^ 32" using h by linarith
    moreover from this have "unat (of_nat (number v) :: u32) = number v"
      by (simp add: unat_of_nat take_bit_nat_eq_self)
    ultimately show False using h n by blast
  qed
  then show ?thesis using None by (auto simp: uint_valid_def)
next
  case (Some n)
  then have "list_all is_digit v" "unat n = number v" using parse_uint_acc [of 0 v n] by (auto simp: number_def)
  then show ?thesis using Some by (auto simp: uint_valid_def word_less_nat_alt not_less)
qed

text \<open>A line of the bindings: an action, one tabulator, known keys.\<close>

definition binding_ok :: "genode \<Rightarrow> string \<Rightarrow> bool" where
  "binding_ok G l \<longleftrightarrow> (\<exists>act sq. trim blank l = act @ TAB # sq \<and> TAB \<notin> set act \<and> TAB \<notin> set sq
     \<and> act \<in> set actions
     \<and> (\<forall>k \<in> set (key_names sq). k \<noteq> [] \<and> length k < 32 \<and> key_known G (gstr 22 (resolve_key k))))"

lemma key_name_valid_iff:
  "key_name_valid G n k = None \<longleftrightarrow> k \<noteq> [] \<and> length k < 32 \<and> key_known G (gstr 22 (resolve_key k))"
  by (auto simp: key_name_valid_def)

lemma one_tab:
  "length (filter (\<lambda>c. c = TAB) l) = 1 \<longleftrightarrow> (\<exists>a b. l = a @ TAB # b \<and> TAB \<notin> set a \<and> TAB \<notin> set b)"
proof
  assume h: "length (filter (\<lambda>c. c = TAB) l) = 1"
  then have "filter (\<lambda>c. c = TAB) l \<noteq> []" by (cases "filter (\<lambda>c. c = TAB) l") simp_all
  then have "TAB \<in> set l" by (auto simp: filter_empty_conv)
  then obtain a b where l: "l = a @ TAB # b" "TAB \<notin> set a" by (metis split_list_first)
  then have "filter (\<lambda>c. c = TAB) b = []" using h by simp
  then have "TAB \<notin> set b" by (auto simp: filter_empty_conv)
  with l show "\<exists>a b. l = a @ TAB # b \<and> TAB \<notin> set a \<and> TAB \<notin> set b" by blast
next
  have e: "filter (\<lambda>c. c = TAB) x = []" if "TAB \<notin> set x" for x
    using that by (auto simp: filter_empty_conv)
  assume "\<exists>a b. l = a @ TAB # b \<and> TAB \<notin> set a \<and> TAB \<notin> set b"
  then show "length (filter (\<lambda>c. c = TAB) l) = 1" by (auto simp: e)
qed

lemma action_length: "act \<in> set actions \<Longrightarrow> act \<noteq> [] \<and> length act < 32"
  by (auto simp: actions_def)

lemma binding_valid_iff: "binding_valid G n l = None \<longleftrightarrow> binding_ok G l"
proof (cases "length (filter (\<lambda>c. c = TAB) (trim blank l)) = 1")
  case True
  then obtain act sq where t: "trim blank l = act @ TAB # sq" "TAB \<notin> set act" "TAB \<notin> set sq"
    using one_tab by blast
  have tw: "takeWhile (\<lambda>c. c \<noteq> TAB) (act @ TAB # sq) = act" "dropWhile (\<lambda>c. c \<noteq> TAB) (act @ TAB # sq) = TAB # sq"
    using t(2) by (induction act) auto
  have u: "act' @ TAB # sq' = act @ TAB # sq \<Longrightarrow> TAB \<notin> set act' \<Longrightarrow> act' = act \<and> sq' = sq" for act' sq'
  proof -
    assume e: "act' @ TAB # sq' = act @ TAB # sq" and n: "TAB \<notin> set act'"
    have "takeWhile (\<lambda>c. c \<noteq> TAB) (act' @ TAB # sq') = act'" using n by (induction act') auto
    then have "act' = act" using e tw(1) by simp
    then show ?thesis using e by simp
  qed
  have "binding_ok G l \<longleftrightarrow> act \<in> set actions
      \<and> (\<forall>k \<in> set (key_names sq). k \<noteq> [] \<and> length k < 32 \<and> key_known G (gstr 22 (resolve_key k)))"
  proof
    assume "binding_ok G l"
    then obtain act' sq' where "act @ TAB # sq = act' @ TAB # sq'" "TAB \<notin> set act'" "act' \<in> set actions"
      "\<forall>k \<in> set (key_names sq'). k \<noteq> [] \<and> length k < 32 \<and> key_known G (gstr 22 (resolve_key k))"
      by (auto simp: binding_ok_def t(1))
    then show "act \<in> set actions
      \<and> (\<forall>k \<in> set (key_names sq). k \<noteq> [] \<and> length k < 32 \<and> key_known G (gstr 22 (resolve_key k)))"
      using u [of act' sq'] by auto
  next
    assume "act \<in> set actions
      \<and> (\<forall>k \<in> set (key_names sq). k \<noteq> [] \<and> length k < 32 \<and> key_known G (gstr 22 (resolve_key k)))"
    then show "binding_ok G l" unfolding binding_ok_def t(1) using t(2,3) by blast
  qed
  then show ?thesis using True action_length [of act]
    by (auto simp: binding_valid_def t(1) tw Let_def key_name_valid_iff not_le)
next
  case False
  then have "binding_valid G n l \<noteq> None" by (simp add: binding_valid_def Let_def)
  moreover have "\<not> binding_ok G l" using False unfolding binding_ok_def one_tab by blast
  ultimately show ?thesis by simp
qed

lemma bindings_valid_iff: "bindings_valid G n ls = None \<longleftrightarrow> (\<forall>l \<in> set ls. binding_ok G l)"
proof (induction ls arbitrary: n)
  case (Cons l ls)
  then show ?case using binding_valid_iff [of G "Suc n" l] by (cases "binding_valid G (Suc n) l") simp_all
qed simp

lemma shortcuts_valid_iff:
  "shortcuts_valid G v = None \<longleftrightarrow> lines_of v \<noteq> [] \<and> (\<forall>l \<in> set (lines_of v). binding_ok G l)"
  using bindings_valid_iff [of G 0 "lines_of v"]
  by (cases "bindings_valid G 0 (lines_of v)") (auto simp: shortcuts_valid_def)

text \<open>
  C35: what the validator of a key accepts, kind by kind: numbers by their value, without overflow;
  colours as \<open>#\<close> and six hexadecimal digits; enumerations and paths by membership; comma lists token
  by token after trimming; and key bindings line by line. Nothing empty is ever accepted.
\<close>

theorem value_valid_spec:
  "value_valid G d v = None \<longleftrightarrow> v \<noteq> [] \<and>
     (case kind d of
        Kind_String \<Rightarrow> True
      | Kind_UintRange \<Rightarrow> list_all is_digit v \<and> unat (min_value d) \<le> number v \<and> number v \<le> unat (max_value d)
      | Kind_FormatString \<Rightarrow> length v \<le> 64 \<and> list_all printable v
      | Kind_HexColor \<Rightarrow> (\<exists>ds. v = CHR ''#'' # ds \<and> length ds = 6 \<and> list_all hex_digit ds)
      | Kind_Allowlist \<Rightarrow> v \<in> set (allowed_paths d)
      | Kind_CommaList \<Rightarrow> (\<forall>t \<in> set (split_on CHR '','' v). let t = trim tab_or_space t in
            1 \<le> length t \<and> length t \<le> 16 \<and> list_all id_charset_ok t)
      | Kind_Enum \<Rightarrow> v \<in> set (enum_values d)
      | Kind_EnumList \<Rightarrow> (\<forall>t \<in> set (split_on CHR '','' v). let t = trim json_ws t in
            t \<in> set (enum_values d) \<and> 1 \<le> length t \<and> length t < 128)
      | Kind_Shortcuts \<Rightarrow> lines_of v \<noteq> [] \<and> (\<forall>l \<in> set (lines_of v). binding_ok G l))"
proof (cases "kind d")
  case Kind_HexColor
  then show ?thesis
    by (cases v) (auto simp: value_valid_def color_valid_def)
next
  case Kind_CommaList
  have "id_token_valid d t = None \<longleftrightarrow> (let t = trim tab_or_space t in
      1 \<le> length t \<and> length t \<le> 16 \<and> list_all id_charset_ok t)" for t
    by (auto simp: id_token_valid_def Let_def list_all_iff find_None_iff find_Some_iff Suc_le_eq
        split: option.splits)
  then show ?thesis using Kind_CommaList by (simp add: value_valid_def comma_list_valid_def)
next
  case Kind_EnumList
  have "enum_token_valid d t = None \<longleftrightarrow> (let t = trim json_ws t in
      t \<in> set (enum_values d) \<and> 1 \<le> length t \<and> length t < 128)" for t
    by (auto simp: enum_token_valid_def Let_def Suc_le_eq)
  then show ?thesis using Kind_EnumList by (simp add: value_valid_def enum_list_valid_def)
qed (auto simp: value_valid_def uint_valid_iff format_valid_def allowlist_valid_def enum_valid_def
    shortcuts_valid_iff)

theorem value_valid_spec_witness:
  "value_valid \<lparr>key_known = (\<lambda>k. True), parse_xml = (\<lambda>s. None), parse_hid = (\<lambda>s. Raw s),
     to_u32 = (\<lambda>s. None), to_bool = (\<lambda>s. None), ser_config = (\<lambda>x. None), print_nat = (\<lambda>n. []),
     report_fits = (\<lambda>b n. n \<le> b)\<rparr> (registry ! 8) ''128'' = None"
  by (subst value_valid_spec)
     (simp add: registry_def number_def digit_val_def is_digit_def less_eq_char_def)

section \<open>The registry itself\<close>

lemma default_bindings_ok:
  assumes "\<forall>k \<in> {''KEY_LEFTMETA'', ''KEY_LEFTALT'', ''KEY_TAB'', ''KEY_ESC''}. key_known G k"
  shows "list_all (binding_ok G) (lines_of (''launcher'' @ [TAB] @ ''Super'' @ [NL] @ ''focus_next'' @ [TAB]
    @ ''Alt-Tab'' @ [NL] @ ''dismiss'' @ [TAB] @ ''Escape''))"
proof -
  have l: "lines_of (''launcher'' @ [TAB] @ ''Super'' @ [NL] @ ''focus_next'' @ [TAB] @ ''Alt-Tab'' @ [NL]
      @ ''dismiss'' @ [TAB] @ ''Escape'')
    = [''launcher'' @ TAB # ''Super'', ''focus_next'' @ TAB # ''Alt-Tab'', ''dismiss'' @ TAB # ''Escape'']"
    by code_simp
  have t: "trim blank (''launcher'' @ TAB # ''Super'') = ''launcher'' @ TAB # ''Super''"
    "trim blank (''focus_next'' @ TAB # ''Alt-Tab'') = ''focus_next'' @ TAB # ''Alt-Tab''"
    "trim blank (''dismiss'' @ TAB # ''Escape'') = ''dismiss'' @ TAB # ''Escape''"
    by code_simp+
  have n: "key_names ''Super'' = [''Super'']" "key_names ''Alt-Tab'' = [''Alt'', ''Tab'']"
    "key_names ''Escape'' = [''Escape'']" by code_simp+
  have r: "resolve_key ''Super'' = ''KEY_LEFTMETA''" "resolve_key ''Alt'' = ''KEY_LEFTALT''"
    "resolve_key ''Tab'' = ''KEY_TAB''" "resolve_key ''Escape'' = ''KEY_ESC''" by code_simp+
  have b: "binding_ok G (act @ TAB # sq)" if "trim blank (act @ TAB # sq) = act @ TAB # sq"
    "TAB \<notin> set act" "TAB \<notin> set sq" "act \<in> set actions"
    "\<forall>k \<in> set (key_names sq). k \<noteq> [] \<and> length k < 32 \<and> key_known G (gstr 22 (resolve_key k))" for act sq
    unfolding binding_ok_def using that by blast
  have "binding_ok G (''launcher'' @ TAB # ''Super'')"
    using assms by (intro b t) (simp_all add: n r actions_def)
  moreover have "binding_ok G (''focus_next'' @ TAB # ''Alt-Tab'')"
    using assms by (intro b t) (simp_all add: n r actions_def)
  moreover have "binding_ok G (''dismiss'' @ TAB # ''Escape'')"
    using assms by (intro b t) (simp_all add: n r actions_def)
  ultimately show ?thesis unfolding l by simp
qed

lemma plain_defaults:
  "list_all (\<lambda>d. kind d \<noteq> Kind_Shortcuts \<longrightarrow>
     (value_valid G d (default_value d) = None \<longleftrightarrow> kname d \<noteq> ''panel.ids'')) registry"
  by (simp add: registry_def value_valid_spec number_def digit_val_def is_digit_def less_eq_char_def
      hex_digit_def printable_def trim_def json_ws_def tab_or_space_def)

text \<open>
  The registry has no duplicates, but its rows are not in the order of their names; no registered key is a pattern key, and every
  default is accepted by its own validator (given that the keys of the default bindings exist), with
  one exception: the empty default of \<open>panel.ids\<close>, a value the validator refuses.
\<close>

theorem registry_wf:
  assumes "\<forall>k \<in> {''KEY_LEFTMETA'', ''KEY_LEFTALT'', ''KEY_TAB'', ''KEY_ESC''}. key_known G k"
  shows "\<not> sorted (map kname registry) \<and> distinct (map kname registry)
    \<and> (\<forall>d \<in> set registry. pattern_extract_id (kname d) = None)
    \<and> (\<forall>d \<in> set registry. value_valid G d (default_value d) = None \<longleftrightarrow> kname d \<noteq> ''panel.ids'')"
proof (intro conjI)
  show "\<not> sorted (map kname registry)" by code_simp
  show "distinct (map kname registry)" by code_simp
  have none: "list_all (\<lambda>k. length k < 64 \<and> (\<forall>suf \<in> set id_suffixes.
      \<not> (length suf + 6 < length k \<and> take 6 k = panel_prefix \<and> drop (length k - length suf) k = suf)))
      (map kname registry)" by code_simp
  show "\<forall>d \<in> set registry. pattern_extract_id (kname d) = None"
  proof
    fix d
    assume "d \<in> set registry"
    with none have k: "length (kname d) < 64" "\<forall>suf \<in> set id_suffixes. \<not> (length suf + 6 < length (kname d)
        \<and> take 6 (kname d) = panel_prefix \<and> drop (length (kname d) - length suf) (kname d) = suf)"
      by (auto simp: list_all_iff)
    show "pattern_extract_id (kname d) = None"
    proof (rule ccontr)
      assume "pattern_extract_id (kname d) \<noteq> None"
      then obtain ident suf where "suf \<in> set id_suffixes" "kname d = panel_prefix @ ident @ suf" "1 \<le> length ident"
        using pattern_extract_id_iff [of "kname d"] k(1) by auto
      moreover have "drop (length ((panel_prefix @ ident) @ suf) - length suf) ((panel_prefix @ ident) @ suf) = suf"
        by (rule drop_diff_append)
      ultimately show False using k(2) [rule_format, of suf] by simp
    qed
  qed
  show "\<forall>d \<in> set registry. value_valid G d (default_value d) = None \<longleftrightarrow> kname d \<noteq> ''panel.ids''"
  proof
    fix d
    assume d: "d \<in> set registry"
    show "value_valid G d (default_value d) = None \<longleftrightarrow> kname d \<noteq> ''panel.ids''"
    proof (cases "kind d = Kind_Shortcuts")
      case False
      then show ?thesis using plain_defaults [of G] d by (auto simp: list_all_iff)
    next
      case True
      then have "default_value d = ''launcher'' @ [TAB] @ ''Super'' @ [NL] @ ''focus_next'' @ [TAB] @ ''Alt-Tab''
          @ [NL] @ ''dismiss'' @ [TAB] @ ''Escape''" "kname d = ''shortcuts.bindings''"
        using d by (auto simp: registry_def)
      then show ?thesis using True default_bindings_ok [OF assms]
        by (simp add: value_valid_spec list_all_iff lines_of_def)
    qed
  qed
qed

theorem registry_wf_witness:
  "\<not> sorted (map kname registry) \<and> distinct (map kname registry)"
  using registry_wf [of "\<lparr>key_known = (\<lambda>k. True), parse_xml = (\<lambda>s. None), parse_hid = (\<lambda>s. Raw s),
     to_u32 = (\<lambda>s. None), to_bool = (\<lambda>s. None), ser_config = (\<lambda>x. None), print_nat = (\<lambda>n. []),
     report_fits = (\<lambda>b n. n \<le> b)\<rparr>"] by simp

text \<open>
  A dash left over at the end of a key sequence goes unnoticed. Wherever a binding is accepted, the
  same binding with a dash appended is accepted too, although the grammar of the validator asks for a
  key name after every dash.
\<close>

theorem trailing_dash_accepted:
  assumes "shortcuts_valid G (act @ TAB # sq) = None" and "NL \<notin> set (act @ TAB # sq)"
    and "sq \<noteq> []" and "last sq \<noteq> CHR ''-''" and "act \<noteq> []" and "\<not> blank (hd act)" and "\<not> blank (last sq)"
    and "TAB \<notin> set sq"
  shows "shortcuts_valid G (act @ TAB # sq @ ''-'') = None"
proof -
  have one: "lines_of l = [l]" if "NL \<notin> set l" "l \<noteq> []" for l
    using that by (simp add: lines_of_def split_on_notin)
  have trim_id: "trim blank l = l" if "l \<noteq> []" "\<not> blank (hd l)" "\<not> blank (last l)" for l
  proof -
    have "dropWhile blank l = l" using that(1,2) by (cases l) auto
    moreover have "dropWhile blank (rev l) = rev l" using that(1,3) by (cases l rule: rev_cases) auto
    ultimately show ?thesis by (simp add: trim_def)
  qed
  have t1: "trim blank (act @ TAB # sq) = act @ TAB # sq"
    using assms(3,5-7) by (intro trim_id) auto
  have t2: "trim blank (act @ TAB # sq @ ''-'') = act @ TAB # sq @ ''-''"
    using assms(3,5-7) by (intro trim_id) (auto simp: blank_def)
  have "binding_ok G (act @ TAB # sq)"
    using assms(1,2) by (simp add: shortcuts_valid_iff one)
  then obtain a q where b: "act @ TAB # sq = a @ TAB # q" "TAB \<notin> set a" "TAB \<notin> set q" "a \<in> set actions"
    "\<forall>k \<in> set (key_names q). k \<noteq> [] \<and> length k < 32 \<and> key_known G (gstr 22 (resolve_key k))"
    unfolding binding_ok_def t1 by blast
  have aq: "a = act" "q = sq"
  proof -
    have "rev sq @ TAB # rev act = rev q @ TAB # rev a" using arg_cong [OF b(1), of rev] by simp
    moreover have "takeWhile (\<lambda>c. c \<noteq> TAB) (rev sq @ TAB # rev act) = rev sq"
      using assms(8) by (intro takeWhile_stop) auto
    moreover have "takeWhile (\<lambda>c. c \<noteq> TAB) (rev q @ TAB # rev a) = rev q"
      using b(3) by (intro takeWhile_stop) auto
    ultimately have "rev sq = rev q" by simp
    then show "a = act" "q = sq" using b(1) by simp_all
  qed
  have k: "key_names (sq @ ''-'') = key_names sq"
  proof -
    have "split_on CHR ''-'' (s @ ''-'') = split_on CHR ''-'' s @ [[]]" for s
      by (induction s) (auto split: list.split)
    moreover have "last (split_on CHR ''-'' s) \<noteq> []" if "s \<noteq> []" "last s \<noteq> CHR ''-''" for s
      using that by (induction s) (auto split: list.split if_splits)
    ultimately show ?thesis using assms(3,4) by (simp add: key_names_def Let_def)
  qed
  have "binding_ok G (act @ TAB # sq @ ''-'')"
    unfolding binding_ok_def t2 using b(2-5) k unfolding aq
    by (intro exI [of _ act] exI [of _ "sq @ ''-''"]) simp
  then show ?thesis using assms(2) by (simp add: shortcuts_valid_iff one)
qed

theorem trailing_dash_accepted_witness:
  "shortcuts_valid \<lparr>key_known = (\<lambda>k. k = ''KEY_TAB''), parse_xml = (\<lambda>s. None), parse_hid = (\<lambda>s. Raw s),
     to_u32 = (\<lambda>s. None), to_bool = (\<lambda>s. None), ser_config = (\<lambda>x. None), print_nat = (\<lambda>n. []),
     report_fits = (\<lambda>b n. n \<le> b)\<rparr> (''dismiss'' @ TAB # ''Tab'' @ ''-'') = None"
  by (rule trailing_dash_accepted)
     (simp_all add: shortcuts_valid_def lines_of_def binding_valid_def trim_def blank_def actions_def
       key_names_def key_name_valid_def resolve_key_def synonyms_def)

end
