(* ===== verification/Configd.thy ===== *)
theory Configd
  imports Configd_Registry Machine
begin

text \<open>
  \<open>sponge_configd/main.cc\<close>, the daemon: the value store over the registry, the requests of its two
  channels (\<open>vct\<close> and the settings dialog of the desktop), the broadcast, the baked defaults and the
  store file. The trace holds the file-system operations, the broadcasts and the results in the
  order they happen. A handler that waits for the file system forever sets \<open>cfg_blocked\<close>; nothing
  happens after that. Log lines are left out.
\<close>

section \<open>State\<close>

datatype channel = Vct | De_side

datatype cfg_out =
    Disk vfs_op
  | Broadcast xml
  | Result channel xml

record cfgd =
  cvalues :: "string list"
  instantiated :: "key_def list"
  inst_values :: "string list"
  last_sig :: string
  lz_diverged :: bool
  active_channel :: channel
  de_channel :: bool
  store_enabled :: bool
  bake_available :: bool
  lz_watch :: bool
  cfg_blocked :: bool
  cfg_out :: "cfg_out list"

definition cfg_init :: cfgd where
  "cfg_init = \<lparr>cvalues = replicate (length registry) [], instantiated = [],
     inst_values = replicate MAX_PATTERN_KEYS [], last_sig = [], lz_diverged = False,
     active_channel = Vct, de_channel = False, store_enabled = False, bake_available = False,
     lz_watch = False, cfg_blocked = False, cfg_out = []\<rparr>"

definition cfg_emit :: "cfg_out list \<Rightarrow> cfgd \<Rightarrow> cfgd" where
  "cfg_emit os s = s\<lparr>cfg_out := cfg_out s @ os\<rparr>"

text \<open>The continuation after a call that may wait for the file system.\<close>

definition unless_blocked :: "(cfgd \<Rightarrow> cfgd) \<Rightarrow> cfgd \<Rightarrow> cfgd" where
  "unless_blocked f s = (if cfg_blocked s then s else f s)"

section \<open>Keys\<close>

definition find_instantiated :: "cfgd \<Rightarrow> string \<Rightarrow> nat option" where
  "find_instantiated s key =
     find (\<lambda>i. kname (instantiated s ! i) = key) [0..<length (instantiated s)]"

text \<open>\<open>Inr\<close> the slot, or \<open>Inl\<close> the reason, which is empty when the key fits no template.\<close>

definition instantiate_pattern :: "genode \<Rightarrow> string \<Rightarrow> cfgd \<Rightarrow> (string + nat) \<times> cfgd" where
  "instantiate_pattern G key s =
     (if \<not> pattern_shape_match key then (Inl [], s)
      else case pattern_extract_id key of
        None \<Rightarrow> (Inl (gstr 256 (''invalid <id> in key '' @ [SQ] @ gstr 128 key @ [SQ]
                  @ '' (expected charset [a-z0-9_-]{1,16})'')), s)
      | Some ident \<Rightarrow>
          (case find_instantiated s key of
             Some i \<Rightarrow> (Inr i, s)
           | None \<Rightarrow>
               (if MAX_PATTERN_KEYS \<le> length (instantiated s)
                then (Inl (gstr 256 (''pattern-key registry full for key '' @ [SQ] @ gstr 128 key @ [SQ]
                        @ '' (MAX_PATTERN_KEYS='' @ print_nat G MAX_PATTERN_KEYS @ '')'')), s)
                else (Inr (length (instantiated s)),
                      s\<lparr>instantiated := instantiated s @ [clone_of key]\<rparr>))))"

definition set_value :: "nat \<Rightarrow> string \<Rightarrow> cfgd \<Rightarrow> cfgd" where
  "set_value i v s = s\<lparr>cvalues := (cvalues s)[i := gstr 128 v]\<rparr>"

definition set_inst_value :: "nat \<Rightarrow> string \<Rightarrow> cfgd \<Rightarrow> cfgd" where
  "set_inst_value i v s = s\<lparr>inst_values := (inst_values s)[i := gstr 128 v]\<rparr>"

definition apply_validated_value :: "genode \<Rightarrow> string \<Rightarrow> string \<Rightarrow> cfgd \<Rightarrow> bool \<times> cfgd" where
  "apply_validated_value G key v s =
     (case find_key key of
        Some i \<Rightarrow>
          (case value_valid G (registry ! i) v of
             Some why \<Rightarrow> (False, s)
           | None \<Rightarrow> (True, set_value i v s))
      | None \<Rightarrow>
          (case instantiate_pattern G key s of
             (Inl why, s) \<Rightarrow> (False, s)
           | (Inr i, s) \<Rightarrow>
               (case value_valid G (instantiated s ! i) v of
                  Some why \<Rightarrow> (False, s)
                | None \<Rightarrow> (True, set_inst_value i v s))))"

definition known_names :: "cfgd \<Rightarrow> string list" where
  "known_names s = map kname registry @ map kname (instantiated s)"

section \<open>Reports\<close>

definition sorted_order_flat :: "nat list" where
  "sorted_order_flat = sel_order (map kname registry)"

definition sorted_order_instantiated :: "cfgd \<Rightarrow> nat list" where
  "sorted_order_instantiated s = sel_order (map kname (instantiated s))"

definition key_node :: "string \<Rightarrow> string \<Rightarrow> xml" where
  "key_node name v = leaf ''key'' [(''name'', gstr 64 name), (''value'', v)]"

definition key_nodes :: "cfgd \<Rightarrow> xml list" where
  "key_nodes s =
     map (\<lambda>i. key_node (kname (registry ! i)) (cvalues s ! i)) sorted_order_flat
     @ map (\<lambda>i. key_node (kname (instantiated s ! i)) (inst_values s ! i)) (sorted_order_instantiated s)"

definition broadcast_xml :: "cfgd \<Rightarrow> xml" where
  "broadcast_xml s = node ''config'' []
     (key_nodes s @ [leaf ''key'' [(''name'', ''leitzentrale.diverged''),
                                   (''value'', if lz_diverged s then ''true'' else ''false'')]])"

definition generate_broadcast :: "cfgd \<Rightarrow> cfgd" where
  "generate_broadcast s = cfg_emit [Broadcast (broadcast_xml s)] s"

definition report :: "(string \<times> string) list \<Rightarrow> xml list \<Rightarrow> cfgd \<Rightarrow> cfgd" where
  "report as ks s = cfg_emit [Result (active_channel s) (node ''result'' as ks)] s"

definition report_get_ok :: "string \<Rightarrow> string \<Rightarrow> cfgd \<Rightarrow> cfgd" where
  "report_get_ok key v =
     report [(''status'', ''ok''), (''op'', ''get''), (''key'', gstr 128 key), (''value'', gstr 128 v)] []"

definition report_set_ok :: "string \<Rightarrow> string \<Rightarrow> cfgd \<Rightarrow> cfgd" where
  "report_set_ok key v =
     report [(''status'', ''ok''), (''op'', ''set''), (''key'', gstr 128 key), (''value'', gstr 128 v)] []"

definition report_list_ok :: "genode \<Rightarrow> cfgd \<Rightarrow> cfgd" where
  "report_list_ok G s =
     report [(''status'', ''ok''), (''op'', ''list''),
             (''count'', print_nat G (length registry + length (instantiated s)))]
       [node ''keys'' [] (key_nodes s)] s"

definition report_error :: "string \<Rightarrow> string \<Rightarrow> string \<Rightarrow> cfgd \<Rightarrow> cfgd" where
  "report_error op key msg =
     report [(''status'', ''error''), (''op'', op), (''key'', gstr 128 key), (''error'', msg)] []"

section \<open>The store file\<close>

abbreviation STORE_PATH :: string where "STORE_PATH \<equiv> ''/store.xml''"
abbreviation STORE_TMP_PATH :: string where "STORE_TMP_PATH \<equiv> ''/store.xml.tmp''"
abbreviation STORE_BUF :: nat where "STORE_BUF \<equiv> 16 * 1024"
abbreviation STORE_VERSION :: u32 where "STORE_VERSION \<equiv> 1"

definition entry_pieces :: "string \<Rightarrow> string \<Rightarrow> string list" where
  "entry_pieces name v =
     [''<entry name='' @ [DQ], name, [DQ] @ '' value='' @ [DQ], v, [DQ] @ ''/>'']"

definition store_pieces :: "cfgd \<Rightarrow> string list" where
  "store_pieces s =
     [''<sponge-config version='' @ [DQ] @ ''1'' @ [DQ] @ ''>'']
     @ concat (map (\<lambda>i. entry_pieces (kname (registry ! i)) (cvalues s ! i)) sorted_order_flat)
     @ concat (map (\<lambda>i. entry_pieces (kname (instantiated s ! i)) (inst_values s ! i))
         (sorted_order_instantiated s))
     @ [''</sponge-config>'']"

definition store_text :: "cfgd \<Rightarrow> string" where
  "store_text s = buf_appends 1 STORE_BUF [] (store_pieces s)"

definition open_tmp :: "save_io \<Rightarrow> vfs_op list option" where
  "open_tmp io =
     (case sv_open io of
        Open_ok \<Rightarrow> Some [Vfs_open STORE_TMP_PATH]
      | Open_err \<Rightarrow> None
      | Open_unaccessible \<Rightarrow>
          (if sv_create io = Open_ok then Some [Vfs_create STORE_TMP_PATH] else None))"

text \<open>The operations of one save that take effect, and whether it is still waiting at their end.\<close>

definition save_ops :: "string \<Rightarrow> save_io \<Rightarrow> vfs_op list \<times> bool" where
  "save_ops buf io =
     (case open_tmp io of
        None \<Rightarrow> ([], False)
      | Some ops \<Rightarrow>
          (let (e, ws) = write_loop STORE_TMP_PATH buf 0 (sv_writes io);
               ops = ops @ trunc_ops io STORE_TMP_PATH (length buf) @ ws
           in if e = Blocked \<or> sync_loop (sv_syncs io) = Blocked then (ops, True)
              else if e = Failed then (ops @ sync_ops io STORE_TMP_PATH, False)
              else (ops @ sync_ops io STORE_TMP_PATH
                    @ (if sv_rename io then [Vfs_rename STORE_TMP_PATH STORE_PATH] else []), False)))"

definition save_store :: "save_io \<Rightarrow> cfgd \<Rightarrow> cfgd" where
  "save_store io s =
     (if \<not> store_enabled s then s
      else let (ops, waiting) = save_ops (store_text s) io
           in (cfg_emit (map Disk ops) s)\<lparr>cfg_blocked := waiting\<rparr>)"

definition restore_entry :: "genode \<Rightarrow> xml \<Rightarrow> cfgd \<Rightarrow> cfgd" where
  "restore_entry G n s =
     (let key = attr_str 128 n ''name''; v = attr_str 128 n ''value'' in
      if key = [] \<or> v = [] then s
      else case find_key key of
             Some i \<Rightarrow> set_value i v s
           | None \<Rightarrow>
               (case instantiate_pattern G key s of
                  (Inl why, s) \<Rightarrow> s
                | (Inr i, s) \<Rightarrow> set_inst_value i v s))"

definition restore :: "genode \<Rightarrow> string \<Rightarrow> cfgd \<Rightarrow> cfgd" where
  "restore G buf s =
     (case parse_xml G buf of
        None \<Rightarrow> s\<lparr>cvalues := replicate (length registry) [], instantiated := []\<rparr>
      | Some root \<Rightarrow>
          (if \<not> has_type root ''sponge-config'' then s
           else if attr_u32 G root ''version'' 0 \<noteq> STORE_VERSION then s
           else fold (restore_entry G) (kids_of_type root ''entry'') s))"

definition load_store :: "genode \<Rightarrow> load_io \<Rightarrow> cfgd \<Rightarrow> cfgd" where
  "load_store G io s =
     (if \<not> store_enabled s then s
      else case ld_stat io of
        None \<Rightarrow> s
      | Some sz \<Rightarrow>
          (if sz = 0 \<or> STORE_BUF < sz then s
           else if ld_open io \<noteq> Open_ok then s
           else (case read_loop sz [] (ld_reads io) of
                   (Blocked, buf) \<Rightarrow> s\<lparr>cfg_blocked := True\<rparr>
                 | (Failed, buf) \<Rightarrow> s
                 | (Done, buf) \<Rightarrow> restore G buf s)))"

section \<open>Baked defaults\<close>

text \<open>
  The manifest scan: the first occurrence of the quoted name decides. A quoted value ends at the next
  quote, a number at the first other character, and either is cut to the buffer.
\<close>

definition json_value :: "nat \<Rightarrow> bool \<Rightarrow> string \<Rightarrow> string option" where
  "json_value cap quoted rest =
     (case dropWhile json_ws rest of
        [] \<Rightarrow> None
      | c # r \<Rightarrow>
          (if c \<noteq> CHR '':'' then None
           else
             let r = dropWhile json_ws r
             in if quoted \<and> (r = [] \<or> hd r \<noteq> DQ) then None
                else let body = (if quoted then tl r else r);
                         v = take (cap - 1) (takeWhile (\<lambda>c. if quoted then c \<noteq> DQ else is_digit c) body)
                     in if v = [] then None else Some (cstr v)))"

fun json_from :: "string \<Rightarrow> nat \<Rightarrow> bool \<Rightarrow> string \<Rightarrow> string option" where
  "json_from token cap quoted [] = None"
| "json_from token cap quoted (c # cs) =
     (if length (c # cs) \<le> length token then None
      else if take (length token) (c # cs) \<noteq> token then json_from token cap quoted cs
      else json_value cap quoted (drop (length token) (c # cs)))"

definition find_json_value :: "string \<Rightarrow> string \<Rightarrow> nat \<Rightarrow> bool \<Rightarrow> string option" where
  "find_json_value manifest name cap quoted = json_from (gstr 96 ([DQ] @ name @ [DQ])) cap quoted manifest"

definition bake_line :: "genode \<Rightarrow> string \<Rightarrow> cfgd \<Rightarrow> cfgd" where
  "bake_line G raw s =
     (let l = trim blank raw in
      if l = [] \<or> hd l = CHR ''#'' then s
      else if CHR ''='' \<notin> set l then s
      else
        let key = rev (dropWhile tab_or_space (rev (takeWhile (\<lambda>c. c \<noteq> CHR ''='') l)));
            v = dropWhile tab_or_space (tl (dropWhile (\<lambda>c. c \<noteq> CHR ''='') l))
        in if length key = 0 \<or> 128 \<le> length key \<or> 128 \<le> length v then s
           else snd (apply_validated_value G (cstr key) (cstr v) s))"

function bake_lines :: "genode \<Rightarrow> string \<Rightarrow> cfgd \<Rightarrow> cfgd" where
  "bake_lines G buf s =
     (if buf = [] \<or> hd buf = NUL then s
      else let l = takeWhile (\<lambda>c. c \<noteq> NL) buf
           in bake_lines G (drop (Suc (length l)) buf) (bake_line G l s))"
  by pat_completeness auto
termination
  by (relation "measure (\<lambda>(G, buf, s). length buf)") auto

declare bake_lines.simps [simp del]

text \<open>The contents of the two bake ROMs at the time of the call, when both are valid.\<close>

type_synonym bake_roms = "(string \<times> string) option"

definition apply_bake :: "genode \<Rightarrow> string \<Rightarrow> string \<Rightarrow> string \<Rightarrow> string option \<Rightarrow> cfgd \<Rightarrow> cfgd" where
  "apply_bake G defaults profile version theme s =
     (let s = bake_lines G defaults s;
          s = (case theme of None \<Rightarrow> s | Some t \<Rightarrow> snd (apply_validated_value G ''theme.active'' t s));
          s = snd (apply_validated_value G ''bake.profile'' profile s);
          s = snd (apply_validated_value G ''bake.version'' version s)
      in snd (apply_validated_value G ''bake.applied'' ''yes'' s))"

definition apply_bake_defaults :: "genode \<Rightarrow> bake_roms \<Rightarrow> cfgd \<Rightarrow> bool \<times> cfgd" where
  "apply_bake_defaults G roms s =
     (if \<not> bake_available s then (False, s)
      else case roms of
        None \<Rightarrow> (False, s)
      | Some (defaults, manifest) \<Rightarrow>
          (case (find_json_value manifest ''schema_version'' 16 False,
                 find_json_value manifest ''profile_config_version'' 16 False,
                 find_json_value manifest ''profile'' 128 True) of
             (Some schema, Some version, Some profile) \<Rightarrow>
               (if schema \<noteq> ''1'' \<or> version \<noteq> ''1'' then (False, s)
                else (True, apply_bake G defaults profile version
                        (find_json_value manifest ''theme'' 128 True) s))
           | _ \<Rightarrow> (False, s)))"

section \<open>Requests\<close>

definition unknown_key_msg :: "cfgd \<Rightarrow> string \<Rightarrow> string" where
  "unknown_key_msg s key =
     (let msg = gstr 256 (''unknown key: '' @ gstr 128 key);
          sugg = suggest_similar (known_names s) key
      in if sugg \<noteq> [] then gstr 256 (msg @ '' (suggested: '' @ sugg @ '')'') else msg)"

definition do_get :: "string \<Rightarrow> cfgd \<Rightarrow> cfgd" where
  "do_get key s =
     (case find_key key of
        Some i \<Rightarrow> report_get_ok key (cvalues s ! i) s
      | None \<Rightarrow>
          (case find_instantiated s key of
             Some i \<Rightarrow> report_get_ok key (inst_values s ! i) s
           | None \<Rightarrow> report_error ''get'' key (unknown_key_msg s key) s))"

text \<open>The common end of a set: save, then broadcast, then answer.\<close>

definition publish_set :: "string \<Rightarrow> string \<Rightarrow> save_io \<Rightarrow> cfgd \<Rightarrow> cfgd" where
  "publish_set key v io s =
     unless_blocked (\<lambda>s. report_set_ok key v (generate_broadcast s)) (save_store io s)"

text \<open>The resolution of a key to an index, which may instantiate a pattern slot.\<close>

definition resolve_slot :: "genode \<Rightarrow> string \<Rightarrow> cfgd \<Rightarrow> (string + nat) \<times> cfgd" where
  "resolve_slot G key s =
     (case find_key key of
        Some i \<Rightarrow> (Inr i, s)
      | None \<Rightarrow>
          (case find_instantiated s key of
             Some i \<Rightarrow> (Inr i, s)
           | None \<Rightarrow> instantiate_pattern G key s))"

definition write_slot :: "genode \<Rightarrow> string \<Rightarrow> string \<Rightarrow> nat \<Rightarrow> save_io \<Rightarrow> cfgd \<Rightarrow> cfgd" where
  "write_slot G key v i io s =
     (let d = (if i < length (instantiated s) then instantiated s ! i else registry ! i) in
      case value_valid G d v of
        Some why \<Rightarrow> report_error ''set'' key why s
      | None \<Rightarrow>
          publish_set key v io
            (if i < length (instantiated s) then set_inst_value i v s else set_value i v s))"

definition do_set :: "genode \<Rightarrow> string \<Rightarrow> string \<Rightarrow> save_io \<Rightarrow> bake_roms \<Rightarrow> cfgd \<Rightarrow> cfgd" where
  "do_set G key v io roms s =
     (if key = ''bake.applied'' \<and> v = ''no'' then
        (case apply_bake_defaults G roms s of
           (False, s) \<Rightarrow> report_error ''set'' key ''baked defaults are unavailable'' s
         | (True, s) \<Rightarrow> publish_set key v io s)
      else if key = ''bake.applied'' \<or> key = ''bake.profile'' \<or> key = ''bake.version'' then
        report_error ''set'' key ''bake metadata is read-only (use bake.applied=no to reset)'' s
      else case resolve_slot G key s of
        (Inl why, s) \<Rightarrow>
          report_error ''set'' key (if why \<noteq> [] then why else unknown_key_msg s key) s
      | (Inr i, s) \<Rightarrow> write_slot G key v i io s)"

definition do_list :: "genode \<Rightarrow> cfgd \<Rightarrow> cfgd" where
  "do_list G s = report_list_ok G s"

definition request_sig :: "xml \<Rightarrow> string" where
  "request_sig req =
     gstr 320 (attr_str 32 req ''op'' @ ''|'' @ attr_str 128 req ''key'' @ ''|'' @ attr_str 128 req ''value'')"

definition dispatch :: "genode \<Rightarrow> string \<Rightarrow> string \<Rightarrow> string \<Rightarrow> save_io \<Rightarrow> bake_roms \<Rightarrow> cfgd \<Rightarrow> cfgd" where
  "dispatch G op key v io roms s =
     (if op = ''list'' then do_list G s
      else if key = [] then report_error op [] ''no key specified in request'' s
      else if op = ''get'' then do_get key s
      else if op = ''set'' then do_set G key v io roms s
      else report_error op key ''unknown operation'' s)"

definition handle_request_impl :: "genode \<Rightarrow> rom \<Rightarrow> save_io \<Rightarrow> bake_roms \<Rightarrow> cfgd \<Rightarrow> cfgd" where
  "handle_request_impl G r io roms s =
     (case r of
        Rom_invalid \<Rightarrow> s
      | Rom_malformed \<Rightarrow> report_error ''get'' [] ''malformed request ROM'' s
      | Rom_node req \<Rightarrow>
          (if \<not> has_type req ''request''
           then report_error ''get'' [] ''request root is not <request>'' s
           else if request_sig req = last_sig s then s
           else dispatch G (attr_str 32 req ''op'') (attr_str 128 req ''key'') (attr_str 128 req ''value'')
                  io roms (s\<lparr>last_sig := request_sig req\<rparr>)))"

definition ensure_de_channel :: "cfgd \<Rightarrow> cfgd" where
  "ensure_de_channel s = s\<lparr>de_channel := True\<rparr>"

definition handle_request :: "genode \<Rightarrow> rom \<Rightarrow> save_io \<Rightarrow> bake_roms \<Rightarrow> cfgd \<Rightarrow> cfgd" where
  "handle_request G r io roms s =
     (if r = Rom_invalid then s else handle_request_impl G r io roms (s\<lparr>active_channel := Vct\<rparr>))"

definition handle_de_request :: "genode \<Rightarrow> rom \<Rightarrow> save_io \<Rightarrow> bake_roms \<Rightarrow> cfgd \<Rightarrow> cfgd" where
  "handle_de_request G r io roms s =
     (let s = ensure_de_channel s in
      if r = Rom_invalid then s else handle_request_impl G r io roms (s\<lparr>active_channel := De_side\<rparr>))"

definition handle_lz_model :: "rom \<Rightarrow> cfgd \<Rightarrow> cfgd" where
  "handle_lz_model r s =
     (if \<not> lz_watch s then s
      else case r of
        Rom_node x \<Rightarrow>
          (let diverged = (\<exists>f \<in> set (kids_of_type x ''file''). attr_str 8 f ''changed'' = ''true'')
           in if diverged \<noteq> lz_diverged s then generate_broadcast (s\<lparr>lz_diverged := diverged\<rparr>) else s)
      | _ \<Rightarrow> s)"

section \<open>Construction\<close>

definition init_store :: "rom \<Rightarrow> cfgd \<Rightarrow> cfgd" where
  "init_store cfg s = (if has_sub_node cfg ''vfs'' then s\<lparr>store_enabled := True\<rparr> else s)"

definition fill_defaults :: "cfgd \<Rightarrow> cfgd" where
  "fill_defaults s =
     s\<lparr>cvalues := map (\<lambda>i. if cvalues s ! i = [] then gstr 128 (default_value (registry ! i)) else cvalues s ! i)
                    [0..<length registry]\<rparr>"

definition init_bake :: "rom \<Rightarrow> bake_roms \<Rightarrow> cfgd \<Rightarrow> cfgd" where
  "init_bake cfg roms s = (if has_sub_node cfg ''bake'' then s\<lparr>bake_available := roms \<noteq> None\<rparr> else s)"

definition first_bake :: "genode \<Rightarrow> bake_roms \<Rightarrow> save_io \<Rightarrow> cfgd \<Rightarrow> cfgd" where
  "first_bake G roms io s =
     (case find_key ''bake.applied'' of
        None \<Rightarrow> s
      | Some i \<Rightarrow>
          (if \<not> bake_available s \<or> cvalues s ! i = ''yes'' then s
           else case apply_bake_defaults G roms s of
                  (True, s) \<Rightarrow> save_store io s
                | (False, s) \<Rightarrow> s))"

text \<open>The raw text of the configuration mentions \<open>lz_model\<close> before its first NUL.\<close>

definition mentions_lz_model :: "string \<Rightarrow> bool" where
  "mentions_lz_model raw \<longleftrightarrow> (\<exists>k \<le> length (cstr raw). prefix ''lz_model'' (drop k (cstr raw)))"

definition init_lz :: "rom \<Rightarrow> string \<Rightarrow> rom \<Rightarrow> cfgd \<Rightarrow> cfgd" where
  "init_lz cfg raw lz s =
     (if cfg \<noteq> Rom_invalid \<and> mentions_lz_model raw
      then handle_lz_model lz (s\<lparr>lz_watch := True\<rparr>) else s)"

text \<open>What the constructor finds: the configuration and its text, the store, the other ROMs.\<close>

record cfg_env =
  ce_config :: rom
  ce_raw :: string
  ce_load :: load_io
  ce_roms :: bake_roms
  ce_save :: save_io
  ce_lz :: rom
  ce_request :: rom
  ce_request_save :: save_io

definition cfg_construct :: "genode \<Rightarrow> cfg_env \<Rightarrow> cfgd" where
  "cfg_construct G e =
     unless_blocked (\<lambda>s.
       unless_blocked (\<lambda>s.
         handle_request G (ce_request e) (ce_request_save e) (ce_roms e)
           (init_lz (ce_config e) (ce_raw e) (ce_lz e)
             (let s = generate_broadcast s
              in if has_sub_node (ce_config e) ''de_config'' then ensure_de_channel s else s)))
       (first_bake G (ce_roms e) (ce_save e) (init_bake (ce_config e) (ce_roms e) (fill_defaults s))))
     (load_store G (ce_load e) (init_store (ce_config e) cfg_init))"

datatype cfg_event =
    Config_request rom save_io bake_roms
  | De_config_request rom save_io bake_roms
  | Lz_model rom

fun cfg_step :: "genode \<Rightarrow> cfg_event \<Rightarrow> cfgd \<Rightarrow> cfgd" where
  "cfg_step G (Config_request r io roms) s = unless_blocked (handle_request G r io roms) s"
| "cfg_step G (De_config_request r io roms) s = unless_blocked (handle_de_request G r io roms) s"
| "cfg_step G (Lz_model r) s = unless_blocked (handle_lz_model r) s"

definition cfg_start :: "genode \<Rightarrow> cfgd \<Rightarrow> bool" where
  "cfg_start G s \<longleftrightarrow> (\<exists>e. s = cfg_construct G e)"

end
