(* ===== verification/Configd_Inv.thy ===== *)
theory Configd_Inv
  imports Configd
begin

text \<open>
  The invariants of \<open>sponge_configd\<close>. The shape of the store (one value per registered key, at most
  32 distinct instantiated keys, each a clone of its template) and a predicate on every stored value
  are kept together; the predicate is the parameter of the locale \<open>value_policy\<close>, interpreted once
  with the capacity bound, which even a store file read back from disk satisfies, and once with
  acceptance by the key's own validator.
\<close>

section \<open>Frames\<close>

definition same_store :: "cfgd \<Rightarrow> cfgd \<Rightarrow> bool" where
  "same_store s s' \<longleftrightarrow> cvalues s' = cvalues s \<and> instantiated s' = instantiated s
     \<and> inst_values s' = inst_values s"

text \<open>Outputs and instantiated keys are only ever added.\<close>

definition grows :: "cfgd \<Rightarrow> cfgd \<Rightarrow> bool" where
  "grows s s' \<longleftrightarrow> (\<exists>new. cfg_out s' = cfg_out s @ new) \<and> (\<exists>more. instantiated s' = instantiated s @ more)"

lemma grows_refl [simp]: "grows s s"
  by (simp add: grows_def)

lemma grows_trans [trans]: "grows s s' \<Longrightarrow> grows s' s'' \<Longrightarrow> grows s s''"
  by (auto simp: grows_def)

lemma same_store_refl [simp]: "same_store s s"
  by (simp add: same_store_def)

lemma same_store_trans [trans]: "same_store s s' \<Longrightarrow> same_store s' s'' \<Longrightarrow> same_store s s''"
  by (simp add: same_store_def)

lemma cfg_emit_simps [simp]:
  "cvalues (cfg_emit os s) = cvalues s" "instantiated (cfg_emit os s) = instantiated s"
  "inst_values (cfg_emit os s) = inst_values s" "cfg_out (cfg_emit os s) = cfg_out s @ os"
  "last_sig (cfg_emit os s) = last_sig s" "lz_diverged (cfg_emit os s) = lz_diverged s"
  "active_channel (cfg_emit os s) = active_channel s" "store_enabled (cfg_emit os s) = store_enabled s"
  "cfg_blocked (cfg_emit os s) = cfg_blocked s" "bake_available (cfg_emit os s) = bake_available s"
  by (simp_all add: cfg_emit_def)

lemmas report_defs = report_get_ok_def report_set_ok_def report_list_ok_def report_error_def report_def
  generate_broadcast_def

lemma same_store_report [simp]:
  "same_store s (report_get_ok k v s)" "same_store s (report_set_ok k v s)"
  "same_store s (report_list_ok G s)" "same_store s (report_error op k m s)"
  "same_store s (generate_broadcast s)"
  by (simp_all add: same_store_def report_defs)

lemma grows_report [simp]:
  "grows s (report_get_ok k v s)" "grows s (report_set_ok k v s)"
  "grows s (report_list_ok G s)" "grows s (report_error op k m s)" "grows s (generate_broadcast s)"
  by (simp_all add: grows_def report_defs)

lemma save_store_frame [simp]:
  "same_store s (save_store io s)" "grows s (save_store io s)"
  by (simp_all add: same_store_def grows_def save_store_def split: prod.split)

lemma publish_set_frame [simp]:
  "same_store s (publish_set k v io s)" "grows s (publish_set k v io s)"
proof -
  let ?b = "generate_broadcast (save_store io s)"
  have "same_store s (report_set_ok k v ?b)"
    by (rule same_store_trans [OF same_store_trans [OF save_store_frame(1) same_store_report(5)]
          same_store_report(2)])
  moreover have "grows s (report_set_ok k v ?b)"
    by (rule grows_trans [OF grows_trans [OF save_store_frame(2) grows_report(5)] grows_report(2)])
  ultimately show "same_store s (publish_set k v io s)" "grows s (publish_set k v io s)"
    by (simp_all add: publish_set_def unless_blocked_def)
qed

lemma set_value_simps [simp]:
  "instantiated (set_value i v s) = instantiated s" "inst_values (set_value i v s) = inst_values s"
  "cvalues (set_value i v s) = (cvalues s)[i := gstr 128 v]" "cfg_out (set_value i v s) = cfg_out s"
  "cvalues (set_inst_value i v s) = cvalues s" "instantiated (set_inst_value i v s) = instantiated s"
  "inst_values (set_inst_value i v s) = (inst_values s)[i := gstr 128 v]"
  "cfg_out (set_inst_value i v s) = cfg_out s"
  "store_enabled (set_value i v s) = store_enabled s" "store_enabled (set_inst_value i v s) = store_enabled s"
  "cfg_blocked (set_value i v s) = cfg_blocked s" "cfg_blocked (set_inst_value i v s) = cfg_blocked s"
  "active_channel (set_value i v s) = active_channel s" "active_channel (set_inst_value i v s) = active_channel s"
  by (simp_all add: set_value_def set_inst_value_def)

lemma length_registry [simp]: "length registry = 14"
  by (simp add: registry_def)

lemma find_key_Some: "find_key k = Some i \<Longrightarrow> i < 14 \<and> kname (registry ! i) = k"
  unfolding find_key_def using find_index_Some [of "\<lambda>d. kname d = k" registry i] by simp

lemma find_inst_Some:
  "find_instantiated s k = Some i \<Longrightarrow> i < length (instantiated s) \<and> kname (instantiated s ! i) = k"
  unfolding find_instantiated_def using find_index_Some [of "\<lambda>d. kname d = k" "instantiated s" i] by simp

lemma find_inst_None:
  "find_instantiated s k = None \<longleftrightarrow> k \<notin> kname ` set (instantiated s)"
  unfolding find_instantiated_def using find_index_None [of "\<lambda>d. kname d = k" "instantiated s"] by auto

section \<open>The shape of the store\<close>

definition pattern_key :: "string \<Rightarrow> bool" where
  "pattern_key k \<longleftrightarrow> pattern_shape_match k \<and> pattern_extract_id k \<noteq> None \<and> find_key k = None \<and> length k < 128"

definition shape_inv :: "cfgd \<Rightarrow> bool" where
  "shape_inv s \<longleftrightarrow> length (cvalues s) = 14 \<and> length (inst_values s) = MAX_PATTERN_KEYS
     \<and> length (instantiated s) \<le> MAX_PATTERN_KEYS \<and> distinct (map kname (instantiated s))
     \<and> (\<forall>d \<in> set (instantiated s). pattern_key (kname d) \<and> clone_of (kname d) = d)"

lemma shape_inv_cong: "same_store s s' \<Longrightarrow> shape_inv s' \<longleftrightarrow> shape_inv s"
  by (simp add: same_store_def shape_inv_def)

lemma shape_inv_set [simp]:
  "shape_inv (set_value i v s) \<longleftrightarrow> shape_inv s" "shape_inv (set_inst_value i v s) \<longleftrightarrow> shape_inv s"
  by (simp_all add: shape_inv_def)

lemma kname_clone_of: "length k < 128 \<Longrightarrow> kname (clone_of k) = k"
  by (simp add: clone_of_def)

text \<open>What instantiating a pattern key does: nothing, or a new slot at the end.\<close>

lemma instantiate_cases:
  obtains (refused) why where "instantiate_pattern G key s = (Inl why, s)"
  | (found) i where "instantiate_pattern G key s = (Inr i, s)" "find_instantiated s key = Some i"
  | (fresh) ident where "pattern_shape_match key" "pattern_extract_id key = Some ident"
      "find_instantiated s key = None" "length (instantiated s) < MAX_PATTERN_KEYS"
      "instantiate_pattern G key s
        = (Inr (length (instantiated s)), s\<lparr>instantiated := instantiated s @ [clone_of key]\<rparr>)"
  by (cases "pattern_shape_match key"; cases "pattern_extract_id key"; cases "find_instantiated s key";
      cases "MAX_PATTERN_KEYS \<le> length (instantiated s)")
     (auto simp: instantiate_pattern_def)

lemma instantiate_grows: "grows s (snd (instantiate_pattern G key s))"
  by (cases rule: instantiate_cases [of G key s]) (auto simp: grows_def)

lemma shape_inv_instantiate:
  assumes "shape_inv s" and "find_key key = None" and "length key < 128"
  shows "shape_inv (snd (instantiate_pattern G key s))"
proof (cases rule: instantiate_cases [of G key s])
  case (fresh ident)
  then show ?thesis using assms
    by (auto simp: shape_inv_def pattern_key_def kname_clone_of find_inst_None)
qed (use assms in auto)

lemma instantiate_Inr:
  assumes "instantiate_pattern G key s = (Inr i, s')" and "length key < 128"
  shows "i < length (instantiated s') \<and> kname (instantiated s' ! i) = key"
  using assms find_inst_Some [of s key]
  by (cases rule: instantiate_cases [of G key s]) (auto simp: kname_clone_of nth_append)

section \<open>A policy on the values\<close>

locale value_policy =
  fixes G :: genode and ok :: "key_def \<Rightarrow> string \<Rightarrow> bool"
  assumes accepted: "length v < 128 \<Longrightarrow> value_valid G d v = None \<Longrightarrow> ok d v"
    and default: "d \<in> set registry \<Longrightarrow> ok d (default_value d)"
    and unset: "ok d []"
begin

definition good :: "cfgd \<Rightarrow> bool" where
  "good s \<longleftrightarrow> shape_inv s \<and> (\<forall>i < 14. ok (registry ! i) (cvalues s ! i))
     \<and> (\<forall>i < length (instantiated s). ok (instantiated s ! i) (inst_values s ! i))
     \<and> (\<forall>i. length (instantiated s) \<le> i \<and> i < MAX_PATTERN_KEYS \<longrightarrow> inst_values s ! i = [])"

lemma good_cong: "same_store s s' \<Longrightarrow> good s' \<longleftrightarrow> good s"
  using shape_inv_cong [of s s'] by (simp add: same_store_def good_def)

lemma good_set_value:
  "good s \<Longrightarrow> i < 14 \<Longrightarrow> length v < 128 \<Longrightarrow> ok (registry ! i) v \<Longrightarrow> good (set_value i v s)"
  by (auto simp: good_def shape_inv_def nth_list_update)

lemma good_set_inst:
  "good s \<Longrightarrow> i < length (instantiated s) \<Longrightarrow> length v < 128 \<Longrightarrow> ok (instantiated s ! i) v
    \<Longrightarrow> good (set_inst_value i v s)"
  by (auto simp: good_def shape_inv_def nth_list_update)

lemma good_instantiate:
  assumes "good s" and "find_key key = None" and "length key < 128"
  shows "good (snd (instantiate_pattern G key s))"
proof (cases rule: instantiate_cases [of G key s])
  case (fresh ident)
  have "shape_inv (snd (instantiate_pattern G key s))"
    using assms by (intro shape_inv_instantiate) (simp_all add: good_def)
  then show ?thesis using fresh assms(1)
    by (auto simp: good_def nth_append less_Suc_eq unset)
qed (use assms in auto)

lemma good_apply_validated:
  assumes "good s" and "length key < 128" and "length v < 128"
  shows "good (snd (apply_validated_value G key v s))"
proof (cases "find_key key")
  case (Some i)
  then show ?thesis
    using assms find_key_Some [OF Some] accepted [OF assms(3)] good_set_value [of s i v]
    by (auto simp: apply_validated_value_def split: option.split)
next
  case None
  have g: "good (snd (instantiate_pattern G key s))"
    using assms None by (intro good_instantiate)
  show ?thesis
  proof (cases "fst (instantiate_pattern G key s)")
    case (Inl why)
    then show ?thesis using g None
      by (auto simp: apply_validated_value_def split: option.split sum.split prod.split)
  next
    case (Inr i)
    define s' where "s' = snd (instantiate_pattern G key s)"
    then have e: "instantiate_pattern G key s = (Inr i, s')" using Inr by (metis prod.collapse)
    then show ?thesis
      using g None instantiate_Inr [OF e assms(2)] accepted [OF assms(3)] good_set_inst [of s' i v] assms(3)
      by (auto simp: apply_validated_value_def s'_def [symmetric] split: option.split)
  qed
qed

lemma good_bake_line: "good s \<Longrightarrow> good (bake_line G raw s)"
proof -
  assume g: "good s"
  have c: "length (cstr x) < 128" if "length x < 128" for x
    using that length_takeWhile_le [of "\<lambda>c. c \<noteq> NUL" x] by (simp add: cstr_def)
  show ?thesis
    unfolding bake_line_def Let_def using g
    by (auto simp: not_le intro!: good_apply_validated c)
qed

lemma good_bake_lines: "good s \<Longrightarrow> good (bake_lines G buf s)"
proof (induction buf arbitrary: s rule: measure_induct_rule [of length])
  case (less buf)
  show ?case
  proof (cases "buf = [] \<or> hd buf = NUL")
    case True
    then show ?thesis using less.prems by (subst bake_lines.simps) simp
  next
    case False
    let ?l = "takeWhile (\<lambda>c. c \<noteq> NL) buf"
    have "good (bake_lines G (drop (Suc (length ?l)) buf) (bake_line G ?l s))"
      using False by (intro less.IH good_bake_line less.prems) simp
    then show ?thesis using False by (subst bake_lines.simps) (simp add: Let_def)
  qed
qed

lemma good_apply_bake:
  assumes "good s" and "length profile < 128" and "length version < 128"
    and "\<And>t. theme = Some t \<Longrightarrow> length t < 128"
  shows "good (apply_bake G defaults profile version theme s)"
proof -
  let ?s1 = "bake_lines G defaults s"
  have g1: "good ?s1" using assms(1) by (rule good_bake_lines)
  have g2: "good (case theme of None \<Rightarrow> ?s1 | Some t \<Rightarrow> snd (apply_validated_value G ''theme.active'' t ?s1))"
    using g1 assms(4) by (auto split: option.split intro!: good_apply_validated)
  show ?thesis unfolding apply_bake_def Let_def
    using g2 assms(2,3) by (intro good_apply_validated) simp_all
qed

lemma length_json_from: "json_from tok cap q m = Some v \<Longrightarrow> 0 < cap \<Longrightarrow> length v < cap"
proof (induction tok cap q m rule: json_from.induct)
  case (2 tok cap q c cs)
  have "length (cstr (take (cap - 1) x)) < cap" if "0 < cap" for x
    using length_takeWhile_le [of "\<lambda>c. c \<noteq> NUL" "take (cap - 1) x"] that by (simp add: cstr_def min_def split: if_splits)
  then have "json_value cap q r = Some v \<Longrightarrow> 0 < cap \<Longrightarrow> length v < cap" for r
    by (auto simp: json_value_def Let_def split: list.splits if_splits)
  with 2 show ?case by (auto split: if_splits)
qed simp

lemma good_apply_bake_defaults: "good s \<Longrightarrow> good (snd (apply_bake_defaults G roms s))"
proof -
  assume g: "good s"
  have l: "find_json_value m nm cap q = Some v \<Longrightarrow> 0 < cap \<Longrightarrow> length v < cap" for m nm cap q v
    unfolding find_json_value_def by (rule length_json_from)
  show ?thesis
    unfolding apply_bake_defaults_def using g
    by (auto split: option.split prod.split dest!: l intro!: good_apply_bake)
qed

lemma good_report:
  assumes "good s"
  shows "good (report_get_ok k v s)" "good (report_set_ok k v s)" "good (report_list_ok G' s)"
    "good (report_error op k m s)" "good (generate_broadcast s)" "good (save_store io s)"
    "good (publish_set k v io s)"
  using assms good_cong [OF same_store_report(1)] good_cong [OF same_store_report(2)]
    good_cong [OF same_store_report(3)] good_cong [OF same_store_report(4)]
    good_cong [OF same_store_report(5)] good_cong [OF save_store_frame(1)]
    good_cong [OF publish_set_frame(1)] by simp_all

lemma good_write_slot:
  assumes "good s" and "i < 14 \<or> i < length (instantiated s)" and "length v < 128"
  shows "good (write_slot G key v i io s)"
proof -
  have r: "i < 14 \<Longrightarrow> registry ! i \<in> set registry" by simp
  show ?thesis using assms accepted [OF assms(3)]
    by (auto simp: write_slot_def Let_def split: option.split
        intro!: good_report good_set_inst good_set_value)
qed

lemma good_do_set:
  assumes "good s" and "length key < 128" and "length v < 128"
  shows "good (do_set G key v io roms s)"
proof -
  have b: "good (snd (apply_bake_defaults G roms s))" using assms(1) by (rule good_apply_bake_defaults)
  have "good (case resolve_slot G key s of
        (Inl why, s) \<Rightarrow> report_error ''set'' key (if why \<noteq> [] then why else unknown_key_msg s key) s
      | (Inr i, s) \<Rightarrow> write_slot G key v i io s)"
  proof (cases "find_key key")
    case (Some i)
    then show ?thesis using assms find_key_Some [OF Some]
      by (auto simp: resolve_slot_def intro!: good_write_slot)
  next
    case None
    note k = None
    show ?thesis
    proof (cases "find_instantiated s key")
      case (Some i)
      then show ?thesis using assms find_inst_Some [OF Some] k
        by (auto simp: resolve_slot_def intro!: good_write_slot)
    next
      case None
      obtain r s' where e: "instantiate_pattern G key s = (r, s')" by fastforce
      have "good s'" using good_instantiate [OF assms(1) k assms(2)] e by simp
      then show ?thesis using e k None instantiate_Inr [of G key s _ s'] assms(2,3)
        by (auto simp: resolve_slot_def split: sum.split intro!: good_report good_write_slot)
    qed
  qed
  then show ?thesis using assms b
    by (auto simp: do_set_def split: prod.split bool.split intro!: good_report)
qed

lemma good_upd:
  "good (s\<lparr>last_sig := a\<rparr>) \<longleftrightarrow> good s" "good (s\<lparr>active_channel := c\<rparr>) \<longleftrightarrow> good s"
  "good (s\<lparr>de_channel := b\<rparr>) \<longleftrightarrow> good s" "good (s\<lparr>lz_diverged := b\<rparr>) \<longleftrightarrow> good s"
  "good (s\<lparr>lz_watch := b\<rparr>) \<longleftrightarrow> good s" "good (s\<lparr>bake_available := b\<rparr>) \<longleftrightarrow> good s"
  "good (s\<lparr>store_enabled := b\<rparr>) \<longleftrightarrow> good s" "good (s\<lparr>cfg_blocked := b\<rparr>) \<longleftrightarrow> good s"
  by (rule good_cong; simp add: same_store_def)+

lemma good_dispatch:
  "good s \<Longrightarrow> length key < 128 \<Longrightarrow> length v < 128 \<Longrightarrow> good (dispatch G op key v io roms s)"
  by (auto simp: dispatch_def do_list_def do_get_def split: option.split
      intro!: good_report good_do_set)

lemma attr_str_less: "0 < n \<Longrightarrow> length (attr_str n x k) < n"
  using length_attr_str [of n x k] by simp

lemma good_handle_request_impl: "good s \<Longrightarrow> good (handle_request_impl G r io roms s)"
  by (auto simp: handle_request_impl_def good_upd attr_str_less split: rom.split
      intro!: good_report good_dispatch)

lemma good_handle_lz_model: "good s \<Longrightarrow> good (handle_lz_model r s)"
  by (auto simp: handle_lz_model_def Let_def good_upd split: rom.split intro!: good_report)

lemma good_cfg_step: "good s \<Longrightarrow> good (cfg_step G e s)"
  by (cases e) (auto simp: unless_blocked_def handle_request_def handle_de_request_def
      ensure_de_channel_def Let_def good_upd intro!: good_handle_request_impl good_handle_lz_model)

lemma good_fill_defaults: "good s \<Longrightarrow> good (fill_defaults s)"
proof -
  have "ok (registry ! i) (gstr 128 (default_value (registry ! i)))" if "i < 14" for i
  proof -
    have "list_all (\<lambda>d. length (default_value d) < 128) registry" by (simp add: registry_def)
    then have "length (default_value (registry ! i)) < 128" using that by (simp add: list_all_length)
    then show ?thesis using default [of "registry ! i"] that by simp
  qed
  moreover assume "good s"
  ultimately show ?thesis by (simp add: good_def shape_inv_def fill_defaults_def)
qed

lemma good_first_bake: "good s \<Longrightarrow> good (first_bake G roms io s)"
  using good_apply_bake_defaults [of s roms]
  by (auto simp: first_bake_def split: option.split prod.split bool.split intro!: good_report)

lemma good_cfg_init: "good cfg_init"
  by (auto simp: good_def shape_inv_def cfg_init_def unset)

lemma good_construct:
  assumes "good (load_store G (ce_load e) (init_store (ce_config e) cfg_init))"
  shows "good (cfg_construct G e)"
proof -
  have h: "good s \<Longrightarrow> good (handle_request G r io roms s)" for r io roms s
    by (auto simp: handle_request_def good_upd intro!: good_handle_request_impl)
  have l: "good s \<Longrightarrow> good (init_lz c raw lz s)" for c raw lz s
    by (auto simp: init_lz_def good_upd intro!: good_handle_lz_model)
  have b: "good s \<Longrightarrow> good (init_bake c roms s)" for c roms s
    by (auto simp: init_bake_def good_upd)
  show ?thesis
    unfolding cfg_construct_def unless_blocked_def Let_def
    using assms by (auto simp: ensure_de_channel_def good_upd
        intro!: h l b good_first_bake good_fill_defaults good_report)
qed

end

text \<open>With a policy that accepts every value of the right length, the store file is covered as well.\<close>

locale lax_policy = value_policy +
  assumes lax: "length v < 128 \<Longrightarrow> ok d v"
begin

lemma good_restore_entry: "good s \<Longrightarrow> good (restore_entry G n s)"
proof -
  assume g: "good s"
  let ?key = "attr_str 128 n ''name''" and ?v = "attr_str 128 n ''value''"
  have len: "length ?key < 128" "length ?v < 128" by (simp_all add: attr_str_less)
  show ?thesis
  proof (cases "find_key ?key")
    case (Some i)
    then show ?thesis using g find_key_Some [OF Some] len lax
      by (auto simp: restore_entry_def Let_def intro!: good_set_value)
  next
    case None
    obtain r s' where e: "instantiate_pattern G ?key s = (r, s')" by fastforce
    have "good s'" using good_instantiate [OF g None len(1)] e by simp
    then show ?thesis using e None g len lax instantiate_Inr [of G ?key s _ s']
      by (auto simp: restore_entry_def Let_def split: sum.split intro!: good_set_inst)
  qed
qed

lemma good_restore:
  assumes "good s" and "instantiated s = []"
  shows "good (restore G buf s)"
proof -
  have "good (fold (restore_entry G) ns s)" for ns
    using assms(1) by (induction ns arbitrary: s) (auto intro: good_restore_entry)
  moreover have "good (s\<lparr>cvalues := replicate (length registry) [], instantiated := []\<rparr>)"
    using assms by (simp add: good_def shape_inv_def unset)
  ultimately show ?thesis using assms by (simp add: restore_def split: option.split)
qed

lemma good_load_store:
  "good s \<Longrightarrow> instantiated s = [] \<Longrightarrow> good (load_store G io s)"
  by (simp add: load_store_def good_upd good_restore split: option.split prod.split io_end.split)

lemma good_start: "cfg_start G s \<Longrightarrow> good s"
proof -
  have "good (init_store c cfg_init)" for c
    using good_cfg_init by (simp add: init_store_def good_upd)
  moreover have "instantiated (init_store c cfg_init) = []" for c
    by (simp add: init_store_def cfg_init_def)
  ultimately show "cfg_start G s \<Longrightarrow> good s"
    by (auto simp: cfg_start_def intro!: good_construct good_load_store)
qed

end

section \<open>Growth\<close>

lemma grows_cong:
  "grows s s' \<Longrightarrow> cfg_out t = cfg_out s \<Longrightarrow> instantiated t = instantiated s \<Longrightarrow> grows t s'"
  by (simp add: grows_def)

lemma grows_set_value [simp]: "grows s (set_value i v s)" "grows s (set_inst_value i v s)"
  by (simp_all add: grows_def)

lemma grows_apply_validated: "grows s (snd (apply_validated_value G key v s))"
proof -
  obtain r s' where e: "instantiate_pattern G key s = (r, s')" by fastforce
  have "grows s s'" using instantiate_grows [of s G key] e by simp
  then show ?thesis using e grows_trans [of s s' "set_inst_value i v s'" for i]
    by (auto simp: apply_validated_value_def split: option.split sum.split)
qed

lemma grows_bake_line: "grows s (bake_line G raw s)"
  by (simp add: bake_line_def Let_def grows_apply_validated)

lemma grows_bake_lines: "grows s (bake_lines G buf s)"
proof (induction G buf s rule: bake_lines.induct)
  case (1 G buf s)
  then show ?case
    by (subst bake_lines.simps) (auto simp: Let_def intro: grows_trans [OF grows_bake_line])
qed

lemma grows_apply_bake: "grows s (apply_bake G defaults profile version theme s)"
  unfolding apply_bake_def Let_def
  by (intro grows_trans [OF _ grows_apply_validated] grows_bake_lines)
     (auto split: option.split intro: grows_trans [OF grows_bake_lines grows_apply_validated] grows_bake_lines)

lemma grows_apply_bake_defaults: "grows s (snd (apply_bake_defaults G roms s))"
  by (auto simp: apply_bake_defaults_def grows_apply_bake split: option.split prod.split)

lemma grows_write_slot: "grows s (write_slot G key v i io s)"
  unfolding write_slot_def Let_def
  by (auto split: option.split intro: grows_trans [OF grows_set_value(1) publish_set_frame(2)]
      grows_trans [OF grows_set_value(2) publish_set_frame(2)])

lemma grows_do_set: "grows s (do_set G key v io roms s)"
proof -
  obtain b s1 where e1: "apply_bake_defaults G roms s = (b, s1)" by fastforce
  have g1: "grows s s1" using grows_apply_bake_defaults [of s G roms] e1 by simp
  obtain r s2 where e2: "resolve_slot G key s = (r, s2)" by fastforce
  have g2: "grows s s2" using e2 instantiate_grows [of s G key]
    by (auto simp: resolve_slot_def split: option.splits)
  show ?thesis
    using e1 e2 grows_trans [OF g1 grows_report(4)] grows_trans [OF g1 publish_set_frame(2)]
      grows_trans [OF g2 grows_report(4)] grows_trans [OF g2 grows_write_slot]
    by (auto simp: do_set_def split: bool.split sum.split)
qed

lemma grows_dispatch: "grows s (dispatch G op key v io roms s)"
  by (simp add: dispatch_def do_list_def do_get_def grows_do_set split: option.split)

lemma grows_handle_request_impl: "grows s (handle_request_impl G r io roms s)"
proof -
  have "grows s (dispatch G op key v io roms (s\<lparr>last_sig := a\<rparr>))" for op key v a
    by (rule grows_cong [OF grows_dispatch]) simp_all
  then show ?thesis by (auto simp: handle_request_impl_def split: rom.split)
qed

lemma grows_cfg_step: "grows s (cfg_step G e s)"
proof (cases e)
  case (Config_request r io roms)
  have "grows s (handle_request_impl G r io roms (s\<lparr>active_channel := Vct\<rparr>))"
    by (rule grows_cong [OF grows_handle_request_impl]) simp_all
  then show ?thesis by (simp add: Config_request unless_blocked_def handle_request_def)
next
  case (De_config_request r io roms)
  have "grows s (handle_request_impl G r io roms (s\<lparr>de_channel := True, active_channel := De_side\<rparr>))"
    by (rule grows_cong [OF grows_handle_request_impl]; simp)
  moreover have "grows s (s\<lparr>de_channel := True\<rparr>)" by (simp add: grows_def)
  ultimately show ?thesis
    by (simp add: De_config_request unless_blocked_def handle_de_request_def ensure_de_channel_def Let_def)
next
  case (Lz_model r)
  have "grows s (generate_broadcast (s\<lparr>lz_diverged := a\<rparr>))" for a
    by (rule grows_cong [OF grows_report(5)]) simp_all
  then show ?thesis
    by (simp add: Lz_model unless_blocked_def handle_lz_model_def Let_def split: rom.split)
qed

section \<open>Interpretations\<close>

definition len_ok :: "key_def \<Rightarrow> string \<Rightarrow> bool" where
  "len_ok d v \<longleftrightarrow> length v < 128"

text \<open>Unset, the registered default, or accepted by the validator of its key.\<close>

definition value_ok :: "genode \<Rightarrow> key_def \<Rightarrow> string \<Rightarrow> bool" where
  "value_ok G d v \<longleftrightarrow> v = [] \<or> (d \<in> set registry \<and> v = default_value d) \<or> value_valid G d v = None"

lemma default_lengths: "d \<in> set registry \<Longrightarrow> length (default_value d) < 128"
  by (auto simp: registry_def)

interpretation lengths: lax_policy G len_ok for G
  by unfold_locales (auto simp: len_ok_def default_lengths)

interpretation validity: value_policy G "value_ok G" for G
  by unfold_locales (auto simp: value_ok_def)

lemma lengths_start: "cfg_start G s \<Longrightarrow> lengths.good s"
  by (rule lengths.good_start)

interpretation cfg: emitting_machine "cfg_start G" "cfg_step G" lengths.good cfg_out for G
proof unfold_locales
  fix s i
  show "cfg_start G s \<Longrightarrow> lengths.good s" by (rule lengths_start)
  assume g: "lengths.good s"
  then show "lengths.good (cfg_step G i s)" by (rule lengths.good_cfg_step)
  show "\<exists>new. cfg_out (cfg_step G i s) = cfg_out s @ new"
    using grows_cfg_step [of s G i] by (simp add: grows_def)
qed

interpretation slots: growing_machine "cfg_start G" "cfg_step G" lengths.good "\<lambda>s. length (instantiated s)" for G
proof unfold_locales
  fix s i
  show "length (instantiated s) \<le> length (instantiated (cfg_step G i s))"
    using grows_cfg_step [of s G i] by (auto simp: grows_def)
qed

end
