(* ===== verification/Configd_Props.thy ===== *)
theory Configd_Props
  imports Configd_Inv
begin

text \<open>
  What \<open>sponge_configd\<close> guarantees: a bounded store of validated values, reads and writes that are those
  of a map from key names to values (with the one exception proved here), answers, broadcasts and
  saves in a fixed order, a broadcast that depends on the map alone, and a store file that a crash
  leaves either old or new.
\<close>

section \<open>Invariants of every run\<close>

text \<open>
  Whatever requests, desktop requests and divergence reports arrive after any start, even one from
  a damaged store file, the daemon holds one value of at most 127 characters for each of its 14 keys and
  at most 32 per-panel keys, all distinct, each a clone of its template under a name whose identifier is
  valid; and a per-panel key, once present, never disappears.
\<close>

theorem configd_store_bounded:
  assumes "cfg_start G s0"
  shows "let s = run (cfg_step G) s0 es
         in shape_inv s \<and> (\<forall>v \<in> set (cvalues s) \<union> set (inst_values s). length v \<le> 127)
            \<and> length (instantiated s0) \<le> length (instantiated s)"
proof -
  let ?s = "run (cfg_step G) s0 es"
  have g: "lengths.good ?s" by (rule cfg.reach_inv [OF assms])
  have sh: "shape_inv ?s" using g by (simp add: lengths.good_def)
  have c: "length v \<le> 127" if "v \<in> set (cvalues ?s)" for v
  proof -
    obtain k where "k < length (cvalues ?s)" "cvalues ?s ! k = v" using \<open>v \<in> set (cvalues ?s)\<close>
      by (metis in_set_conv_nth)
    then have "len_ok (registry ! k) v" using g sh by (auto simp: lengths.good_def shape_inv_def)
    then show ?thesis by (simp add: len_ok_def)
  qed
  have i: "length v \<le> 127" if "v \<in> set (inst_values ?s)" for v
  proof -
    obtain k where "k < length (inst_values ?s)" "inst_values ?s ! k = v"
      using \<open>v \<in> set (inst_values ?s)\<close> by (metis in_set_conv_nth)
    then have k: "k < MAX_PATTERN_KEYS" "v = inst_values ?s ! k" using sh by (simp_all add: shape_inv_def)
    show ?thesis
    proof (cases "k < length (instantiated ?s)")
      case True
      then have "len_ok (instantiated ?s ! k) (inst_values ?s ! k)" using g by (simp add: lengths.good_def)
      then show ?thesis using k(2) by (simp add: len_ok_def)
    next
      case False
      then show ?thesis using g k by (simp add: lengths.good_def)
    qed
  qed
  have "length (instantiated s0) \<le> length (instantiated ?s)"
    using slots.run_rank [OF lengths_start [OF assms]] .
  with sh c i show ?thesis by (auto simp: Let_def)
qed

definition quiet_env :: cfg_env where
  "quiet_env = \<lparr>ce_config = Rom_invalid, ce_raw = [], ce_load = \<lparr>ld_stat = None, ld_open = Open_ok, ld_reads = []\<rparr>,
     ce_roms = None, ce_save = \<lparr>sv_open = Open_ok, sv_create = Open_ok, sv_trunc = True, sv_writes = [], sv_syncs = [], sv_synced = True, sv_rename = True\<rparr>,
     ce_lz = Rom_invalid, ce_request = Rom_invalid,
     ce_request_save = \<lparr>sv_open = Open_ok, sv_create = Open_ok, sv_trunc = True, sv_writes = [], sv_syncs = [], sv_synced = True, sv_rename = True\<rparr>\<rparr>"

definition bare_genode :: genode where
  "bare_genode = \<lparr>key_known = (\<lambda>k. True), parse_xml = (\<lambda>s. None), parse_hid = (\<lambda>s. Raw s),
     to_u32 = (\<lambda>s. None), to_bool = (\<lambda>s. None), ser_config = (\<lambda>x. None), print_nat = (\<lambda>n. []),
     report_fits = (\<lambda>b n. n \<le> b)\<rparr>"

theorem configd_store_bounded_witness:
  "shape_inv (run (cfg_step bare_genode) (cfg_construct bare_genode quiet_env) [Lz_model Rom_invalid])"
  using configd_store_bounded [of bare_genode "cfg_construct bare_genode quiet_env" "[Lz_model Rom_invalid]"]
  by (simp add: cfg_start_def Let_def) blast

text \<open>
  C36: without a store file to load, every value the daemon holds after any requests on either channel
  and any reports is one of three: still unset (empty), the built-in default of its key, or accepted by
  the validator of its key; for a per-panel key, unset or accepted. (Not every default is acceptable:
  that of \<open>panel.ids\<close> is the empty text.)
\<close>

theorem configd_values_validated:
  assumes "s0 = cfg_construct G e" and "ld_stat (ce_load e) = None"
  shows "let s = run (cfg_step G) s0 es
         in (\<forall>i < 14. cvalues s ! i \<in> {[], default_value (registry ! i)}
               \<or> value_valid G (registry ! i) (cvalues s ! i) = None)
          \<and> (\<forall>i < length (instantiated s). inst_values s ! i = []
               \<or> value_valid G (instantiated s ! i) (inst_values s ! i) = None)"
proof -
  have "validity.good G (init_store (ce_config e) cfg_init)"
    using validity.good_cfg_init by (simp add: init_store_def validity.good_upd)
  then have g0: "validity.good G s0"
    using assms by (auto simp: load_store_def intro!: validity.good_construct)
  let ?s = "run (cfg_step G) s0 es"
  have g: "validity.good G ?s"
    using g0 by (induction es arbitrary: s0) (auto intro: validity.good_cfg_step)
  have flat: "cvalues ?s ! i \<in> {[], default_value (registry ! i)} \<or> value_valid G (registry ! i) (cvalues ?s ! i) = None"
    if "i < 14" for i
    using g that by (auto simp: validity.good_def value_ok_def)
  have inst: "inst_values ?s ! i = [] \<or> value_valid G (instantiated ?s ! i) (inst_values ?s ! i) = None"
    if i: "i < length (instantiated ?s)" for i
  proof -
    have "find_key (kname (instantiated ?s ! i)) = None"
      using g i by (auto simp: validity.good_def shape_inv_def pattern_key_def)
    then have "instantiated ?s ! i \<notin> set registry"
      using find_index_None [of "\<lambda>d. kname d = kname (instantiated ?s ! i)" registry]
      by (auto simp: find_key_def)
    then show ?thesis using g i by (auto simp: validity.good_def value_ok_def)
  qed
  show ?thesis using flat inst by (simp add: Let_def)
qed

definition write_rom :: "string \<Rightarrow> string \<Rightarrow> rom" where
  "write_rom key v = Rom_node (leaf ''request'' [(''op'', ''set''), (''key'', key), (''value'', v)])"

lemma fresh_flags:
  "store_enabled (fill_defaults cfg_init) = False" "bake_available (fill_defaults cfg_init) = False"
  "cfg_blocked (fill_defaults cfg_init) = False" "instantiated (fill_defaults cfg_init) = []"
  "last_sig (fill_defaults cfg_init) = []" "store_enabled cfg_init = False" "cfg_blocked cfg_init = False"
  "length (cvalues (fill_defaults cfg_init)) = 14"
  by (simp_all add: fill_defaults_def cfg_init_def registry_def)

lemma quiet_start: "cfg_construct bare_genode quiet_env = generate_broadcast (fill_defaults cfg_init)"
proof -
  have "first_bake g None i (fill_defaults cfg_init) = fill_defaults cfg_init" for g i
    by (simp add: first_bake_def fresh_flags split: option.split)
  then show ?thesis
    by (simp add: cfg_construct_def quiet_env_def load_store_def init_store_def unless_blocked_def fresh_flags init_bake_def
        init_lz_def handle_request_def has_sub_node_def generate_broadcast_def Let_def cfg_emit_def)
qed

lemma clock_write:
  assumes "instantiated s = []" "cfg_blocked s = False" "store_enabled s = False" "last_sig s = []" "length (cvalues s) = 14"
  shows "cvalues (cfg_step bare_genode (Config_request (write_rom ''clock.format'' ''HH'') io None) s) = (cvalues s)[5 := ''HH'']"
proof -
  have k: "find_key ''clock.format'' = Some 5" by code_simp
  have sig: "request_sig (leaf ''request'' [(''op'', ''set''), (''key'', ''clock.format''), (''value'', ''HH'')])
      = ''set|clock.format|HH''" by code_simp
  have v: "value_valid bare_genode (registry ! 5) ''HH'' = None"
    by (simp add: value_valid_def registry_def format_valid_def printable_def)
  have "attr_str 32 (leaf ''request'' [(''op'', ''set''), (''key'', key), (''value'', v)]) ''op'' = ''set''"
    "attr_str 128 (leaf ''request'' [(''op'', ''set''), (''key'', key), (''value'', v)]) ''key'' = gstr 128 key"
    "attr_str 128 (leaf ''request'' [(''op'', ''set''), (''key'', key), (''value'', v)]) ''value'' = gstr 128 v" for key v
    by (simp_all add: attr_str_def)
  then show ?thesis using assms v
    by (simp add: write_rom_def Let_def unless_blocked_def handle_request_def handle_request_impl_def sig dispatch_def
        do_set_def resolve_slot_def write_slot_def k publish_set_def save_store_def generate_broadcast_def cfg_emit_def
        set_value_def report_set_ok_def report_def gstr_def)
qed

theorem configd_values_validated_witness:
  "value_valid bare_genode (registry ! 5) (cvalues (run (cfg_step bare_genode) (cfg_construct bare_genode quiet_env)
     [Config_request (write_rom ''clock.format'' ''HH'') (ce_save quiet_env) None]) ! 5) = None"
proof -
  let ?es = "[Config_request (write_rom ''clock.format'' ''HH'') (ce_save quiet_env) None]"
  let ?s = "run (cfg_step bare_genode) (cfg_construct bare_genode quiet_env) ?es"
  have q: "ld_stat (ce_load quiet_env) = None" by (simp add: quiet_env_def)
  have "cvalues ?s = (cvalues (fill_defaults cfg_init))[5 := ''HH'']"
    unfolding quiet_start run_simps by (subst clock_write) (simp_all add: generate_broadcast_def cfg_emit_def fresh_flags)
  then have v: "cvalues ?s ! 5 = ''HH''" by (simp add: fresh_flags)
  have five: "(5 :: nat) < 14" by simp
  have "cvalues ?s ! 5 \<in> {[], default_value (registry ! 5)} \<or> value_valid bare_genode (registry ! 5) (cvalues ?s ! 5) = None"
    by (rule configd_values_validated [OF refl q, of bare_genode ?es, unfolded Let_def, THEN conjunct1, THEN spec, THEN mp, OF five])
  then show ?thesis unfolding v by (simp add: registry_def)
qed

section \<open>The store as a map\<close>

definition cfg_lookup :: "cfgd \<Rightarrow> string \<Rightarrow> string option" where
  "cfg_lookup s key =
     (case find_key key of
        Some i \<Rightarrow> Some (cvalues s ! i)
      | None \<Rightarrow> map_option (\<lambda>i. inst_values s ! i) (find_instantiated s key))"

definition key_def_of :: "string \<Rightarrow> key_def" where
  "key_def_of key = (case find_key key of Some i \<Rightarrow> registry ! i | None \<Rightarrow> clone_of key)"

abbreviation bake_keys :: "string set" where
  "bake_keys \<equiv> {''bake.applied'', ''bake.profile'', ''bake.version''}"

text \<open>A flat key above the number of instantiated keys, or a per-panel key with a slot or room for one.\<close>

definition writable :: "cfgd \<Rightarrow> string \<Rightarrow> bool" where
  "writable s key \<longleftrightarrow>
     (case find_key key of
        Some i \<Rightarrow> length (instantiated s) \<le> i
      | None \<Rightarrow> pattern_key key
          \<and> (find_instantiated s key \<noteq> None \<or> length (instantiated s) < MAX_PATTERN_KEYS))"

lemma cfg_lookup_cong:
  assumes "same_store s s'"
  shows "cfg_lookup s' = cfg_lookup s"
proof
  fix k
  have f: "find_instantiated s' k = find_instantiated s k"
    using assms by (simp add: same_store_def find_instantiated_def)
  show "cfg_lookup s' k = cfg_lookup s k"
    using assms unfolding cfg_lookup_def f by (cases "find_key k") (simp_all add: same_store_def)
qed

lemma find_inst_iff:
  "distinct (map kname (instantiated s))
    \<Longrightarrow> find_instantiated s k = Some i \<longleftrightarrow> i < length (instantiated s) \<and> kname (instantiated s ! i) = k"
  by (auto dest!: find_inst_Some) (auto simp: find_instantiated_def find_Some_iff distinct_conv_nth)

lemma find_key_inj: "find_key k = Some i \<Longrightarrow> find_key k' = Some i \<Longrightarrow> k = k'"
  by (auto dest!: find_key_Some)

lemma lookup_set_value:
  assumes "find_key key = Some i" and "shape_inv s" and "length v < 128"
  shows "cfg_lookup (set_value i v s) = (cfg_lookup s)(key \<mapsto> v)"
proof
  fix k
  have i: "i < length (cvalues s)" using find_key_Some [OF assms(1)] assms(2) by (simp add: shape_inv_def)
  have f: "find_instantiated (set_value i v s) k = find_instantiated s k"
    by (simp add: find_instantiated_def)
  show "cfg_lookup (set_value i v s) k = ((cfg_lookup s)(key \<mapsto> v)) k"
  proof (cases "k = key")
    case True
    then show ?thesis using i assms(1,3) by (simp add: cfg_lookup_def)
  next
    case False
    show ?thesis
    proof (cases "find_key k")
      case None
      then show ?thesis using False f by (simp add: cfg_lookup_def)
    next
      case (Some j)
      then have "i \<noteq> j" using False find_key_inj [OF assms(1)] by blast
      then show ?thesis using False Some by (simp add: cfg_lookup_def)
    qed
  qed
qed

lemma lookup_set_inst:
  assumes "find_key key = None" and "find_instantiated s key = Some i" and "shape_inv s" and "length v < 128"
  shows "cfg_lookup (set_inst_value i v s) = (cfg_lookup s)(key \<mapsto> v)"
proof
  fix k
  have i: "i < length (inst_values s)" "kname (instantiated s ! i) = key"
    using find_inst_Some [OF assms(2)] assms(3) by (auto simp: shape_inv_def)
  have f: "find_instantiated (set_inst_value i v s) k = find_instantiated s k"
    by (simp add: find_instantiated_def)
  show "cfg_lookup (set_inst_value i v s) k = ((cfg_lookup s)(key \<mapsto> v)) k"
  proof (cases "k = key")
    case True
    then show ?thesis using i assms(1,2,4) f by (simp add: cfg_lookup_def)
  next
    case False
    then have "find_instantiated s k \<noteq> Some i" using find_inst_Some [of s k i] i(2) by auto
    then show ?thesis using False f
      by (cases "find_key k"; cases "find_instantiated s k") (simp_all add: cfg_lookup_def)
  qed
qed

text \<open>A fresh slot reads as the empty value.\<close>

lemma lookup_fresh:
  assumes "lengths.good s" and "find_key key = None" and "pattern_key key"
    and "find_instantiated s key = None" and "length (instantiated s) < MAX_PATTERN_KEYS"
  defines "s' \<equiv> s\<lparr>instantiated := instantiated s @ [clone_of key]\<rparr>"
  shows "cfg_lookup s' = (cfg_lookup s)(key \<mapsto> [])"
    and "find_instantiated s' key = Some (length (instantiated s))"
    and "instantiate_pattern G key s = (Inr (length (instantiated s)), s')" and "shape_inv s'"
proof -
  have len: "length key < 128" using assms(3) by (simp add: pattern_key_def)
  have sh: "shape_inv s" using assms(1) by (simp add: lengths.good_def)
  show i: "instantiate_pattern G key s = (Inr (length (instantiated s)), s')"
    using assms(3-5) by (auto simp: instantiate_pattern_def pattern_key_def s'_def not_le)
  have sh': "shape_inv s'" using shape_inv_instantiate [OF sh assms(2) len, of G] i by simp
  then show "shape_inv s'" .
  have d: "distinct (map kname (instantiated s'))" "distinct (map kname (instantiated s))"
    using sh sh' by (auto simp: shape_inv_def)
  have n: "instantiated s' ! length (instantiated s) = clone_of key" by (simp add: s'_def)
  show f: "find_instantiated s' key = Some (length (instantiated s))"
    using find_inst_iff [OF d(1), of key "length (instantiated s)"] n by (simp add: s'_def kname_clone_of len)
  have o: "find_instantiated s' k = find_instantiated s k" if "k \<noteq> key" for k
  proof (cases "find_instantiated s k")
    case None
    then have "find_instantiated s' k = None"
      using that by (simp add: find_inst_None s'_def kname_clone_of len)
    then show ?thesis using None by simp
  next
    case (Some j)
    then show ?thesis using find_inst_Some [OF Some] find_inst_iff [OF d(1), of k j]
      by (simp add: s'_def nth_append)
  qed
  have z: "inst_values s ! length (instantiated s) = []"
    using assms(1,5) by (simp add: lengths.good_def)
  show "cfg_lookup s' = (cfg_lookup s)(key \<mapsto> [])"
  proof
    fix k
    show "cfg_lookup s' k = ((cfg_lookup s)(key \<mapsto> [])) k"
    proof (cases "k = key")
      case True
      then show ?thesis using f z assms(2) by (simp add: cfg_lookup_def) (simp add: s'_def)
    next
      case False
      then show ?thesis using o [OF False] by (simp add: cfg_lookup_def s'_def split: option.split)
    qed
  qed
qed

lemma do_set_unfold:
  assumes "key \<notin> bake_keys"
  shows "do_set G key v io roms s =
    (case resolve_slot G key s of
        (Inl why, s) \<Rightarrow>
          report_error ''set'' key (if why \<noteq> [] then why else unknown_key_msg s key) s
      | (Inr i, s) \<Rightarrow> write_slot G key v i io s)"
  using assms by (simp add: do_set_def)

text \<open>Where an accepted write goes: the state right before it is saved, broadcast and answered.\<close>

lemma set_accepted:
  assumes "lengths.good s" and "key \<notin> bake_keys" and "writable s key" and "length v < 128"
    and "value_valid G (key_def_of key) v = None"
  obtains s1 where "do_set G key v io roms s = publish_set key v io s1"
    and "cfg_lookup s1 = (cfg_lookup s)(key \<mapsto> v)" and "shape_inv s1"
    and "cfg_out s1 = cfg_out s" and "active_channel s1 = active_channel s"
    and "store_enabled s1 = store_enabled s" and "cfg_blocked s1 = cfg_blocked s"
proof (cases "find_key key")
  case (Some i)
  have "shape_inv s" using assms(1) by (simp add: lengths.good_def)
  then show thesis
    using that [of "set_value i v s"] Some assms lookup_set_value [OF Some _ assms(4), of s]
    by (simp add: do_set_unfold resolve_slot_def write_slot_def Let_def key_def_of_def writable_def)
next
  case None
  have sh: "shape_inv s" using assms(1) by (simp add: lengths.good_def)
  have pk: "pattern_key key" using assms(3) None by (simp add: writable_def)
  show thesis
  proof (cases "find_instantiated s key")
    case (Some i)
    have i: "i < length (instantiated s)" "instantiated s ! i = clone_of key"
    proof -
      show "i < length (instantiated s)" using find_inst_Some [OF Some] by simp
      then have "clone_of (kname (instantiated s ! i)) = instantiated s ! i"
        using sh nth_mem [of i "instantiated s"] by (simp add: shape_inv_def)
      then show "instantiated s ! i = clone_of key" using find_inst_Some [OF Some] by simp
    qed
    show thesis
      using that [of "set_inst_value i v s"] Some None i assms lookup_set_inst [OF None Some sh assms(4)] sh
      by (simp add: do_set_unfold resolve_slot_def write_slot_def Let_def key_def_of_def)
  next
    case fresh: None
    then have room: "length (instantiated s) < MAX_PATTERN_KEYS"
      using assms(3) None by (simp add: writable_def)
    let ?n = "length (instantiated s)" and ?s1 = "s\<lparr>instantiated := instantiated s @ [clone_of key]\<rparr>"
    note fr = lookup_fresh [OF assms(1) None pk fresh room]
    have "cfg_lookup (set_inst_value ?n v ?s1) = (cfg_lookup s)(key \<mapsto> v)"
      using lookup_set_inst [OF None fr(2,4) assms(4)] fr(1) by simp
    moreover have "do_set G key v io roms s = publish_set key v io (set_inst_value ?n v ?s1)"
      using assms(2,5) None fresh fr(3) [of G]
      by (simp add: do_set_unfold resolve_slot_def write_slot_def Let_def key_def_of_def)
    ultimately show thesis using that [of "set_inst_value ?n v ?s1"] fr(4) by simp
  qed
qed

lemma publish_set_out:
  "cfg_out (publish_set key v io s) = cfg_out s
    @ (if store_enabled s then map Disk (fst (save_ops (store_text s) io)) else [])
    @ (if (if store_enabled s then snd (save_ops (store_text s) io) else cfg_blocked s) then []
       else [Broadcast (broadcast_xml s),
             Result (active_channel s) (leaf ''result'' [(''status'', ''ok''), (''op'', ''set''),
               (''key'', gstr 128 key), (''value'', gstr 128 v)])])"
  by (simp add: publish_set_def unless_blocked_def save_store_def report_defs broadcast_xml_def key_nodes_def
      sorted_order_instantiated_def split: prod.split)

text \<open>
  Where a write of a key goes: the index found for a registered key is taken for one of the per-panel
  keys when there are more of those.
\<close>

definition write_target :: "cfgd \<Rightarrow> string \<Rightarrow> string" where
  "write_target s key =
     (case find_key key of
        Some i \<Rightarrow> (if i < length (instantiated s) then kname (instantiated s ! i) else key)
      | None \<Rightarrow> key)"

text \<open>The keys a request can name: the registered ones, and per-panel keys with a slot or room for one.\<close>

definition resolves :: "cfgd \<Rightarrow> string \<Rightarrow> bool" where
  "resolves s key \<longleftrightarrow> find_key key \<noteq> None
     \<or> (pattern_key key \<and> (find_instantiated s key \<noteq> None \<or> length (instantiated s) < MAX_PATTERN_KEYS))"

lemma writable_target: "write_target s key = key \<Longrightarrow> lengths.good s \<Longrightarrow> resolves s key \<Longrightarrow> writable s key"
proof (cases "find_key key")
  case (Some i)
  assume t: "write_target s key = key" and g: "lengths.good s"
  have "\<not> i < length (instantiated s)"
  proof
    assume i: "i < length (instantiated s)"
    then have "find_key (kname (instantiated s ! i)) = None"
      using g nth_mem [OF i] by (auto simp: lengths.good_def shape_inv_def pattern_key_def)
    then show False using t i Some by (simp add: write_target_def)
  qed
  then show ?thesis using Some by (simp add: writable_def)
qed (simp add: resolves_def writable_def)

text \<open>
  A registered key whose index in the registry is below the number of instantiated
  per-panel keys is checked against, and written to, the per-panel slot of that index: the answer is
  \<open>ok\<close> for the registered key, whose own value stays as it was, and a per-panel key the client never
  named changes.
\<close>

lemma set_misroutes_registered_key:
  assumes "lengths.good s" and "key \<notin> bake_keys" and "find_key key = Some i"
    and "i < length (instantiated s)" and "length v < 128"
    and "value_valid G (instantiated s ! i) v = None"
  shows "let s' = do_set G key v io roms s
         in cfg_lookup s' = (cfg_lookup s)(kname (instantiated s ! i) \<mapsto> v)
            \<and> cfg_lookup s' key = cfg_lookup s key
            \<and> do_set G key v io roms s = publish_set key v io (set_inst_value i v s)"
proof -
  have sh: "shape_inv s" using assms(1) by (simp add: lengths.good_def)
  let ?k = "kname (instantiated s ! i)"
  have pk: "find_key ?k = None" using sh assms(4) by (auto simp: shape_inv_def pattern_key_def)
  have fi: "find_instantiated s ?k = Some i"
    using find_inst_iff [of s ?k i] sh assms(4) by (auto simp: shape_inv_def)
  have e: "do_set G key v io roms s = publish_set key v io (set_inst_value i v s)"
    using assms by (simp add: do_set_unfold resolve_slot_def write_slot_def Let_def)
  have l: "cfg_lookup (publish_set key v io (set_inst_value i v s)) = (cfg_lookup s)(?k \<mapsto> v)"
    using cfg_lookup_cong [OF publish_set_frame(1)] lookup_set_inst [OF pk fi sh assms(5)] by simp
  have "?k \<noteq> key" using pk assms(3) by auto
  then show ?thesis using e l by (simp add: Let_def)
qed

text \<open>
  C4: reads and writes are those of a map. An accepted write of a key that is not bake metadata changes
  the value of one key and of no other. That key is the one named, registered, per-panel or written for
  the first time, and reading it afterwards answers with the value; except for a registered key whose
  index in the registry is below the number of instantiated per-panel keys: there it is the per-panel
  key of that index, and the registered key keeps its value although the write is answered \<open>ok\<close>.
\<close>

theorem set_refines_map_update:
  assumes "lengths.good s" and "key \<notin> bake_keys" and "resolves s key" and "length v < 128"
    and "value_valid G (key_def_of (write_target s key)) v = None"
  shows "let s' = do_set G key v io roms s
         in cfg_lookup s' = (cfg_lookup s)(write_target s key \<mapsto> v)
            \<and> (if write_target s key = key
               then cfg_out (do_get key s') = cfg_out s' @ [Result (active_channel s') (leaf ''result''
                 [(''status'', ''ok''), (''op'', ''get''), (''key'', gstr 128 key), (''value'', v)])]
               else cfg_lookup s' key = cfg_lookup s key
                 \<and> (\<exists>s1. s' = publish_set key v io s1 \<and> cfg_out s1 = cfg_out s))"
proof (cases "write_target s key = key")
  case True
  then have w: "writable s key" using assms(1,3) by (rule writable_target)
  let ?s' = "do_set G key v io roms s"
  have v: "value_valid G (key_def_of key) v = None" using assms(5) True by simp
  obtain s1 where s1: "?s' = publish_set key v io s1" "cfg_lookup s1 = (cfg_lookup s)(key \<mapsto> v)"
    using set_accepted [OF assms(1,2) w assms(4) v, of io roms] by blast
  have l: "cfg_lookup ?s' = (cfg_lookup s)(key \<mapsto> v)"
    using s1 cfg_lookup_cong [OF publish_set_frame(1)] by simp
  then have "cfg_lookup ?s' key = Some v" by simp
  then have "cfg_out (do_get key ?s') = cfg_out ?s' @ [Result (active_channel ?s') (leaf ''result''
      [(''status'', ''ok''), (''op'', ''get''), (''key'', gstr 128 key), (''value'', v)])]"
    using assms(4) by (auto simp: cfg_lookup_def do_get_def report_defs split: option.splits)
  with l True show ?thesis by (simp add: Let_def)
next
  case False
  then obtain i where i: "find_key key = Some i" "i < length (instantiated s)" "write_target s key = kname (instantiated s ! i)"
    by (auto simp: write_target_def split: option.splits if_splits)
  have "key_def_of (kname (instantiated s ! i)) = instantiated s ! i"
    using assms(1) nth_mem [OF i(2)] by (auto simp: lengths.good_def shape_inv_def pattern_key_def key_def_of_def)
  then have "value_valid G (instantiated s ! i) v = None" using assms(5) i(3) by simp
  note m = set_misroutes_registered_key [OF assms(1,2) i(1,2) assms(4) this, of io roms, unfolded Let_def]
  have "cfg_out (set_inst_value i v s) = cfg_out s" by (simp add: set_inst_value_def)
  with m i(3) False show ?thesis by (auto simp: Let_def)
qed

definition fresh_cfg :: cfgd where
  "fresh_cfg = fill_defaults cfg_init"

lemma fresh_cfg_good: "lengths.good fresh_cfg"
  unfolding fresh_cfg_def by (intro lengths.good_fill_defaults lengths.good_cfg_init)

theorem set_refines_map_update_witness:
  "cfg_lookup (do_set bare_genode ''theme.active'' ''dark'' (ce_save quiet_env) None fresh_cfg)
    = (cfg_lookup fresh_cfg)(''theme.active'' \<mapsto> ''dark'')"
proof -
  have k: "find_key ''theme.active'' = Some 13" by code_simp
  have i: "instantiated fresh_cfg = []" by (simp add: fresh_cfg_def fill_defaults_def cfg_init_def)
  have r: "resolves fresh_cfg ''theme.active''" and t: "write_target fresh_cfg ''theme.active'' = ''theme.active''"
    by (simp_all add: resolves_def write_target_def k i)
  have v: "value_valid bare_genode (key_def_of (write_target fresh_cfg ''theme.active'')) ''dark'' = None"
    by (simp add: t key_def_of_def k value_valid_def registry_def)
  show ?thesis
    using set_refines_map_update [OF fresh_cfg_good _ r _ v, of "ce_save quiet_env" None] by (simp add: Let_def t)
qed

definition one_panel :: cfgd where
  "one_panel = snd (apply_validated_value bare_genode ''panel.a.height'' ''30'' fresh_cfg)"

lemma misrouted_example:
  "cfg_lookup (do_set bare_genode ''background.color'' ''64'' (ce_save quiet_env) None one_panel) ''background.color''
    = cfg_lookup one_panel ''background.color''"
proof -
  have k: "find_key ''background.color'' = Some 0" by code_simp
  have g: "lengths.good one_panel"
    unfolding one_panel_def by (intro lengths.good_apply_validated fresh_cfg_good) simp_all
  have fk: "find_key ''panel.a.height'' = None" by code_simp
  have i: "instantiated fresh_cfg = []" by (simp add: fresh_cfg_def fill_defaults_def cfg_init_def)
  have sm: "pattern_shape_match ''panel.a.height''" by code_simp
  have id: "pattern_extract_id ''panel.a.height'' = Some ''a''"
    by (simp add: pattern_extract_id_def id_suffixes_def shape_fits_def size_sub_def id_charset_ok_def
        is_lower_def less_eq_char_def)
  have c: "clone_of ''panel.a.height'' = (pattern_registry ! 0)\<lparr>kname := ''panel.a.height''\<rparr>"
    by (simp add: clone_of_def template_index_def id_suffixes_def upt_rec)
  have u: "uint_valid G ((pattern_registry ! 0)\<lparr>kname := k\<rparr>) v = None" if "parse_uint 0 v = Some n" "16 \<le> n" "n \<le> 128" for G k v n
    using that by (simp add: uint_valid_def pattern_registry_def not_less)
  have p: "parse_uint 0 ''30'' = Some 30" "parse_uint 0 ''64'' = Some 64"
    by (simp_all add: is_digit_def digit_val_def less_eq_char_def Let_def)
  have kd: "kind ((pattern_registry ! 0)\<lparr>kname := k\<rparr>) = Kind_UintRange" for k by (simp add: pattern_registry_def)
  have fn: "find_instantiated fresh_cfg ''panel.a.height'' = None" by (simp add: find_instantiated_def i)
  have o: "instantiated one_panel = [(pattern_registry ! 0)\<lparr>kname := ''panel.a.height''\<rparr>]"
    by (simp add: one_panel_def apply_validated_value_def fk instantiate_pattern_def sm id fn i c value_valid_def kd
        u [OF p(1)])
  have v: "value_valid bare_genode (instantiated one_panel ! 0) ''64'' = None"
    by (simp add: o value_valid_def kd u [OF p(2)])
  have nb: "''background.color'' \<notin> bake_keys" and il: "0 < length (instantiated one_panel)"
    and lv: "length ''64'' < 128" by (simp_all add: o)
  show ?thesis
    using set_misroutes_registered_key [OF g nb k il lv v, of "ce_save quiet_env" None]
    unfolding Let_def by blast
qed

section \<open>Answers\<close>

text \<open>
  An accepted write is saved first, broadcast second and answered last. The operations on the store
  file carry the new value, the broadcast lists the new store, and the answer goes to the channel the
  request came from; if the file system never completes the save, nothing is broadcast or answered.
\<close>

theorem set_saves_then_broadcasts_then_answers:
  assumes "lengths.good s" and "key \<notin> bake_keys" and "writable s key" and "length v < 128"
    and "value_valid G (key_def_of key) v = None" and "\<not> cfg_blocked s"
  shows "let s' = do_set G key v io roms s;
             (ops, waiting) = (if store_enabled s then save_ops (store_text s') io else ([], False))
         in cfg_out s' = cfg_out s @ map Disk ops
              @ (if waiting then []
                 else [Broadcast (broadcast_xml s'),
                       Result (active_channel s) (leaf ''result'' [(''status'', ''ok''), (''op'', ''set''),
                         (''key'', gstr 128 key), (''value'', v)])])"
proof -
  obtain s1 where s1: "do_set G key v io roms s = publish_set key v io s1"
    "cfg_out s1 = cfg_out s" "active_channel s1 = active_channel s"
    "store_enabled s1 = store_enabled s" "cfg_blocked s1 = cfg_blocked s"
    using set_accepted [OF assms(1-5), of io roms] by metis
  let ?s' = "publish_set key v io s1"
  have st: "store_text ?s' = store_text s1"
    using publish_set_frame(1) [of s1 key v io]
    by (simp add: same_store_def store_text_def store_pieces_def sorted_order_instantiated_def)
  have lz: "lz_diverged ?s' = lz_diverged s1"
    by (simp add: publish_set_def unless_blocked_def save_store_def report_defs split: prod.split)
  have bx: "broadcast_xml ?s' = broadcast_xml s1"
    using publish_set_frame(1) [of s1 key v io] lz
    by (simp add: same_store_def broadcast_xml_def key_nodes_def sorted_order_instantiated_def)
  show ?thesis
    using publish_set_out [of key v io s1] s1 assms(4,6) st bx
    by (auto simp: Let_def split: prod.split)
qed

theorem set_saves_then_broadcasts_then_answers_witness:
  "cfg_out (do_set bare_genode ''theme.active'' ''dark'' (ce_save quiet_env) None fresh_cfg)
    = [Broadcast (broadcast_xml (do_set bare_genode ''theme.active'' ''dark'' (ce_save quiet_env) None fresh_cfg)),
       Result Vct (leaf ''result'' [(''status'', ''ok''), (''op'', ''set''),
         (''key'', ''theme.active''), (''value'', ''dark'')])]"
proof -
  have k: "find_key ''theme.active'' = Some 13" by code_simp
  have f: "instantiated fresh_cfg = []" "cfg_out fresh_cfg = []" "\<not> cfg_blocked fresh_cfg"
    "\<not> store_enabled fresh_cfg" "active_channel fresh_cfg = Vct"
    by (simp_all add: fresh_cfg_def fill_defaults_def cfg_init_def)
  have w: "writable fresh_cfg ''theme.active''" by (simp add: writable_def k f)
  have v: "value_valid bare_genode (key_def_of ''theme.active'') ''dark'' = None"
    by (simp add: key_def_of_def k value_valid_def registry_def)
  show ?thesis
    using set_saves_then_broadcasts_then_answers [OF fresh_cfg_good _ w _ v f(3), of "ce_save quiet_env" None]
    by (simp add: Let_def f(2,4,5))
qed

text \<open>
  A rejected write is answered with exactly one error and neither saved nor broadcast, but it is not
  without effect: a value refused for a per-panel key that did not exist before leaves the key behind,
  with the empty value, and takes one of the 32 slots. All other keys keep their values.
\<close>

theorem rejected_set_leaves_slot:
  assumes "lengths.good s" and "find_key key = None" and "pattern_key key" and "find_instantiated s key = None"
    and "length (instantiated s) < MAX_PATTERN_KEYS" and "value_valid G (key_def_of key) v = Some why"
    and "key \<notin> bake_keys"
  shows "let s' = do_set G key v io roms s
         in cfg_lookup s' = (cfg_lookup s)(key \<mapsto> [])
            \<and> length (instantiated s') = Suc (length (instantiated s))
            \<and> cfg_out s' = cfg_out s @ [Result (active_channel s) (leaf ''result''
                 [(''status'', ''error''), (''op'', ''set''), (''key'', gstr 128 key), (''error'', why)])]"
proof -
  let ?s1 = "s\<lparr>instantiated := instantiated s @ [clone_of key]\<rparr>"
  note fr = lookup_fresh [OF assms(1-5)]
  have e: "do_set G key v io roms s = report_error ''set'' key why ?s1"
    using assms(2,4,6,7) fr(3) [of G]
    by (simp add: do_set_unfold resolve_slot_def write_slot_def Let_def key_def_of_def)
  show ?thesis
    using fr(1) cfg_lookup_cong [OF same_store_report(4) [where s = ?s1]] unfolding e
    by (simp add: Let_def report_defs)
qed

lemma panel_key_facts:
  "find_key ''panel.a.height'' = None" "pattern_key ''panel.a.height''"
  "clone_of ''panel.a.height'' = (pattern_registry ! 0)\<lparr>kname := ''panel.a.height''\<rparr>"
proof -
  show f: "find_key ''panel.a.height'' = None" by code_simp
  have "pattern_shape_match ''panel.a.height''" by code_simp
  moreover have "pattern_extract_id ''panel.a.height'' = Some ''a''"
    by (simp add: pattern_extract_id_def id_suffixes_def shape_fits_def size_sub_def id_charset_ok_def
        is_lower_def less_eq_char_def)
  ultimately show "pattern_key ''panel.a.height''" using f by (simp add: pattern_key_def)
  show "clone_of ''panel.a.height'' = (pattern_registry ! 0)\<lparr>kname := ''panel.a.height''\<rparr>"
    by (simp add: clone_of_def template_index_def id_suffixes_def upt_rec)
qed

theorem rejected_set_leaves_slot_witness:
  "cfg_lookup (do_set bare_genode ''panel.a.height'' ''tall'' (ce_save quiet_env) None fresh_cfg)
    = (cfg_lookup fresh_cfg)(''panel.a.height'' \<mapsto> [])"
proof -
  have f: "instantiated fresh_cfg = []" by (simp add: fresh_cfg_def fill_defaults_def cfg_init_def)
  have "value_valid bare_genode (key_def_of ''panel.a.height'') ''tall'' \<noteq> None"
    by (simp add: key_def_of_def panel_key_facts value_valid_def uint_valid_def pattern_registry_def is_digit_def
        less_eq_char_def)
  then obtain why where v: "value_valid bare_genode (key_def_of ''panel.a.height'') ''tall'' = Some why" by auto
  show ?thesis
    using rejected_set_leaves_slot [OF fresh_cfg_good panel_key_facts(1,2) _ _ v, of "ce_save quiet_env" None]
    by (simp add: Let_def f find_instantiated_def)
qed

definition results :: "cfg_out list \<Rightarrow> (channel \<times> xml) list" where
  "results os = List.map_filter (\<lambda>out. case out of Result c x \<Rightarrow> Some (c, x) | _ \<Rightarrow> None) os"

lemma results_simps [simp]:
  "results [] = []" "results (Result c x # os) = (c, x) # results os"
  "results (Disk p # os) = results os" "results (Broadcast x # os) = results os"
  "results (os @ os') = results os @ results os'" "results (map Disk ps) = []"
  by (simp_all add: results_def List.map_filter_def)

text \<open>One answer on the active channel, or a handler that is still waiting.\<close>

definition answers_once :: "cfgd \<Rightarrow> cfgd \<Rightarrow> bool" where
  "answers_once s s' \<longleftrightarrow>
     (\<exists>new. cfg_out s' = cfg_out s @ new
        \<and> (if cfg_blocked s' then results new = []
           else \<exists>x. results new = [(active_channel s, x)] \<and> last new = Result (active_channel s) x))"

lemma answers_report: "\<not> cfg_blocked s \<Longrightarrow> answers_once s (report as ks s)"
  by (simp add: answers_once_def report_def)

lemma answers_publish:
  assumes "\<not> cfg_blocked s"
  shows "answers_once s (publish_set key v io s)"
proof -
  have b: "cfg_blocked (publish_set key v io s)
      = (if store_enabled s then snd (save_ops (store_text s) io) else cfg_blocked s)"
    by (simp add: publish_set_def unless_blocked_def save_store_def report_defs split: prod.split)
  show ?thesis unfolding answers_once_def b publish_set_out using assms by auto
qed

lemma answers_once_cong:
  "answers_once s1 s' \<Longrightarrow> cfg_out s1 = cfg_out s \<Longrightarrow> active_channel s1 = active_channel s \<Longrightarrow> answers_once s s'"
  by (simp only: answers_once_def)

lemma quiet_apply:
  "cfg_out (snd (instantiate_pattern G key s)) = cfg_out s"
  "active_channel (snd (instantiate_pattern G key s)) = active_channel s"
  "cfg_blocked (snd (instantiate_pattern G key s)) = cfg_blocked s"
  by (cases rule: instantiate_cases [of G key s]; simp)+

lemma quiet_validated:
  "cfg_out (snd (apply_validated_value G key v s)) = cfg_out s
   \<and> active_channel (snd (apply_validated_value G key v s)) = active_channel s
   \<and> cfg_blocked (snd (apply_validated_value G key v s)) = cfg_blocked s"
proof -
  obtain r s' where e: "instantiate_pattern G key s = (r, s')" by fastforce
  have "cfg_out s' = cfg_out s \<and> active_channel s' = active_channel s \<and> cfg_blocked s' = cfg_blocked s"
    using quiet_apply [of G key s] e by simp
  then show ?thesis using e
    by (auto simp: apply_validated_value_def split: option.split sum.split)
qed

lemma quiet_bake_lines:
  "cfg_out (bake_lines G buf s) = cfg_out s \<and> active_channel (bake_lines G buf s) = active_channel s
   \<and> cfg_blocked (bake_lines G buf s) = cfg_blocked s"
proof (induction G buf s rule: bake_lines.induct)
  case (1 G buf s)
  have "cfg_out (bake_line G l s) = cfg_out s \<and> active_channel (bake_line G l s) = active_channel s
      \<and> cfg_blocked (bake_line G l s) = cfg_blocked s" for l
    by (simp add: bake_line_def Let_def quiet_validated)
  with 1 show ?case by (subst (1 2 3) bake_lines.simps) (simp add: Let_def)
qed

lemma quiet_bake_defaults:
  "cfg_out (snd (apply_bake_defaults G roms s)) = cfg_out s
   \<and> active_channel (snd (apply_bake_defaults G roms s)) = active_channel s
   \<and> cfg_blocked (snd (apply_bake_defaults G roms s)) = cfg_blocked s"
  by (auto simp: apply_bake_defaults_def apply_bake_def Let_def quiet_validated quiet_bake_lines
      split: option.split prod.split)

lemma answers_write_slot: "\<not> cfg_blocked s \<Longrightarrow> answers_once s (write_slot G key v i io s)"
  unfolding write_slot_def Let_def report_error_def
  by (auto split: option.split intro: answers_report answers_once_cong [OF answers_publish])

lemma answers_set:
  assumes "\<not> cfg_blocked s"
  shows "answers_once s (do_set G key v io roms s)"
proof -
  obtain b s1 where e1: "apply_bake_defaults G roms s = (b, s1)" by fastforce
  have q1: "cfg_out s1 = cfg_out s" "active_channel s1 = active_channel s" "\<not> cfg_blocked s1"
    using quiet_bake_defaults [of G roms s] e1 assms by auto
  obtain r s2 where e2: "resolve_slot G key s = (r, s2)" by fastforce
  have q2: "cfg_out s2 = cfg_out s" "active_channel s2 = active_channel s" "\<not> cfg_blocked s2"
    using e2 quiet_apply [of G key s] assms by (auto simp: resolve_slot_def split: option.splits)
  show ?thesis
    using e1 e2 answers_once_cong [OF answers_publish [OF q1(3)] q1(1,2)]
      answers_once_cong [OF answers_report [OF q1(3)] q1(1,2)]
      answers_once_cong [OF answers_report [OF q2(3)] q2(1,2)] answers_report [OF assms]
      answers_once_cong [OF answers_write_slot [OF q2(3)] q2(1,2)]
    by (auto simp: do_set_def report_error_def split: bool.split sum.split)
qed

lemma answers_get: "\<not> cfg_blocked s \<Longrightarrow> answers_once s (do_get key s)"
  by (cases "find_key key"; cases "find_instantiated s key")
     (simp_all add: do_get_def report_get_ok_def report_error_def answers_report)

lemma answers_dispatch: "\<not> cfg_blocked s \<Longrightarrow> answers_once s (dispatch G op key v io roms s)"
  by (simp add: dispatch_def do_list_def report_list_ok_def report_error_def answers_get answers_set
      answers_report)

text \<open>
  Every request that differs from the last one the daemon acted on gets exactly one answer, as the
  last thing that happens, on the channel it arrived on, whatever its operation, key and value (unless
  the file system keeps the save waiting). A request equal to the last one, from whichever channel that
  came, gets none at all: a client of one channel that asks what the other channel just asked waits in
  vain.
\<close>

theorem request_answered_once:
  assumes "\<not> cfg_blocked s" and "has_type req ''request''"
  shows "(request_sig req \<noteq> last_sig s \<longrightarrow>
        answers_once (s\<lparr>active_channel := Vct\<rparr>) (cfg_step G (Config_request (Rom_node req) io roms) s)
        \<and> answers_once (s\<lparr>active_channel := De_side\<rparr>) (cfg_step G (De_config_request (Rom_node req) io roms) s))
    \<and> (request_sig req = last_sig s \<longrightarrow>
        cfg_out (cfg_step G (Config_request (Rom_node req) io roms) s) = cfg_out s
        \<and> cfg_out (cfg_step G (De_config_request (Rom_node req) io roms) s) = cfg_out s)"
proof -
  have d: "answers_once t (dispatch G op key v io roms (u\<lparr>last_sig := a\<rparr>))"
    if "\<not> cfg_blocked u" "cfg_out t = cfg_out u" "active_channel t = active_channel u" for t u op key v a
    by (rule answers_once_cong [OF answers_dispatch]) (use that in simp_all)
  show ?thesis
    using assms
    by (auto simp: unless_blocked_def handle_request_def handle_de_request_def ensure_de_channel_def
        handle_request_impl_def Let_def intro!: d)
qed

definition list_request :: xml where
  "list_request = leaf ''request'' [(''op'', ''list'')]"

theorem request_answered_once_witness:
  "let s1 = cfg_step bare_genode (Config_request (Rom_node list_request) (ce_save quiet_env) None) fresh_cfg;
       s2 = cfg_step bare_genode (De_config_request (Rom_node list_request) (ce_save quiet_env) None) s1
   in answers_once (fresh_cfg\<lparr>active_channel := Vct\<rparr>) s1 \<and> cfg_out s2 = cfg_out s1"
proof -
  let ?s1 = "cfg_step bare_genode (Config_request (Rom_node list_request) (ce_save quiet_env) None) fresh_cfg"
  have f: "last_sig fresh_cfg = []" "\<not> cfg_blocked fresh_cfg"
    by (simp_all add: fresh_cfg_def fill_defaults_def cfg_init_def)
  have q: "request_sig list_request \<noteq> []" "has_type list_request ''request''"
    by (simp_all add: list_request_def request_sig_def attr_str_def)
  have s1: "last_sig ?s1 = request_sig list_request" "\<not> cfg_blocked ?s1"
    using f q by (simp_all add: unless_blocked_def handle_request_def handle_request_impl_def dispatch_def
        do_list_def report_list_ok_def report_def attr_str_def list_request_def)
  show ?thesis
    using request_answered_once [OF f(2) q(2), of bare_genode "ce_save quiet_env" None] f(1) q(1)
      request_answered_once [OF s1(2) q(2), of bare_genode "ce_save quiet_env" None] s1(1)
    by (simp add: Let_def del: cfg_step.simps)
qed

section \<open>Determinism of what is written\<close>

definition inst_entries :: "cfgd \<Rightarrow> (key_def \<times> string) list" where
  "inst_entries s = zip (instantiated s) (inst_values s)"

lemma length_inst_entries: "shape_inv s \<Longrightarrow> length (inst_entries s) = length (instantiated s)"
  by (simp add: inst_entries_def shape_inv_def)

lemma keys_inst_entries: "shape_inv s \<Longrightarrow> map (\<lambda>p. kname (fst p)) (inst_entries s) = map kname (instantiated s)"
  by (rule nth_equalityI) (simp_all add: length_inst_entries, simp add: inst_entries_def shape_inv_def)

lemma set_inst_entries:
  assumes "shape_inv s"
  shows "set (inst_entries s) = {(clone_of k, v) |k v. find_key k = None \<and> cfg_lookup s k = Some v}"
proof -
  have d: "distinct (map kname (instantiated s))" and len: "length (instantiated s) \<le> length (inst_values s)"
    using assms by (auto simp: shape_inv_def)
  have c: "clone_of (kname (instantiated s ! i)) = instantiated s ! i" "find_key (kname (instantiated s ! i)) = None"
    if "i < length (instantiated s)" for i
    using assms nth_mem [OF that] by (auto simp: shape_inv_def pattern_key_def)
  have l: "cfg_lookup s k = Some v \<longleftrightarrow> (\<exists>i < length (instantiated s). kname (instantiated s ! i) = k \<and> inst_values s ! i = v)"
    if "find_key k = None" for k v
    using that find_inst_iff [OF d, of k] by (auto simp: cfg_lookup_def)
  have z: "set (inst_entries s) = {(instantiated s ! i, inst_values s ! i) |i. i < length (instantiated s)}"
    using len by (auto simp: inst_entries_def set_zip min_def)
  show ?thesis
  proof (intro set_eqI iffI)
    fix p
    assume "p \<in> set (inst_entries s)"
    then obtain i where i: "i < length (instantiated s)" "p = (instantiated s ! i, inst_values s ! i)"
      using z by auto
    then show "p \<in> {(clone_of k, v) |k v. find_key k = None \<and> cfg_lookup s k = Some v}"
      using c [OF i(1)] l [OF c(2) [OF i(1)]] by (intro CollectI exI [of _ "kname (instantiated s ! i)"] exI [of _ "inst_values s ! i"]) auto
  next
    fix p
    assume "p \<in> {(clone_of k, v) |k v. find_key k = None \<and> cfg_lookup s k = Some v}"
    then obtain k v where "p = (clone_of k, v)" "find_key k = None" "cfg_lookup s k = Some v" by blast
    then show "p \<in> set (inst_entries s)" using l [of k v] c z by auto
  qed
qed

lemma map_inst_sorted:
  assumes "shape_inv s"
  shows "map (\<lambda>i. f (kname (instantiated s ! i)) (inst_values s ! i)) (sorted_order_instantiated s)
    = map (\<lambda>p. f (kname (fst p)) (snd p))
        (map ((!) (inst_entries s)) (sel_order (map (\<lambda>p. kname (fst p)) (inst_entries s))))"
proof -
  have "inst_entries s ! i = (instantiated s ! i, inst_values s ! i)" if "i < length (instantiated s)" for i
    using that assms by (simp add: inst_entries_def shape_inv_def)
  then show ?thesis unfolding sorted_order_instantiated_def keys_inst_entries [OF assms] by simp
qed

lemma same_lookup_same_entries:
  assumes "shape_inv s" "shape_inv s'" "cfg_lookup s = cfg_lookup s'"
  shows "map (\<lambda>i. f (kname (instantiated s ! i)) (inst_values s ! i)) (sorted_order_instantiated s)
    = map (\<lambda>i. f (kname (instantiated s' ! i)) (inst_values s' ! i)) (sorted_order_instantiated s')"
proof -
  have d: "distinct (map (\<lambda>p. kname (fst p)) (inst_entries t))" if "shape_inv t" for t
    using that by (simp only: keys_inst_entries) (simp add: shape_inv_def)
  have "set (inst_entries s) = set (inst_entries s')"
    using assms by (simp only: set_inst_entries)
  moreover have "distinct (inst_entries s)" "distinct (inst_entries s')"
    using d [OF assms(1)] d [OF assms(2)] by (auto simp only: distinct_map)
  ultimately have "mset (inst_entries s) = mset (inst_entries s')"
    by (simp add: set_eq_iff_mset_eq_distinct)
  from nth_sel_order_unique [OF this d [OF assms(1)]] show ?thesis
    by (simp only: map_inst_sorted [OF assms(1)] map_inst_sorted [OF assms(2)])
qed

lemma distinct_registry: "distinct (map kname registry)"
  by (simp add: registry_def)

lemma same_lookup_same_flat:
  assumes "shape_inv s" "shape_inv s'" "cfg_lookup s = cfg_lookup s'"
  shows "cvalues s = cvalues s'"
proof (rule nth_equalityI)
  show "length (cvalues s) = length (cvalues s')" using assms by (simp add: shape_inv_def)
  fix i
  assume "i < length (cvalues s)"
  then have i: "i < length registry" using assms(1) by (simp add: shape_inv_def)
  have "find_key (kname (registry ! i)) = Some i"
    unfolding find_key_def find_Some_iff using i distinct_registry
    by (intro exI [of _ i]) (auto simp: distinct_conv_nth)
  moreover have "cfg_lookup s (kname (registry ! i)) = cfg_lookup s' (kname (registry ! i))"
    by (simp only: assms(3))
  ultimately show "cvalues s ! i = cvalues s' ! i" by (simp add: cfg_lookup_def)
qed

text \<open>
  The broadcast and the store file are functions of the map from keys to values. Two daemons that
  hold the same map, however and in whatever order their per-panel keys came to be, publish the same
  document and write the same bytes; the registered keys come first, then the per-panel keys, each
  group in the order of the names.
\<close>

theorem broadcast_deterministic:
  assumes "shape_inv s" and "shape_inv s'" and "cfg_lookup s = cfg_lookup s'" and "lz_diverged s = lz_diverged s'"
  shows "broadcast_xml s = broadcast_xml s' \<and> store_text s = store_text s'
    \<and> map (\<lambda>n. attr n ''name'') (kids (broadcast_xml s))
        = map (\<lambda>n. Some (gstr 64 n)) (sort (map kname registry) @ sort (map kname (instantiated s)))
          @ [Some ''leitzentrale.diverged'']"
proof (intro conjI)
  have e: "map (\<lambda>i. f (kname (instantiated s ! i)) (inst_values s ! i)) (sorted_order_instantiated s)
      = map (\<lambda>i. f (kname (instantiated s' ! i)) (inst_values s' ! i)) (sorted_order_instantiated s')" for f
    :: "string \<Rightarrow> string \<Rightarrow> 'a"
    using assms(1-3) by (rule same_lookup_same_entries)
  have v: "cvalues s = cvalues s'" using assms(1-3) by (rule same_lookup_same_flat)
  have "map (\<lambda>i. key_node (kname (instantiated s ! i)) (inst_values s ! i)) (sorted_order_instantiated s)
      = map (\<lambda>i. key_node (kname (instantiated s' ! i)) (inst_values s' ! i)) (sorted_order_instantiated s')"
    using assms(1-3) by (rule same_lookup_same_entries)
  then show "broadcast_xml s = broadcast_xml s'"
    by (simp only: broadcast_xml_def key_nodes_def v assms(4))
  have "map (\<lambda>i. entry_pieces (kname (instantiated s ! i)) (inst_values s ! i)) (sorted_order_instantiated s)
      = map (\<lambda>i. entry_pieces (kname (instantiated s' ! i)) (inst_values s' ! i)) (sorted_order_instantiated s')"
    using assms(1-3) by (rule same_lookup_same_entries)
  then show "store_text s = store_text s'"
    by (simp only: store_text_def store_pieces_def v)
  have names: "map (\<lambda>i. kname (xs ! i)) (sel_order (map kname xs)) = sort (map kname xs)" for xs
    using keys_nth_sel_order [of kname xs] by (simp add: comp_def)
  have "map (\<lambda>n. attr n ''name'') (kids (broadcast_xml s))
      = map (\<lambda>n. Some (gstr 64 n)) (map (\<lambda>i. kname (registry ! i)) (sel_order (map kname registry))
          @ map (\<lambda>i. kname (instantiated s ! i)) (sel_order (map kname (instantiated s))))
        @ [Some ''leitzentrale.diverged'']"
    by (simp add: broadcast_xml_def key_nodes_def key_node_def sorted_order_flat_def
        sorted_order_instantiated_def)
  then show "map (\<lambda>n. attr n ''name'') (kids (broadcast_xml s))
        = map (\<lambda>n. Some (gstr 64 n)) (sort (map kname registry) @ sort (map kname (instantiated s)))
          @ [Some ''leitzentrale.diverged'']"
    by (simp only: names)
qed

theorem broadcast_deterministic_witness:
  "broadcast_xml fresh_cfg = broadcast_xml (fresh_cfg\<lparr>last_sig := ''x''\<rparr>)
    \<and> store_text fresh_cfg = store_text (fresh_cfg\<lparr>last_sig := ''x''\<rparr>)"
proof -
  have sh: "shape_inv fresh_cfg" using fresh_cfg_good by (simp add: lengths.good_def)
  let ?s = "fresh_cfg\<lparr>last_sig := ''x''\<rparr>"
  have st: "same_store fresh_cfg ?s" by (simp add: same_store_def)
  have sh': "shape_inv ?s" using sh shape_inv_cong [OF st] by simp
  have lk: "cfg_lookup fresh_cfg = cfg_lookup ?s" using cfg_lookup_cong [OF st] by simp
  show ?thesis using broadcast_deterministic [OF sh sh' lk] by simp
qed

section \<open>The store file\<close>

lemma length_concat_bound: "(\<And>x. x \<in> set xs \<Longrightarrow> length x \<le> c) \<Longrightarrow> length (concat xs) \<le> length xs * c"
proof (induction xs)
  case (Cons x xs)
  then have "length x \<le> c" "length (concat xs) \<le> length xs * c" by auto
  then show ?case by simp
qed simp

lemma entry_length: "length n \<le> 127 \<Longrightarrow> length v \<le> 127 \<Longrightarrow> length (concat (entry_pieces n v)) \<le> 279"
  by (simp add: entry_pieces_def)

lemma length_entries:
  fixes "is" :: "nat list"
  assumes "\<And>i. i \<in> set is \<Longrightarrow> length (f i) \<le> 127 \<and> length (g i) \<le> 127"
  shows "length (concat (concat (map (\<lambda>i. entry_pieces (f i) (g i)) is))) \<le> length is * 279"
proof -
  have c: "concat (concat (map h is)) = concat (map (\<lambda>i. concat (h i)) is)" for h :: "nat \<Rightarrow> string list"
    by (induction "is") auto
  show ?thesis unfolding c
    using length_concat_bound [of "map (\<lambda>i. concat (entry_pieces (f i) (g i))) is" 279] assms entry_length
    by (auto simp del: length_concat)
qed

text \<open>
  The store file always fits its 16 KiB buffer. Whatever values and per-panel keys the daemon holds,
  the text it writes is the whole document, and none of the append loops is cut.
\<close>

theorem store_text_complete:
  assumes "lengths.good s"
  shows "store_text s = concat (store_pieces s) \<and> length (store_text s) < STORE_BUF"
proof -
  have sh: "shape_inv s" using assms by (simp add: lengths.good_def)
  have n1: "list_all (\<lambda>d. length (kname d) \<le> 127) registry" by (simp add: registry_def)
  have flat: "length (kname (registry ! i)) \<le> 127 \<and> length (cvalues s ! i) \<le> 127" if "i \<in> set sorted_order_flat" for i
  proof -
    have i: "i < 14" using that by (simp add: sorted_order_flat_def)
    then have "len_ok (registry ! i) (cvalues s ! i)" using assms by (simp add: lengths.good_def)
    then show ?thesis using n1 i by (simp add: len_ok_def list_all_length)
  qed
  have inst: "length (kname (instantiated s ! i)) \<le> 127 \<and> length (inst_values s ! i) \<le> 127"
    if "i \<in> set (sorted_order_instantiated s)" for i
  proof -
    have i: "i < length (instantiated s)" using that by (simp add: sorted_order_instantiated_def)
    then have "len_ok (instantiated s ! i) (inst_values s ! i)" "pattern_key (kname (instantiated s ! i))"
      using assms nth_mem [OF i] by (auto simp: lengths.good_def shape_inv_def)
    then show ?thesis by (simp add: len_ok_def pattern_key_def)
  qed
  have l1: "length sorted_order_flat = 14" by (simp add: sorted_order_flat_def)
  have l2: "length (sorted_order_instantiated s) \<le> 32"
    using sh by (simp add: sorted_order_instantiated_def shape_inv_def)
  let ?F = "concat (concat (map (\<lambda>i. entry_pieces (kname (registry ! i)) (cvalues s ! i)) sorted_order_flat))"
  let ?I = "concat (concat (map (\<lambda>i. entry_pieces (kname (instantiated s ! i)) (inst_values s ! i))
      (sorted_order_instantiated s)))"
  have "length ?F \<le> length sorted_order_flat * 279"
    by (rule length_entries) (rule flat)
  then have "length ?F \<le> 14 * 279" by (simp only: l1)
  moreover have "length ?I \<le> length (sorted_order_instantiated s) * 279"
    by (rule length_entries) (rule inst)
  then have "length ?I \<le> 32 * 279" using l2 by (meson le_trans mult_le_mono1)
  moreover have "length (concat (store_pieces s)) = 27 + length ?F + length ?I + 16"
    by (simp add: store_pieces_def)
  ultimately have len: "length (concat (store_pieces s)) \<le> 13000" by simp
  then have "store_text s = concat (store_pieces s)"
    using buf_appends_fits [of "[]" "store_pieces s" STORE_BUF 1] by (simp add: store_text_def length_concat)
  with len show ?thesis by simp
qed

theorem store_text_complete_witness:
  "store_text fresh_cfg = concat (store_pieces fresh_cfg) \<and> length (store_text fresh_cfg) < STORE_BUF"
  by (rule store_text_complete) (rule fresh_cfg_good)

text \<open>Where the store file stands while the operations of one save happen one after the other.\<close>

definition save_disk_ok :: "(vfs_op \<Rightarrow> disk \<Rightarrow> disk) \<Rightarrow> save_io \<Rightarrow> disk \<Rightarrow> bool" where
  "save_disk_ok ap io d \<longleftrightarrow> disk_frame ap \<and> disk_rename ap \<and> disk_write ap
     \<and> (sv_open io = Open_ok \<longrightarrow> d STORE_TMP_PATH \<noteq> None)"

lemma save_ops_cases:
  obtains (closed) "save_ops buf io = ([], False)"
  | (partial) pre ws waiting where "open_tmp io = Some pre"
      "save_ops buf io = (pre @ ws, waiting)" "\<forall>op \<in> set ws. STORE_PATH \<notin> op_paths op"
  | (renamed) pre ws where "open_tmp io = Some pre"
      "write_loop STORE_TMP_PATH buf 0 (sv_writes io) = (Done, ws)"
      "save_ops buf io = (pre @ trunc_ops io STORE_TMP_PATH (length buf) @ ws
         @ sync_ops io STORE_TMP_PATH @ [Vfs_rename STORE_TMP_PATH STORE_PATH], False)"
proof (cases "open_tmp io")
  case None
  then show thesis using closed by (simp add: save_ops_def)
next
  case (Some pre)
  obtain e ws where w: "write_loop STORE_TMP_PATH buf 0 (sv_writes io) = (e, ws)" by fastforce
  let ?t = "trunc_ops io STORE_TMP_PATH (length buf)" and ?y = "sync_ops io STORE_TMP_PATH"
  have ws: "\<forall>op \<in> set (?t @ ws @ ?y). STORE_PATH \<notin> op_paths op"
    using write_loop_paths [OF w] by (fastforce simp: trunc_ops_def sync_ops_def split: if_splits)
  consider "e = Done" "sync_loop (sv_syncs io) \<noteq> Blocked" "sv_rename io"
    | "e = Blocked \<or> sync_loop (sv_syncs io) = Blocked"
    | "e \<noteq> Blocked" "sync_loop (sv_syncs io) \<noteq> Blocked" "e = Failed \<or> \<not> sv_rename io"
    by (cases e) auto
  then show thesis
  proof cases
    case 1
    then show thesis using renamed [OF Some] w Some by (simp add: save_ops_def)
  next
    case 2
    then show thesis using partial [OF Some, of "?t @ ws" True] w Some ws by (auto simp: save_ops_def)
  next
    case 3
    then show thesis using partial [OF Some, of "?t @ ws @ ?y" False] w Some ws
      by (auto simp: save_ops_def Let_def)
  qed
qed

text \<open>Opening the temporary file leaves what it held, or an empty file.\<close>

lemma open_tmp_ops:
  assumes "open_tmp io = Some pre" and "save_disk_ok ap io d"
  shows "(\<forall>op \<in> set pre. STORE_PATH \<notin> op_paths op)
    \<and> run_disk ap pre d STORE_TMP_PATH = Some (case d STORE_TMP_PATH of None \<Rightarrow> [] | Some c \<Rightarrow> c)"
proof (cases "sv_open io")
  case Open_ok
  then have "pre = [Vfs_open STORE_TMP_PATH]" "d STORE_TMP_PATH \<noteq> None"
    using assms by (auto simp: open_tmp_def save_disk_ok_def)
  moreover have "run_disk ap [Vfs_open STORE_TMP_PATH] d STORE_TMP_PATH = d STORE_TMP_PATH"
    using assms(2) by (intro run_disk_frame) (auto simp: save_disk_ok_def)
  ultimately show ?thesis by auto
next
  case Open_unaccessible
  then have "pre = [Vfs_create STORE_TMP_PATH]" using assms by (auto simp: open_tmp_def split: if_splits)
  then show ?thesis using assms(2) by (simp add: save_disk_ok_def disk_write_def)
qed (use assms in \<open>simp add: open_tmp_def\<close>)

lemma no_touch_old:
  assumes "disk_frame ap" and "\<forall>op \<in> set ops. STORE_PATH \<notin> op_paths op" and "after_crash ap (take n ops) d e"
  shows "e STORE_PATH = d STORE_PATH"
proof -
  have t: "\<And>op. op \<in> set (take n ops) \<Longrightarrow> STORE_PATH \<notin> op_paths op" using assms(2) by (auto dest: in_set_takeD)
  then have "STORE_PATH \<notin> unsynced (take n ops)" by (rule unsynced_frame)
  then show ?thesis using assms(3) run_disk_frame [OF assms(1) t] by (simp add: after_crash_def)
qed

text \<open>What the temporary file holds when all of the text is written: the text, and what was left behind it.\<close>

lemma tmp_written:
  assumes "open_tmp io = Some pre" and "save_disk_ok ap io d"
    and "write_loop STORE_TMP_PATH buf 0 (sv_writes io) = (Done, ws)"
  shows "run_disk ap (pre @ trunc_ops io STORE_TMP_PATH (length buf) @ ws @ sync_ops io STORE_TMP_PATH) d STORE_TMP_PATH
    = Some (buf @ (if sv_trunc io then [] else drop (length buf) (case d STORE_TMP_PATH of None \<Rightarrow> [] | Some c \<Rightarrow> c)))"
proof -
  have ap: "disk_frame ap" "disk_write ap" using assms(2) by (simp_all add: save_disk_ok_def)
  define c where "c = (case d STORE_TMP_PATH of None \<Rightarrow> [] | Some c \<Rightarrow> c)"
  define d1 where "d1 = run_disk ap (trunc_ops io STORE_TMP_PATH (length buf)) (run_disk ap pre d)"
  define c1 where "c1 = (if sv_trunc io then take (length buf) c @ replicate (length buf - length c) NUL else c)"
  have "run_disk ap pre d STORE_TMP_PATH = Some c" using open_tmp_ops [OF assms(1,2)] by (simp add: c_def)
  then have d1: "d1 STORE_TMP_PATH = Some c1"
    using ap(2) by (simp add: d1_def c1_def trunc_ops_def disk_write_def)
  have "run_disk ap ws d1 STORE_TMP_PATH = Some (buf @ drop (length buf) c1)"
    using write_loop_disk [where d = d1 and c = c1 and off = 0, OF ap(2) assms(3) d1] by simp
  moreover have "run_disk ap (sync_ops io STORE_TMP_PATH) x STORE_TMP_PATH = x STORE_TMP_PATH" for x
    by (rule run_disk_frame [OF ap(1)]) (simp add: sync_ops_def split: if_splits)
  moreover have "drop (length buf) c1 = (if sv_trunc io then [] else drop (length buf) c)" by (simp add: c1_def)
  ultimately show ?thesis by (simp add: run_disk_append d1_def [symmetric] c_def)
qed

text \<open>
  C13: a crash never tears the store. Let the machine stop after any number of the operations of a save,
  whatever the file system answered (retries, short writes, errors, a failed rename), and let every file
  that was not synchronised since it was last changed hold anything afterwards: the store file then
  holds what it held before, or exactly the complete new text, and the latter only when the whole save
  went through. Two answers the code ignores must be good: the synchronisation succeeds, and so does
  the truncation, unless nothing longer was left in the temporary file.
\<close>

theorem save_crash_consistent:
  assumes "save_disk_ok ap io d" and "save_ops buf io = (ops, waiting)" and "sv_synced io"
    and "sv_trunc io \<or> (\<forall>c. d STORE_TMP_PATH = Some c \<longrightarrow> length c \<le> length buf)"
    and "after_crash ap (take n ops) d e"
  shows "e STORE_PATH \<in> {d STORE_PATH, Some buf}
    \<and> (e STORE_PATH \<noteq> d STORE_PATH \<longrightarrow> \<not> waiting \<and> length ops \<le> n)"
proof -
  have ap: "disk_frame ap" "disk_rename ap" using assms(1) by (auto simp: save_disk_ok_def)
  show ?thesis
  proof (cases rule: save_ops_cases [of buf io])
    case closed
    then have "ops = []" using assms(2) by simp
    then show ?thesis using no_touch_old [OF ap(1) _ assms(5)] by simp
  next
    case (partial pre ws w)
    have "\<forall>op \<in> set ops. STORE_PATH \<notin> op_paths op"
      using partial(2,3) assms(2) open_tmp_ops [OF partial(1) assms(1)] by auto
    then have "e STORE_PATH = d STORE_PATH" by (rule no_touch_old [OF ap(1) _ assms(5)])
    then show ?thesis by simp
  next
    case (renamed pre ws)
    let ?mid = "pre @ trunc_ops io STORE_TMP_PATH (length buf) @ ws @ sync_ops io STORE_TMP_PATH"
    have ops: "ops = ?mid @ [Vfs_rename STORE_TMP_PATH STORE_PATH]" "\<not> waiting"
      using renamed(3) assms(2) by auto
    have "\<forall>op \<in> set ws. STORE_PATH \<notin> op_paths op" using write_loop_paths [OF renamed(2)] by fastforce
    then have mid: "\<forall>op \<in> set ?mid. STORE_PATH \<notin> op_paths op"
      using open_tmp_ops [OF renamed(1) assms(1)] by (auto simp: trunc_ops_def sync_ops_def)
    show ?thesis
    proof (cases "n \<le> length ?mid")
      case True
      then have "take n ops = take n ?mid" unfolding ops(1)
        by (simp only: take_append diff_is_0_eq [THEN iffD2, OF True] take_0 append_Nil2)
      then have "e STORE_PATH = d STORE_PATH" using no_touch_old [OF ap(1) mid] assms(5) by simp
      then show ?thesis by simp
    next
      case False
      then have full: "take n ops = ops" unfolding ops(1) by simp
      have "STORE_TMP_PATH \<notin> unsynced ?mid"
        using assms(3) unsynced_snoc [of "pre @ trunc_ops io STORE_TMP_PATH (length buf) @ ws" "Vfs_sync STORE_TMP_PATH"]
        by (simp add: sync_ops_def)
      then have "STORE_PATH \<notin> unsynced ops" by (simp only: ops(1) unsynced_snoc) simp
      moreover have "run_disk ap ops d STORE_PATH = run_disk ap ?mid d STORE_TMP_PATH"
        using ap(2) by (simp only: ops(1) run_disk_append) (simp add: disk_rename_def)
      moreover have "run_disk ap ?mid d STORE_TMP_PATH = Some buf"
        using tmp_written [OF renamed(1) assms(1) renamed(2)] assms(4) by (auto split: option.splits)
      ultimately have "e STORE_PATH = Some buf" using assms(5) full by (simp add: after_crash_def)
      then show ?thesis using full ops False by simp
    qed
  qed
qed

theorem save_crash_consistent_witness:
  "let io = \<lparr>sv_open = Open_unaccessible, sv_create = Open_ok, sv_trunc = True, sv_writes = [Write_retry, Write_ok 2, Write_ok 5],
              sv_syncs = [True, False], sv_synced = True, sv_rename = True\<rparr>;
       d = (\<lambda>p. if p = STORE_PATH then Some ''old'' else None);
       e = (run_disk mem_disk (take 3 (fst (save_ops ''new'' io))) d)(STORE_TMP_PATH := Some ''x'')
   in e STORE_PATH \<in> {Some ''old'', Some ''new''}"
proof -
  let ?io = "\<lparr>sv_open = Open_unaccessible, sv_create = Open_ok, sv_trunc = True, sv_writes = [Write_retry, Write_ok 2, Write_ok 5],
              sv_syncs = [True, False], sv_synced = True, sv_rename = True\<rparr>"
  let ?d = "(\<lambda>p. if p = STORE_PATH then Some ''old'' else None) :: disk"
  have ok: "save_disk_ok mem_disk ?io ?d"
    by (simp add: save_disk_ok_def mem_disk_frame mem_disk_rename mem_disk_write)
  obtain ops w where o: "save_ops ''new'' ?io = (ops, w)" by fastforce
  have "take 3 (fst (save_ops ''new'' ?io)) = [Vfs_create STORE_TMP_PATH, Vfs_truncate STORE_TMP_PATH 3, Vfs_write STORE_TMP_PATH 0 ''ne'']"
    by code_simp
  then have t: "take 3 ops = [Vfs_create STORE_TMP_PATH, Vfs_truncate STORE_TMP_PATH 3, Vfs_write STORE_TMP_PATH 0 ''ne'']"
    using o by simp
  let ?e = "(run_disk mem_disk (take 3 ops) ?d)(STORE_TMP_PATH := Some ''x'')"
  have "unsynced (take 3 ops) = {STORE_TMP_PATH}" unfolding t
    by (simp only: unsynced_def fold_simps unsynced_after.simps insert_absorb2)
  then have "after_crash mem_disk (take 3 ops) ?d ?e" unfolding after_crash_def
    by (intro allI impI) (rule fun_upd_other, simp only: singleton_iff not_False_eq_True)
  note c = this
  have "?e STORE_PATH \<in> {?d STORE_PATH, Some ''new''}"
    using save_crash_consistent [OF ok o _ _ c] by (simp del: insert_iff fun_upd_apply)
  then show ?thesis unfolding Let_def o fst_conv by (simp only: refl if_True)
qed

text \<open>
  The ignored answer matters. When the truncation fails and an earlier, abandoned save has left a longer
  temporary file, the complete save puts the new text followed by the rest of that file into the store.
\<close>

lemma failed_truncation_mixes:
  assumes "save_disk_ok ap io d" and "\<not> sv_trunc io" and "d STORE_TMP_PATH = Some c" and "open_tmp io = Some pre"
    and "write_loop STORE_TMP_PATH buf 0 (sv_writes io) = (Done, ws)" and "sync_loop (sv_syncs io) \<noteq> Blocked" and "sv_rename io"
  shows "run_disk ap (fst (save_ops buf io)) d STORE_PATH = Some (buf @ drop (length buf) c)"
proof -
  let ?mid = "pre @ trunc_ops io STORE_TMP_PATH (length buf) @ ws @ sync_ops io STORE_TMP_PATH"
  have "fst (save_ops buf io) = ?mid @ [Vfs_rename STORE_TMP_PATH STORE_PATH]"
    using assms(4-7) by (simp add: save_ops_def)
  moreover have "disk_rename ap" using assms(1) by (simp add: save_disk_ok_def)
  ultimately have "run_disk ap (fst (save_ops buf io)) d STORE_PATH = run_disk ap ?mid d STORE_TMP_PATH"
    by (simp only: run_disk_append) (simp add: disk_rename_def)
  then show ?thesis using tmp_written [OF assms(4,1,5)] assms(2,3) by simp
qed

end
