(* ===== verification/Pkgd_Package.thy ===== *)
theory Pkgd_Package
  imports Genode_Iface
begin

text \<open>
  \<open>sponge_pkgd/main.cc\<close>, the package metadata: the record a metadata document is parsed into, the
  rewriting of an embedded configuration for disk-served media, session routes and labels, and
  quota strings. Log lines are left out.
\<close>

section \<open>Data\<close>

abbreviation MAX_DEPS :: nat where "MAX_DEPS \<equiv> 16"
abbreviation MAX_SESSIONS :: nat where "MAX_SESSIONS \<equiv> 16"
abbreviation MAX_PACKAGES :: nat where "MAX_PACKAGES \<equiv> 32"
abbreviation CONFIG_CAP :: nat where "CONFIG_CAP \<equiv> 16384"

record session =
  ses_name :: string
  ses_route :: string
  ses_readonly :: bool
  ses_subpath :: string
  ses_label :: string

record package =
  pname :: string
  pversion :: string
  pdescription :: string
  pbinary :: string
  pram :: string
  pcaps :: u32
  config_xml :: string
  has_autostart :: bool
  has_launcher :: bool
  pkind :: string
  exclusive_group :: string
  resizeable :: bool
  launcher_category :: string
  sessions :: "session list"
  deps :: "string list"
  pvalid :: bool
  reused :: bool

definition new_package :: package where
  "new_package = \<lparr>pname = [], pversion = [], pdescription = [], pbinary = [], pram = [], pcaps = 0,
     config_xml = [], has_autostart = False, has_launcher = False, pkind = ''app'',
     exclusive_group = [], resizeable = True, launcher_category = [], sessions = [], deps = [],
     pvalid = False, reused = False\<rparr>"

definition is_driver :: "package \<Rightarrow> bool" where
  "is_driver p \<longleftrightarrow> pkind p = ''driver''"

definition exclusive :: "package \<Rightarrow> bool" where
  "exclusive p \<longleftrightarrow> exclusive_group p \<noteq> []"

text \<open>The comma-joined session names of the explain result, in a buffer of 128 bytes.\<close>

definition join_session :: "string \<Rightarrow> nat \<times> session \<Rightarrow> string" where
  "join_session buf = (\<lambda>(i, s).
     if length buf + 2 < 128
     then buf_append 1 128 (if 0 < i then buf @ '', '' else buf) (ses_name s)
     else buf)"

definition requires_sessions :: "package \<Rightarrow> string" where
  "requires_sessions p = foldl join_session [] (enumerate 0 (sessions p))"

section \<open>Embedded configurations\<close>

text \<open>
  On disk-served media the binaries of a nested \<open>init\<close> live below the prefix. The rewriting copies
  the serialized configuration, puts the prefix before the value of every \<open>binary\<close> element that is
  not an absolute path, and adds a \<open>binary\<close> element after the open tag of a \<open>start\<close> element that
  is not followed by one. The pieces are what the loop emits; they go to a buffer of
  \<open>2 * CONFIG_CAP\<close> bytes, and the package keeps \<open>CONFIG_CAP\<close> bytes of that.
\<close>

abbreviation needle_start :: string where "needle_start \<equiv> ''<start name='' @ [DQ]"
abbreviation needle_bin :: string where "needle_bin \<equiv> ''<binary name='' @ [DQ]"

definition path_free :: "string \<Rightarrow> bool" where
  "path_free v \<longleftrightarrow> v \<noteq> [] \<and> hd v \<noteq> CHR ''/''"

definition xml_blank :: "char \<Rightarrow> bool" where
  "xml_blank c \<longleftrightarrow> c = SP \<or> c = NL \<or> c = TAB \<or> c = CR"

definition quoted_value :: "string \<Rightarrow> string" where
  "quoted_value s = takeWhile (\<lambda>c. c \<noteq> DQ) s"

text \<open>The characters up to and including the next tag end.\<close>

definition to_tag_end :: "string \<Rightarrow> string" where
  "to_tag_end s = take (Suc (length (takeWhile (\<lambda>c. c \<noteq> CHR ''>'') s))) s"

definition has_own_binary :: "string \<Rightarrow> bool" where
  "has_own_binary s \<longleftrightarrow> (let s = dropWhile xml_blank s in 7 < length s \<and> take 2 s = ''<b'')"

function rewrite_pieces :: "string \<Rightarrow> string \<Rightarrow> string list" where
  "rewrite_pieces pre s =
     (if s = [] then []
      else if prefix needle_bin s then
        (let v = quoted_value (drop 14 s)
         in [needle_bin] @ (if path_free v then [pre] else []) @ [v, [DQ]]
            @ rewrite_pieces pre (drop (14 + length v + 1) s))
      else if prefix needle_start s then
        (let v = quoted_value (drop 13 s);
             tag = take (13 + length v) s @ to_tag_end (drop (13 + length v) s);
             r = drop (length tag) s
         in [tag] @ (if path_free v \<and> \<not> has_own_binary r then [needle_bin, pre, v, [DQ] @ ''/>''] else [])
            @ rewrite_pieces pre r)
      else [take 1 s] @ rewrite_pieces pre (drop 1 s))"
  by pat_completeness auto
termination
  by (relation "measure (\<lambda>(pre, s). length s)")
     (auto simp: to_tag_end_def quoted_value_def prefix_def)

declare rewrite_pieces.simps [simp del]

definition rewrite_config :: "string \<Rightarrow> string \<Rightarrow> string" where
  "rewrite_config pre s = gstr CONFIG_CAP (buf_appends 1 (2 * CONFIG_CAP) [] (rewrite_pieces pre s))"

text \<open>
  The serialization itself is the generator's; the attribute values go through a string of 64 bytes.
\<close>

definition config_node :: "xml \<Rightarrow> xml" where
  "config_node child =
     Elem ''config'' (case child of Elem t as ks c \<Rightarrow> map (\<lambda>(k, v). (k, gstr 64 v)) as | Raw r \<Rightarrow> [])
       (kids child) (content child)"

definition parse_config :: "genode \<Rightarrow> string \<Rightarrow> xml \<Rightarrow> package \<Rightarrow> package" where
  "parse_config G pre child p =
     (case ser_config G (config_node child) of
        None \<Rightarrow> p
      | Some cfg \<Rightarrow>
          p\<lparr>config_xml := (if pre \<noteq> [] \<and> cfg \<noteq> [] then rewrite_config pre cfg else gstr CONFIG_CAP cfg)\<rparr>)"

section \<open>Metadata documents\<close>

definition attr_dflt :: "nat \<Rightarrow> xml \<Rightarrow> string \<Rightarrow> string \<Rightarrow> string" where
  "attr_dflt n x k d = (case attr x k of None \<Rightarrow> d | Some v \<Rightarrow> gstr n v)"

definition add_dep :: "xml \<Rightarrow> package \<Rightarrow> package" where
  "add_dep d p =
     (if length (deps p) < MAX_DEPS then p\<lparr>deps := deps p @ [gstr 64 (content d)]\<rparr> else p)"

definition parse_session :: "genode \<Rightarrow> xml \<Rightarrow> session" where
  "parse_session G s = \<lparr>ses_name = attr_str 32 s ''name'', ses_route = attr_str 32 s ''default-route'',
     ses_readonly = attr_bool G s ''readonly'' False, ses_subpath = attr_str 64 s ''subpath'',
     ses_label = attr_str 64 s ''label''\<rparr>"

definition add_session :: "genode \<Rightarrow> xml \<Rightarrow> package \<Rightarrow> package" where
  "add_session G s p =
     (if length (sessions p) < MAX_SESSIONS then p\<lparr>sessions := sessions p @ [parse_session G s]\<rparr> else p)"

definition parse_child :: "genode \<Rightarrow> string \<Rightarrow> xml \<Rightarrow> package \<Rightarrow> package" where
  "parse_child G pre child p =
     (if has_type child ''name'' then p\<lparr>pname := gstr 64 (content child)\<rparr>
      else if has_type child ''version'' then p\<lparr>pversion := gstr 32 (content child)\<rparr>
      else if has_type child ''description'' then p\<lparr>pdescription := gstr 256 (content child)\<rparr>
      else if has_type child ''binary'' then p\<lparr>pbinary := gstr 64 (content child)\<rparr>
      else if has_type child ''quota'' then
        p\<lparr>pram := attr_dflt 16 child ''ram'' ''32M'', pcaps := attr_u32 G child ''caps'' 512\<rparr>
      else if has_type child ''config'' then parse_config G pre child p
      else if has_type child ''autostart'' then p\<lparr>has_autostart := True\<rparr>
      else if has_type child ''exclusive'' then p\<lparr>exclusive_group := attr_str 16 child ''group''\<rparr>
      else if has_type child ''kind'' then
        p\<lparr>pkind := (let v = gstr 16 (content child) in if v = ''driver'' \<or> v = ''app'' then v else ''app'')\<rparr>
      else if has_type child ''resizeable'' then
        p\<lparr>resizeable := (let v = gstr 8 (content child) in v = ''yes'' \<or> v \<noteq> ''no'')\<rparr>
      else if has_type child ''launcher'' then
        p\<lparr>has_launcher := True, launcher_category := attr_str 32 child ''category''\<rparr>
      else if has_type child ''dependencies'' then fold add_dep (kids_of_type child ''pkg'') p
      else if has_type child ''sessions'' then fold (add_session G) (kids_of_type child ''session'') p
      else p)"

definition fill_package :: "string \<Rightarrow> package \<Rightarrow> package" where
  "fill_package name p =
     p\<lparr>pbinary := (if pbinary p = [] then gstr 64 name else pbinary p),
       pram := (if pram p = [] then ''32M'' else pram p),
       pcaps := (if pcaps p = 0 then 512 else pcaps p)\<rparr>"

definition missing_element :: "xml \<Rightarrow> string option" where
  "missing_element pkg =
     (if kids_of_type pkg ''name'' = [] then Some ''name''
      else if kids_of_type pkg ''version'' = [] then Some ''version''
      else if kids_of_type pkg ''description'' = [] then Some ''description''
      else None)"

text \<open>\<open>Inl\<close> the error of a document that lacks a required element, \<open>Inr\<close> the valid package.\<close>

definition parse_package :: "genode \<Rightarrow> string \<Rightarrow> xml \<Rightarrow> string \<Rightarrow> string + package" where
  "parse_package G pre pkg name =
     (let p = fill_package name (fold (parse_child G pre) (kids pkg) new_package)
      in case missing_element pkg of
           Some m \<Rightarrow> Inl (gstr 256 (''package '' @ [SQ] @ gstr 64 name @ [SQ]
                       @ '' is missing required element <'' @ m @ ''>''))
         | None \<Rightarrow> Inr (p\<lparr>pvalid := True\<rparr>))"

section \<open>Routes and labels\<close>

definition outer_services :: "string list" where
  "outer_services = [''nitpicker'', ''vfs'', ''event_filter'', ''wm'', ''report_rom'', ''timer'', ''input_drv'']"

definition is_parent_route :: "string \<Rightarrow> bool" where
  "is_parent_route route \<longleftrightarrow> route = [] \<or> route = ''parent'' \<or> route \<in> set outer_services"

definition session_label :: "string \<Rightarrow> session \<Rightarrow> string" where
  "session_label pkg s =
     (if ses_label s \<noteq> [] then gstr 96 (ses_label s)
      else if ses_readonly s \<and> ses_name s = ''File_system'' then gstr 96 (pkg @ ''-ro'')
      else [])"

section \<open>Quotas\<close>

definition digits_value :: "string \<Rightarrow> u64" where
  "digits_value ds = foldl (\<lambda>v c. v * 10 + of_nat (digit_val c)) 0 ds"

definition quota_bytes :: "string \<Rightarrow> u64 option" where
  "quota_bytes q =
     (let ds = takeWhile is_digit q; v = digits_value ds in
      if ds = [] then None
      else case dropWhile is_digit q of
             [] \<Rightarrow> Some v
           | c # _ \<Rightarrow>
               (if c = CHR ''K'' \<or> c = CHR ''k'' then Some (v * 1024)
                else if c = CHR ''M'' \<or> c = CHR ''m'' then Some (v * (1024 * 1024))
                else if c = CHR ''G'' \<or> c = CHR ''g'' then Some (v * (1024 * 1024 * 1024))
                else None))"

text \<open>
  The remaining budget of a sandbox: the top-level \<open>ram\<close> and \<open>caps\<close> nodes of its state report, the
  first that parses of each. \<open>None\<close> stands for a report that is not valid yet.
\<close>

definition avail_of :: "xml \<Rightarrow> u64 option" where
  "avail_of n = quota_bytes (attr_str 16 n ''avail'')"

fun first_ram :: "xml list \<Rightarrow> u64 option" where
  "first_ram [] = None"
| "first_ram (n # ns) =
     (if has_type n ''ram'' then (case avail_of n of None \<Rightarrow> first_ram ns | Some v \<Rightarrow> Some v)
      else first_ram ns)"

fun first_caps :: "xml list \<Rightarrow> u64 option" where
  "first_caps [] = None"
| "first_caps (n # ns) =
     (if has_type n ''caps'' then
        (case avail_of n of
           None \<Rightarrow> first_caps ns
         | Some v \<Rightarrow> (if 0 < v \<and> v \<le> 0xffffff then Some v else first_caps ns))
      else first_caps ns)"

definition read_budget :: "genode \<Rightarrow> string option \<Rightarrow> (u64 \<times> u32) option" where
  "read_budget G state =
     (case state of
        None \<Rightarrow> None
      | Some t \<Rightarrow>
          (if t = [] then None
           else let root = parse_hid G t in
                case (first_ram (kids root), first_caps (kids root)) of
                  (Some ram, Some caps) \<Rightarrow> Some (ram, ucast caps)
                | _ \<Rightarrow> None))"

abbreviation ADMISSION_MARGIN_RAM :: u64 where "ADMISSION_MARGIN_RAM \<equiv> 8 * 1024 * 1024"
abbreviation ADMISSION_MARGIN_CAPS :: u32 where "ADMISSION_MARGIN_CAPS \<equiv> 64"

definition fits :: "u64 \<Rightarrow> u32 \<Rightarrow> u64 \<Rightarrow> u32 \<Rightarrow> bool" where
  "fits need_ram need_caps free_ram free_caps \<longleftrightarrow>
     \<not> free_ram < need_ram + ADMISSION_MARGIN_RAM \<and> \<not> free_caps < need_caps + ADMISSION_MARGIN_CAPS"

end
