(* ===== verification/Pkgd_Resolve.thy ===== *)
theory Pkgd_Resolve
  imports Pkgd_Package
begin

text \<open>
  \<open>sponge_pkgd/main.cc\<close>, the dependency resolver: the package index, the loading of metadata, and
  the depth-first expansion of a root into an install-ordered plan with cycle detection. The theory
  ends with the resolver's correctness against the dependency graph the metadata describes.
\<close>

section \<open>The repository\<close>

text \<open>
  What the resolver reads: the index, whether it was loaded, the prefix of disk-served media and the
  metadata module of each package (\<open>pkg_<name>.xml\<close>; a module that cannot be opened and one that is
  not valid are answered alike). Boot modules do not change while the system runs.
\<close>

record repo =
  known :: "string list"
  index_loaded :: bool
  binary_prefix :: string
  meta_rom :: "string \<Rightarrow> rom"

definition load_index :: "rom \<Rightarrow> repo \<Rightarrow> repo" where
  "load_index r R =
     (case r of
        Rom_node root \<Rightarrow>
          (if \<not> has_type root ''packages'' then R
           else R\<lparr>known := take MAX_PACKAGES (known R @ map (\<lambda>p. attr_str 64 p ''name'') (kids_of_type root ''pkg'')),
                  index_loaded := True\<rparr>)
      | _ \<Rightarrow> R)"

definition not_in_repo :: "string list \<Rightarrow> string \<Rightarrow> string" where
  "not_in_repo visiting name =
     (if visiting = [] then gstr 256 (''package not found: '' @ name)
      else gstr 256 (last visiting @ '' requires '' @ name @ '', which is not in the repository''))"

text \<open>\<open>Inl\<close> the error, \<open>Inr\<close> the package.\<close>

definition load_package :: "genode \<Rightarrow> repo \<Rightarrow> string list \<Rightarrow> string \<Rightarrow> string + package" where
  "load_package G R visiting name =
     (if \<not> index_loaded R \<or> name \<notin> set (known R) then Inl (not_in_repo visiting name)
      else case meta_rom R (gstr 96 (''pkg_'' @ name @ ''.xml'')) of
             Rom_invalid \<Rightarrow> Inl (gstr 256 (''package not found: '' @ name))
           | Rom_malformed \<Rightarrow> Inl (gstr 256 (''malformed metadata for package: '' @ name))
           | Rom_node root \<Rightarrow>
               (if \<not> has_type root ''package''
                then Inl (gstr 256 (''malformed metadata for package: '' @ name @ '' (root is not <package>)''))
                else parse_package G (binary_prefix R) root name))"

section \<open>Depth-first resolution\<close>

record resolver =
  plan :: "package list"
  visiting :: "string list"
  done_names :: "string list"
  rok :: bool
  rerror :: string
  starved :: bool

definition resolver_reset :: resolver where
  "resolver_reset = \<lparr>plan = [], visiting = [], done_names = [], rok = True, rerror = [], starved = False\<rparr>"

definition cycle_step :: "string \<Rightarrow> string \<Rightarrow> string" where
  "cycle_step b v = (let b = buf_append 4 256 b v in if length b + 4 < 256 then b @ '' -> '' else b)"

definition cycle_message :: "string list \<Rightarrow> string \<Rightarrow> string" where
  "cycle_message vs again = buf_append 1 256 (foldl cycle_step ''dependency cycle: '' vs) again"

definition resolve_fail :: "string \<Rightarrow> resolver \<Rightarrow> resolver" where
  "resolve_fail msg s = s\<lparr>rerror := msg, rok := False\<rparr>"

definition push_visiting :: "string \<Rightarrow> resolver \<Rightarrow> resolver" where
  "push_visiting name s =
     (if length (visiting s) < MAX_PACKAGES then s\<lparr>visiting := visiting s @ [gstr 64 name]\<rparr> else s)"

definition finish_package :: "string \<Rightarrow> package \<Rightarrow> resolver \<Rightarrow> resolver" where
  "finish_package name p s =
     s\<lparr>visiting := butlast (visiting s),
       done_names := (if length (done_names s) < MAX_PACKAGES then done_names s @ [gstr 64 name] else done_names s),
       plan := (if length (plan s) < MAX_PACKAGES then plan s @ [p] else plan s)\<rparr>"

text \<open>
  \<open>_visit\<close>, with the depth of the recursion as the first argument; running out of it is recorded in
  \<open>starved\<close>. The names of \<open>inst\<close> are the installed packages.
\<close>

primrec visit :: "nat \<Rightarrow> genode \<Rightarrow> repo \<Rightarrow> string list \<Rightarrow> string \<Rightarrow> resolver \<Rightarrow> resolver" where
  "visit 0 G R inst name s = s\<lparr>starved := True\<rparr>"
| "visit (Suc n) G R inst name s =
     (if \<not> rok s then s
      else if name \<in> set (done_names s) then s
      else if name \<in> set (visiting s) then resolve_fail (cycle_message (visiting s) name) s
      else case load_package G R (visiting s) name of
             Inl msg \<Rightarrow> resolve_fail msg s
           | Inr p \<Rightarrow>
               finish_package name (p\<lparr>reused := name \<in> set inst\<rparr>)
                 (fold (\<lambda>d s. if rok s then visit n G R inst d s else s) (deps p) (push_visiting name s)))"

definition resolve :: "genode \<Rightarrow> repo \<Rightarrow> string list \<Rightarrow> string \<Rightarrow> resolver" where
  "resolve G R inst root = visit (Suc MAX_PACKAGES) G R inst root resolver_reset"

section \<open>The dependency graph\<close>

text \<open>
  The specification does not mention the search: the metadata of a name, the edges it declares, and
  what a name needs, itself included.
\<close>

definition metadata :: "genode \<Rightarrow> repo \<Rightarrow> string \<Rightarrow> package option" where
  "metadata G R name = (case load_package G R [] name of Inl e \<Rightarrow> None | Inr p \<Rightarrow> Some p)"

definition requires :: "genode \<Rightarrow> repo \<Rightarrow> string \<Rightarrow> string \<Rightarrow> bool" where
  "requires G R a b \<longleftrightarrow> (case metadata G R a of None \<Rightarrow> False | Some p \<Rightarrow> b \<in> set (deps p))"

abbreviation needs :: "genode \<Rightarrow> repo \<Rightarrow> string \<Rightarrow> string \<Rightarrow> bool" where
  "needs G R \<equiv> (requires G R)\<^sup>*\<^sup>*"

definition resolvable :: "genode \<Rightarrow> repo \<Rightarrow> string \<Rightarrow> bool" where
  "resolvable G R root \<longleftrightarrow>
     (\<forall>n. needs G R root n \<longrightarrow> metadata G R n \<noteq> None \<and> \<not> (requires G R)\<^sup>+\<^sup>+ n n)"

text \<open>The index the constructor leaves: at most 32 names of at most 63 characters.\<close>

definition repo_wf :: "repo \<Rightarrow> bool" where
  "repo_wf R \<longleftrightarrow> length (known R) \<le> MAX_PACKAGES \<and> (\<forall>n \<in> set (known R). length n < 64)"

lemma load_index_wf: "repo_wf R \<Longrightarrow> repo_wf (load_index r R)"
proof -
  assume R: "repo_wf R"
  have "length (attr_str 64 x k) < 64" for x k
    using length_attr_str [of 64 x k] by simp
  with R show ?thesis
    by (auto simp: load_index_def repo_wf_def dest!: in_set_takeD split: rom.split)
qed

lemma load_package_visiting: "load_package G R vs name = Inr p \<longleftrightarrow> metadata G R name = Some p"
  by (auto simp: load_package_def metadata_def split: rom.split sum.split)

lemma load_package_Inl: "(\<exists>e. load_package G R vs name = Inl e) \<longleftrightarrow> metadata G R name = None"
  by (metis load_package_visiting not_None_eq sum.collapse(1) sum.collapse(2) Inl_Inr_False obj_sumE)

lemma metadata_known: "metadata G R n = Some p \<Longrightarrow> n \<in> set (known R)"
  by (auto simp: metadata_def load_package_def split: if_splits)

section \<open>What a visit establishes\<close>

definition topological :: "('a \<Rightarrow> 'a \<Rightarrow> bool) \<Rightarrow> 'a list \<Rightarrow> bool" where
  "topological req xs \<longleftrightarrow> (\<forall>i < length xs. \<forall>d. req (xs ! i) d \<longrightarrow> d \<in> set (take i xs))"

lemma topological_Nil [simp]: "topological req []"
  by (simp add: topological_def)

lemma topological_snoc [simp]:
  "topological req (xs @ [x]) \<longleftrightarrow> topological req xs \<and> (\<forall>d. req x d \<longrightarrow> d \<in> set xs)"
  by (auto simp: topological_def nth_append less_Suc_eq)

lemma topological_closed:
  assumes "topological req xs" and "req\<^sup>*\<^sup>* a b" and "a \<in> set xs"
  shows "b \<in> set xs"
  using assms(2,3)
proof (induction rule: rtranclp_induct)
  case (step b c)
  then obtain i where "i < length xs" "xs ! i = b" by (auto simp: in_set_conv_nth)
  then have "c \<in> set (take i xs)" using assms(1) step.hyps(2) by (auto simp: topological_def)
  then show ?case by (rule in_set_takeD)
qed

lemma topological_acyclic:
  "topological req xs \<Longrightarrow> distinct xs \<Longrightarrow> a \<in> set xs \<Longrightarrow> \<not> req\<^sup>+\<^sup>+ a a"
proof (induction xs arbitrary: a rule: rev_induct)
  case (snoc x xs)
  show ?case
  proof (cases "a \<in> set xs")
    case False
    then have a: "a = x" using snoc.prems(3) by simp
    show ?thesis
    proof
      assume "req\<^sup>+\<^sup>+ a a"
      then obtain d where "req a d" "req\<^sup>*\<^sup>* d a" by (meson tranclpD)
      moreover from this have "d \<in> set xs" using snoc.prems(1) a by simp
      ultimately have "a \<in> set xs" using topological_closed snoc.prems(1) by fastforce
      with False show False by blast
    qed
  qed (use snoc in auto)
qed simp

text \<open>The plan entry of a name, and the defect that makes a resolution fail.\<close>

definition plan_entry :: "genode \<Rightarrow> repo \<Rightarrow> string list \<Rightarrow> string \<Rightarrow> package" where
  "plan_entry G R inst n = (the (metadata G R n))\<lparr>reused := n \<in> set inst\<rparr>"

definition defect :: "genode \<Rightarrow> repo \<Rightarrow> string \<Rightarrow> bool" where
  "defect G R d \<longleftrightarrow> (\<exists>m. needs G R d m \<and> (metadata G R m = None \<or> (requires G R)\<^sup>+\<^sup>+ m m))"

lemma defect_dep:
  assumes "metadata G R name = Some p" and "d \<in> set (deps p)" and "defect G R d"
  shows "defect G R name"
proof -
  obtain m where m: "needs G R d m" "metadata G R m = None \<or> (requires G R)\<^sup>+\<^sup>+ m m"
    using assms(3) by (auto simp: defect_def)
  have "requires G R name d" using assms(1,2) by (simp add: requires_def)
  then have "needs G R name m" using m(1) by (rule converse_rtranclp_into_rtranclp)
  with m(2) show ?thesis by (auto simp: defect_def)
qed

lemma resolvable_defect: "resolvable G R d \<longleftrightarrow> \<not> defect G R d"
  by (auto simp: resolvable_def defect_def)

definition visit_inv :: "genode \<Rightarrow> repo \<Rightarrow> string list \<Rightarrow> resolver \<Rightarrow> bool" where
  "visit_inv G R inst s \<longleftrightarrow>
     rok s \<and> \<not> starved s \<and> distinct (visiting s @ done_names s) \<and>
     (\<forall>m \<in> set (visiting s @ done_names s). metadata G R m \<noteq> None) \<and>
     successively (requires G R) (visiting s) \<and> topological (requires G R) (done_names s) \<and>
     plan s = map (plan_entry G R inst) (done_names s)"

definition visit_post :: "genode \<Rightarrow> repo \<Rightarrow> string list \<Rightarrow> string set \<Rightarrow> resolver \<Rightarrow> resolver \<Rightarrow> bool" where
  "visit_post G R inst ds s s' \<longleftrightarrow>
     \<not> starved s' \<and>
     (if rok s' then
        visit_inv G R inst s' \<and> visiting s' = visiting s \<and> ds \<subseteq> set (done_names s') \<and>
        (\<exists>new. done_names s' = done_names s @ new \<and> (\<forall>m \<in> set new. \<exists>d \<in> ds. needs G R d m))
      else \<exists>d \<in> ds. defect G R d)"

lemma visit_inv_bound:
  assumes "repo_wf R" and "visit_inv G R inst s"
  shows "length (visiting s @ done_names s) \<le> MAX_PACKAGES"
proof -
  have "set (visiting s @ done_names s) \<subseteq> set (known R)"
    using assms(2) metadata_known by (fastforce simp: visit_inv_def)
  then have "card (set (visiting s @ done_names s)) \<le> card (set (known R))"
    by (intro card_mono) auto
  also have "\<dots> \<le> MAX_PACKAGES"
    using card_length [of "known R"] assms(1) by (simp add: repo_wf_def)
  finally show ?thesis using assms(2) by (simp add: visit_inv_def distinct_card del: set_append)
qed

lemma push_visiting_inv:
  assumes wf: "repo_wf R" and inv: "visit_inv G R inst s" and m: "metadata G R name = Some p"
    and new: "name \<notin> set (visiting s)" "name \<notin> set (done_names s)"
    and edge: "visiting s = [] \<or> requires G R (last (visiting s)) name"
  shows "visit_inv G R inst (push_visiting name s)" and "visiting (push_visiting name s) = visiting s @ [name]"
    and "done_names (push_visiting name s) = done_names s"
proof -
  have known: "name \<in> set (known R)" using m by (rule metadata_known)
  then have len: "length name < 64" using wf by (simp add: repo_wf_def)
  have "set (name # visiting s) \<subseteq> set (known R)"
    using inv known metadata_known by (fastforce simp: visit_inv_def)
  then have "card (set (name # visiting s)) \<le> card (set (known R))" by (intro card_mono) auto
  also have "\<dots> \<le> MAX_PACKAGES" using card_length [of "known R"] wf by (simp add: repo_wf_def)
  finally have "length (visiting s) < MAX_PACKAGES"
    using inv new by (simp add: visit_inv_def distinct_card)
  then have eq: "push_visiting name s = s\<lparr>visiting := visiting s @ [name]\<rparr>"
    using len by (simp add: push_visiting_def)
  show "visiting (push_visiting name s) = visiting s @ [name]"
    and "done_names (push_visiting name s) = done_names s" by (simp_all add: eq)
  show "visit_inv G R inst (push_visiting name s)"
    using inv new m edge unfolding eq visit_inv_def by (auto simp: successively_append_iff)
qed

lemma path_to_last:
  "successively req xs \<Longrightarrow> x \<in> set xs \<Longrightarrow> req\<^sup>*\<^sup>* x (last xs)"
proof (induction xs arbitrary: x)
  case (Cons y ys)
  show ?case
  proof (cases ys)
    case (Cons z zs)
    have IH: "a \<in> set ys \<Longrightarrow> req\<^sup>*\<^sup>* a (last ys)" for a
      using Cons.IH Cons.prems(1) Cons by auto
    have "req y z" "req\<^sup>*\<^sup>* z (last ys)" using Cons.prems(1) Cons IH [of z] by auto
    then have "req\<^sup>*\<^sup>* y (last ys)" by (rule converse_rtranclp_into_rtranclp)
    then show ?thesis using Cons.prems(2) IH Cons by auto
  qed (use Cons.prems in simp)
qed simp

lemma visit_failed [simp]: "\<not> rok s \<Longrightarrow> 0 < n \<Longrightarrow> visit n G R inst d s = s"
  by (cases n) auto

lemma fold_visit_failed [simp]:
  "\<not> rok s \<Longrightarrow> fold (\<lambda>d s. if rok s then visit n G R inst d s else s) ds s = s"
  by (induction ds) auto

lemma visit_post_refl: "visit_inv G R inst s \<Longrightarrow> ds \<subseteq> set (done_names s) \<Longrightarrow> visit_post G R inst ds s s"
  by (auto simp: visit_post_def visit_inv_def)

lemma visit_post_insert:
  assumes d: "visit_post G R inst {d} s s1" and ds: "rok s1 \<Longrightarrow> visit_post G R inst ds s1 s2"
    and skip: "\<not> rok s1 \<Longrightarrow> s2 = s1"
  shows "visit_post G R inst (insert d ds) s s2"
proof (cases "rok s1")
  case True
  note p1 = d [unfolded visit_post_def] and p2 = ds [OF True, unfolded visit_post_def]
  show ?thesis
  proof (cases "rok s2")
    case True2: True
    obtain n1 where n1: "done_names s1 = done_names s @ n1" "\<forall>m \<in> set n1. needs G R d m"
      using p1 True by auto
    obtain n2 where n2: "done_names s2 = done_names s1 @ n2" "\<forall>m \<in> set n2. \<exists>d \<in> ds. needs G R d m"
      using p2 True2 by auto
    have "done_names s2 = done_names s @ (n1 @ n2)" using n1 n2 by simp
    moreover have "\<forall>m \<in> set (n1 @ n2). \<exists>d' \<in> insert d ds. needs G R d' m" using n1 n2 by auto
    moreover have "insert d ds \<subseteq> set (done_names s2)" using p1 p2 True True2 n2 by auto
    ultimately show ?thesis using p1 p2 True True2 unfolding visit_post_def by auto
  next
    case False
    then show ?thesis using p2 by (auto simp: visit_post_def)
  qed
next
  case False
  then show ?thesis using d skip by (auto simp: visit_post_def)
qed

lemma visit_all_posts:
  assumes step: "\<And>d s. visit_inv G R inst s \<Longrightarrow> visiting s = vs \<Longrightarrow> requires G R (last vs) d
      \<Longrightarrow> visit_post G R inst {d} s (visit n G R inst d s)"
    and inv: "visit_inv G R inst s" and vs: "visiting s = vs" and ds: "\<forall>d \<in> set ds. requires G R (last vs) d"
  shows "visit_post G R inst (set ds) s (fold (\<lambda>d s. if rok s then visit n G R inst d s else s) ds s)"
  using inv vs ds
proof (induction ds arbitrary: s)
  case Nil
  then show ?case by (auto intro: visit_post_refl)
next
  case (Cons d ds)
  let ?s1 = "visit n G R inst d s"
  have ok: "rok s" using Cons.prems by (simp add: visit_inv_def)
  have p1: "visit_post G R inst {d} s ?s1" using Cons.prems by (intro step) auto
  have p2: "visit_post G R inst (set ds) ?s1
      (fold (\<lambda>d s. if rok s then visit n G R inst d s else s) ds ?s1)" if "rok ?s1"
    using p1 that Cons.prems by (intro Cons.IH) (auto simp: visit_post_def)
  show ?case using visit_post_insert [OF p1 p2] ok by simp
qed

lemma finish_package_post:
  assumes wf: "repo_wf R" and m: "metadata G R name = Some p"
    and inv: "visit_inv G R inst s" and fresh: "name \<notin> set (done_names s)"
    and post: "visit_post G R inst (set (deps p)) s1 s2" and s1: "visiting s1 = visiting s @ [name]"
      "done_names s1 = done_names s"
  shows "visit_post G R inst {name} s (finish_package name (p\<lparr>reused := name \<in> set inst\<rparr>) s2)"
proof (cases "rok s2")
  case False
  then obtain d where "d \<in> set (deps p)" "defect G R d" using post by (auto simp: visit_post_def)
  then have "defect G R name" by (rule defect_dep [OF m])
  then show ?thesis using False post by (simp add: visit_post_def finish_package_def)
next
  case True
  have len: "length name < 64" using metadata_known [OF m] wf by (simp add: repo_wf_def)
  have i2: "visit_inv G R inst s2" and v2: "visiting s2 = visiting s @ [name]"
    and dn: "set (deps p) \<subseteq> set (done_names s2)"
    using post True s1 by (auto simp: visit_post_def)
  obtain new where new: "done_names s2 = done_names s @ new"
      "\<forall>m \<in> set new. \<exists>d \<in> set (deps p). needs G R d m"
    using post True s1 by (auto simp: visit_post_def)
  have bound: "length (done_names s2) < MAX_PACKAGES"
    using visit_inv_bound [OF wf i2] v2 by simp
  let ?s3 = "finish_package name (p\<lparr>reused := name \<in> set inst\<rparr>) s2"
  have s3: "rok ?s3" "\<not> starved ?s3" "visiting ?s3 = visiting s" "done_names ?s3 = done_names s2 @ [name]"
      "plan ?s3 = plan s2 @ [plan_entry G R inst name]"
    using bound len i2 v2 m by (auto simp: finish_package_def visit_inv_def plan_entry_def)
  have "visit_inv G R inst ?s3"
    using i2 s3 v2 m dn by (auto simp: visit_inv_def requires_def successively_append_iff)
  moreover have "\<forall>m \<in> set (new @ [name]). needs G R name m"
    using new(2) m by (fastforce simp: requires_def intro: converse_rtranclp_into_rtranclp)
  ultimately show ?thesis using s3 new(1) by (auto simp: visit_post_def)
qed

lemma visit_posts:
  assumes wf: "repo_wf R"
  shows "visit_inv G R inst s \<Longrightarrow> visiting s = [] \<or> requires G R (last (visiting s)) name
    \<Longrightarrow> MAX_PACKAGES < n + length (visiting s) \<Longrightarrow> visit_post G R inst {name} s (visit n G R inst name s)"
proof (induction n arbitrary: name s)
  case 0
  then show ?case using visit_inv_bound [OF wf 0(1)] by simp
next
  case (Suc n)
  have ok: "rok s" and ns: "\<not> starved s" using Suc.prems(1) by (auto simp: visit_inv_def)
  show ?case
  proof (cases "name \<in> set (done_names s)")
    case True
    then show ?thesis using Suc.prems(1) ok by (auto intro: visit_post_refl)
  next
    case fresh: False
    show ?thesis
    proof (cases "name \<in> set (visiting s)")
      case True
      have "needs G R name (last (visiting s))"
        using Suc.prems(1) True by (intro path_to_last) (auto simp: visit_inv_def)
      moreover have "requires G R (last (visiting s)) name" using Suc.prems(2) True by auto
      ultimately have "(requires G R)\<^sup>+\<^sup>+ name name" by (rule rtranclp_into_tranclp1)
      then have "defect G R name" by (auto simp: defect_def)
      then show ?thesis using True fresh ok ns by (simp add: visit_post_def resolve_fail_def)
    next
      case nv: False
      show ?thesis
      proof (cases "load_package G R (visiting s) name")
        case (Inl e)
        then have "metadata G R name = None" using load_package_Inl by blast
        then have "defect G R name" by (auto simp: defect_def)
        then show ?thesis using nv fresh ok ns Inl by (simp add: visit_post_def resolve_fail_def)
      next
        case (Inr p)
        then have m: "metadata G R name = Some p" by (simp add: load_package_visiting)
        let ?s1 = "push_visiting name s"
        note push = push_visiting_inv [OF wf Suc.prems(1) m nv fresh Suc.prems(2)]
        have "visit_post G R inst (set (deps p)) ?s1
            (fold (\<lambda>d s. if rok s then visit n G R inst d s else s) (deps p) ?s1)"
          by (rule visit_all_posts [where vs = "visiting s @ [name]"])
             (use push m Suc.prems(3) in \<open>auto simp: requires_def intro!: Suc.IH\<close>)
        from finish_package_post [OF wf m Suc.prems(1) fresh this push(2,3)]
        show ?thesis using fresh nv ok Inr by simp
      qed
    qed
  qed
qed

section \<open>The resolver implements the specification\<close>

lemma resolve_post:
  assumes "repo_wf R"
  shows "visit_post G R inst {root} resolver_reset (resolve G R inst root)"
  unfolding resolve_def
  by (rule visit_posts [OF assms]) (auto simp: visit_inv_def resolver_reset_def)

lemma resolve_rok: 
  assumes "repo_wf R"
  shows "rok (resolve G R inst root) \<longleftrightarrow> resolvable G R root"
proof
  assume ok: "rok (resolve G R inst root)"
  let ?d = "done_names (resolve G R inst root)"
  have inv: "visit_inv G R inst (resolve G R inst root)" and root: "root \<in> set ?d"
    using resolve_post [OF assms, of G inst root] ok by (auto simp: visit_post_def)
  have "metadata G R m \<noteq> None \<and> \<not> (requires G R)\<^sup>+\<^sup>+ m m" if "needs G R root m" for m
  proof -
    have "m \<in> set ?d" using inv topological_closed [OF _ that root] by (simp add: visit_inv_def)
    then show ?thesis using inv topological_acyclic [of "requires G R" ?d m] by (auto simp: visit_inv_def)
  qed
  then show "resolvable G R root" by (simp add: resolvable_def)
next
  assume "resolvable G R root"
  then show "rok (resolve G R inst root)"
    using resolve_post [OF assms, of G inst root] by (auto simp: visit_post_def resolvable_defect split: if_splits)
qed

lemma resolve_starved: "repo_wf R \<Longrightarrow> \<not> starved (resolve G R inst root)"
  using resolve_post [of R G inst root] by (simp add: visit_post_def)

text \<open>A successful plan: exactly what the root needs, every dependency before its dependents.\<close>

lemma resolve_plan:
  assumes wf: "repo_wf R" and ok: "rok (resolve G R inst root)"
  obtains ns where "plan (resolve G R inst root) = map (plan_entry G R inst) ns" and "distinct ns"
    and "set ns = {n. needs G R root n}" and "topological (requires G R) ns" and "length ns \<le> MAX_PACKAGES"
    and "last ns = root" and "ns \<noteq> []"
proof -
  let ?r = "resolve G R inst root"
  have post: "visit_post G R inst {root} resolver_reset ?r" using wf by (rule resolve_post)
  have inv: "visit_inv G R inst ?r" and root: "root \<in> set (done_names ?r)"
    using post ok by (auto simp: visit_post_def)
  have sub: "set (done_names ?r) \<subseteq> {n. needs G R root n}"
    using post ok by (auto simp: visit_post_def resolver_reset_def)
  have top: "topological (requires G R) (done_names ?r)" using inv by (simp add: visit_inv_def)
  have sup: "{n. needs G R root n} \<subseteq> set (done_names ?r)"
    using topological_closed [OF top _ root] by blast
  have dist: "distinct (done_names ?r)" using inv by (simp add: visit_inv_def)
  have ne: "done_names ?r \<noteq> []" using root by auto
  have "last (done_names ?r) = root"
  proof (rule ccontr)
    let ?l = "last (done_names ?r)"
    assume ne_root: "?l \<noteq> root"
    have split: "done_names ?r = butlast (done_names ?r) @ [?l]" using ne by simp
    have rb: "root \<in> set (butlast (done_names ?r))"
      using root ne_root split by (metis UnE empty_iff empty_set set_ConsD set_append)
    have "topological (requires G R) (butlast (done_names ?r))"
      using top split by (metis topological_snoc)
    then have "?l \<in> set (butlast (done_names ?r))"
      using sub ne rb topological_closed by (metis in_mono last_in_set mem_Collect_eq)
    then show False using dist split by (metis distinct_append disjoint_iff list.set_intros(1))
  qed
  moreover have "length (done_names ?r) \<le> MAX_PACKAGES" using visit_inv_bound [OF wf inv] by simp
  moreover have "plan ?r = map (plan_entry G R inst) (done_names ?r)" using inv by (simp add: visit_inv_def)
  ultimately show thesis using that sub sup dist top ne by blast
qed

section \<open>Error messages fit their buffer\<close>

lemma cycle_message_length: "length (cycle_message vs again) < 256"
proof -
  have step: "length (cycle_step b v) < 256" if b: "length b < 256" for b v
  proof -
    have "length (buf_append 4 256 b v) \<le> max (length b) 252" by (simp add: buf_append_def)
    with b show ?thesis by (auto simp: cycle_step_def Let_def max_def split: if_splits)
  qed
  have "length b < 256 \<Longrightarrow> length (foldl cycle_step b vs) < 256" for b
    by (induction vs arbitrary: b) (auto intro: step)
  from this [of "''dependency cycle: ''"]
  have "length (foldl cycle_step ''dependency cycle: '' vs) \<le> 256 - 1" by simp
  then have "length (cycle_message vs again) \<le> 256 - 1"
    unfolding cycle_message_def by (rule length_buf_append)
  then show ?thesis by simp
qed

lemma gstr_256: "length (gstr 256 t) < 256"
  using length_gstr [of 256 t] by simp

lemma load_package_error: "load_package G R vs name = Inl e \<Longrightarrow> length e < 256"
  using gstr_256
  by (auto simp: load_package_def not_in_repo_def parse_package_def Let_def split: if_splits rom.splits option.splits)

lemma visit_error: "length (rerror s) < 256 \<Longrightarrow> length (rerror (visit n G R inst name s)) < 256"
proof (induction n arbitrary: name s)
  case (Suc n)
  have deps: "length (rerror s) < 256 \<Longrightarrow>
      length (rerror (fold (\<lambda>d s. if rok s then visit n G R inst d s else s) ds s)) < 256" for ds s
    by (induction ds arbitrary: s) (auto intro: Suc.IH)
  have push: "rerror (push_visiting name s) = rerror s" by (simp add: push_visiting_def)
  show ?case
    using Suc.prems deps [of "push_visiting name s"] load_package_error cycle_message_length push
    by (auto simp: resolve_fail_def finish_package_def split: sum.split)
qed simp

lemma resolve_error_length: "length (rerror (resolve G R inst root)) < 256"
  unfolding resolve_def by (rule visit_error) (simp add: resolver_reset_def)

end
