(* ===== verification/Pkgd.thy ===== *)
theory Pkgd
  imports Pkgd_Resolve Machine
begin

text \<open>
  \<open>sponge_pkgd/main.cc\<close>, the daemon: the roots and the installed set derived from them, the running
  set, the configurations of the two sandboxes, the requests of its four channels and the answers,
  admission control, the exclusive groups, the store file and the boot sequence. The trace holds the
  file-system operations, reports and answers in the order they happen. A handler that waits for the
  file system forever sets \<open>pk_blocked\<close>; nothing happens after that. Log lines, and the delay knob
  of the test harness, which only waits, are left out.
\<close>

section \<open>State\<close>

datatype pk_channel = Primary | Launcher | Tty | Probe

datatype pk_out =
    Pk_disk vfs_op
  | Runtime xml
  | Driver_runtime xml
  | Installed_report xml
  | Answer pk_channel xml

text \<open>
  What the environment answers during one request: the file system, the text of the configuration
  (\<open>None\<close> while it is not valid), and the successive readings of the state reports of the driver
  sandbox (\<open>True\<close>) and the application sandbox (\<open>False\<close>).
\<close>

record pk_io =
  rq_save :: save_io
  rq_config :: "string option"
  rq_budget :: "bool \<Rightarrow> nat \<Rightarrow> string option"

text \<open>The recipe of the last answer, for a duplicate of the request.\<close>

record recipe =
  l_op :: string
  l_pkg :: string
  l_status :: string
  l_message :: string
  l_items :: "string list"
  l_need_ram :: u64
  l_avail_ram :: u64
  l_need_caps :: u32
  l_avail_caps :: u32
  l_peer :: string
  l_group :: string

text \<open>
  \<open>rsv\<close> is the resolution state; its plan occupies the first entries of the array \<open>slots\<close>, whose
  other entries keep what earlier resolutions left there.
\<close>

record pkgd =
  repo :: repo
  rsv :: resolver
  slots :: "package list"
  installed :: "package list"
  roots :: "string list"
  running :: "string list"
  config_writes :: u32
  pad_bytes :: u32
  pk_last_sig :: string
  last_answer :: recipe
  channel :: pk_channel
  opened :: "pk_channel set"
  pk_store :: bool
  staged_binaries :: "string list"
  binary_manifest_loaded :: bool
  app_armed :: bool
  driver_armed :: bool
  pk_blocked :: bool
  pk_out :: "pk_out list"

definition recipe_init :: recipe where
  "recipe_init = \<lparr>l_op = [], l_pkg = [], l_status = [], l_message = [], l_items = [], l_need_ram = 0,
     l_avail_ram = 0, l_need_caps = 0, l_avail_caps = 0, l_peer = [], l_group = []\<rparr>"

definition pkgd_init :: "(string \<Rightarrow> rom) \<Rightarrow> pkgd" where
  "pkgd_init meta = \<lparr>repo = \<lparr>known = [], index_loaded = False, binary_prefix = [], meta_rom = meta\<rparr>,
     rsv = resolver_reset\<lparr>rok := False\<rparr>, slots = replicate MAX_PACKAGES new_package, installed = [],
     roots = [], running = [], config_writes = 0, pad_bytes = 0, pk_last_sig = [], last_answer = recipe_init,
     channel = Primary, opened = {Primary}, pk_store = False, staged_binaries = [],
     binary_manifest_loaded = False, app_armed = False, driver_armed = False, pk_blocked = False,
     pk_out = []\<rparr>"

definition pk_emit :: "pk_out list \<Rightarrow> pkgd \<Rightarrow> pkgd" where
  "pk_emit os s = s\<lparr>pk_out := pk_out s @ os\<rparr>"

definition unless_stuck :: "(pkgd \<Rightarrow> pkgd) \<Rightarrow> pkgd \<Rightarrow> pkgd" where
  "unless_stuck f s = (if pk_blocked s then s else f s)"

abbreviation names :: "pkgd \<Rightarrow> string list" where
  "names s \<equiv> map pname (installed s)"

section \<open>The installed and the running set\<close>

definition resolve_in :: "genode \<Rightarrow> string \<Rightarrow> pkgd \<Rightarrow> pkgd" where
  "resolve_in G root s =
     (let r = resolve G (repo s) (names s) root
      in s\<lparr>rsv := r, slots := plan r @ drop (length (plan r)) (slots s)\<rparr>)"

definition root_index :: "pkgd \<Rightarrow> nat" where
  "root_index s = length (plan (rsv s)) - 1"

definition add_root :: "string \<Rightarrow> pkgd \<Rightarrow> pkgd" where
  "add_root name s =
     (if name \<in> set (roots s) then s
      else if length (roots s) < MAX_PACKAGES then s\<lparr>roots := roots s @ [gstr 64 name]\<rparr> else s)"

definition merge_package :: "package \<Rightarrow> package list \<Rightarrow> package list" where
  "merge_package p fresh =
     (if pname p \<notin> pname ` set fresh \<and> length fresh < MAX_PACKAGES then fresh @ [p] else fresh)"

definition sync_root :: "genode \<Rightarrow> string \<Rightarrow> package list \<times> pkgd \<Rightarrow> package list \<times> pkgd" where
  "sync_root G r = (\<lambda>(fresh, s).
     let s = resolve_in G r s
     in (if rok (rsv s) then fold merge_package (plan (rsv s)) fresh else fresh, s))"

definition sync_installed :: "genode \<Rightarrow> pkgd \<Rightarrow> pkgd" where
  "sync_installed G s = (let (fresh, s) = fold (sync_root G) (roots s) ([], s) in s\<lparr>installed := fresh\<rparr>)"

definition add_name :: "string \<Rightarrow> string list \<Rightarrow> string list" where
  "add_name n ns = (if n \<in> set ns then ns else if length ns < MAX_PACKAGES then ns @ [gstr 64 n] else ns)"

definition sync_running :: "pkgd \<Rightarrow> pkgd" where
  "sync_running s =
     s\<lparr>running := fold add_name (map pname (filter has_autostart (installed s)))
                   (filter (\<lambda>n. n \<in> set (names s)) (running s))\<rparr>"

definition drop_root :: "string \<Rightarrow> string list \<Rightarrow> string list" where
  "drop_root name rs =
     (case find (\<lambda>i. rs ! i = name) [0..<length rs] of
        None \<Rightarrow> rs
      | Some i \<Rightarrow> take (length rs - 1) (rs[i := rs ! (length rs - 1)]))"

definition exclusive_peer :: "pkgd \<Rightarrow> package \<Rightarrow> string \<Rightarrow> string" where
  "exclusive_peer s p self =
     (if \<not> exclusive p then []
      else case find (\<lambda>q. exclusive q \<and> pname q \<in> set (running s)
                          \<and> exclusive_group q = exclusive_group p \<and> pname q \<noteq> self) (installed s) of
             None \<Rightarrow> []
           | Some q \<Rightarrow> pname q)"

section \<open>The configurations of the sandboxes\<close>

definition app_base :: "string list" where
  "app_base = [''ROM'', ''PD'', ''RM'', ''CPU'', ''LOG'', ''Timer'', ''Gui'', ''Input'', ''Report'',
     ''File_system'', ''Nic'', ''Rtc'']"

definition driver_base :: "string list" where
  "driver_base = [''ROM'', ''PD'', ''RM'', ''CPU'', ''LOG'']"

definition add_service :: "string \<Rightarrow> string list \<Rightarrow> string list" where
  "add_service n emitted = (if n = [] \<or> 64 \<le> length emitted \<or> n \<in> set emitted then emitted else emitted @ [n])"

definition provided_services :: "package list \<Rightarrow> bool \<Rightarrow> string list" where
  "provided_services ps drivers =
     fold add_service
       (concat (map (\<lambda>p. map ses_name (sessions p)) (filter (\<lambda>p. is_driver p = drivers) ps)))
       (if drivers then driver_base else app_base)"

definition session_node :: "string \<Rightarrow> session \<Rightarrow> xml" where
  "session_node pkg s =
     (let label = session_label pkg s
      in node ''service'' ([(''name'', ses_name s)] @ (if label \<noteq> [] then [(''label'', label)] else []))
           [if is_parent_route (ses_route s) then leaf ''parent'' []
            else leaf ''child'' [(''name'', ses_route s)]])"

definition route_node :: "package \<Rightarrow> xml" where
  "route_node p = node ''route'' []
     ([node ''service'' [(''name'', ''ROM''), (''label_last'', ''ld.lib.so'')] [leaf ''parent'' []]]
      @ map (session_node (pname p)) (sessions p)
      @ [node ''any-service'' [] [leaf ''parent'' []]])"

definition bin_path :: "string \<Rightarrow> package \<Rightarrow> string" where
  "bin_path pre p = gstr 96 (pre @ pbinary p)"

definition start_node :: "genode \<Rightarrow> string \<Rightarrow> package \<Rightarrow> xml" where
  "start_node G pre p = node ''start'' [(''name'', pname p), (''caps'', print_nat G (unat (pcaps p)))]
     ((if bin_path pre p \<noteq> pname p then [leaf ''binary'' [(''name'', bin_path pre p)]] else [])
      @ [leaf ''resource'' [(''name'', ''RAM''), (''quantum'', pram p)]]
      @ (if config_xml p \<noteq> [] then [Raw (config_xml p)] else [])
      @ [route_node p])"

definition padding_node :: "u32 \<Rightarrow> xml" where
  "padding_node n = node ''repro_padding'' []
     (replicate (unat (n div 64)) (leaf ''p'' [(''v'', replicate 64 CHR ''.'')]))"

definition sorted_installed :: "pkgd \<Rightarrow> package list" where
  "sorted_installed s = map ((!) (installed s)) (sel_order (names s))"

definition started :: "pkgd \<Rightarrow> bool \<Rightarrow> package list" where
  "started s drivers = filter (\<lambda>p. is_driver p = drivers \<and> pname p \<in> set (running s)) (sorted_installed s)"

definition runtime_xml :: "genode \<Rightarrow> pkgd \<Rightarrow> bool \<Rightarrow> xml" where
  "runtime_xml G s drivers = node ''config'' []
     ([leaf ''report'' [(''delay_ms'', ''2000''), (''init_ram'', ''yes''), (''init_caps'', ''yes''),
                        (''child_ram'', ''yes'')]]
      @ (if \<not> drivers \<and> pad_bytes s \<noteq> 0 then [padding_node (pad_bytes s)] else [])
      @ [node ''parent-provides'' []
           (map (\<lambda>n. leaf ''service'' [(''name'', n)]) (provided_services (installed s) drivers)),
         node ''default-route'' [] [node ''any-service'' [] [leaf ''parent'' [], leaf ''any-child'' []]],
         leaf ''default'' [(''caps'', ''1000'')]]
      @ map (start_node G (binary_prefix (repo s))) (started s drivers))"

definition emit_runtime_config :: "genode \<Rightarrow> bool \<Rightarrow> pkgd \<Rightarrow> pkgd" where
  "emit_runtime_config G drivers s =
     pk_emit [if drivers then Driver_runtime (runtime_xml G s True) else Runtime (runtime_xml G s False)] s"

text \<open>The knobs of the test harness: probes for a word in the text of the configuration.\<close>

definition knob_positions :: "string \<Rightarrow> string \<Rightarrow> nat list" where
  "knob_positions word t = filter (\<lambda>i. prefix word (drop i t)) [0..<length t - 16]"

definition knob_sep :: "char \<Rightarrow> bool" where
  "knob_sep c \<longleftrightarrow> c = SP \<or> c = CHR '':'' \<or> c = DQ \<or> c = CHR ''=''"

definition knob_number :: "string \<Rightarrow> string \<Rightarrow> u64" where
  "knob_number word t =
     foldl (\<lambda>v i. foldl (\<lambda>v c. v * 10 + of_nat (digit_val c)) v
               (takeWhile is_digit (dropWhile knob_sep (drop (i + length word) t))))
       0 (knob_positions word t)"

abbreviation REPRO_PAD_BYTES :: u32 where "REPRO_PAD_BYTES \<equiv> 32000"
abbreviation REPRO_PAD_GROW_BYTES :: u32 where "REPRO_PAD_GROW_BYTES \<equiv> 32768"

definition generate_runtime_config :: "genode \<Rightarrow> string option \<Rightarrow> pkgd \<Rightarrow> pkgd" where
  "generate_runtime_config G cfg s =
     (let s = s\<lparr>config_writes := config_writes s + 1\<rparr>;
          t = (case cfg of None \<Rightarrow> [] | Some t \<Rightarrow> t);
          empty_from = knob_number ''repro_empty_from'' t
      in if empty_from \<noteq> 0 \<and> empty_from \<le> ucast (config_writes s)
         then emit_runtime_config G True (pk_emit [Runtime (leaf ''config'' [])] s)
         else
           let s = (if knob_positions ''repro_pad'' t \<noteq> [] then s\<lparr>pad_bytes := REPRO_PAD_BYTES\<rparr> else s);
               s = (if knob_positions ''repro_pad_grow'' t \<noteq> []
                    then s\<lparr>pad_bytes := config_writes s * REPRO_PAD_GROW_BYTES\<rparr> else s)
           in emit_runtime_config G True (emit_runtime_config G False s))"

section \<open>The installed broadcast\<close>

definition package_node :: "pkgd \<Rightarrow> package \<Rightarrow> xml" where
  "package_node s p = leaf ''package''
     ([(''name'', pname p), (''version'', pversion p), (''binary'', pbinary p),
       (''running'', if pname p \<in> set (running s) then ''yes'' else ''no''), (''kind'', pkind p),
       (''exclusive'', exclusive_group p)]
      @ (if has_launcher p then [(''category'', launcher_category p)] else [])
      @ [(''description'', pdescription p)])"

definition packages_node :: "pkgd \<Rightarrow> xml" where
  "packages_node s = node ''packages'' [] (map (package_node s) (sorted_installed s))"

definition generate_installed_report :: "genode \<Rightarrow> pkgd \<Rightarrow> pkgd" where
  "generate_installed_report G s =
     pk_emit [Installed_report (node ''installed''
       [(''count'', print_nat G (length (installed s))),
        (''config_writes'', print_nat G (unat (config_writes s)))] [packages_node s])] s"

section \<open>Answers\<close>

definition answer :: "(string \<times> string) list \<Rightarrow> xml list \<Rightarrow> pkgd \<Rightarrow> pkgd" where
  "answer as ks s = pk_emit [Answer (channel s) (node ''result'' as ks)] s"

text \<open>The common part of the recipe each answer records; \<open>keep\<close> leaves the items as they are.\<close>

definition record_answer :: "string \<Rightarrow> string \<Rightarrow> string \<Rightarrow> string \<Rightarrow> pkgd \<Rightarrow> pkgd" where
  "record_answer op pkg status msg s =
     s\<lparr>last_answer := (last_answer s)\<lparr>l_op := gstr 32 op, l_pkg := pkg, l_status := gstr 32 status,
         l_message := gstr 256 msg\<rparr>\<rparr>"

definition pkg_cache_items :: "string list \<Rightarrow> pkgd \<Rightarrow> pkgd" where
  "pkg_cache_items items s = s\<lparr>last_answer := (last_answer s)\<lparr>l_items := take MAX_PACKAGES items\<rparr>\<rparr>"

definition component_node :: "genode \<Rightarrow> package \<Rightarrow> xml" where
  "component_node G c = leaf ''component''
     [(''name'', pname c), (''binary'', pbinary c), (''ram'', pram c), (''caps'', print_nat G (unat (pcaps c))),
      (''requires'', requires_sessions c), (''new'', if reused c then ''no'' else ''yes'')]"

definition plan_route_node :: "package \<Rightarrow> session \<Rightarrow> xml" where
  "plan_route_node c x = leaf ''route''
     ([(''component'', pname c), (''session'', ses_name x), (''target'', ses_route x)]
      @ (if ses_readonly x then [(''readonly'', ''true'')] else [])
      @ (if ses_subpath x \<noteq> [] then [(''subpath'', ses_subpath x)] else []))"

definition launcher_nodes :: "package \<Rightarrow> xml list" where
  "launcher_nodes root =
     (if has_launcher root then [leaf ''launcher'' [(''category'', launcher_category root)]] else [])"

definition report_ok :: "genode \<Rightarrow> string \<Rightarrow> pkgd \<Rightarrow> pkgd" where
  "report_ok G pkg s =
     (let root = slots s ! root_index s in
      answer [(''status'', ''ok''), (''op'', ''explain''), (''pkg'', pkg), (''version'', pversion root)]
        ([Elem ''description'' [] [] (pdescription root),
          node ''dependencies'' [] (map (\<lambda>d. leaf ''dep'' [(''name'', d)]) (deps root)),
          node ''components'' [] (map (component_node G) (plan (rsv s))),
          node ''routes'' [] (concat (map (\<lambda>c. map (plan_route_node c) (sessions c)) (plan (rsv s))))]
         @ launcher_nodes root)
        (record_answer ''explain'' pkg ''ok'' [] s))"

definition pkg_report_error :: "string \<Rightarrow> string \<Rightarrow> string \<Rightarrow> pkgd \<Rightarrow> pkgd" where
  "pkg_report_error op pkg msg s =
     answer [(''status'', ''error''), (''op'', op), (''pkg'', pkg), (''error'', msg)] []
       (pkg_cache_items [] (record_answer op pkg ''error'' msg s))"

definition name_nodes :: "string list \<Rightarrow> xml list" where
  "name_nodes ns = map (\<lambda>n. leaf ''component'' [(''name'', n)]) ns"

definition report_install_ok :: "string \<Rightarrow> package \<Rightarrow> string list \<Rightarrow> pkgd \<Rightarrow> pkgd" where
  "report_install_ok pkg root added s =
     answer [(''status'', ''ok''), (''op'', ''install''), (''pkg'', pkg), (''version'', pversion root)]
       ([node ''components_added'' [] (name_nodes added)] @ launcher_nodes root)
       (pkg_cache_items added (record_answer ''install'' pkg ''ok'' [] s))"

definition report_remove_ok :: "string \<Rightarrow> string list \<Rightarrow> pkgd \<Rightarrow> pkgd" where
  "report_remove_ok pkg removed s =
     answer [(''status'', ''ok''), (''op'', ''remove''), (''pkg'', pkg)]
       [node ''components_removed'' [] (name_nodes removed)]
       (pkg_cache_items removed (record_answer ''remove'' pkg ''ok'' [] s))"

definition report_launch_ok :: "string \<Rightarrow> string \<Rightarrow> pkgd \<Rightarrow> pkgd" where
  "report_launch_ok pkg outcome s =
     answer [(''status'', outcome), (''op'', ''launch''), (''pkg'', pkg)] []
       (pkg_cache_items [] (record_answer ''launch'' pkg outcome [] s))"

definition pkg_report_list_ok :: "genode \<Rightarrow> pkgd \<Rightarrow> pkgd" where
  "pkg_report_list_ok G s =
     answer [(''status'', ''ok''), (''op'', ''list''), (''count'', print_nat G (length (installed s)))]
       [packages_node s]
       (pkg_cache_items [] (record_answer ''list'' (l_pkg (last_answer s)) ''ok'' [] s))"

definition report_insufficient ::
  "genode \<Rightarrow> string \<Rightarrow> string \<Rightarrow> u64 \<Rightarrow> u64 \<Rightarrow> u32 \<Rightarrow> u32 \<Rightarrow> pkgd \<Rightarrow> pkgd" where
  "report_insufficient G op pkg need_ram avail_ram need_caps avail_caps s =
     (let s = pkg_cache_items [] (record_answer op pkg ''insufficient-resources'' [] s);
          s = s\<lparr>last_answer := (last_answer s)\<lparr>l_need_ram := need_ram, l_avail_ram := avail_ram,
                l_need_caps := need_caps, l_avail_caps := avail_caps\<rparr>\<rparr>
      in answer [(''status'', ''insufficient-resources''), (''op'', op), (''pkg'', pkg),
                 (''need_ram'', print_nat G (unat need_ram)), (''avail_ram'', print_nat G (unat avail_ram)),
                 (''need_caps'', print_nat G (unat need_caps)), (''avail_caps'', print_nat G (unat avail_caps))]
           [] s)"

definition conflict_message :: "string \<Rightarrow> string \<Rightarrow> string \<Rightarrow> string" where
  "conflict_message pkg peer grp =
     gstr 256 (''the '' @ [SQ] @ grp @ [SQ] @ '' resource is in use by '' @ peer
       @ ''; remove it before starting '' @ pkg)"

definition report_conflict :: "string \<Rightarrow> string \<Rightarrow> string \<Rightarrow> string \<Rightarrow> pkgd \<Rightarrow> pkgd" where
  "report_conflict op pkg peer grp s =
     (let msg = conflict_message pkg peer grp;
          s = record_answer op pkg ''exclusive-conflict'' msg s;
          s = s\<lparr>last_answer := (last_answer s)\<lparr>l_peer := peer, l_group := grp\<rparr>\<rparr>
      in answer [(''status'', ''exclusive-conflict''), (''op'', op), (''pkg'', pkg), (''group'', grp),
                 (''peer'', peer), (''remedy'', ''remove the running package, then retry''),
                 (''error'', msg)] [] s)"

text \<open>
  The replay of an install first looks for a package of the current plan that would start now and
  whose exclusive group is held.
\<close>

definition would_conflict :: "pkgd \<Rightarrow> package \<Rightarrow> bool" where
  "would_conflict s c \<longleftrightarrow>
     has_autostart c \<and> pname c \<notin> set (running s) \<and> exclusive_peer s c (pname c) \<noteq> []"

definition replay_install :: "pkgd \<Rightarrow> pkgd" where
  "replay_install s =
     (case find (would_conflict s) (plan (rsv s)) of
        Some c \<Rightarrow> report_conflict ''install'' (pname c) (exclusive_peer s c (pname c)) (exclusive_group c) s
      | None \<Rightarrow> report_install_ok (l_pkg (last_answer s)) (slots s ! root_index s) (l_items (last_answer s)) s)"

definition replay_last_result :: "genode \<Rightarrow> pkgd \<Rightarrow> pkgd" where
  "replay_last_result G s =
     (let l = last_answer s in
      if l_status l = ''insufficient-resources'' then
        report_insufficient G (l_op l) (l_pkg l) (l_need_ram l) (l_avail_ram l) (l_need_caps l) (l_avail_caps l) s
      else if l_status l = ''exclusive-conflict'' then
        report_conflict (l_op l) (l_pkg l) (l_peer l) (l_group l) s
      else if l_status l = ''error'' then pkg_report_error (l_op l) (l_pkg l) (l_message l) s
      else if l_op l = ''list'' then pkg_report_list_ok G s
      else if l_op l = ''explain'' then report_ok G (l_pkg l) s
      else if l_op l = ''install'' then replay_install s
      else if l_op l = ''remove'' then report_remove_ok (l_pkg l) (l_items l) s
      else if l_op l = ''launch'' then report_launch_ok (l_pkg l) (l_status l) s
      else pkg_report_error (l_op l) (l_pkg l) (gstr 128 ''no result to replay for the previous request'') s)"

section \<open>The store file\<close>

abbreviation PK_STORE_PATH :: string where "PK_STORE_PATH \<equiv> ''/store/installed.xml''"
abbreviation PK_STORE_BUF :: nat where "PK_STORE_BUF \<equiv> 4096"
abbreviation PK_STORE_VERSION :: u32 where "PK_STORE_VERSION \<equiv> 1"

definition root_pieces :: "string list \<Rightarrow> string list" where
  "root_pieces rs =
     [''<sponge-installed version='' @ [DQ] @ ''1'' @ [DQ] @ ''>'']
     @ concat (map (\<lambda>i. [''<root name='' @ [DQ], rs ! i, [DQ] @ ''/>'']) (sel_order rs))
     @ [''</sponge-installed>'']"

definition roots_text :: "string list \<Rightarrow> string" where
  "roots_text rs = buf_appends 1 PK_STORE_BUF [] (root_pieces rs)"

definition roots_ops :: "string \<Rightarrow> save_io \<Rightarrow> vfs_op list \<times> bool" where
  "roots_ops buf io =
     (if sv_open io \<noteq> Open_ok then ([], False)
      else let (e, ws) = write_loop PK_STORE_PATH buf 0 (sv_writes io);
               ops = [Vfs_create PK_STORE_PATH] @ trunc_ops io PK_STORE_PATH (length buf) @ ws
           in if e = Blocked \<or> sync_loop (sv_syncs io) = Blocked then (ops, True)
              else (ops @ sync_ops io PK_STORE_PATH, False))"

definition save_roots :: "save_io \<Rightarrow> pkgd \<Rightarrow> pkgd" where
  "save_roots io s =
     (if \<not> pk_store s then s
      else let (ops, waiting) = roots_ops (roots_text (roots s)) io
           in (pk_emit (map Pk_disk ops) s)\<lparr>pk_blocked := waiting\<rparr>)"

definition restore_roots :: "genode \<Rightarrow> string \<Rightarrow> pkgd \<Rightarrow> pkgd" where
  "restore_roots G buf s =
     (case parse_xml G buf of
        None \<Rightarrow> s\<lparr>roots := []\<rparr>
      | Some root \<Rightarrow>
          (if \<not> has_type root ''sponge-installed'' then s
           else if attr_u32 G root ''version'' 0 \<noteq> PK_STORE_VERSION then s
           else s\<lparr>roots := take MAX_PACKAGES (roots s
                  @ filter (\<lambda>n. n \<noteq> []) (map (\<lambda>n. attr_str 64 n ''name'') (kids_of_type root ''root'')))\<rparr>))"

definition load_roots :: "genode \<Rightarrow> load_io \<Rightarrow> pkgd \<Rightarrow> pkgd" where
  "load_roots G io s =
     (if \<not> pk_store s then s
      else case ld_stat io of
        None \<Rightarrow> s
      | Some sz \<Rightarrow>
          (if sz = 0 \<or> PK_STORE_BUF < sz then s
           else if ld_open io \<noteq> Open_ok then s
           else (case read_loop sz [] (ld_reads io) of
                   (Blocked, buf) \<Rightarrow> s\<lparr>pk_blocked := True\<rparr>
                 | (Failed, buf) \<Rightarrow> s
                 | (Done, buf) \<Rightarrow> restore_roots G buf s)))"

section \<open>Admission control\<close>

definition armed :: "bool \<Rightarrow> pkgd \<Rightarrow> bool" where
  "armed driver s = (if driver then driver_armed s else app_armed s)"

text \<open>
  \<open>_admits\<close>: the decision, and the budget it was taken against. \<open>state\<close> is what the state report
  holds when it is read.
\<close>

definition admits ::
  "genode \<Rightarrow> pkgd \<Rightarrow> package \<Rightarrow> u64 \<Rightarrow> string option \<Rightarrow> u64 \<times> u32 \<Rightarrow> bool \<times> u64 \<times> u32" where
  "admits G s p need_ram state avail =
     (if \<not> armed (is_driver p) s then (True, avail)
      else case read_budget G state of
             None \<Rightarrow> (True, avail)
           | Some (ram, caps) \<Rightarrow> (fits need_ram (pcaps p) ram caps, ram, caps))"

text \<open>A refusal names the package and the figures: needed and available RAM, needed and available caps.\<close>

type_synonym refusal = "string \<times> u64 \<times> u64 \<times> u32 \<times> u32"

definition sandbox_budget ::
  "genode \<Rightarrow> pk_io \<Rightarrow> pkgd \<Rightarrow> bool \<Rightarrow> (bool \<Rightarrow> (u64 \<times> u32) option) \<Rightarrow> nat \<Rightarrow> ((u64 \<times> u32) \<times> nat) option" where
  "sandbox_budget G io s d free k =
     (case free d of
        Some f \<Rightarrow> Some (f, k)
      | None \<Rightarrow>
          (if armed d s then map_option (\<lambda>f. (f, Suc k)) (read_budget G (rq_budget io d k)) else None))"

fun admission ::
  "genode \<Rightarrow> pk_io \<Rightarrow> pkgd \<Rightarrow> string \<Rightarrow> (bool \<Rightarrow> (u64 \<times> u32) option) \<Rightarrow> nat \<Rightarrow> package list \<Rightarrow> refusal option" where
  "admission G io s pkg free k [] = None"
| "admission G io s pkg free k (c # cs) =
     (if \<not> has_autostart c \<or> pname c \<in> set (running s) then admission G io s pkg free k cs
      else case quota_bytes (pram c) of
        None \<Rightarrow> Some (pkg, 0, 0, 0, 0)
      | Some need \<Rightarrow>
          (case sandbox_budget G io s (is_driver c) free k of
             None \<Rightarrow> None
           | Some (f, k) \<Rightarrow>
               (case admits G s c need (rq_budget io (is_driver c) k) f of
                  (False, ram, caps) \<Rightarrow> Some (pname c, need, ram, pcaps c, caps)
                | (True, avail) \<Rightarrow>
                    admission G io s pkg
                      (free(is_driver c := Some (fst f - need,
                         snd f - (if snd f < pcaps c then 0 else pcaps c)))) (Suc k) cs)))"

definition install_refusal :: "genode \<Rightarrow> pk_io \<Rightarrow> string \<Rightarrow> pkgd \<Rightarrow> refusal option" where
  "install_refusal G io pkg s =
     (if app_armed s \<or> driver_armed s then admission G io s pkg (\<lambda>d. None) 0 (plan (rsv s)) else None)"

definition binary_available :: "pkgd \<Rightarrow> package \<Rightarrow> bool" where
  "binary_available s p \<longleftrightarrow>
     \<not> binary_manifest_loaded s \<or> bin_path (binary_prefix (repo s)) p \<in> set (staged_binaries s)"

section \<open>Requests\<close>

definition do_explain :: "genode \<Rightarrow> string \<Rightarrow> pkgd \<Rightarrow> pkgd" where
  "do_explain G pkg s =
     (let s = resolve_in G pkg s
      in if \<not> rok (rsv s) then pkg_report_error ''explain'' pkg (rerror (rsv s)) s else report_ok G pkg s)"

definition pkg_do_list :: "genode \<Rightarrow> pkgd \<Rightarrow> pkgd" where
  "pkg_do_list G s = pkg_report_list_ok G s"

text \<open>What install and remove share: derive the sets again, save, and publish.\<close>

definition rederive :: "genode \<Rightarrow> pkgd \<Rightarrow> pkgd" where
  "rederive G s = sync_running (sync_installed G s)"

definition publish_sets :: "genode \<Rightarrow> pk_io \<Rightarrow> pkgd \<Rightarrow> pkgd" where
  "publish_sets G io s = generate_installed_report G (generate_runtime_config G (rq_config io) s)"

definition do_install :: "genode \<Rightarrow> pk_io \<Rightarrow> string \<Rightarrow> pkgd \<Rightarrow> pkgd" where
  "do_install G io pkg s =
     (let s = resolve_in G pkg s; k = root_index s in
      if \<not> rok (rsv s) then pkg_report_error ''install'' pkg (rerror (rsv s)) s
      else case install_refusal G io pkg s of
        Some (p, need_ram, avail_ram, need_caps, avail_caps) \<Rightarrow>
          report_insufficient G ''install'' p need_ram avail_ram need_caps avail_caps s
      | None \<Rightarrow>
          (let before = names s in
           unless_stuck
             (\<lambda>s. let s = publish_sets G io s
                  in report_install_ok pkg (slots s ! k) (filter (\<lambda>n. n \<notin> set before) (names s)) s)
             (save_roots (rq_save io) (rederive G (add_root pkg s)))))"

definition do_remove :: "genode \<Rightarrow> pk_io \<Rightarrow> string \<Rightarrow> pkgd \<Rightarrow> pkgd" where
  "do_remove G io pkg s =
     (if pkg \<notin> set (names s)
      then pkg_report_error ''remove'' pkg (gstr 128 (''package not installed: '' @ pkg)) s
      else
        (let before = names s in
         unless_stuck
           (\<lambda>s. let s = publish_sets G io s
                in report_remove_ok pkg (filter (\<lambda>n. n \<notin> set (names s)) before) s)
           (save_roots (rq_save io) (rederive G (s\<lparr>roots := drop_root pkg (roots s)\<rparr>)))))"

definition start_package :: "genode \<Rightarrow> pk_io \<Rightarrow> string \<Rightarrow> pkgd \<Rightarrow> pkgd" where
  "start_package G io pkg s =
     report_launch_ok pkg ''ok'' (publish_sets G io (s\<lparr>running := add_name pkg (running s)\<rparr>))"

definition do_launch :: "genode \<Rightarrow> pk_io \<Rightarrow> string \<Rightarrow> pkgd \<Rightarrow> pkgd" where
  "do_launch G io pkg s =
     (case find (\<lambda>p. pname p = pkg) (installed s) of
        None \<Rightarrow> report_launch_ok pkg ''not-installed'' s
      | Some p \<Rightarrow>
          (if pkg \<in> set (running s) then report_launch_ok pkg ''already-running'' s
           else if exclusive_peer s p pkg \<noteq> [] then
             report_conflict ''launch'' pkg (exclusive_peer s p pkg) (exclusive_group p) s
           else if \<not> binary_available s p then report_launch_ok pkg ''binary-missing'' s
           else case quota_bytes (pram p) of
             None \<Rightarrow> report_insufficient G ''launch'' pkg 0 0 0 0 s
           | Some need \<Rightarrow>
               (case admits G s p need (rq_budget io (is_driver p) 0) (0, 0) of
                  (False, ram, caps) \<Rightarrow> report_insufficient G ''launch'' pkg need ram (pcaps p) caps s
                | (True, avail) \<Rightarrow> start_package G io pkg s)))"

definition pkg_request_sig :: "xml \<Rightarrow> string" where
  "pkg_request_sig req =
     gstr 160 (attr_str 32 req ''op'' @ ''|'' @ attr_str 128 req ''pkg'' @ ''|'' @ attr_str 16 req ''seq'')"

definition pkg_dispatch :: "genode \<Rightarrow> pk_io \<Rightarrow> string \<Rightarrow> string \<Rightarrow> pkgd \<Rightarrow> pkgd" where
  "pkg_dispatch G io op pkg s =
     (if op = ''list'' then pkg_do_list G s
      else if pkg = [] then pkg_report_error op pkg ''no package specified in request'' s
      else if op = ''explain'' then do_explain G pkg s
      else if op = ''install'' then do_install G io pkg s
      else if op = ''remove'' then do_remove G io pkg s
      else if op = ''launch'' then do_launch G io pkg s
      else pkg_report_error op pkg ''unknown operation'' s)"

definition pkg_handle_request_impl :: "genode \<Rightarrow> pk_io \<Rightarrow> xml \<Rightarrow> pkgd \<Rightarrow> pkgd" where
  "pkg_handle_request_impl G io req s =
     (if \<not> has_type req ''request'' then pkg_report_error ''explain'' [] ''request root is not <request>'' s
      else if pkg_request_sig req = pk_last_sig s then replay_last_result G s
      else pkg_dispatch G io (attr_str 32 req ''op'') (attr_str 128 req ''pkg'') (s\<lparr>pk_last_sig := pkg_request_sig req\<rparr>))"

definition malformed_msg :: "pk_channel \<Rightarrow> string" where
  "malformed_msg ch =
     (case ch of Primary \<Rightarrow> ''malformed request ROM'' | Launcher \<Rightarrow> ''malformed launcher_request ROM''
      | Tty \<Rightarrow> ''malformed tty_request ROM'' | Probe \<Rightarrow> ''malformed probe_request ROM'')"

definition pkg_handle_request :: "genode \<Rightarrow> pk_channel \<Rightarrow> rom \<Rightarrow> pk_io \<Rightarrow> pkgd \<Rightarrow> pkgd" where
  "pkg_handle_request G ch r io s =
     (if ch \<notin> opened s then s
      else let s = s\<lparr>channel := ch\<rparr> in
        case r of
          Rom_invalid \<Rightarrow> s
        | Rom_malformed \<Rightarrow> pkg_report_error ''explain'' [] (malformed_msg ch) s
        | Rom_node req \<Rightarrow> pkg_handle_request_impl G io req s)"

section \<open>Boot\<close>

text \<open>The package names of the bake manifest's \<open>staged_packages\<close> array, as far as it is well-formed.\<close>

function staged_names :: "string \<Rightarrow> string list" where
  "staged_names s =
     (let s1 = dropWhile json_ws s in
      if s1 = [] \<or> hd s1 \<noteq> DQ then []
      else
        let v = takeWhile (\<lambda>c. c \<noteq> DQ) (tl s1); r = dropWhile (\<lambda>c. c \<noteq> DQ) (tl s1) in
        if r = [] then []
        else
          let s2 = dropWhile json_ws (tl r) in
          (if v \<noteq> [] then [cstr (take 63 v)] else [])
          @ (if s2 \<noteq> [] \<and> hd s2 = CHR '','' then staged_names (tl s2) else []))"
  by pat_completeness auto
termination
proof (relation "measure length", simp, goal_cases)
  case (1 s s1 v r s2)
  have "length s2 \<le> length (tl r)" unfolding 1 by (rule length_dropWhile_le)
  moreover have "length r \<le> length (tl s1)" unfolding 1 by (rule length_dropWhile_le)
  moreover have "length s1 \<le> length s" unfolding 1 by (rule length_dropWhile_le)
  moreover have "0 < length s2" using 1 by simp
  ultimately show ?case by (cases s2) simp_all
qed

declare staged_names.simps [simp del]

abbreviation staged_key :: string where "staged_key \<equiv> [DQ] @ ''staged_packages'' @ [DQ]"

fun staged_from :: "string \<Rightarrow> string list" where
  "staged_from [] = []"
| "staged_from (c # cs) =
     (if length (c # cs) \<le> length staged_key then []
      else if take (length staged_key) (c # cs) \<noteq> staged_key then staged_from cs
      else case dropWhile json_ws (drop (length staged_key) (c # cs)) of
             [] \<Rightarrow> []
           | d # r \<Rightarrow>
               (if d \<noteq> CHR '':'' then []
                else case dropWhile json_ws r of
                       [] \<Rightarrow> []
                     | d # r \<Rightarrow> (if d \<noteq> CHR ''['' then [] else staged_names r)))"

definition seed_roots :: "save_io \<Rightarrow> string option \<Rightarrow> pkgd \<Rightarrow> pkgd" where
  "seed_roots io manifest s =
     (case manifest of
        None \<Rightarrow> s
      | Some m \<Rightarrow>
          (if roots s \<noteq> [] then s
           else let ns = take MAX_PACKAGES (staged_from m)
                in if ns = [] then s else save_roots io (s\<lparr>roots := ns\<rparr>)))"

definition load_binaries :: "rom \<Rightarrow> rom \<Rightarrow> pkgd \<Rightarrow> pkgd" where
  "load_binaries cfg r s =
     (if \<not> has_sub_node cfg ''binaries'' then s
      else case r of
        Rom_node root \<Rightarrow>
          (if \<not> has_type root ''binaries'' then s
           else s\<lparr>staged_binaries := take MAX_PACKAGES (map (\<lambda>b. attr_str 96 b ''name'') (kids_of_type root ''binary'')),
                  binary_manifest_loaded := True\<rparr>)
      | _ \<Rightarrow> s)"

definition init_admission :: "rom \<Rightarrow> pkgd \<Rightarrow> pkgd" where
  "init_admission cfg s = (if has_sub_node cfg ''admission'' then s\<lparr>app_armed := True\<rparr> else s)"

definition init_driver_admission :: "rom \<Rightarrow> pkgd \<Rightarrow> pkgd" where
  "init_driver_admission cfg s = (if has_sub_node cfg ''driver_admission'' then s\<lparr>driver_armed := True\<rparr> else s)"

definition init_channels :: "rom \<Rightarrow> pkgd \<Rightarrow> pkgd" where
  "init_channels cfg s =
     s\<lparr>opened := opened s \<union> (if has_sub_node cfg ''launcher_request'' then {Launcher} else {})
        \<union> (if has_sub_node cfg ''tty_request'' then {Tty} else {})
        \<union> (if has_sub_node cfg ''probe_request'' then {Probe} else {})\<rparr>"

definition init_pk_store :: "rom \<Rightarrow> pkgd \<Rightarrow> pkgd" where
  "init_pk_store cfg s = (if has_sub_node cfg ''vfs'' then s\<lparr>pk_store := True\<rparr> else s)"

text \<open>What the boot finds: the configuration, the other ROMs, the store, and the pending request.\<close>

record pk_env =
  pe_config :: rom
  pe_meta :: "string \<Rightarrow> rom"
  pe_index :: rom
  pe_load :: load_io
  pe_manifest :: "string option"
  pe_seed :: save_io
  pe_binaries :: rom
  pe_request :: rom
  pe_io :: pk_io

definition read_prefix :: "rom \<Rightarrow> pkgd \<Rightarrow> pkgd" where
  "read_prefix cfg s =
     (case cfg of
        Rom_node x \<Rightarrow> s\<lparr>repo := (repo s)\<lparr>binary_prefix := attr_str 32 x ''binary_prefix''\<rparr>\<rparr>
      | _ \<Rightarrow> s)"

definition boot_tail :: "genode \<Rightarrow> pk_env \<Rightarrow> pkgd \<Rightarrow> pkgd" where
  "boot_tail G e s =
     (let s = init_driver_admission (pe_config e) (init_admission (pe_config e)
                (load_binaries (pe_config e) (pe_binaries e) s));
          s = (if roots s \<noteq> [] then sync_installed G s else s);
          s = pkg_handle_request G Primary (pe_request e) (pe_io e) (publish_sets G (pe_io e) (sync_running s))
      in unless_stuck (init_channels (pe_config e)) s)"

definition boot_seed :: "pk_env \<Rightarrow> pkgd \<Rightarrow> pkgd" where
  "boot_seed e s =
     seed_roots (pe_seed e) (if has_sub_node (pe_config e) ''bake'' then pe_manifest e else None) s"

definition bootstrap :: "genode \<Rightarrow> pk_env \<Rightarrow> pkgd \<Rightarrow> pkgd" where
  "bootstrap G e s =
     unless_stuck (boot_tail G e)
       (unless_stuck (boot_seed e)
         (load_roots G (pe_load e)
           (init_pk_store (pe_config e) (s\<lparr>repo := load_index (pe_index e) (repo s)\<rparr>))))"

definition pk_construct :: "genode \<Rightarrow> pk_env \<Rightarrow> pkgd" where
  "pk_construct G e = bootstrap G e (read_prefix (pe_config e) (pkgd_init (pe_meta e)))"

datatype pk_event = Request pk_channel rom pk_io

fun pk_step :: "genode \<Rightarrow> pk_event \<Rightarrow> pkgd \<Rightarrow> pkgd" where
  "pk_step G (Request ch r io) s = unless_stuck (pkg_handle_request G ch r io) s"

definition pk_start :: "genode \<Rightarrow> pkgd \<Rightarrow> bool" where
  "pk_start G s \<longleftrightarrow> (\<exists>e. s = pk_construct G e)"

end
