(* ===== verification/Bounded.thy ===== *)
theory Bounded
  imports Main
begin

text \<open>
  The contract of the fixed arrays the daemons use as sets: adding appends an element whose key is
  absent while there is room, and changes nothing otherwise. The components interpret the locale on
  their own add operations (the running set, the installed set, the services a sandbox provides).
\<close>

locale bounded_set =
  fixes cap :: nat
    and key :: "'a \<Rightarrow> 'k"
    and valid :: "'a \<Rightarrow> bool"
    and add :: "'a \<Rightarrow> 'a list \<Rightarrow> 'a list"
  assumes add_valid: "valid x
    \<Longrightarrow> add x xs = (if key x \<in> key ` set xs \<or> cap \<le> length xs then xs else xs @ [x])"
begin

lemma fold_add_extends: "\<forall>y \<in> set ys. valid y \<Longrightarrow> \<exists>zs. fold add ys xs = xs @ zs \<and> set zs \<subseteq> set ys"
proof (induction ys arbitrary: xs)
  case (Cons y ys)
  obtain zs where "fold add ys (add y xs) = add y xs @ zs" "set zs \<subseteq> set ys"
    using Cons by fastforce
  then show ?case using Cons.prems by (auto simp: add_valid)
qed simp

lemma fold_add_distinct:
  "\<forall>y \<in> set ys. valid y \<Longrightarrow> distinct (map key xs) \<Longrightarrow> distinct (map key (fold add ys xs))"
  by (induction ys arbitrary: xs) (auto simp: add_valid)

lemma fold_add_length:
  "\<forall>y \<in> set ys. valid y \<Longrightarrow> length xs \<le> cap \<Longrightarrow> length (fold add ys xs) \<le> cap"
  by (induction ys arbitrary: xs) (auto simp: add_valid)

lemma fold_add_subset: "\<forall>y \<in> set ys. valid y \<Longrightarrow> set (fold add ys xs) \<subseteq> set xs \<union> set ys"
  using fold_add_extends [of ys xs] by fastforce

text \<open>Nothing is lost when all keys come from a set that fits.\<close>

lemma fold_add_keys:
  assumes K: "finite K" "card K \<le> cap"
  shows "\<forall>y \<in> set ys. valid y \<Longrightarrow> distinct (map key xs) \<Longrightarrow> key ` (set xs \<union> set ys) \<subseteq> K
    \<Longrightarrow> key ` set (fold add ys xs) = key ` set xs \<union> key ` set ys"
proof (induction ys arbitrary: xs)
  case (Cons y ys)
  have room: "length xs < cap" if "key y \<notin> key ` set xs"
  proof -
    have "card (key ` set (y # xs)) \<le> card K" using Cons.prems(3) K(1) by (intro card_mono) auto
    moreover have "card (key ` set xs) = length xs"
      using distinct_card [OF Cons.prems(2)] by simp
    then have "card (key ` set (y # xs)) = Suc (length xs)" using that by (simp add: card_insert_if)
    ultimately show ?thesis using K(2) by simp
  qed
  have a: "add y xs = (if key y \<in> key ` set xs then xs else xs @ [y])"
    using Cons.prems(1) room by (fastforce simp: add_valid not_le)
  have "key ` set (fold add ys (add y xs)) = key ` set (add y xs) \<union> key ` set ys"
    using Cons.prems a by (intro Cons.IH) auto
  then show ?case using a by auto
qed simp

text \<open>Below the capacity everything valid is in: the set is full or holds all keys.\<close>

lemma fold_add_complete:
  "\<forall>y \<in> set ys. valid y \<Longrightarrow> length (fold add ys xs) < cap
    \<Longrightarrow> key ` set (fold add ys xs) = key ` set xs \<union> key ` set ys"
proof (induction ys arbitrary: xs)
  case (Cons y ys)
  obtain zs where zs: "fold add ys (add y xs) = add y xs @ zs"
    using Cons.prems(1) fold_add_extends [of ys "add y xs"] by auto
  then have "length (add y xs) < cap" using Cons.prems(2) by simp
  then have a: "add y xs = (if key y \<in> key ` set xs then xs else xs @ [y])"
    using Cons.prems(1) by (auto simp: add_valid split: if_splits)
  have "key ` set (fold add ys (add y xs)) = key ` set (add y xs) \<union> key ` set ys"
    using Cons.prems by (intro Cons.IH) auto
  then show ?case using a by auto
qed simp

end

end
