(* ===== verification/Pkgd_Inv.thy ===== *)
theory Pkgd_Inv
  imports Pkgd Bounded
begin

text \<open>
  The invariants of \<open>sponge_pkgd\<close>: the installed set is a bounded set of packages keyed by name, it
  is the dependency closure of the roots, and the running set is a subset of it that contains every
  autostart package; every operation keeps them. The second part is about the trace: each request
  is answered once, on the channel it arrived on.
\<close>

section \<open>The bounded sets\<close>

interpretation run_set: bounded_set MAX_PACKAGES "\<lambda>n. n" "\<lambda>n. length n < 64" add_name
  by unfold_locales (auto simp: add_name_def)

interpretation fresh_set: bounded_set MAX_PACKAGES pname "\<lambda>p. True" merge_package
  by unfold_locales (auto simp: merge_package_def)

interpretation service_set: bounded_set 64 "\<lambda>n. n" "\<lambda>n. n \<noteq> []" add_service
  by unfold_locales (auto simp: add_service_def)

section \<open>Parsed packages\<close>

lemma parse_child_pname: "length (pname p) < 64 \<Longrightarrow> length (pname (parse_child G pre c p)) < 64"
proof -
  have d: "pname (fold add_dep ds p) = pname p" for ds p
    by (induction ds arbitrary: p) (auto simp: add_dep_def)
  have x: "pname (fold (add_session G) ss p) = pname p" for ss p
    by (induction ss arbitrary: p) (auto simp: add_session_def)
  assume "length (pname p) < 64"
  moreover have "length (gstr 64 t) < 64" for t using length_gstr [of 64 t] by simp
  ultimately show ?thesis
    by (simp add: parse_child_def parse_config_def d x split: option.split)
qed

lemma parse_children_pname:
  "length (pname p) < 64 \<Longrightarrow> length (pname (fold (parse_child G pre) cs p)) < 64"
  by (induction cs arbitrary: p) (auto intro: parse_child_pname)

lemma metadata_pname: "metadata G R n = Some p \<Longrightarrow> length (pname p) < 64"
  using parse_children_pname [of new_package G "binary_prefix R"]
  by (auto simp: metadata_def load_package_def parse_package_def Let_def fill_package_def new_package_def
      split: if_splits rom.splits sum.splits option.splits)

lemma plan_entry_pname: "metadata G R n \<noteq> None \<Longrightarrow> length (pname (plan_entry G R inst n)) < 64"
  using metadata_pname by (auto simp: plan_entry_def)

text \<open>The metadata module of a package names the package it describes.\<close>

definition well_named :: "genode \<Rightarrow> repo \<Rightarrow> bool" where
  "well_named G R \<longleftrightarrow> (\<forall>n p. metadata G R n = Some p \<longrightarrow> pname p = n)"

lemma well_named_entry: "well_named G R \<Longrightarrow> metadata G R n \<noteq> None \<Longrightarrow> pname (plan_entry G R inst n) = n"
  by (auto simp: well_named_def plan_entry_def)

section \<open>The installed set\<close>

text \<open>What the roots need: the specification of the installed set.\<close>

definition closure :: "genode \<Rightarrow> repo \<Rightarrow> string list \<Rightarrow> string set" where
  "closure G R rs = {n. \<exists>r \<in> set rs. resolvable G R r \<and> needs G R r n}"

definition fresh_inv :: "genode \<Rightarrow> repo \<Rightarrow> package list \<Rightarrow> bool" where
  "fresh_inv G R fresh \<longleftrightarrow> distinct (map pname fresh) \<and> length fresh \<le> MAX_PACKAGES
     \<and> (\<forall>p \<in> set fresh. \<exists>n b. metadata G R n \<noteq> None \<and> p = (the (metadata G R n))\<lparr>reused := b\<rparr>)"

definition add_closure :: "genode \<Rightarrow> repo \<Rightarrow> string list \<Rightarrow> string \<Rightarrow> package list \<Rightarrow> package list" where
  "add_closure G R inst r fresh =
     (if rok (resolve G R inst r) then fold merge_package (plan (resolve G R inst r)) fresh else fresh)"

lemma resolve_in_simps [simp]:
  "repo (resolve_in G r s) = repo s" "installed (resolve_in G r s) = installed s"
  "roots (resolve_in G r s) = roots s" "running (resolve_in G r s) = running s"
  "pk_blocked (resolve_in G r s) = pk_blocked s" "pk_out (resolve_in G r s) = pk_out s"
  "channel (resolve_in G r s) = channel s" "rsv (resolve_in G r s) = resolve G (repo s) (names s) r"
  "opened (resolve_in G r s) = opened s" "pk_store (resolve_in G r s) = pk_store s"
  "app_armed (resolve_in G r s) = app_armed s" "driver_armed (resolve_in G r s) = driver_armed s"
  "staged_binaries (resolve_in G r s) = staged_binaries s"
  "binary_manifest_loaded (resolve_in G r s) = binary_manifest_loaded s"
  "last_answer (resolve_in G r s) = last_answer s" "pk_last_sig (resolve_in G r s) = pk_last_sig s"
  by (simp_all add: resolve_in_def Let_def)

lemma resolve_all_simps [simp]:
  "repo (fold (resolve_in G) rs s) = repo s" "installed (fold (resolve_in G) rs s) = installed s"
  "roots (fold (resolve_in G) rs s) = roots s" "running (fold (resolve_in G) rs s) = running s"
  "pk_blocked (fold (resolve_in G) rs s) = pk_blocked s" "pk_out (fold (resolve_in G) rs s) = pk_out s"
  "channel (fold (resolve_in G) rs s) = channel s" "opened (fold (resolve_in G) rs s) = opened s"
  "pk_store (fold (resolve_in G) rs s) = pk_store s" "app_armed (fold (resolve_in G) rs s) = app_armed s"
  "driver_armed (fold (resolve_in G) rs s) = driver_armed s"
  by (induction rs arbitrary: s; simp)+

lemma sync_fold:
  "fold (sync_root G) rs (fresh, s)
     = (fold (add_closure G (repo s) (names s)) rs fresh, fold (resolve_in G) rs s)"
proof (induction rs arbitrary: fresh s)
  case (Cons r rs)
  have "sync_root G r (fresh, s) = (add_closure G (repo s) (names s) r fresh, resolve_in G r s)"
    by (simp add: sync_root_def add_closure_def Let_def)
  then show ?case by (simp add: Cons.IH)
qed simp

lemma sync_installed_frame:
  "installed (sync_installed G s) = fold (add_closure G (repo s) (names s)) (roots s) []"
  "repo (sync_installed G s) = repo s" "roots (sync_installed G s) = roots s"
  "running (sync_installed G s) = running s" "pk_blocked (sync_installed G s) = pk_blocked s"
  "pk_out (sync_installed G s) = pk_out s" "channel (sync_installed G s) = channel s"
  "opened (sync_installed G s) = opened s" "pk_store (sync_installed G s) = pk_store s"
  "app_armed (sync_installed G s) = app_armed s" "driver_armed (sync_installed G s) = driver_armed s"
  by (simp_all add: sync_installed_def sync_fold)

lemma add_closure_inv:
  assumes wf: "repo_wf R" and inv: "fresh_inv G R fresh"
  shows "fresh_inv G R (add_closure G R inst r fresh)"
proof (cases "rok (resolve G R inst r)")
  case True
  obtain ns where p: "plan (resolve G R inst r) = map (plan_entry G R inst) ns"
    and ns: "set ns = {n. needs G R r n}" using resolve_plan [OF wf True] by metis
  have m: "metadata G R n \<noteq> None" if "n \<in> set ns" for n
    using True resolve_rok [OF wf] that ns by (auto simp: resolvable_def)
  let ?f = "fold merge_package (plan (resolve G R inst r)) fresh"
  have "distinct (map pname ?f)" using inv by (intro fresh_set.fold_add_distinct) (auto simp: fresh_inv_def)
  moreover have "length ?f \<le> MAX_PACKAGES"
    using inv by (intro fresh_set.fold_add_length) (auto simp: fresh_inv_def)
  moreover have "\<exists>n b. metadata G R n \<noteq> None \<and> q = (the (metadata G R n))\<lparr>reused := b\<rparr>" if "q \<in> set ?f" for q
  proof (cases "q \<in> set fresh")
    case False
    then have "q \<in> set (plan (resolve G R inst r))"
      using that fresh_set.fold_add_subset [of "plan (resolve G R inst r)" fresh] by auto
    then obtain n where "n \<in> set ns" "q = plan_entry G R inst n" using p by auto
    then show ?thesis using m [of n] unfolding plan_entry_def by blast
  qed (use inv in \<open>simp add: fresh_inv_def\<close>)
  ultimately show ?thesis using True by (simp add: add_closure_def fresh_inv_def)
qed (use inv in \<open>simp add: add_closure_def\<close>)

lemma add_closure_names:
  assumes wf: "repo_wf R" and wn: "well_named G R" and inv: "fresh_inv G R fresh"
  shows "pname ` set (add_closure G R inst r fresh) = pname ` set fresh \<union> closure G R [r]"
proof (cases "rok (resolve G R inst r)")
  case True
  obtain ns where p: "plan (resolve G R inst r) = map (plan_entry G R inst) ns"
    and ns: "set ns = {n. needs G R r n}" using resolve_plan [OF wf True] by metis
  have res: "resolvable G R r" using True resolve_rok [OF wf] by simp
  have m: "metadata G R n \<noteq> None" if "n \<in> set ns" for n using res that ns by (auto simp: resolvable_def)
  have pl: "pname ` set (plan (resolve G R inst r)) = set ns"
    using p m well_named_entry [OF wn] by (force simp: image_image)
  have known: "pname ` (set fresh \<union> set (plan (resolve G R inst r))) \<subseteq> set (known R)"
  proof -
    have "pname q \<in> set (known R)" if q: "q \<in> set fresh" for q
    proof -
      obtain n b p' where "metadata G R n = Some p'" "q = p'\<lparr>reused := b\<rparr>"
        using inv q by (fastforce simp: fresh_inv_def)
      then show ?thesis using wn metadata_known by (fastforce simp: well_named_def)
    qed
    then show ?thesis using pl m metadata_known by fastforce
  qed
  have "card (set (known R)) \<le> MAX_PACKAGES"
    using card_length [of "known R"] wf by (simp add: repo_wf_def)
  then have "pname ` set (fold merge_package (plan (resolve G R inst r)) fresh)
      = pname ` set fresh \<union> pname ` set (plan (resolve G R inst r))"
    using inv known by (intro fresh_set.fold_add_keys [of "set (known R)"]) (auto simp: fresh_inv_def)
  then show ?thesis using True pl ns res by (simp add: add_closure_def closure_def)
next
  case False
  then show ?thesis using resolve_rok [OF wf] by (simp add: add_closure_def closure_def)
qed

lemma fold_closure:
  assumes wf: "repo_wf R"
  shows "fresh_inv G R fresh \<Longrightarrow> fresh_inv G R (fold (add_closure G R inst) rs fresh)
    \<and> (well_named G R \<longrightarrow> pname ` set (fold (add_closure G R inst) rs fresh) = pname ` set fresh \<union> closure G R rs)"
proof (induction rs arbitrary: fresh)
  case Nil
  then show ?case by (simp add: closure_def)
next
  case (Cons r rs)
  have "fresh_inv G R (add_closure G R inst r fresh)" using wf Cons.prems by (rule add_closure_inv)
  moreover have "closure G R (r # rs) = closure G R [r] \<union> closure G R rs" by (auto simp: closure_def)
  ultimately show ?case
    using Cons.IH [of "add_closure G R inst r fresh"] add_closure_names [OF wf _ Cons.prems] by auto
qed

lemma sync_installed_inv:
  assumes "repo_wf (repo s)"
  shows "fresh_inv G (repo s) (installed (sync_installed G s))"
    and "well_named G (repo s) \<Longrightarrow> set (names (sync_installed G s)) = closure G (repo s) (roots s)"
  using fold_closure [OF assms, where G = G and fresh = "[]" and inst = "names s" and rs = "roots s"]
  by (auto simp: sync_installed_frame fresh_inv_def)

section \<open>The invariant of the sets\<close>

definition auto_names :: "pkgd \<Rightarrow> string list" where
  "auto_names s = map pname (filter has_autostart (installed s))"

definition pk_inv :: "genode \<Rightarrow> pkgd \<Rightarrow> bool" where
  "pk_inv G s \<longleftrightarrow> repo_wf (repo s) \<and> fresh_inv G (repo s) (installed s) \<and> length (roots s) \<le> MAX_PACKAGES
     \<and> distinct (running s) \<and> set (running s) \<subseteq> set (names s) \<and> set (auto_names s) \<subseteq> set (running s)
     \<and> (\<not> pk_blocked s \<longrightarrow> well_named G (repo s) \<longrightarrow> set (names s) = closure G (repo s) (roots s))"

definition same_core :: "pkgd \<Rightarrow> pkgd \<Rightarrow> bool" where
  "same_core s s' \<longleftrightarrow> repo s' = repo s \<and> installed s' = installed s \<and> roots s' = roots s
     \<and> running s' = running s \<and> pk_blocked s' = pk_blocked s \<and> opened s' = opened s
     \<and> pk_store s' = pk_store s \<and> app_armed s' = app_armed s \<and> driver_armed s' = driver_armed s
     \<and> pk_last_sig s' = pk_last_sig s \<and> staged_binaries s' = staged_binaries s \<and> binary_manifest_loaded s' = binary_manifest_loaded s"

lemma pk_inv_cong: "same_core s s' \<Longrightarrow> pk_inv G s' \<longleftrightarrow> pk_inv G s"
  by (simp add: pk_inv_def same_core_def auto_names_def)

lemma same_core_refl [simp]: "same_core s s"
  by (simp add: same_core_def)

lemma same_core_trans [trans]: "same_core s s' \<Longrightarrow> same_core s' s'' \<Longrightarrow> same_core s s''"
  by (simp add: same_core_def)

lemma fresh_inv_names:
  assumes "fresh_inv G R ps" and "p \<in> set ps"
  shows "length (pname p) < 64"
proof -
  obtain n b q where "metadata G R n = Some q" "p = q\<lparr>reused := b\<rparr>"
    using assms by (fastforce simp: fresh_inv_def)
  then show ?thesis using metadata_pname by simp
qed

lemma sync_running_frame [simp]:
  "repo (sync_running s) = repo s" "installed (sync_running s) = installed s"
  "roots (sync_running s) = roots s" "pk_blocked (sync_running s) = pk_blocked s"
  "pk_out (sync_running s) = pk_out s" "channel (sync_running s) = channel s"
  "opened (sync_running s) = opened s" "pk_store (sync_running s) = pk_store s"
  "app_armed (sync_running s) = app_armed s" "driver_armed (sync_running s) = driver_armed s"
  by (simp_all add: sync_running_def)

text \<open>The re-derivation of the running set: what ran and is installed, and every autostart package.\<close>

lemma sync_running_set:
  assumes inv: "fresh_inv G R (installed s)" and d: "distinct (running s)"
  shows "distinct (running (sync_running s))"
    and "set (running (sync_running s)) = set (running s) \<inter> set (names s) \<union> set (auto_names s)"
proof -
  let ?old = "filter (\<lambda>n. n \<in> set (names s)) (running s)"
  have valid: "\<forall>n \<in> set (auto_names s). length n < 64"
    using fresh_inv_names [OF inv] by (auto simp: auto_names_def)
  have eq: "running (sync_running s) = fold add_name (auto_names s) ?old"
    by (simp add: sync_running_def auto_names_def)
  show "distinct (running (sync_running s))"
    using run_set.fold_add_distinct [OF valid, of ?old] d by (simp add: eq)
  have "card (set (names s)) \<le> MAX_PACKAGES"
    using card_length [of "names s"] inv by (simp add: fresh_inv_def)
  then show "set (running (sync_running s)) = set (running s) \<inter> set (names s) \<union> set (auto_names s)"
    using run_set.fold_add_keys [of "set (names s)" "auto_names s" ?old] valid d
    by (auto simp: eq auto_names_def)
qed

lemma rederive_inv:
  assumes "repo_wf (repo s)" and "length (roots s) \<le> MAX_PACKAGES" and "distinct (running s)"
  shows "pk_inv G (rederive G s)"
proof -
  let ?s = "sync_installed G s"
  have f: "fresh_inv G (repo s) (installed ?s)" using assms(1) by (rule sync_installed_inv(1))
  have d: "distinct (running ?s)" using assms(3) by (simp add: sync_installed_frame)
  have c: "well_named G (repo s) \<Longrightarrow> set (names ?s) = closure G (repo s) (roots s)"
    using assms(1) by (rule sync_installed_inv(2))
  have "set (auto_names ?s) \<subseteq> set (names ?s)" by (auto simp: auto_names_def)
  moreover have "auto_names (sync_running ?s) = auto_names ?s" by (simp add: auto_names_def)
  ultimately show ?thesis
    using assms f sync_running_set [OF f d] c
    unfolding rederive_def pk_inv_def by (auto simp: sync_installed_frame)
qed

lemma rederive_frame:
  "repo (rederive G s) = repo s" "roots (rederive G s) = roots s" "pk_blocked (rederive G s) = pk_blocked s"
  "pk_out (rederive G s) = pk_out s" "channel (rederive G s) = channel s"
  "opened (rederive G s) = opened s" "pk_store (rederive G s) = pk_store s"
  "app_armed (rederive G s) = app_armed s" "driver_armed (rederive G s) = driver_armed s"
  by (simp_all add: rederive_def sync_installed_frame)

section \<open>Answers and reports leave the sets alone\<close>

definition silent :: "pk_out \<Rightarrow> bool" where
  "silent e = (case e of Answer ch x \<Rightarrow> False | _ \<Rightarrow> True)"

definition quietly :: "pkgd \<Rightarrow> pkgd \<Rightarrow> bool" where
  "quietly s s' \<longleftrightarrow> channel s' = channel s \<and> (\<exists>mid. list_all silent mid \<and> pk_out s' = pk_out s @ mid)"

definition responds :: "pkgd \<Rightarrow> pkgd \<Rightarrow> bool" where
  "responds s s' \<longleftrightarrow> channel s' = channel s \<and>
     (\<exists>mid. list_all silent mid \<and>
        (if pk_blocked s' then pk_out s' = pk_out s @ mid
         else \<exists>x. pk_out s' = pk_out s @ mid @ [Answer (channel s) x]))"

lemma quietly_refl [simp]: "quietly s s"
  by (auto simp: quietly_def)

lemma quietly_trans [trans]: "quietly s s' \<Longrightarrow> quietly s' s'' \<Longrightarrow> quietly s s''"
  unfolding quietly_def by (metis append_assoc list_all_append)

lemma quietly_responds [trans]: "quietly s s' \<Longrightarrow> responds s' s'' \<Longrightarrow> responds s s''"
proof -
  assume q: "quietly s s'" and r: "responds s' s''"
  obtain m1 where m1: "list_all silent m1" "pk_out s' = pk_out s @ m1" "channel s' = channel s"
    using q by (auto simp: quietly_def)
  obtain m2 where m2: "list_all silent m2" "if pk_blocked s'' then pk_out s'' = pk_out s' @ m2
      else \<exists>x. pk_out s'' = pk_out s' @ m2 @ [Answer (channel s') x]" and c: "channel s'' = channel s'"
    using r by (auto simp: responds_def)
  show ?thesis
    unfolding responds_def using m1 m2 c by (intro conjI exI [of _ "m1 @ m2"]) (auto split: if_splits)
qed

lemmas record_defs = record_answer_def pkg_cache_items_def answer_def pk_emit_def

lemmas pk_report_defs = report_ok_def pkg_report_error_def report_install_ok_def report_remove_ok_def
  report_launch_ok_def pkg_report_list_ok_def report_insufficient_def report_conflict_def record_defs Let_def

lemma answers_core [simp]:
  "same_core s (report_ok G pkg s)" "same_core s (pkg_report_error op pkg msg s)"
  "same_core s (report_install_ok pkg root added s)" "same_core s (report_remove_ok pkg removed s)"
  "same_core s (report_launch_ok pkg oc s)" "same_core s (pkg_report_list_ok G s)"
  "same_core s (report_insufficient G op pkg nr ar nc ac s)" "same_core s (report_conflict op pkg peer grp s)"
  by (simp_all add: same_core_def pk_report_defs)

lemma answers_respond [simp]:
  assumes "\<not> pk_blocked s"
  shows "responds s (report_ok G pkg s)" "responds s (pkg_report_error op pkg msg s)"
    "responds s (report_install_ok pkg root added s)" "responds s (report_remove_ok pkg removed s)"
    "responds s (report_launch_ok pkg oc s)" "responds s (pkg_report_list_ok G s)"
    "responds s (report_insufficient G op pkg nr ar nc ac s)" "responds s (report_conflict op pkg peer grp s)"
  using assms by (auto simp: responds_def pk_report_defs intro!: exI [of _ "[]"])

lemma generate_runtime_frame [simp]:
  "same_core s (generate_runtime_config G cfg s)" "quietly s (generate_runtime_config G cfg s)"
  by (auto simp: same_core_def quietly_def generate_runtime_config_def emit_runtime_config_def pk_emit_def
      Let_def silent_def)

lemma generate_installed_frame [simp]:
  "same_core s (generate_installed_report G s)" "quietly s (generate_installed_report G s)"
  by (auto simp: same_core_def quietly_def generate_installed_report_def pk_emit_def silent_def)

lemma publish_sets_frame [simp]:
  "same_core s (publish_sets G io s)" "quietly s (publish_sets G io s)"
  unfolding publish_sets_def
  by (rule same_core_trans [OF generate_runtime_frame(1) generate_installed_frame(1)],
      rule quietly_trans [OF generate_runtime_frame(2) generate_installed_frame(2)])

lemma save_roots_frame [simp]:
  "repo (save_roots io s) = repo s" "installed (save_roots io s) = installed s"
  "roots (save_roots io s) = roots s" "running (save_roots io s) = running s"
  "quietly s (save_roots io s)" "opened (save_roots io s) = opened s" "pk_store (save_roots io s) = pk_store s"
  "app_armed (save_roots io s) = app_armed s" "driver_armed (save_roots io s) = driver_armed s"
  by (auto simp: save_roots_def pk_emit_def quietly_def silent_def list_all_iff split: prod.split)

lemma save_roots_inv: "pk_inv G s \<Longrightarrow> \<not> pk_blocked s \<Longrightarrow> pk_inv G (save_roots io s)"
  by (simp add: pk_inv_def auto_names_def)

lemma replay_frame:
  "same_core s (replay_last_result G s)" "\<not> pk_blocked s \<Longrightarrow> responds s (replay_last_result G s)"
  by (simp_all add: replay_last_result_def Let_def replay_install_def split: option.split)

section \<open>Every request keeps the invariant and is answered\<close>

lemma resolve_in_core [simp]: "same_core s (resolve_in G r s)" "quietly s (resolve_in G r s)"
  by (simp_all add: same_core_def quietly_def)

lemma do_explain_frame:
  "same_core s (do_explain G pkg s)" "\<not> pk_blocked s \<Longrightarrow> responds s (do_explain G pkg s)"
proof -
  let ?s = "resolve_in G pkg s"
  show "same_core s (do_explain G pkg s)"
    unfolding do_explain_def Let_def
    by (simp add: same_core_trans [OF resolve_in_core(1) answers_core(1)]
        same_core_trans [OF resolve_in_core(1) answers_core(2)])
  assume "\<not> pk_blocked s"
  then show "responds s (do_explain G pkg s)"
    unfolding do_explain_def Let_def
    by (simp add: quietly_responds [OF resolve_in_core(2) answers_respond(1)]
        quietly_responds [OF resolve_in_core(2) answers_respond(2)])
qed

text \<open>The common end of install and remove: derive, save, publish, answer.\<close>

lemma rederive_and_answer:
  fixes G :: genode and io :: pk_io
  assumes wf: "repo_wf (repo s)" "length (roots s) \<le> MAX_PACKAGES" "distinct (running s)" and nb: "\<not> pk_blocked s"
    and fin: "\<And>t. same_core t (fin t)" "\<And>t. \<not> pk_blocked t \<Longrightarrow> responds t (fin t)"
  defines "s' \<equiv> unless_stuck (\<lambda>s. fin (publish_sets G io s)) (save_roots (rq_save io) (rederive G s))"
  shows "pk_inv G s'" and "responds s s'"
proof -
  let ?r = "rederive G s" let ?v = "save_roots (rq_save io) (rederive G s)"
  have inv: "pk_inv G ?v" using rederive_inv [OF wf] nb by (intro save_roots_inv) (simp_all add: rederive_frame)
  have core: "same_core ?v (fin (publish_sets G io ?v))"
    by (rule same_core_trans [OF publish_sets_frame(1) fin(1)])
  show "pk_inv G s'" using inv pk_inv_cong [OF core] by (simp add: s'_def unless_stuck_def)
  have q: "quietly s ?v"
    by (rule quietly_trans [OF _ save_roots_frame(5)]) (simp add: quietly_def rederive_frame)
  show "responds s s'"
  proof (cases "pk_blocked ?v")
    case True
    then show ?thesis using q by (auto simp: s'_def unless_stuck_def quietly_def responds_def)
  next
    case False
    then have "responds (publish_sets G io ?v) (fin (publish_sets G io ?v))"
      using publish_sets_frame(1) [of ?v G io] by (intro fin(2)) (simp add: same_core_def)
    then have "responds s (fin (publish_sets G io ?v))"
      by (rule quietly_responds [OF quietly_trans [OF q publish_sets_frame(2)]])
    then show ?thesis using False by (simp add: s'_def unless_stuck_def)
  qed
qed

lemma pk_invD:
  "pk_inv G s \<Longrightarrow> repo_wf (repo s)" "pk_inv G s \<Longrightarrow> length (roots s) \<le> MAX_PACKAGES"
  "pk_inv G s \<Longrightarrow> distinct (running s)"
  by (simp_all add: pk_inv_def)

lemma responds_cong: "pk_out t = pk_out s \<Longrightarrow> channel t = channel s \<Longrightarrow> responds t s' \<longleftrightarrow> responds s s'"
  by (simp add: responds_def)

lemma add_root_frame [simp]:
  "repo (add_root n s) = repo s" "running (add_root n s) = running s" "installed (add_root n s) = installed s"
  "pk_blocked (add_root n s) = pk_blocked s" "opened (add_root n s) = opened s" "pk_store (add_root n s) = pk_store s"
  "app_armed (add_root n s) = app_armed s" "driver_armed (add_root n s) = driver_armed s"
  "pk_out (add_root n s) = pk_out s" "channel (add_root n s) = channel s"
  by (simp_all add: add_root_def)

lemma add_root_length: "length (roots s) \<le> MAX_PACKAGES \<Longrightarrow> length (roots (add_root n s)) \<le> MAX_PACKAGES"
  by (simp add: add_root_def)

lemma length_drop_root: "length (drop_root n rs) \<le> length rs"
  by (auto simp: drop_root_def split: option.split)

text \<open>What an accepted install leaves: the re-derived sets of the extended roots.\<close>

lemma do_install_sets:
  fixes G :: genode and io :: pk_io and s :: pkgd and pkg :: string
  assumes ok: "resolvable G (repo s) pkg" and wf: "repo_wf (repo s)"
    and adm: "install_refusal G io pkg (resolve_in G pkg s) = None"
  defines "r \<equiv> rederive G (add_root pkg (resolve_in G pkg s))"
  shows "repo (do_install G io pkg s) = repo s" "roots (do_install G io pkg s) = roots (add_root pkg s)"
    "installed (do_install G io pkg s) = installed r" "running (do_install G io pkg s) = running r"
    "pk_blocked (do_install G io pkg s) = pk_blocked (save_roots (rq_save io) r)"
    "opened (do_install G io pkg s) = opened s" "pk_store (do_install G io pkg s) = pk_store s"
    "app_armed (do_install G io pkg s) = app_armed s" "driver_armed (do_install G io pkg s) = driver_armed s"
proof -
  let ?v = "save_roots (rq_save io) r" let ?k = "root_index (resolve_in G pkg s)"
  have rok: "rok (rsv (resolve_in G pkg s))" using ok resolve_rok [OF wf] by simp
  let ?fin = "\<lambda>t. report_install_ok pkg (slots t ! ?k) (filter (\<lambda>n. n \<notin> set (names s)) (names t)) t"
  have eq: "do_install G io pkg s = unless_stuck (\<lambda>t. ?fin (publish_sets G io t)) ?v"
    using rok adm by (simp add: do_install_def Let_def r_def)
  have "same_core ?v (?fin (publish_sets G io ?v))"
    by (rule same_core_trans [OF publish_sets_frame(1) answers_core(3)])
  then have c: "same_core ?v (do_install G io pkg s)" by (simp add: eq unless_stuck_def)
  have "roots (add_root pkg (resolve_in G pkg s)) = roots (add_root pkg s)" by (simp add: add_root_def)
  then show "repo (do_install G io pkg s) = repo s" "roots (do_install G io pkg s) = roots (add_root pkg s)"
    "installed (do_install G io pkg s) = installed r" "running (do_install G io pkg s) = running r"
    "pk_blocked (do_install G io pkg s) = pk_blocked ?v" "opened (do_install G io pkg s) = opened s"
    "pk_store (do_install G io pkg s) = pk_store s"
    "app_armed (do_install G io pkg s) = app_armed s" "driver_armed (do_install G io pkg s) = driver_armed s"
    using c by (simp_all add: same_core_def r_def rederive_frame)
qed

lemma do_install_frame:
  assumes inv: "pk_inv G s" and nb: "\<not> pk_blocked s"
  shows "pk_inv G (do_install G io pkg s)" "responds s (do_install G io pkg s)"
proof -
  let ?r = "resolve_in G pkg s" let ?k = "root_index (resolve_in G pkg s)"
  have ok: "pk_inv G ?r" "\<not> pk_blocked ?r"
    using inv nb pk_inv_cong [OF resolve_in_core(1)] by simp_all
  have "pk_inv G (do_install G io pkg s) \<and> responds ?r (do_install G io pkg s)"
  proof (cases "rok (rsv ?r)")
    case False
    then show ?thesis
      using ok pk_inv_cong [OF answers_core(2)] by (simp add: do_install_def Let_def)
  next
    case True
    show ?thesis
    proof (cases "install_refusal G io pkg ?r")
      case (Some f)
      then show ?thesis
        using ok True pk_inv_cong [OF answers_core(7)]
        by (simp add: do_install_def Let_def split: prod.split)
    next
      case None
      let ?fin = "\<lambda>t. report_install_ok pkg (slots t ! ?k) (filter (\<lambda>n. n \<notin> set (names ?r)) (names t)) t"
      have eq: "do_install G io pkg s = unless_stuck (\<lambda>t. ?fin (publish_sets G io t))
          (save_roots (rq_save io) (rederive G (add_root pkg ?r)))"
        using True None by (simp add: do_install_def Let_def)
      have pre: "repo_wf (repo (add_root pkg ?r))" "length (roots (add_root pkg ?r)) \<le> MAX_PACKAGES"
          "distinct (running (add_root pkg ?r))" "\<not> pk_blocked (add_root pkg ?r)"
        using ok(2) pk_invD [OF ok(1)] add_root_length [of ?r pkg] by simp_all
      have "pk_inv G (do_install G io pkg s)" "responds (add_root pkg ?r) (do_install G io pkg s)"
        unfolding eq by (rule rederive_and_answer [OF pre], simp_all)+
      then show ?thesis by (simp add: responds_cong [of "add_root pkg ?r" ?r])
    qed
  qed
  then show "pk_inv G (do_install G io pkg s)" "responds s (do_install G io pkg s)"
    using quietly_responds [OF resolve_in_core(2)] by auto
qed

lemma do_remove_frame:
  assumes inv: "pk_inv G s" and nb: "\<not> pk_blocked s"
  shows "pk_inv G (do_remove G io pkg s)" "responds s (do_remove G io pkg s)"
proof -
  let ?s = "s\<lparr>roots := drop_root pkg (roots s)\<rparr>"
  let ?fin = "\<lambda>t. report_remove_ok pkg (filter (\<lambda>n. n \<notin> set (names t)) (names s)) t"
  have "pk_inv G (do_remove G io pkg s) \<and> responds s (do_remove G io pkg s)"
  proof (cases "pkg \<in> set (names s)")
    case False
    then show ?thesis using inv nb pk_inv_cong [OF answers_core(2)] by (simp add: do_remove_def)
  next
    case True
    then have eq: "do_remove G io pkg s
        = unless_stuck (\<lambda>t. ?fin (publish_sets G io t)) (save_roots (rq_save io) (rederive G ?s))"
      by (simp add: do_remove_def Let_def)
    have pre: "repo_wf (repo ?s)" "length (roots ?s) \<le> MAX_PACKAGES" "distinct (running ?s)" "\<not> pk_blocked ?s"
      using nb pk_invD [OF inv] length_drop_root [of pkg "roots s"] by simp_all
    have "pk_inv G (do_remove G io pkg s)" "responds ?s (do_remove G io pkg s)"
      unfolding eq by (rule rederive_and_answer [OF pre], simp_all)+
    then show ?thesis by (simp add: responds_cong [of ?s s])
  qed
  then show "pk_inv G (do_remove G io pkg s)" "responds s (do_remove G io pkg s)" by auto
qed

text \<open>The launch: every refusal leaves the sets alone, and a start adds an installed name.\<close>

lemma publish_sets_out:
  "\<exists>r d i. pk_out (publish_sets G io s) = pk_out s @ [Runtime r, Driver_runtime d, Installed_report i]"
  by (auto simp: publish_sets_def generate_runtime_config_def emit_runtime_config_def
      generate_installed_report_def pk_emit_def Let_def)

lemma start_package_frame:
  assumes inv: "pk_inv G s" and nb: "\<not> pk_blocked s" and inst: "pkg \<in> set (names s)"
  shows "pk_inv G (start_package G io pkg s)" "responds s (start_package G io pkg s)"
proof -
  let ?s = "s\<lparr>running := add_name pkg (running s)\<rparr>"
  have len: "length pkg < 64" using inv inst fresh_inv_names by (fastforce simp: pk_inv_def)
  have "pk_inv G ?s" using inv inst len by (auto simp: pk_inv_def auto_names_def add_name_def)
  moreover have "same_core ?s (start_package G io pkg s)"
    unfolding start_package_def by (rule same_core_trans [OF publish_sets_frame(1) answers_core(5)])
  ultimately show "pk_inv G (start_package G io pkg s)" using pk_inv_cong by blast
  have "\<not> pk_blocked (publish_sets G io ?s)" using publish_sets_frame(1) [of ?s G io] nb by (simp add: same_core_def)
  then have "responds ?s (start_package G io pkg s)"
    unfolding start_package_def by (intro quietly_responds [OF publish_sets_frame(2) answers_respond(5)])
  then show "responds s (start_package G io pkg s)" by (simp add: responds_cong [of ?s s])
qed

lemma do_launch_frame:
  assumes inv: "pk_inv G s" and nb: "\<not> pk_blocked s"
  shows "pk_inv G (do_launch G io pkg s)" "responds s (do_launch G io pkg s)"
proof -
  have "pk_inv G (do_launch G io pkg s) \<and> responds s (do_launch G io pkg s)"
  proof (cases "find (\<lambda>p. pname p = pkg) (installed s)")
    case None
    then show ?thesis using inv nb pk_inv_cong [OF answers_core(5)] by (simp add: do_launch_def)
  next
    case (Some p)
    then have inst: "pkg \<in> set (names s)" by (auto simp: find_Some_iff)
    show ?thesis
      using Some inv nb pk_inv_cong [OF answers_core(5)] pk_inv_cong [OF answers_core(7)]
        pk_inv_cong [OF answers_core(8)] start_package_frame [OF inv nb inst]
      by (simp add: do_launch_def split: option.split prod.split bool.split)
  qed
  then show "pk_inv G (do_launch G io pkg s)" "responds s (do_launch G io pkg s)" by auto
qed

lemma pkg_dispatch_frame:
  assumes inv: "pk_inv G s" and nb: "\<not> pk_blocked s"
  shows "pk_inv G (pkg_dispatch G io op pkg s)" "responds s (pkg_dispatch G io op pkg s)"
  using inv nb pk_inv_cong [OF answers_core(2)] pk_inv_cong [OF answers_core(6)]
    pk_inv_cong [OF do_explain_frame(1)] do_explain_frame(2) do_install_frame do_remove_frame do_launch_frame
  by (simp_all add: pkg_dispatch_def pkg_do_list_def)

lemma pkg_handle_request_impl_frame:
  assumes inv: "pk_inv G s" and nb: "\<not> pk_blocked s"
  shows "pk_inv G (pkg_handle_request_impl G io req s)" "responds s (pkg_handle_request_impl G io req s)"
proof -
  let ?s = "s\<lparr>pk_last_sig := pkg_request_sig req\<rparr>"
  have "pk_inv G ?s" using inv by (simp add: pk_inv_def auto_names_def)
  moreover have "\<not> pk_blocked ?s" using nb by simp
  ultimately have d: "pk_inv G (pkg_dispatch G io op pkg ?s)" "responds s (pkg_dispatch G io op pkg ?s)" for op pkg
    using pkg_dispatch_frame [of G ?s io op pkg] responds_cong [of ?s s] by simp_all
  show "pk_inv G (pkg_handle_request_impl G io req s)" "responds s (pkg_handle_request_impl G io req s)"
    using inv nb d pk_inv_cong [OF answers_core(2)] pk_inv_cong [OF replay_frame(1)] replay_frame(2)
    by (simp_all add: pkg_handle_request_impl_def)
qed

lemma new_request:
  "\<not> pk_blocked s \<Longrightarrow> ch \<in> opened s \<Longrightarrow> has_type req ''request'' \<Longrightarrow> pkg_request_sig req \<noteq> pk_last_sig s
    \<Longrightarrow> pk_step G (Request ch (Rom_node req) io) s
      = pkg_dispatch G io (attr_str 32 req ''op'') (attr_str 128 req ''pkg'')
          (s\<lparr>channel := ch, pk_last_sig := pkg_request_sig req\<rparr>)"
  by (simp add: unless_stuck_def pkg_handle_request_def pkg_handle_request_impl_def)

lemma pkg_handle_request_inv:
  assumes "pk_inv G s" and "\<not> pk_blocked s"
  shows "pk_inv G (pkg_handle_request G ch r io s)"
proof -
  have "pk_inv G (s\<lparr>channel := ch\<rparr>)" using assms(1) by (simp add: pk_inv_def auto_names_def)
  then show ?thesis
    using assms pkg_handle_request_impl_frame(1) [of G "s\<lparr>channel := ch\<rparr>"] pk_inv_cong [OF answers_core(2)]
    by (simp add: pkg_handle_request_def Let_def split: rom.split)
qed

lemma pkg_handle_request_extends:
  assumes "pk_inv G s" and "\<not> pk_blocked s"
  shows "\<exists>new. pk_out (pkg_handle_request G ch r io s) = pk_out s @ new"
proof -
  let ?s = "s\<lparr>channel := ch\<rparr>"
  have i: "pk_inv G ?s" "\<not> pk_blocked ?s" using assms by (simp_all add: pk_inv_def auto_names_def)
  have e: "\<exists>new. pk_out t = pk_out s @ new" if "responds ?s t" for t
    using that by (auto simp: responds_def split: if_splits)
  show ?thesis
    using e [OF pkg_handle_request_impl_frame(2) [OF i]] e [OF answers_respond(2) [OF i(2)]]
    by (simp add: pkg_handle_request_def Let_def split: rom.split)
qed

lemma pkg_handle_request_responds:
  assumes "pk_inv G s" and "\<not> pk_blocked s" and "ch \<in> opened s" and "r \<noteq> Rom_invalid"
  shows "responds (s\<lparr>channel := ch\<rparr>) (pkg_handle_request G ch r io s)"
proof -
  have i: "pk_inv G (s\<lparr>channel := ch\<rparr>)" "\<not> pk_blocked (s\<lparr>channel := ch\<rparr>)"
    using assms(1,2) by (simp_all add: pk_inv_def auto_names_def)
  show ?thesis
    using assms(3,4) pkg_handle_request_impl_frame(2) [OF i] answers_respond(2) [OF i(2)]
    by (simp add: pkg_handle_request_def Let_def split: rom.split)
qed

section \<open>Boot\<close>

text \<open>During the boot nothing is installed and nothing runs until the roots are known.\<close>

definition booting :: "pkgd \<Rightarrow> bool" where
  "booting s \<longleftrightarrow> repo_wf (repo s) \<and> installed s = [] \<and> running s = [] \<and> length (roots s) \<le> MAX_PACKAGES"

lemma booting_stuck: "booting s \<Longrightarrow> pk_blocked s \<Longrightarrow> pk_inv G s"
  by (simp add: booting_def pk_inv_def fresh_inv_def auto_names_def)

lemma booting_roots: "booting s \<Longrightarrow> booting (load_roots G io s)"
  by (auto simp: booting_def load_roots_def restore_roots_def
      split: option.split prod.split io_end.split)

lemma booting_seed: "booting s \<Longrightarrow> booting (boot_seed e s)"
  by (auto simp: booting_def boot_seed_def seed_roots_def Let_def split: option.split)

lemma booting_flags: "booting s \<Longrightarrow> booting (init_driver_admission c (init_admission c (load_binaries c b s)))"
  by (simp add: booting_def init_driver_admission_def init_admission_def load_binaries_def split: rom.split)

lemma flags_blocked: "pk_blocked (init_driver_admission c (init_admission c (load_binaries c b s))) = pk_blocked s"
  by (simp add: init_driver_admission_def init_admission_def load_binaries_def split: rom.split)

lemma rederive_none:
  assumes "booting s" and "\<not> pk_blocked s"
  shows "pk_inv G (sync_running (if roots s \<noteq> [] then sync_installed G s else s))"
proof (cases "roots s = []")
  case True
  have "sync_running s = s\<lparr>running := []\<rparr>" using assms(1) by (simp add: booting_def sync_running_def)
  then show ?thesis
    using True assms(1) by (simp add: booting_def pk_inv_def fresh_inv_def auto_names_def closure_def)
next
  case False
  then show ?thesis using rederive_inv [of s G] assms by (simp add: booting_def rederive_def)
qed

lemma boot_tail_inv:
  assumes b: "booting s" and nb: "\<not> pk_blocked s"
  shows "pk_inv G (boot_tail G e s)"
proof -
  let ?f = "init_driver_admission (pe_config e) (init_admission (pe_config e)
      (load_binaries (pe_config e) (pe_binaries e) s))"
  let ?r = "sync_running (if roots ?f \<noteq> [] then sync_installed G ?f else ?f)"
  let ?p = "publish_sets G (pe_io e) ?r"
  have fb: "\<not> pk_blocked ?f" using nb by (simp add: flags_blocked)
  then have nr: "\<not> pk_blocked ?r" by (simp add: sync_installed_frame)
  have "pk_inv G ?r" using rederive_none booting_flags [OF b] fb by blast
  then have p: "pk_inv G ?p" by (simp only: pk_inv_cong [OF publish_sets_frame(1)])
  have "\<not> pk_blocked ?p" using publish_sets_frame(1) [of ?r] nr unfolding same_core_def by blast
  then have h: "pk_inv G (pkg_handle_request G Primary (pe_request e) (pe_io e) ?p)"
    by (rule pkg_handle_request_inv [OF p])
  then have "pk_inv G (unless_stuck (init_channels c) (pkg_handle_request G Primary (pe_request e) (pe_io e) ?p))" for c
    by (simp add: pk_inv_def auto_names_def unless_stuck_def init_channels_def)
  then show ?thesis unfolding boot_tail_def Let_def by blast
qed

lemma construct_inv: "pk_inv G (pk_construct G e)"
proof -
  let ?s0 = "read_prefix (pe_config e) (pkgd_init (pe_meta e))"
  let ?s1 = "init_pk_store (pe_config e) (?s0\<lparr>repo := load_index (pe_index e) (repo ?s0)\<rparr>)"
  let ?s2 = "load_roots G (pe_load e) ?s1"
  have "repo_wf (repo ?s0)" by (simp add: read_prefix_def pkgd_init_def repo_wf_def split: rom.split)
  then have "booting ?s1"
    using load_index_wf [of "repo ?s0" "pe_index e"]
    by (auto simp: booting_def init_pk_store_def read_prefix_def pkgd_init_def split: rom.splits)
  then have b2: "booting ?s2" by (rule booting_roots)
  then have b3: "booting (unless_stuck (boot_seed e) ?s2)"
    using booting_seed by (simp add: unless_stuck_def)
  have "pk_inv G (unless_stuck (boot_tail G e) (unless_stuck (boot_seed e) ?s2))"
    using booting_stuck [OF b3] boot_tail_inv [OF b3] by (auto simp: unless_stuck_def)
  then show ?thesis by (simp add: pk_construct_def bootstrap_def Let_def)
qed

interpretation pkd: emitting_machine "pk_start G" "pk_step G" "pk_inv G" pk_out for G
proof unfold_locales
  show "pk_inv G s" if "pk_start G s" for s using that construct_inv by (auto simp: pk_start_def)
  show "pk_inv G (pk_step G i s)" if "pk_inv G s" for s i
    using that pkg_handle_request_inv by (cases i) (auto simp: unless_stuck_def)
  show "\<exists>new. pk_out (pk_step G i s) = pk_out s @ new" if "pk_inv G s" for s i
    using that pkg_handle_request_extends by (cases i) (auto simp: unless_stuck_def)
qed

end
