(* ===== verification/Pkgd_Props.thy ===== *)
theory Pkgd_Props
  imports Pkgd_Inv
begin

text \<open>
  The properties of \<open>sponge_pkgd\<close>. The concrete instances use a repository of four packages: an
  editor that needs a library, and two frame-buffer drivers of one exclusive group.
\<close>

section \<open>A small repository\<close>

definition demo_genode :: genode where
  "demo_genode = \<lparr>key_known = \<lambda>n. False, parse_xml = \<lambda>t. None, parse_hid = \<lambda>t. leaf t [],
     to_u32 = \<lambda>t. None, to_bool = \<lambda>t. None, ser_config = \<lambda>x. None, print_nat = \<lambda>n. ''#'',
     report_fits = \<lambda>b n. True\<rparr>"

definition demo_meta_doc :: "string \<Rightarrow> string list \<Rightarrow> xml list \<Rightarrow> rom" where
  "demo_meta_doc name ds extra = Rom_node (node ''package'' []
     ([Elem ''name'' [] [] name, Elem ''version'' [] [] ''1'', Elem ''description'' [] [] ''demo'']
      @ extra @ [node ''dependencies'' [] (map (Elem ''pkg'' [] []) ds)]))"

definition demo_driver :: "xml list" where
  "demo_driver = [leaf ''autostart'' [], Elem ''kind'' [] [] ''driver'', leaf ''exclusive'' [(''group'', ''fb'')]]"

definition demo_meta :: "string \<Rightarrow> rom" where
  "demo_meta l =
     (if l = ''pkg_edit.xml'' then demo_meta_doc ''edit'' [''lib''] []
      else if l = ''pkg_lib.xml'' then demo_meta_doc ''lib'' [] []
      else if l = ''pkg_fba.xml'' then demo_meta_doc ''fba'' [] demo_driver
      else if l = ''pkg_fbb.xml'' then demo_meta_doc ''fbb'' [] demo_driver
      else Rom_invalid)"

definition demo_repo :: repo where
  "demo_repo = \<lparr>known = [''edit'', ''lib'', ''fba'', ''fbb''], index_loaded = True, binary_prefix = [],
     meta_rom = demo_meta\<rparr>"

definition demo_package :: "string \<Rightarrow> package" where
  "demo_package n = new_package\<lparr>pname := n, pversion := ''1'', pdescription := ''demo'', pbinary := n,
     pram := ''32M'', pcaps := 512, pvalid := True\<rparr>"

definition demo_entry :: "string \<Rightarrow> package" where
  "demo_entry n =
     (if n = ''edit'' then (demo_package n)\<lparr>deps := [''lib'']\<rparr>
      else if n = ''lib'' then demo_package n
      else (demo_package n)\<lparr>has_autostart := True, pkind := ''driver'', exclusive_group := ''fb''\<rparr>)"

lemma known_demo [simp]: "known demo_repo = [''edit'', ''lib'', ''fba'', ''fbb'']"
  by (simp add: demo_repo_def)

lemma demo_metadata:
  "metadata demo_genode demo_repo n = (if n \<in> set (known demo_repo) then Some (demo_entry n) else None)"
proof -
  have "metadata demo_genode demo_repo n = Some (demo_entry n)" if "n \<in> set (known demo_repo)"
  proof -
    have "n = ''edit'' \<or> n = ''lib'' \<or> n = ''fba'' \<or> n = ''fbb''" using that by (simp add: demo_repo_def)
    then show ?thesis
      by (elim disjE; simp add: metadata_def load_package_def demo_repo_def demo_meta_def demo_meta_doc_def
          demo_driver_def parse_package_def parse_child_def missing_element_def kids_of_type_def
          fill_package_def demo_entry_def demo_package_def new_package_def add_dep_def attr_str_def gstr_def Let_def)
  qed
  moreover have "metadata demo_genode demo_repo n = None" if "n \<notin> set (known demo_repo)"
    using that metadata_known by fastforce
  ultimately show ?thesis by simp
qed

lemma demo_repo_wf: "repo_wf demo_repo"
  by (simp add: repo_wf_def demo_repo_def)

lemma demo_well_named: "well_named demo_genode demo_repo"
  by (auto simp: well_named_def demo_metadata demo_entry_def demo_package_def split: if_splits)

lemma demo_requires: "requires demo_genode demo_repo a b \<longleftrightarrow> a = ''edit'' \<and> b = ''lib''"
  by (auto simp: requires_def demo_metadata demo_entry_def demo_package_def new_package_def)

lemma demo_needs: "needs demo_genode demo_repo a b \<longleftrightarrow> a = b \<or> a = ''edit'' \<and> b = ''lib''"
proof
  show "needs demo_genode demo_repo a b" if "a = b \<or> a = ''edit'' \<and> b = ''lib''"
    using that demo_requires by auto
  show "a = b \<or> a = ''edit'' \<and> b = ''lib''" if "needs demo_genode demo_repo a b"
    using that by (induction rule: rtranclp_induct) (auto simp: demo_requires)
qed

lemma demo_acyclic: "\<not> (requires demo_genode demo_repo)\<^sup>+\<^sup>+ n n"
  by (auto simp: demo_requires demo_needs dest!: tranclpD)

definition demo_index :: rom where
  "demo_index = Rom_node (node ''packages'' [] (map (\<lambda>n. leaf ''pkg'' [(''name'', n)]) (known demo_repo)))"

definition demo_save :: save_io where
  "demo_save = \<lparr>sv_open = Open_ok, sv_create = Open_ok, sv_trunc = True, sv_writes = [], sv_syncs = [], sv_synced = True, sv_rename = True\<rparr>"

definition demo_io :: pk_io where
  "demo_io = \<lparr>rq_save = demo_save, rq_config = None, rq_budget = \<lambda>d k. None\<rparr>"

definition demo_env :: pk_env where
  "demo_env = \<lparr>pe_config = Rom_invalid, pe_meta = demo_meta, pe_index = demo_index,
     pe_load = \<lparr>ld_stat = None, ld_open = Open_err, ld_reads = []\<rparr>, pe_manifest = None, pe_seed = demo_save,
     pe_binaries = Rom_invalid, pe_request = Rom_invalid, pe_io = demo_io\<rparr>"

definition demo_request :: "string \<Rightarrow> string \<Rightarrow> rom" where
  "demo_request op pkg = Rom_node (leaf ''request'' [(''op'', op), (''pkg'', pkg)])"

lemma demo_start: "pk_start demo_genode (pk_construct demo_genode demo_env)"
  by (auto simp: pk_start_def)

section \<open>Resolution\<close>

text \<open>
  C1: the resolver decides the dependency graph. It never runs out of depth; it succeeds exactly
  when everything the root needs has metadata and nothing of it needs itself; and then the plan is
  exactly what the root needs, without duplicates, every dependency before its dependents and the
  root last.
\<close>

theorem resolve_correct:
  assumes "repo_wf R"
  shows "\<not> starved (resolve G R inst root) \<and>
    (rok (resolve G R inst root) \<longleftrightarrow>
       (\<forall>n. needs G R root n \<longrightarrow> metadata G R n \<noteq> None \<and> \<not> (requires G R)\<^sup>+\<^sup>+ n n)) \<and>
    (rok (resolve G R inst root) \<longrightarrow>
       (\<exists>ns. plan (resolve G R inst root) = map (plan_entry G R inst) ns \<and> distinct ns \<and>
          set ns = {n. needs G R root n} \<and> topological (requires G R) ns \<and> last ns = root))"
  using resolve_starved [OF assms] resolve_rok [OF assms, unfolded resolvable_def]
    resolve_plan [OF assms, of G inst root] by blast

theorem resolve_correct_witness:
  "rok (resolve demo_genode demo_repo [] ''edit'') \<and>
   (\<exists>ns. plan (resolve demo_genode demo_repo [] ''edit'') = map (plan_entry demo_genode demo_repo []) ns \<and>
      set ns = {''edit'', ''lib''} \<and> last ns = ''edit'') \<and>
   \<not> rok (resolve demo_genode demo_repo [] ''missing'')"
proof -
  note edit = resolve_correct [OF demo_repo_wf, of demo_genode "[]" "''edit''"]
  have ok: "rok (resolve demo_genode demo_repo [] ''edit'')"
    using edit demo_acyclic by (auto simp: demo_needs demo_metadata)
  moreover have "metadata demo_genode demo_repo ''missing'' = None" by (simp add: demo_metadata)
  then have "\<not> rok (resolve demo_genode demo_repo [] ''missing'')"
    using resolve_correct [OF demo_repo_wf, of demo_genode "[]" "''missing''"] by blast
  moreover have "{n. needs demo_genode demo_repo ''edit'' n} = {''edit'', ''lib''}"
    by (auto simp: demo_needs)
  ultimately show ?thesis using edit by metis
qed

section \<open>The installed and the running set\<close>

text \<open>
  C3: in every reachable state whose handlers are not waiting for the file system, the installed
  set is exactly what the resolvable roots need. So an install brings all dependencies, a removal
  collects every package that no other root needs, a reboot restores the set from the roots, and
  nothing is installed twice.
\<close>

theorem installed_is_closure:
  assumes "pk_start G s" and "t = run (pk_step G) s es" and "\<not> pk_blocked t" and "well_named G (repo t)"
  shows "set (names t) = {n. \<exists>r \<in> set (roots t). resolvable G (repo t) r \<and> needs G (repo t) r n}
    \<and> distinct (names t) \<and> length (installed t) \<le> MAX_PACKAGES"
  using pkd.reach_inv [OF assms(1), of es] assms(2-4) by (auto simp: pk_inv_def closure_def fresh_inv_def)

text \<open>What the concrete runs start from: the repository is loaded and nothing is installed.\<close>

definition demo_fresh :: "pkgd \<Rightarrow> bool" where
  "demo_fresh s \<longleftrightarrow> repo s = demo_repo \<and> roots s = [] \<and> \<not> pk_blocked s \<and> \<not> app_armed s \<and> \<not> driver_armed s
     \<and> \<not> pk_store s \<and> opened s = {Primary} \<and> pk_last_sig s = []"

lemma demo_fresh_sync: "demo_fresh s \<Longrightarrow> demo_fresh (sync_running s)"
  by (simp add: demo_fresh_def sync_running_def)

lemma demo_fresh_publish: "demo_fresh s \<Longrightarrow> demo_fresh (publish_sets G io s)"
  using publish_sets_frame(1) [of s G io] by (simp add: same_core_def demo_fresh_def)

lemma demo_fresh_channel: "demo_fresh s \<Longrightarrow> demo_fresh (s\<lparr>channel := ch\<rparr>)"
  by (simp add: demo_fresh_def)

lemma demo_construct: "demo_fresh (pk_construct demo_genode demo_env)"
proof -
  let ?s0 = "read_prefix (pe_config demo_env) (pkgd_init (pe_meta demo_env))"
  let ?s1 = "init_pk_store (pe_config demo_env) (?s0\<lparr>repo := load_index (pe_index demo_env) (repo ?s0)\<rparr>)"
  have s1: "demo_fresh ?s1"
    by (simp add: demo_fresh_def init_pk_store_def has_sub_node_def read_prefix_def demo_env_def pkgd_init_def
        load_index_def demo_index_def kids_of_type_def attr_str_def demo_repo_def)
  have no: "\<not> has_sub_node (pe_config demo_env) x" for x by (simp add: has_sub_node_def demo_env_def)
  have s2: "boot_seed demo_env (load_roots demo_genode (pe_load demo_env) ?s1) = ?s1"
    "load_roots demo_genode (pe_load demo_env) ?s1 = ?s1"
    using s1 no by (simp_all add: demo_fresh_def load_roots_def boot_seed_def seed_roots_def)
  have c: "pk_construct demo_genode demo_env = boot_tail demo_genode demo_env ?s1"
    using s1 s2 by (simp add: demo_fresh_def pk_construct_def bootstrap_def unless_stuck_def Let_def)
  have f: "init_driver_admission (pe_config demo_env) (init_admission (pe_config demo_env)
      (load_binaries (pe_config demo_env) b s)) = s" for b s
    using no by (simp add: init_driver_admission_def init_admission_def load_binaries_def)
  let ?p = "publish_sets demo_genode (pe_io demo_env) (sync_running ?s1)"
  have "demo_fresh ?p" using s1 by (intro demo_fresh_publish demo_fresh_sync)
  then have "demo_fresh (?p\<lparr>channel := Primary\<rparr>)" by (rule demo_fresh_channel)
  moreover have "boot_tail demo_genode demo_env ?s1 = ?p\<lparr>channel := Primary\<rparr>"
  proof -
    have r: "roots ?s1 = []" using s1 unfolding demo_fresh_def by blast
    have o: "opened ?p = {Primary}" "\<not> pk_blocked ?p" using \<open>demo_fresh ?p\<close> unfolding demo_fresh_def by blast+
    have q: "pe_request demo_env = Rom_invalid" by (simp add: demo_env_def)
    have h: "pkg_handle_request demo_genode Primary (pe_request demo_env) (pe_io demo_env) ?p = ?p\<lparr>channel := Primary\<rparr>"
      unfolding pkg_handle_request_def q Let_def o by simp
    have i: "init_channels (pe_config demo_env) (?p\<lparr>channel := Primary\<rparr>) = ?p\<lparr>channel := Primary\<rparr>"
      using no by (simp add: init_channels_def)
    show ?thesis
      unfolding boot_tail_def Let_def f unless_stuck_def using r h i by simp
  qed
  ultimately show ?thesis using c by simp
qed

lemma demo_install:
  assumes fresh: "demo_fresh s" and known: "n \<in> set (known demo_repo)"
  defines "t \<equiv> pk_step demo_genode (Request Primary (demo_request ''install'' n) demo_io) s"
  shows "repo t = demo_repo" "roots t = [n]" "\<not> pk_blocked t" "\<not> pk_store t" "\<not> app_armed t" "\<not> driver_armed t"
proof -
  let ?s = "s\<lparr>channel := Primary, pk_last_sig := ''install|'' @ n @ ''|''\<rparr>"
  have n: "n = ''edit'' \<or> n = ''lib'' \<or> n = ''fba'' \<or> n = ''fbb''" using known by simp
  then have sig: "pkg_request_sig (leaf ''request'' [(''op'', ''install''), (''pkg'', n)]) = ''install|'' @ n @ ''|''"
    by (auto simp: pkg_request_sig_def attr_str_def)
  let ?q = "leaf ''request'' [(''op'', ''install''), (''pkg'', n)]"
  have "t = pkg_dispatch demo_genode demo_io (attr_str 32 ?q ''op'') (attr_str 128 ?q ''pkg'')
      (s\<lparr>channel := Primary, pk_last_sig := pkg_request_sig ?q\<rparr>)"
    unfolding t_def demo_request_def using fresh sig by (intro new_request) (simp_all add: demo_fresh_def)
  moreover have "attr_str 32 ?q ''op'' = ''install''" "attr_str 128 ?q ''pkg'' = n" "n \<noteq> []"
    using n by (auto simp: attr_str_def)
  ultimately have t: "t = do_install demo_genode demo_io n ?s" using sig by (simp add: pkg_dispatch_def)
  have r: "resolvable demo_genode (repo ?s) n"
    using fresh known demo_acyclic by (auto simp: demo_fresh_def resolvable_def demo_needs demo_metadata)
  have "install_refusal demo_genode demo_io n (resolve_in demo_genode n ?s) = None"
    using fresh by (simp add: demo_fresh_def install_refusal_def)
  moreover have "repo_wf (repo ?s)" using fresh demo_repo_wf by (simp add: demo_fresh_def)
  ultimately have sets: "repo t = repo ?s" "roots t = roots (add_root n ?s)"
      "pk_blocked t = pk_blocked (save_roots (rq_save demo_io) (rederive demo_genode
         (add_root n (resolve_in demo_genode n ?s))))"
      "pk_store t = pk_store ?s" "app_armed t = app_armed ?s" "driver_armed t = driver_armed ?s"
    using do_install_sets [OF r] unfolding t by blast+
  have s: "repo s = demo_repo" "roots s = []" "\<not> pk_blocked s" "\<not> pk_store s" "\<not> app_armed s" "\<not> driver_armed s"
    using fresh unfolding demo_fresh_def by blast+
  show "\<not> pk_store t" "\<not> app_armed t" "\<not> driver_armed t" using sets(4-6) s by simp_all
  show "repo t = demo_repo" using sets(1) s by simp
  show "roots t = [n]" using sets(2) s n by (auto simp: add_root_def)
  show "\<not> pk_blocked t" using sets(3) s by (simp add: rederive_frame save_roots_def)
qed

theorem installed_is_closure_witness:
  "set (names (run (pk_step demo_genode) (pk_construct demo_genode demo_env)
     [Request Primary (demo_request ''install'' ''edit'') demo_io])) = {''edit'', ''lib''}"
proof -
  let ?es = "[Request Primary (demo_request ''install'' ''edit'') demo_io]"
  let ?t = "run (pk_step demo_genode) (pk_construct demo_genode demo_env) ?es"
  have t: "repo ?t = demo_repo" "roots ?t = [''edit'']" "\<not> pk_blocked ?t"
    using demo_install [of "pk_construct demo_genode demo_env" "''edit''"] demo_construct by simp_all
  have "resolvable demo_genode demo_repo ''edit''"
    using demo_acyclic by (auto simp: resolvable_def demo_needs demo_metadata)
  then show ?thesis
    using installed_is_closure [OF demo_start refl t(3)] t demo_well_named by (auto simp: demo_needs)
qed

text \<open>
  C7: in every reachable state, also while a handler waits, the running set holds installed packages
  only, each once, and every installed autostart package; and there are never more than 32 roots,
  installed or running packages, so none of the fixed arrays overflows.
\<close>

theorem running_set_invariant:
  assumes "pk_start G s" and "t = run (pk_step G) s es"
  shows "distinct (running t) \<and> set (running t) \<subseteq> set (names t)
    \<and> (\<forall>p \<in> set (installed t). has_autostart p \<longrightarrow> pname p \<in> set (running t))
    \<and> length (roots t) \<le> MAX_PACKAGES \<and> length (installed t) \<le> MAX_PACKAGES \<and> length (running t) \<le> MAX_PACKAGES"
proof -
  have inv: "pk_inv G t" using pkd.reach_inv [OF assms(1)] assms(2) by simp
  then have sub: "distinct (running t)" "set (running t) \<subseteq> set (names t)" "length (installed t) \<le> MAX_PACKAGES"
    by (simp_all add: pk_inv_def fresh_inv_def)
  have "card (set (running t)) \<le> card (set (names t))" using sub(2) by (intro card_mono) auto
  also have "\<dots> \<le> length (installed t)" using card_length [of "names t"] by simp
  finally have "length (running t) \<le> MAX_PACKAGES" using sub by (simp add: distinct_card)
  then show ?thesis using inv sub by (auto simp: pk_inv_def auto_names_def)
qed

theorem running_set_invariant_witness:
  "distinct (running (run (pk_step demo_genode) (pk_construct demo_genode demo_env)
     [Request Primary (demo_request ''install'' ''fba'') demo_io]))"
  using running_set_invariant [OF demo_start refl] by blast

text \<open>
  C25: in every reachable state a request that arrives on an open channel as a document or as
  malformed text is answered exactly once, on that channel and after everything else it causes,
  whether it is new, a duplicate, refused or unknown; only a request that hangs in the file system
  has no answer.
\<close>

theorem request_answered:
  assumes "pk_start G s0" and "s = run (pk_step G) s0 es" and "\<not> pk_blocked s" and "ch \<in> opened s"
    and "r \<noteq> Rom_invalid" and "t = pk_step G (Request ch r io) s"
  shows "\<exists>mid. list_all silent mid \<and>
    (if pk_blocked t then pk_out t = pk_out s @ mid
     else \<exists>x. pk_out t = pk_out s @ mid @ [Answer ch x])"
proof -
  have "pk_inv G s" using pkd.reach_inv [OF assms(1)] assms(2) by simp
  moreover have t: "t = pkg_handle_request G ch r io s" using assms(3,6) by (simp add: unless_stuck_def)
  ultimately obtain mid where "list_all silent mid"
      "if pk_blocked t then pk_out t = pk_out (s\<lparr>channel := ch\<rparr>) @ mid
       else \<exists>x. pk_out t = pk_out (s\<lparr>channel := ch\<rparr>) @ mid @ [Answer (channel (s\<lparr>channel := ch\<rparr>)) x]"
    using pkg_handle_request_responds [OF _ assms(3-5), of G io] unfolding t responds_def by blast
  then show ?thesis by (intro exI [of _ mid]) (simp split: if_splits)
qed

theorem request_answered_witness:
  "\<exists>mid. list_all silent mid \<and>
    (if pk_blocked (pk_step demo_genode (Request Primary Rom_malformed demo_io) (pk_construct demo_genode demo_env))
     then pk_out (pk_step demo_genode (Request Primary Rom_malformed demo_io) (pk_construct demo_genode demo_env))
       = pk_out (pk_construct demo_genode demo_env) @ mid
     else \<exists>x. pk_out (pk_step demo_genode (Request Primary Rom_malformed demo_io) (pk_construct demo_genode demo_env))
       = pk_out (pk_construct demo_genode demo_env) @ mid @ [Answer Primary x])"
  by (rule request_answered [OF demo_start, where es = "[]"])
     (use demo_construct in \<open>simp_all add: demo_fresh_def\<close>)

section \<open>The configurations of the sandboxes\<close>

definition start_names :: "genode \<Rightarrow> pkgd \<Rightarrow> bool \<Rightarrow> string list" where
  "start_names G s drivers =
     map (\<lambda>n. attr_str 64 n ''name'') (kids_of_type (runtime_xml G s drivers) ''start'')"

lemma runtime_starts:
  "kids_of_type (runtime_xml G s d) ''start'' = map (start_node G (binary_prefix (repo s))) (started s d)"
proof -
  have "filter (\<lambda>k. has_type k ''start'') (map (start_node G pre) ps) = map (start_node G pre) ps" for pre ps
    by (induction ps) (auto simp: start_node_def)
  then show ?thesis by (simp add: kids_of_type_def runtime_xml_def padding_node_def)
qed

lemma sorted_installed_names: "map pname (sorted_installed s) = sort (names s)"
  by (simp only: sorted_installed_def keys_nth_sel_order)

lemma set_sorted_installed: "set (sorted_installed s) = set (installed s)"
  unfolding sorted_installed_def using mset_nth_sel_order [of "installed s" pname] by (rule mset_eq_setD)

lemma started_names:
  assumes "distinct (names s)"
  shows "sorted (map pname (started s d))" "distinct (map pname (started s d))"
    "set (map pname (started s d)) = {pname p | p. p \<in> set (installed s) \<and> is_driver p = d \<and> pname p \<in> set (running s)}"
proof -
  have "sorted (map pname (sorted_installed s))" "distinct (map pname (sorted_installed s))"
    using assms by (simp_all only: sorted_installed_names sorted_sort distinct_sort)
  then show "sorted (map pname (started s d))" "distinct (map pname (started s d))"
    unfolding started_def by (simp_all add: sorted_filter distinct_map_filter)
  show "set (map pname (started s d)) = {pname p | p. p \<in> set (installed s) \<and> is_driver p = d \<and> pname p \<in> set (running s)}"
    by (auto simp: started_def set_sorted_installed)
qed

lemma kinds_disjoint:
  assumes "distinct (map pname ps)"
  shows "{pname p | p. p \<in> set ps \<and> is_driver p = False \<and> pname p \<in> R}
    \<inter> {pname p | p. p \<in> set ps \<and> is_driver p = True \<and> pname p \<in> R} = {}"
proof -
  have "inj_on pname (set ps)" using assms by (simp add: distinct_map)
  then show ?thesis by (force dest: inj_onD)
qed

lemma kinds_cover:
  assumes "R \<subseteq> pname ` set ps"
  shows "{pname p | p. p \<in> set ps \<and> is_driver p = False \<and> pname p \<in> R}
    \<union> {pname p | p. p \<in> set ps \<and> is_driver p = True \<and> pname p \<in> R} = R" (is "?l = R")
proof
  show "R \<subseteq> ?l"
  proof
    fix x assume x: "x \<in> R"
    then obtain p where "p \<in> set ps" "x = pname p" using assms by blast
    with x show "x \<in> ?l" by (cases "is_driver p") auto
  qed
qed auto

text \<open>
  C23: in every reachable state the configuration of a sandbox starts exactly the running packages of
  its kind, in the order of their names. The two lists are functions of the installed and the
  running set alone, so the order in which packages were installed cannot restart a child; no
  package is started twice, or by both sandboxes, or left out.
\<close>

theorem config_starts_running:
  assumes "pk_start G s" and "t = run (pk_step G) s es"
  shows "start_names G t d = sorted_list_of_set
       {pname p | p. p \<in> set (installed t) \<and> is_driver p = d \<and> pname p \<in> set (running t)}
    \<and> set (start_names G t False) \<union> set (start_names G t True) = set (running t)
    \<and> set (start_names G t False) \<inter> set (start_names G t True) = {}"
proof -
  have inv: "pk_inv G t" using pkd.reach_inv [OF assms(1)] assms(2) by simp
  then have dist: "distinct (names t)" and sub: "set (running t) \<subseteq> set (names t)"
    and f: "fresh_inv G (repo t) (installed t)"
    by (simp_all add: pk_inv_def fresh_inv_def)
  have eq: "start_names G t d = map pname (started t d)" for d
    using fresh_inv_names [OF f]
    by (auto simp: start_names_def runtime_starts start_node_def attr_str_def started_def set_sorted_installed)
  have srt: "start_names G t d = sorted_list_of_set (set (start_names G t d))" for d
    using started_names(1,2) [OF dist, of d] unfolding eq
    by (simp only: sorted_list_of_set.idem_if_sorted_distinct)
  have s: "set (start_names G t d)
      = {pname p | p. p \<in> set (installed t) \<and> is_driver p = d \<and> pname p \<in> set (running t)}" for d
    unfolding eq by (rule started_names(3) [OF dist])
  have "set (start_names G t False) \<inter> set (start_names G t True) = {}"
    unfolding s using dist by (rule kinds_disjoint)
  moreover have "set (start_names G t False) \<union> set (start_names G t True) = set (running t)"
    unfolding s by (rule kinds_cover) (use sub in simp)
  moreover have "start_names G t d = sorted_list_of_set
      {pname p | p. p \<in> set (installed t) \<and> is_driver p = d \<and> pname p \<in> set (running t)}"
    using srt [of d] unfolding s [of d] .
  ultimately show ?thesis by blast
qed

theorem config_starts_running_witness:
  "start_names demo_genode (run (pk_step demo_genode) (pk_construct demo_genode demo_env) []) True = []"
proof -
  let ?t = "run (pk_step demo_genode) (pk_construct demo_genode demo_env) []"
  have "set (names ?t) = {}"
    using pkd.reach_inv [OF demo_start, of "[]"] demo_construct demo_well_named
    by (simp add: pk_inv_def closure_def demo_fresh_def)
  then have "{pname p | p. p \<in> set (installed ?t) \<and> is_driver p = True \<and> pname p \<in> set (running ?t)} = {}"
    by simp
  then show ?thesis
    using config_starts_running [OF demo_start refl, of "[]" True] by simp
qed

text \<open>
  The services a sandbox offers its children are its fixed list and the sessions that installed
  packages of its own kind declare, without duplicates, and all of those while there are fewer than
  64. Nothing else enters: the driver sandbox offers no service beyond the five of every component
  that no driver declared. The rule is the same for the application sandbox, so an application
  that declares a hardware session does obtain it.
\<close>

theorem services_of_sandbox:
  "set (if d then driver_base else app_base) \<subseteq> set (provided_services ps d)
   \<and> set (provided_services ps d) \<subseteq> set (if d then driver_base else app_base)
        \<union> {ses_name x | p x. p \<in> set ps \<and> is_driver p = d \<and> x \<in> set (sessions p) \<and> ses_name x \<noteq> []}
   \<and> distinct (provided_services ps d) \<and> length (provided_services ps d) \<le> 64
   \<and> (length (provided_services ps d) < 64 \<longrightarrow> set (provided_services ps d) = set (if d then driver_base else app_base)
        \<union> {ses_name x | p x. p \<in> set ps \<and> is_driver p = d \<and> x \<in> set (sessions p) \<and> ses_name x \<noteq> []})"
proof -
  let ?b = "if d then driver_base else app_base"
  let ?all = "concat (map (\<lambda>p. map ses_name (sessions p)) (filter (\<lambda>p. is_driver p = d) ps))"
  let ?ns = "filter (\<lambda>n. n \<noteq> []) ?all"
  have skip: "fold add_service ns b = fold add_service (filter (\<lambda>n. n \<noteq> []) ns) b" for ns b
    by (induction ns arbitrary: b) (auto simp: add_service_def)
  then have eq: "provided_services ps d = fold add_service ?ns ?b" by (simp add: provided_services_def)
  have v: "\<forall>n \<in> set ?ns. n \<noteq> []" by simp
  have base: "distinct ?b" "length ?b \<le> 64" by (simp_all add: driver_base_def app_base_def)
  have ns: "set ?ns = {ses_name x | p x. p \<in> set ps \<and> is_driver p = d \<and> x \<in> set (sessions p) \<and> ses_name x \<noteq> []}"
    by auto
  show ?thesis
    unfolding eq ns [symmetric]
    using service_set.fold_add_extends [OF v, of ?b] service_set.fold_add_subset [OF v, of ?b]
      service_set.fold_add_distinct [OF v, of ?b] service_set.fold_add_length [OF v, of ?b]
      service_set.fold_add_complete [OF v, of ?b] base
    by (auto simp del: set_filter)
qed

text \<open>An application package that names the hardware session \<open>Platform\<close>.\<close>

theorem services_of_sandbox_witness:
  "''Platform'' \<in> set (provided_services
     [(demo_package ''app'')\<lparr>sessions := [\<lparr>ses_name = ''Platform'', ses_route = [], ses_readonly = False,
        ses_subpath = [], ses_label = []\<rparr>]\<rparr>] False)"
proof -
  let ?p = "(demo_package ''app'')\<lparr>sessions := [\<lparr>ses_name = ''Platform'', ses_route = [], ses_readonly = False,
        ses_subpath = [], ses_label = []\<rparr>]\<rparr>"
  have k: "is_driver ?p = False" by (simp add: is_driver_def demo_package_def new_package_def)
  then have "length (provided_services [?p] False) < 64"
    by (simp add: provided_services_def add_service_def app_base_def)
  then show ?thesis using services_of_sandbox [of False "[?p]"] k by auto
qed

section \<open>Launching\<close>

text \<open>When a package may start: the gates of the launch in terms of the sets and the budget.\<close>

definition group_free :: "pkgd \<Rightarrow> package \<Rightarrow> bool" where
  "group_free s p \<longleftrightarrow> (exclusive p \<longrightarrow> (\<forall>q \<in> set (installed s).
     pname q \<in> set (running s) \<and> exclusive_group q = exclusive_group p \<longrightarrow> pname q = pname p))"

definition budget_allows :: "genode \<Rightarrow> pk_io \<Rightarrow> pkgd \<Rightarrow> package \<Rightarrow> bool" where
  "budget_allows G io s p \<longleftrightarrow> (\<exists>need. quota_bytes (pram p) = Some need \<and>
     (armed (is_driver p) s \<longrightarrow> (\<forall>ram caps. read_budget G (rq_budget io (is_driver p) 0) = Some (ram, caps)
        \<longrightarrow> need + ADMISSION_MARGIN_RAM \<le> ram \<and> pcaps p + ADMISSION_MARGIN_CAPS \<le> caps)))"

definition launchable :: "genode \<Rightarrow> pk_io \<Rightarrow> pkgd \<Rightarrow> string \<Rightarrow> bool" where
  "launchable G io s pkg \<longleftrightarrow> pkg \<notin> set (running s) \<and>
     (\<exists>p \<in> set (installed s). pname p = pkg \<and> group_free s p \<and> binary_available s p \<and> budget_allows G io s p)"

lemma launchable_installed: "launchable G io s pkg \<Longrightarrow> pkg \<in> set (names s)"
  by (auto simp: launchable_def)

lemma exclusive_peer_free:
  assumes "[] \<notin> set (names s)"
  shows "exclusive_peer s p (pname p) = [] \<longleftrightarrow> group_free s p"
proof (cases "exclusive p")
  case True
  have "exclusive q" if "exclusive_group q = exclusive_group p" for q
    using True that by (simp add: exclusive_def)
  moreover have "exclusive_peer s p (pname p) = [] \<longleftrightarrow>
      find (\<lambda>q. exclusive q \<and> pname q \<in> set (running s) \<and> exclusive_group q = exclusive_group p
             \<and> pname q \<noteq> pname p) (installed s) = None" (is "_ \<longleftrightarrow> find ?P _ = None")
  proof (cases "find ?P (installed s)")
    case (Some q)
    then have "q \<in> set (installed s)" by (auto simp: find_Some_iff)
    then have "pname q \<noteq> []" using assms by force
    then show ?thesis using True Some by (simp add: exclusive_peer_def)
  qed (use True in \<open>simp add: exclusive_peer_def\<close>)
  ultimately show ?thesis using True unfolding find_None_iff group_free_def by blast
qed (simp add: exclusive_peer_def group_free_def)

lemma find_installed:
  assumes "distinct (map pname ps)" and "p \<in> set ps"
  shows "find (\<lambda>q. pname q = pname p) ps = Some p"
  using assms by (induction ps) auto

text \<open>A launch that is not allowed answers something other than \<open>ok\<close> and does nothing else.\<close>

lemma refused_launch:
  assumes "\<not> launchable G io s pkg" and "distinct (names s)" and "[] \<notin> set (names s)"
  shows "same_core s (do_launch G io pkg s) \<and>
    (\<exists>x. pk_out (do_launch G io pkg s) = pk_out s @ [Answer (channel s) x] \<and> attr x ''status'' \<noteq> Some ''ok'')"
proof (cases "find (\<lambda>p. pname p = pkg) (installed s)")
  case None
  then show ?thesis by (simp add: do_launch_def) (simp add: report_launch_ok_def record_defs)
next
  case (Some p)
  then have p: "p \<in> set (installed s)" "pname p = pkg" by (auto simp: find_Some_iff)
  have "pkg \<in> set (running s) \<or> exclusive_peer s p pkg \<noteq> [] \<or> \<not> binary_available s p \<or> \<not> budget_allows G io s p"
    using assms(1) p exclusive_peer_free [OF assms(3), of p] by (auto simp: launchable_def)
  then show ?thesis
    using Some
    by (simp add: do_launch_def split: option.split prod.split bool.split)
       (auto simp: report_launch_ok_def report_conflict_def report_insufficient_def record_defs Let_def
          same_core_def budget_allows_def admits_def fits_def not_less split: if_splits option.splits prod.splits)
qed

lemma launch_cases:
  assumes inv: "pk_inv G s" and "[] \<notin> set (names s)" and t0: "t = do_launch G io pkg s"
  shows "installed t = installed s \<and> roots t = roots s \<and>
    (if launchable G io s pkg
     then running t = running s @ [pkg] \<and>
       (\<exists>r d i x. pk_out t = pk_out s @ [Runtime r, Driver_runtime d, Installed_report i, Answer (channel s) x]
          \<and> attr x ''status'' = Some ''ok'')
     else running t = running s \<and>
       (\<exists>x. pk_out t = pk_out s @ [Answer (channel s) x] \<and> attr x ''status'' \<noteq> Some ''ok''))"
proof (cases "launchable G io s pkg")
  case True
  have sets: "distinct (names s)" "distinct (running s)" "set (running s) \<subseteq> set (names s)"
      "length (installed s) \<le> MAX_PACKAGES" "fresh_inv G (repo s) (installed s)"
    using inv by (simp_all add: pk_inv_def fresh_inv_def)
  obtain p where p: "p \<in> set (installed s)" "pname p = pkg" "group_free s p" "binary_available s p"
      "budget_allows G io s p" and new: "pkg \<notin> set (running s)"
    using True by (auto simp: launchable_def)
  obtain need where need: "quota_bytes (pram p) = Some need" using p(5) by (auto simp: budget_allows_def)
  have find: "find (\<lambda>q. pname q = pkg) (installed s) = Some p" using find_installed [OF sets(1) p(1)] p(2) by simp
  obtain ok avail where adm: "admits G s p need (rq_budget io (is_driver p) 0) (0, 0) = (ok, avail)"
    by (rule prod.exhaust)
  have "fst (admits G s p need (rq_budget io (is_driver p) 0) (0, 0))"
    using p(5) need by (auto simp: budget_allows_def admits_def fits_def not_less split: option.split)
  then have t: "t = start_package G io pkg s"
    using t0 find new p need exclusive_peer_free [OF assms(2), of p] adm by (simp add: do_launch_def)
  have "card (set (pkg # running s)) \<le> card (set (names s))"
    using p sets(3) by (intro card_mono) auto
  also have "\<dots> \<le> MAX_PACKAGES" using card_length [of "names s"] sets(4) by simp
  finally have "length (running s) < MAX_PACKAGES" using sets(2) new by (simp add: distinct_card)
  moreover have "length pkg < 64" using fresh_inv_names [OF sets(5) p(1)] p(2) by simp
  ultimately have a: "add_name pkg (running s) = running s @ [pkg]" using new by (simp add: add_name_def)
  let ?s = "s\<lparr>running := running s @ [pkg]\<rparr>"
  obtain r d i where out: "pk_out (publish_sets G io ?s) = pk_out s @ [Runtime r, Driver_runtime d, Installed_report i]"
    using publish_sets_out [of G io ?s] by auto
  have c: "same_core ?s (publish_sets G io ?s)" "channel (publish_sets G io ?s) = channel s"
    using publish_sets_frame [of ?s G io] by (simp_all add: quietly_def)
  have "same_core ?s t"
    unfolding t start_package_def a by (rule same_core_trans [OF c(1) answers_core(5)])
  moreover have "\<exists>x. pk_out t = pk_out s @ [Runtime r, Driver_runtime d, Installed_report i, Answer (channel s) x]
      \<and> attr x ''status'' = Some ''ok''"
    unfolding t start_package_def a using out c(2) by (simp add: report_launch_ok_def record_defs)
  ultimately show ?thesis using True by (auto simp: same_core_def)
next
  case False
  have "distinct (names s)"
    using inv by (simp add: pk_inv_def fresh_inv_def)
  from refused_launch [OF False this assms(2)] show ?thesis using False t0 by (auto simp: same_core_def)
qed

text \<open>
  C16: a launch starts a package exactly when it is installed, does not run yet, no running package
  holds its exclusive group, its binary is staged, and its declared quota plus the margin fits the
  budget its sandbox reports (an unknown budget admits). Then the package is appended to the running
  set and both configurations and the broadcast are published before the answer \<open>ok\<close>; in every
  other case nothing but one answer with another status comes out, and no set changes.
\<close>

theorem launch_starts_iff:
  assumes "pk_start G s0" and "s = run (pk_step G) s0 es" and "[] \<notin> set (names s)"
    and "t = do_launch G io pkg s"
  shows "installed t = installed s \<and> roots t = roots s \<and>
    (if launchable G io s pkg
     then running t = running s @ [pkg] \<and>
       (\<exists>r d i x. pk_out t = pk_out s @ [Runtime r, Driver_runtime d, Installed_report i, Answer (channel s) x]
          \<and> attr x ''status'' = Some ''ok'')
     else running t = running s \<and>
       (\<exists>x. pk_out t = pk_out s @ [Answer (channel s) x] \<and> attr x ''status'' \<noteq> Some ''ok''))"
  using launch_cases [OF _ assms(3,4)] pkd.reach_inv [OF assms(1), of es] assms(2) by blast

lemma installed_metadata:
  assumes "fresh_inv G R ps" and "well_named G R" and "q \<in> set ps"
  obtains p b where "metadata G R (pname q) = Some p" and "q = p\<lparr>reused := b\<rparr>"
proof -
  obtain n b p where n: "metadata G R n = Some p" "q = p\<lparr>reused := b\<rparr>"
    using assms(1,3) by (fastforce simp: fresh_inv_def)
  then have "pname q = n" using assms(2) by (simp add: well_named_def)
  with n that show thesis by simp
qed

text \<open>The state after one package was installed.\<close>

definition demo_state :: "string \<Rightarrow> pkgd" where
  "demo_state n = run (pk_step demo_genode) (pk_construct demo_genode demo_env)
     [Request Primary (demo_request ''install'' n) demo_io]"

lemma demo_installed:
  assumes "n \<in> set (known demo_repo)" and "n \<noteq> ''edit''"
  shows "repo (demo_state n) = demo_repo" "roots (demo_state n) = [n]" "\<not> pk_blocked (demo_state n)"
    "\<not> pk_store (demo_state n)" "\<not> app_armed (demo_state n)" "\<not> driver_armed (demo_state n)"
    "set (names (demo_state n)) = {n}" "pk_inv demo_genode (demo_state n)"
proof -
  note i = demo_install [OF demo_construct assms(1)]
  show r: "repo (demo_state n) = demo_repo" "roots (demo_state n) = [n]" "\<not> pk_blocked (demo_state n)"
    "\<not> pk_store (demo_state n)" "\<not> app_armed (demo_state n)" "\<not> driver_armed (demo_state n)"
    using i unfolding demo_state_def by simp_all
  show inv: "pk_inv demo_genode (demo_state n)" unfolding demo_state_def by (rule pkd.reach_inv [OF demo_start])
  have "resolvable demo_genode demo_repo n"
    using demo_acyclic assms by (auto simp: resolvable_def demo_needs demo_metadata)
  then show "set (names (demo_state n)) = {n}"
    using inv r demo_well_named assms(2) by (auto simp: pk_inv_def closure_def demo_needs)
qed

text \<open>A launch of a package that is not installed.\<close>

theorem launch_starts_iff_witness:
  "running (do_launch demo_genode demo_io ''edit'' (demo_state ''lib'')) = running (demo_state ''lib'')"
proof -
  have n: "set (names (demo_state ''lib'')) = {''lib''}" by (rule demo_installed(7)) simp_all
  have "''edit'' \<notin> set (names (demo_state ''lib''))" unfolding n by simp
  then have "\<not> launchable demo_genode demo_io (demo_state ''lib'') ''edit''" using launchable_installed by blast
  moreover have "[] \<notin> set (names (demo_state ''lib''))" using n by simp
  ultimately show ?thesis
    using launch_starts_iff [OF demo_start demo_state_def _ refl, of "''lib''" demo_io "''edit''"] by simp
qed

section \<open>Exclusive groups\<close>

text \<open>
  An install does not look at exclusive groups. In any reachable state, installing an autostart
  package of a group whose other autostart package is installed, hence running, is carried out, and
  afterwards both run; the refusal that the package format demands is only tried when the answer of
  an install that already happened is replayed.
\<close>

theorem install_ignores_exclusive_groups:
  assumes "pk_start G s0" and "s = run (pk_step G) s0 es" and "\<not> pk_blocked s" and wn: "well_named G (repo s)"
    and ok: "resolvable G (repo s) pkg" and adm: "install_refusal G io pkg (resolve_in G pkg s) = None"
    and room: "length (roots s) < MAX_PACKAGES"
    and p: "metadata G (repo s) pkg = Some p" "has_autostart p" "exclusive p"
    and q: "q \<in> set (installed s)" "has_autostart q" "exclusive_group q = exclusive_group p" "pname q \<noteq> pkg"
    and t: "t = do_install G io pkg s" "\<not> pk_blocked t"
  shows "pkg \<in> set (running t) \<and> pname q \<in> set (running t)"
proof -
  have inv: "pk_inv G s" using pkd.reach_inv [OF assms(1)] assms(2) by simp
  have wf: "repo_wf (repo s)" using inv by (simp add: pk_inv_def)
  have it: "pk_inv G t" using do_install_frame(1) [OF inv assms(3)] t(1) by simp
  have rt: "repo t = repo s" "roots t = roots (add_root pkg s)"
    using do_install_sets [OF ok wf adm] t(1) by simp_all
  have len: "length pkg < 64" using metadata_known [OF p(1)] wf by (simp add: repo_wf_def)
  have roots: "set (roots t) = insert pkg (set (roots s))"
    using rt(2) room len by (auto simp: add_root_def)
  have names: "set (names t) = closure G (repo s) (roots t)" "set (names s) = closure G (repo s) (roots s)"
    using it inv t(2) assms(3) wn rt(1) by (simp_all add: pk_inv_def)
  have run: "n \<in> set (running t)" if n: "n \<in> set (names t)" "metadata G (repo s) n = Some r" "has_autostart r" for n r
  proof -
    obtain c where c: "c \<in> set (installed t)" "pname c = n" using n(1) by auto
    have "fresh_inv G (repo s) (installed t)" using it rt(1) by (simp add: pk_inv_def)
    then obtain r' b where "metadata G (repo s) n = Some r'" "c = r'\<lparr>reused := b\<rparr>"
      using installed_metadata [OF _ wn c(1)] c(2) by blast
    then have "has_autostart c" using n by simp
    then show ?thesis using it c by (auto simp: pk_inv_def auto_names_def)
  qed
  have "pkg \<in> set (names t)" using ok unfolding names(1) closure_def roots by blast
  then have "pkg \<in> set (running t)" using run p by blast
  moreover obtain q' b where q': "metadata G (repo s) (pname q) = Some q'" "q = q'\<lparr>reused := b\<rparr>"
    using installed_metadata [OF _ wn q(1)] inv by (auto simp: pk_inv_def)
  moreover have "pname q \<in> set (names t)"
  proof -
    have "pname q \<in> closure G (repo s) (roots s)" using q(1) names(2) by (metis image_eqI list.set_map)
    then show ?thesis unfolding names(1) closure_def roots by blast
  qed
  then have "pname q \<in> set (running t)" using run q' q(2) by simp
  ultimately show ?thesis by blast
qed

theorem install_ignores_exclusive_groups_witness:
  "{''fba'', ''fbb''} \<subseteq> set (running (do_install demo_genode demo_io ''fbb'' (demo_state ''fba'')))"
proof -
  let ?s = "demo_state ''fba''" let ?t = "do_install demo_genode demo_io ''fbb'' ?s"
  have d: "repo ?s = demo_repo" "roots ?s = [''fba'']" "\<not> pk_blocked ?s" "\<not> pk_store ?s" "\<not> app_armed ?s"
      "\<not> driver_armed ?s" "set (names ?s) = {''fba''}" "pk_inv demo_genode ?s"
    by (rule demo_installed; simp)+
  have wn: "well_named demo_genode (repo ?s)" using d(1) demo_well_named by simp
  have r: "resolvable demo_genode (repo ?s) ''fbb''"
    using demo_acyclic by (auto simp: d(1) resolvable_def demo_needs demo_metadata)
  have a: "install_refusal demo_genode demo_io ''fbb'' (resolve_in demo_genode ''fbb'' ?s) = None"
    using d(5,6) by (simp add: install_refusal_def)
  have m: "metadata demo_genode (repo ?s) ''fbb'' = Some (demo_entry ''fbb'')"
      "has_autostart (demo_entry ''fbb'')" "exclusive (demo_entry ''fbb'')"
    by (simp_all add: d(1) demo_metadata demo_entry_def exclusive_def)
  obtain q where q: "q \<in> set (installed ?s)" "pname q = ''fba''"
  proof -
    have "''fba'' \<in> set (names ?s)" unfolding d(7) by simp
    then show thesis using that by auto
  qed
  obtain p b where p: "metadata demo_genode (repo ?s) (pname q) = Some p" "q = p\<lparr>reused := b\<rparr>"
    using installed_metadata [OF _ wn q(1)] d(8) unfolding pk_inv_def by blast
  have "p = demo_entry ''fba''" using p(1) q(2) by (simp add: d(1) demo_metadata)
  then have qe: "has_autostart q" "exclusive_group q = exclusive_group (demo_entry ''fbb'')"
    using p(2) by (simp_all add: demo_entry_def)
  have wf: "repo_wf (repo ?s)" using d(1) demo_repo_wf by simp
  have nb: "\<not> pk_blocked ?t"
    using do_install_sets(5) [OF r wf a] d(3,4) by (simp add: save_roots_def rederive_frame)
  have room: "length (roots ?s) < MAX_PACKAGES" by (simp add: d(2))
  have "pname q \<noteq> ''fbb''" using q(2) by simp
  from install_ignores_exclusive_groups [OF demo_start demo_state_def d(3) wn r a room m q(1) qe this refl nb]
  show ?thesis using q(2) by simp
qed

section \<open>The store\<close>

lemma root_pieces_length:
  assumes "length rs \<le> MAX_PACKAGES" and "\<forall>r \<in> set rs. length r < 64"
  shows "sum_list (map length (root_pieces rs)) \<le> 4095"
proof -
  have each: "length (rs ! i) \<le> 63" if "i \<in> set (sel_order rs)" for i
    using that assms(2) by (force dest: nth_mem)
  have "sum_list (map length (concat (map (\<lambda>i. [''<root name='' @ [DQ], rs ! i, [DQ] @ ''/>'']) is)))
      \<le> 78 * length is" if "set is \<subseteq> set (sel_order rs)" for "is"
    using that each by (induction "is") (auto simp: add_mono)
  from this [of "sel_order rs"] show ?thesis
    using assms(1) by (simp add: root_pieces_def)
qed

lemma roots_text_complete:
  assumes "length rs \<le> MAX_PACKAGES" and "\<forall>r \<in> set rs. length r < 64"
  shows "roots_text rs = concat (root_pieces rs)" "length (roots_text rs) \<le> 4095"
proof -
  show t: "roots_text rs = concat (root_pieces rs)"
    unfolding roots_text_def using root_pieces_length [OF assms] buf_appends_fits [of "[]" "root_pieces rs" PK_STORE_BUF 1]
    by simp
  show "length (roots_text rs) \<le> 4095" unfolding t using root_pieces_length [OF assms] by (simp add: length_concat)
qed

text \<open>What the XML parser makes of the text of a root list: the document the text spells out.\<close>

definition reads_roots :: "genode \<Rightarrow> string list \<Rightarrow> bool" where
  "reads_roots G rs \<longleftrightarrow> to_u32 G ''1'' = Some 1 \<and>
     parse_xml G (concat (root_pieces rs)) = Some (node ''sponge-installed'' [(''version'', ''1'')]
       (map (\<lambda>i. leaf ''root'' [(''name'', rs ! i)]) (sel_order rs)))"

text \<open>
  C37: a completed save and a later load carry the roots over a reboot. The text of up to 32 roots is
  never cut by the buffer, the file holds exactly this text after the save and a crash that spoils
  every file not synchronised, and a load of this file into a daemon without roots yields all of them,
  in the order of their names. The save is complete: all is written, the synchronisation succeeds, and
  so does the truncation, unless the file was not longer before; the code looks at neither answer.
\<close>

theorem roots_survive_reboot:
  assumes rs: "length rs \<le> MAX_PACKAGES" "\<forall>r \<in> set rs. r \<noteq> [] \<and> length r < 64"
    and disk: "disk_write ap" "disk_frame ap"
    and save: "sv_open io = Open_ok" "roots_ops (roots_text rs) io = (ops, False)"
      "fst (write_loop PK_STORE_PATH (roots_text rs) 0 (sv_writes io)) = Done" "sv_synced io"
      "sv_trunc io \<or> (\<forall>c. d PK_STORE_PATH = Some c \<longrightarrow> length c \<le> length (roots_text rs))"
    and crash: "after_crash ap ops d e"
    and reader: "reads_roots G rs"
    and load: "pk_store s" "roots s = []" "ld_stat lio = Some (length (roots_text rs))" "ld_open lio = Open_ok"
      "read_loop (length (roots_text rs)) [] (ld_reads lio) = (Done, the (e PK_STORE_PATH))"
  shows "e PK_STORE_PATH = Some (roots_text rs) \<and> roots (load_roots G lio s) = sort rs"
proof -
  let ?t = "roots_text rs"
  have whole: "?t = concat (root_pieces rs)" "length ?t \<le> 4095" using roots_text_complete rs by blast+
  obtain ws where ws: "write_loop PK_STORE_PATH ?t 0 (sv_writes io) = (Done, ws)"
    using save(3) by (metis prod.collapse)
  have ops: "ops = ([Vfs_create PK_STORE_PATH] @ trunc_ops io PK_STORE_PATH (length ?t) @ ws) @ [Vfs_sync PK_STORE_PATH]"
    using save(1,2,4) ws by (simp add: roots_ops_def sync_ops_def Let_def split: if_splits)
  define c0 where "c0 = (case d PK_STORE_PATH of None \<Rightarrow> [] | Some c \<Rightarrow> c)"
  define d1 where "d1 = run_disk ap (trunc_ops io PK_STORE_PATH (length ?t)) (ap (Vfs_create PK_STORE_PATH) d)"
  define c1 where "c1 = (if sv_trunc io then take (length ?t) c0 @ replicate (length ?t - length c0) NUL else c0)"
  have "ap (Vfs_create PK_STORE_PATH) d PK_STORE_PATH = Some c0"
    using disk(1) by (simp add: disk_write_def c0_def)
  then have d1: "d1 PK_STORE_PATH = Some c1"
    using disk(1) by (simp add: d1_def c1_def trunc_ops_def disk_write_def)
  have "drop (length ?t) c1 = []" using save(5) by (auto simp: c1_def c0_def split: option.splits)
  then have w: "run_disk ap ws d1 PK_STORE_PATH = Some ?t"
    using write_loop_disk [where d = d1 and c = c1 and off = 0, OF disk(1) ws d1] by simp
  have sync: "ap (Vfs_sync PK_STORE_PATH) e PK_STORE_PATH = e PK_STORE_PATH" for e
    using disk(2) by (simp add: disk_frame_def)
  have "run_disk ap ops d PK_STORE_PATH = Some ?t"
    by (simp add: ops run_disk_append sync w [unfolded d1_def])
  moreover have "PK_STORE_PATH \<notin> unsynced ops" by (simp only: ops unsynced_snoc) simp
  ultimately have stored: "e PK_STORE_PATH = Some ?t" using crash by (simp add: after_crash_def)
  have ne: "?t \<noteq> []" by (simp add: whole(1) root_pieces_def)
  have names: "map (\<lambda>n. attr_str 64 n ''name'') (kids_of_type (node ''sponge-installed'' [(''version'', ''1'')]
      (map (\<lambda>i. leaf ''root'' [(''name'', rs ! i)]) (sel_order rs))) ''root'') = sort rs"
  proof -
    have "attr_str 64 (leaf ''root'' [(''name'', rs ! i)]) ''name'' = rs ! i" if "i \<in> set (sel_order rs)" for i
      using that rs(2) by (simp add: attr_str_def)
    then have "map (\<lambda>n. attr_str 64 n ''name'') (map (\<lambda>i. leaf ''root'' [(''name'', rs ! i)]) (sel_order rs))
        = map ((!) rs) (sel_order rs)" by simp
    then show ?thesis by (simp add: kids_of_type_def sel_order_names comp_def)
  qed
  have "filter (\<lambda>n. n \<noteq> []) (sort rs) = sort rs" using rs(2) by (simp add: filter_id_conv)
  then have "roots (restore_roots G ?t s) = sort rs"
    using reader names load(2) rs(1)
    by (simp add: restore_roots_def reads_roots_def whole(1) attr_u32_def)
  moreover have "load_roots G lio s = restore_roots G ?t s"
    using load stored ne whole(2) by (simp add: load_roots_def)
  ultimately show ?thesis using stored by simp
qed

definition reader_genode :: genode where
  "reader_genode = demo_genode\<lparr>
     to_u32 := \<lambda>t. if t = ''1'' then Some 1 else None,
     parse_xml := \<lambda>t. if t = concat (root_pieces [''b'', ''a''])
       then Some (node ''sponge-installed'' [(''version'', ''1'')]
         (map (\<lambda>i. leaf ''root'' [(''name'', [''b'', ''a''] ! i)]) (sel_order [''b'', ''a''])))
       else None\<rparr>"

theorem roots_survive_reboot_witness:
  "roots (load_roots reader_genode
     \<lparr>ld_stat = Some (length (roots_text [''b'', ''a''])), ld_open = Open_ok,
      ld_reads = [Read_bytes (roots_text [''b'', ''a''])]\<rparr>
     ((pkgd_init demo_meta)\<lparr>pk_store := True\<rparr>)) = [''a'', ''b'']"
proof -
  let ?rs = "[''b'', ''a'']" let ?t = "roots_text ?rs"
  let ?io = "demo_save\<lparr>sv_writes := [Write_ok (length ?t)], sv_syncs := [False]\<rparr>"
  let ?lio = "\<lparr>ld_stat = Some (length ?t), ld_open = Open_ok, ld_reads = [Read_bytes ?t]\<rparr>"
  let ?s = "(pkgd_init demo_meta)\<lparr>pk_store := True\<rparr>"
  have t: "?t = concat (root_pieces ?rs)" "length ?t \<le> 4095" by (rule roots_text_complete; simp)+
  then have ne: "?t \<noteq> []" by (simp add: root_pieces_def)
  then have w: "write_loop PK_STORE_PATH ?t 0 (sv_writes ?io) = (Done, [Vfs_write PK_STORE_PATH 0 ?t])" by simp
  define ops where "ops = fst (roots_ops ?t ?io)"
  have ops: "roots_ops ?t ?io = (ops, False)"
    using w by (simp add: ops_def roots_ops_def demo_save_def Let_def)
  have stored: "run_disk mem_disk ops (\<lambda>p. None) PK_STORE_PATH = Some ?t"
    using w by (simp add: ops_def roots_ops_def trunc_ops_def sync_ops_def demo_save_def Let_def)
  have "roots (load_roots reader_genode ?lio ?s) = sort ?rs"
    by (rule conjunct2, rule roots_survive_reboot [where ap = mem_disk and io = ?io and ops = ops and d = "\<lambda>p. None"
          and e = "run_disk mem_disk ops (\<lambda>p. None)"])
       (use ops w ne stored in \<open>simp_all add: mem_disk_write mem_disk_frame reads_roots_def reader_genode_def
          pkgd_init_def demo_save_def after_crash_def\<close>)
  then show ?thesis by simp
qed

section \<open>Quotas\<close>

text \<open>The value of a numeral, the factor of a suffix.\<close>

definition dec :: "string \<Rightarrow> nat" where
  "dec ds = foldl (\<lambda>v c. v * 10 + digit_val c) 0 ds"

definition suffix_factor :: "char \<Rightarrow> nat option" where
  "suffix_factor c =
     (if c \<in> {CHR ''K'', CHR ''k''} then Some (2 ^ 10) else if c \<in> {CHR ''M'', CHR ''m''} then Some (2 ^ 20)
      else if c \<in> {CHR ''G'', CHR ''g''} then Some (2 ^ 30) else None)"

lemma digits_value_dec: "digits_value ds = of_nat (dec ds)"
proof -
  have "foldl (\<lambda>v c. v * 10 + of_nat (digit_val c)) (of_nat n :: u64) ds
      = of_nat (foldl (\<lambda>v c. v * 10 + digit_val c) n ds)" for n
  proof (induction ds arbitrary: n)
    case (Cons c cs)
    from this [of "n * 10 + digit_val c"] show ?case by (simp add: algebra_simps)
  qed simp
  from this [of 0] show ?thesis by (simp add: digits_value_def dec_def)
qed

text \<open>
  A quota is a non-empty decimal numeral with at most one suffix letter, and its value is the
  product of the two modulo \<open>2 ^ 64\<close>: exact below, but wrapped around above, where a huge demand
  counts as a small one. What follows the suffix letter is ignored.
\<close>

theorem quota_bytes_spec:
  assumes "ds \<noteq> []" and "\<forall>c \<in> set ds. is_digit c" and "rest = [] \<or> \<not> is_digit (hd rest)"
  shows "quota_bytes (ds @ rest) =
     (case rest of [] \<Rightarrow> Some (of_nat (dec ds))
      | c # cs \<Rightarrow> map_option (\<lambda>m. of_nat (dec ds * m)) (suffix_factor c))
    \<and> (\<forall>v m. quota_bytes (ds @ rest) = Some v \<longrightarrow>
        m = (case rest of [] \<Rightarrow> 1 | c # cs \<Rightarrow> the (suffix_factor c)) \<longrightarrow>
        unat v = dec ds * m mod 2 ^ 64)"
proof -
  have split: "takeWhile is_digit (ds @ rest) = ds" "dropWhile is_digit (ds @ rest) = rest"
    using assms(2,3) by (cases rest; simp add: takeWhile_append2 dropWhile_append2)+
  have eq: "quota_bytes (ds @ rest) =
     (case rest of [] \<Rightarrow> Some (of_nat (dec ds))
      | c # cs \<Rightarrow> map_option (\<lambda>m. of_nat (dec ds * m)) (suffix_factor c))"
    unfolding quota_bytes_def Let_def split digits_value_dec
    using assms(1) by (auto simp: suffix_factor_def split: list.split)
  moreover have "unat v = dec ds * m mod 2 ^ 64"
    if "quota_bytes (ds @ rest) = Some v" "m = (case rest of [] \<Rightarrow> 1 | c # cs \<Rightarrow> the (suffix_factor c))" for v m
  proof -
    have "v = of_nat (dec ds * m)"
      using that eq by (cases rest; cases "suffix_factor (hd rest)") auto
    then show ?thesis by (simp add: unat_of_nat del: of_nat_mult)
  qed
  ultimately show ?thesis by blast
qed

text \<open>17179869184 gibibytes count as nothing.\<close>

theorem quota_bytes_spec_witness:
  "quota_bytes ''17179869184G'' = Some 0 \<and> quota_bytes ''48Mx'' = Some (48 * 2 ^ 20)"
proof -
  have "dec ''17179869184'' = 17179869184" "dec ''48'' = 48" by (simp_all add: dec_def digit_val_def)
  moreover have "\<forall>c \<in> set ''17179869184''. is_digit c" "\<forall>c \<in> set ''48''. is_digit c"
    by (simp_all add: is_digit_def less_eq_char_def)
  moreover have "\<not> is_digit (CHR ''G'')" "\<not> is_digit (CHR ''M'')" by (simp_all add: is_digit_def less_eq_char_def)
  ultimately show ?thesis
    using quota_bytes_spec [of "''17179869184''" "''G''"] quota_bytes_spec [of "''48''" "''Mx''"]
    by (simp add: suffix_factor_def)
qed

section \<open>Duplicates\<close>

text \<open>The answer a handler ends with, and its replay.\<close>

definition ends_with :: "pkgd \<Rightarrow> xml \<Rightarrow> bool" where
  "ends_with s x \<longleftrightarrow> (\<exists>pre. pk_out s = pre @ [Answer (channel s) x])"

definition replays :: "genode \<Rightarrow> pkgd \<Rightarrow> xml \<Rightarrow> bool" where
  "replays G s x \<longleftrightarrow> (\<forall>ch. pk_out (replay_last_result G (s\<lparr>channel := ch\<rparr>)) = pk_out s @ [Answer ch x])"

definition answered :: "genode \<Rightarrow> pkgd \<Rightarrow> bool" where
  "answered G s \<longleftrightarrow> (\<exists>x. ends_with s x \<and> replays G s x)"

lemmas replay_defs = answered_def ends_with_def replays_def replay_last_result_def pk_report_defs

lemma report_ok_answered: "answered G (report_ok G pkg s)"
  by (simp add: replay_defs root_index_def)

lemma report_list_answered: "answered G (pkg_report_list_ok G s)"
  by (simp add: replay_defs packages_node_def package_node_def sorted_installed_def)

lemma report_remove_answered:
  "length removed \<le> MAX_PACKAGES \<Longrightarrow> answered G (report_remove_ok pkg removed s)"
  by (simp add: replay_defs)

lemma report_error_answered:
  "length op < 32 \<Longrightarrow> length msg < 256 \<Longrightarrow> answered G (pkg_report_error op pkg msg s)"
  by (simp add: replay_defs)

lemma report_insufficient_answered:
  "length op < 32 \<Longrightarrow> answered G (report_insufficient G op pkg nr ar nc ac s)"
  by (simp add: replay_defs)

lemma report_conflict_answered: "length op < 32 \<Longrightarrow> answered G (report_conflict op pkg peer grp s)"
  by (simp add: replay_defs)

lemma report_launch_answered:
  "oc \<in> {''ok'', ''not-installed'', ''already-running'', ''binary-missing''} \<Longrightarrow> answered G (report_launch_ok pkg oc s)"
  by (auto simp: replay_defs)

lemma length_removed:
  "length (filter P (names s)) \<le> length (installed s)"
  by (metis length_filter_le length_map)

lemma do_explain_answered: "answered G (do_explain G pkg s)"
  unfolding do_explain_def Let_def
  using report_error_answered [OF _ resolve_error_length] report_ok_answered by simp

lemma do_launch_answered: "answered G (do_launch G io pkg s)"
  unfolding do_launch_def start_package_def
  by (auto intro!: report_launch_answered report_conflict_answered report_insufficient_answered
      split: option.split prod.split bool.split)

lemma do_remove_answered:
  assumes "length (installed s) \<le> MAX_PACKAGES" and "\<not> pk_blocked (do_remove G io pkg s)"
  shows "answered G (do_remove G io pkg s)"
proof (cases "pkg \<in> set (names s)")
  case True
  have rm: "answered G (report_remove_ok pkg (filter P (names s)) t)" for P t
    by (rule report_remove_answered [OF order.trans [OF length_removed assms(1)]])
  show ?thesis
    using True assms(2) rm unfolding do_remove_def Let_def unless_stuck_def by (auto split: if_splits)
next
  case False
  have "length (gstr 128 m) < 256" for m using length_gstr [of 128 m] by simp
  then show ?thesis using False by (simp add: do_remove_def report_error_answered)
qed

text \<open>
  An answered request other than an install is answered alike when it arrives again before any
  other: the replay emits the same result, on whichever channel the duplicate came, and nothing
  else. The premises exclude a handler that hangs and an operation name longer than the parser
  delivers.
\<close>

theorem duplicate_replays_answer:
  assumes "pk_start G s0" and "s = run (pk_step G) s0 es" and "\<not> pk_blocked s"
    and "op \<noteq> ''install''" and "length op < 32"
    and "t = pkg_dispatch G io op pkg s" and "\<not> pk_blocked t"
  shows "\<exists>pre x. pk_out t = pre @ [Answer (channel s) x] \<and> same_core t (replay_last_result G t) \<and>
    (\<forall>ch. pk_out (replay_last_result G (t\<lparr>channel := ch\<rparr>)) = pk_out t @ [Answer ch x])"
proof -
  have inv: "pk_inv G s" using pkd.reach_inv [OF assms(1)] assms(2) by simp
  then have len: "length (installed s) \<le> MAX_PACKAGES" by (simp add: pk_inv_def fresh_inv_def)
  have "channel t = channel s"
    using pkg_dispatch_frame(2) [OF inv assms(3)] assms(6) by (simp add: responds_def)
  moreover have "answered G t"
  proof -
    have rm: "answered G (do_remove G io pkg s)" if "op = ''remove''" "pkg \<noteq> []"
      using do_remove_answered [OF len] assms(6,7) that by (simp add: pkg_dispatch_def)
    show ?thesis
      using assms(4,5) rm report_list_answered report_error_answered [OF assms(5)] do_explain_answered
        do_launch_answered
      unfolding assms(6) by (auto simp: pkg_dispatch_def pkg_do_list_def)
  qed
  ultimately show ?thesis
    using replay_frame(1) unfolding answered_def ends_with_def replays_def by metis
qed

theorem duplicate_replays_answer_witness:
  "\<exists>x. pk_out (replay_last_result demo_genode
      ((pkg_dispatch demo_genode demo_io ''launch'' ''edit'' (demo_state ''lib''))\<lparr>channel := Launcher\<rparr>))
    = pk_out (pkg_dispatch demo_genode demo_io ''launch'' ''edit'' (demo_state ''lib'')) @ [Answer Launcher x]"
proof -
  let ?s = "demo_state ''lib''"
  have nb: "\<not> pk_blocked ?s" by (rule demo_installed(3)) simp_all
  have "''edit'' \<notin> set (names ?s)" using demo_installed(7) [of "''lib''"] by simp
  then have "find (\<lambda>p. pname p = ''edit'') (installed ?s) = None" by (force simp: find_None_iff)
  then have "pkg_dispatch demo_genode demo_io ''launch'' ''edit'' ?s = report_launch_ok ''edit'' ''not-installed'' ?s"
    by (simp add: pkg_dispatch_def do_launch_def)
  then have "\<not> pk_blocked (pkg_dispatch demo_genode demo_io ''launch'' ''edit'' ?s)"
    using nb answers_core(5) [of ?s "''edit''" "''not-installed''"] by (simp add: same_core_def)
  from duplicate_replays_answer [OF demo_start demo_state_def nb _ _ refl this]
  show ?thesis by auto
qed

end
