(* ===== verification/Notifier.thy ===== *)
theory Notifier
  imports Genode_Iface Machine
begin

text \<open>
  \<open>sponge_notifier/main.cc\<close>: the notification daemon. It keeps a list of live notifications, filled
  from the requests the clients report, emptied by a periodic sweep and by overflow, and publishes
  the list after every change. Identifiers, times and lifetimes are words, as in the code. The
  array is a list whose length is \<open>_num_entries\<close>; that it never grows past the array is proved in
  \<open>notif_inv\<close>. Log lines are left out.
\<close>

section \<open>State\<close>

text \<open>
  \<open>clock k\<close> is what the \<open>k\<close>-th call of \<open>curr_time\<close> returns, in milliseconds of the timer session.
\<close>

record notif_env = str_genode +
  clock :: "nat \<Rightarrow> u64"

definition MAX_LIVE :: u32 where "MAX_LIVE = 32"
definition DEFAULT_MAX_LIVE :: u32 where "DEFAULT_MAX_LIVE = 8"
definition DEFAULT_TTL_MS :: u32 where "DEFAULT_TTL_MS = 5000"
definition TTL_MAX_MS :: u32 where "TTL_MAX_MS = 30000"

record entry =
  e_id :: string
  e_ts :: u64
  e_source :: string
  e_kind :: string
  e_ttl :: u32
  e_title :: string
  e_body :: "string option"

record notif =
  entries :: "entry list"
  next_id :: u64
  max_live :: u32
  default_ttl :: u32
  boot_ms :: u64
  clock_reads :: nat
  notif_out :: "xml list"

definition notif_init :: notif where
  "notif_init = \<lparr>entries = [], next_id = 1, max_live = DEFAULT_MAX_LIVE,
     default_ttl = DEFAULT_TTL_MS, boot_ms = 0, clock_reads = 0, notif_out = []\<rparr>"

section \<open>Validation\<close>

definition kind_valid :: "string \<Rightarrow> bool" where
  "kind_valid k \<longleftrightarrow> k = ''info'' \<or> k = ''warn'' \<or> k = ''error''"

definition coerce_ttl_ms :: "u32 \<Rightarrow> u32 \<Rightarrow> u32" where
  "coerce_ttl_ms requested dflt =
     (if requested = 0 then dflt else if TTL_MAX_MS < requested then TTL_MAX_MS else requested)"

definition trim_source :: "notif_env \<Rightarrow> string option \<Rightarrow> string" where
  "trim_source G s = (if str_length G s = 0 then ''unknown'' else case s of None \<Rightarrow> [] | Some v \<Rightarrow> v)"

text \<open>\<open>with_optional_sub_node\<close> and \<open>decoded_content\<close>: the text of the first child of the type.\<close>

definition sub_text :: "nat \<Rightarrow> xml \<Rightarrow> string \<Rightarrow> string option" where
  "sub_text n x t = (case kids_of_type x t of [] \<Rightarrow> None | k # ks \<Rightarrow> Some (gstr n (content k)))"

section \<open>Output\<close>

definition notification_node :: "notif_env \<Rightarrow> entry \<Rightarrow> xml" where
  "notification_node G e = node ''notification''
     [(''id'', e_id e), (''ts'', print_nat G (unat (e_ts e))), (''source'', e_source e),
      (''kind'', e_kind e), (''ttl_ms'', print_nat G (unat (e_ttl e)))]
     (Elem ''title'' [] [] (e_title e)
      # (if 0 < str_length G (e_body e)
         then [Elem ''body'' [] [] (case e_body e of None \<Rightarrow> [] | Some b \<Rightarrow> b)] else []))"

definition notifications_xml :: "notif_env \<Rightarrow> notif \<Rightarrow> xml" where
  "notifications_xml G s = node ''notifications''
     [(''count'', print_nat G (length (entries s))), (''max_live'', print_nat G (unat (max_live s)))]
     (map (notification_node G) (entries s))"

definition notif_broadcast :: "notif_env \<Rightarrow> notif \<Rightarrow> notif" where
  "notif_broadcast G s = s\<lparr>notif_out := notif_out s @ [notifications_xml G s]\<rparr>"

section \<open>Requests\<close>

text \<open>The clock of the requests counts from its first reading.\<close>

definition now_ms :: "notif_env \<Rightarrow> notif \<Rightarrow> u64 \<times> notif" where
  "now_ms G s =
     (let now = clock G (clock_reads s);
          boot = (if boot_ms s = 0 \<or> now < boot_ms s then now else boot_ms s)
      in (now - boot, s\<lparr>boot_ms := boot, clock_reads := Suc (clock_reads s)\<rparr>))"

definition drop_oldest :: "notif \<Rightarrow> notif" where
  "drop_oldest s = s\<lparr>entries := drop 1 (entries s)\<rparr>"

definition new_entry :: "notif_env \<Rightarrow> notif \<Rightarrow> xml \<Rightarrow> string \<Rightarrow> u64 \<Rightarrow> entry" where
  "new_entry G s n title ts =
     (let kind = (case attr n ''kind'' of None \<Rightarrow> ''info'' | Some k \<Rightarrow> gstr 16 k)
      in \<lparr>e_id = gstr 16 (print_nat G (unat (next_id s))), e_ts = ts,
          e_source = trim_source G (map_option (gstr 32) (attr n ''source'')),
          e_kind = (if kind_valid kind then kind else ''info''),
          e_ttl = coerce_ttl_ms (attr_u32 (genode.truncate G) n ''ttl_ms'' 0) (default_ttl s),
          e_title = title,
          e_body = sub_text 256 n ''body''\<rparr>)"

definition accept_one :: "notif_env \<Rightarrow> xml \<Rightarrow> notif \<Rightarrow> bool \<times> notif" where
  "accept_one G n s =
     (let title = sub_text 96 n ''title''
      in if str_length G title = 0 then (False, s)
         else
           (let s1 = (if unat (max_live s) \<le> length (entries s) then drop_oldest s else s);
                (ts, s2) = now_ms G s1;
                e = new_entry G s n (case title of None \<Rightarrow> [] | Some t \<Rightarrow> t) ts
            in (True, s2\<lparr>entries := entries s2 @ [e], next_id := next_id s2 + 1\<rparr>)))"

definition parse_and_apply :: "notif_env \<Rightarrow> xml \<Rightarrow> notif \<Rightarrow> notif" where
  "parse_and_apply G req s =
     (let (accepted, s') = fold (\<lambda>n (any, s). let (ok, s') = accept_one G n s in (any \<or> ok, s'))
                             (kids_of_type req ''notification'') (False, s)
      in if accepted then notif_broadcast G s' else s')"

definition handle_notif_request :: "notif_env \<Rightarrow> rom \<Rightarrow> notif \<Rightarrow> notif" where
  "handle_notif_request G r s =
     (case r of
        Rom_node root \<Rightarrow> if has_type root ''notif_request'' then parse_and_apply G root s else s
      | _ \<Rightarrow> s)"

section \<open>Configuration\<close>

definition clamp_or :: "u32 \<Rightarrow> u32 \<Rightarrow> u32 \<Rightarrow> u32" where
  "clamp_or dflt cap v = (let v = (if v = 0 then dflt else v) in if cap < v then cap else v)"

definition config_node_step :: "notif_env \<Rightarrow> xml \<Rightarrow> notif \<Rightarrow> notif" where
  "config_node_step G n s =
     (if has_type n ''max_live'' then
        s\<lparr>max_live := clamp_or DEFAULT_MAX_LIVE MAX_LIVE
            (attr_u32 (genode.truncate G) n ''value'' (max_live s))\<rparr>
      else if has_type n ''default_ttl_ms'' then
        s\<lparr>default_ttl := clamp_or DEFAULT_TTL_MS TTL_MAX_MS
            (attr_u32 (genode.truncate G) n ''value'' (default_ttl s))\<rparr>
      else s)"

definition handle_notif_config :: "notif_env \<Rightarrow> rom \<Rightarrow> notif \<Rightarrow> notif" where
  "handle_notif_config G r s =
     (case r of Rom_node root \<Rightarrow> fold (config_node_step G) (kids root) s | _ \<Rightarrow> s)"

section \<open>Sweep\<close>

definition expired :: "u64 \<Rightarrow> entry \<Rightarrow> bool" where
  "expired now e \<longleftrightarrow> e_ts e + ucast (e_ttl e) \<le> now"

definition handle_expiry :: "notif_env \<Rightarrow> u64 \<Rightarrow> notif \<Rightarrow> notif" where
  "handle_expiry G now s =
     (let live = filter (\<lambda>e. \<not> expired now e) (entries s);
          changed = (\<exists>e \<in> set (entries s). expired now e);
          s' = s\<lparr>entries := live\<rparr>
      in if changed then notif_broadcast G s' else s')"

section \<open>The component\<close>

definition notif_construct :: "notif_env \<Rightarrow> rom \<Rightarrow> rom \<Rightarrow> notif" where
  "notif_construct G cfg req =
     notif_broadcast G (handle_notif_request G req (handle_notif_config G cfg notif_init))"

datatype notif_in =
    Notif_request rom
  | Notif_config rom
  | Notif_sweep u64

fun notif_step :: "notif_env \<Rightarrow> notif_in \<Rightarrow> notif \<Rightarrow> notif" where
  "notif_step G (Notif_request r) s = handle_notif_request G r s"
| "notif_step G (Notif_config r) s = handle_notif_config G r s"
| "notif_step G (Notif_sweep now) s = handle_expiry G now s"

definition notif_start :: "notif_env \<Rightarrow> notif \<Rightarrow> bool" where
  "notif_start G s \<longleftrightarrow> (\<exists>cfg req. s = notif_construct G cfg req)"

definition notif_reach :: "notif_env \<Rightarrow> rom \<Rightarrow> rom \<Rightarrow> notif_in list \<Rightarrow> notif" where
  "notif_reach G cfg req is = run (notif_step G) (notif_construct G cfg req) is"

end
