(* ===== verification/Notifier_Props.thy ===== *)
theory Notifier_Props
  imports Notifier
begin

text \<open>
  What the notification daemon guarantees: the shape of its list and of what it published last in
  every reachable state, what a request does to the list, and how long a notification lives.
\<close>

section \<open>The invariant\<close>

definition entry_ok :: "entry \<Rightarrow> bool" where
  "entry_ok e \<longleftrightarrow> kind_valid (e_kind e) \<and> e_ttl e \<in> {1..TTL_MAX_MS}
     \<and> length (e_title e) \<le> 95 \<and> length (e_source e) \<le> 31
     \<and> (\<forall>b. e_body e = Some b \<longrightarrow> length b \<le> 255)"

text \<open>\<open>ids_of n es\<close>: the identifiers are those of an increasing sequence of numbers below \<open>n\<close>.\<close>

definition id_of :: "notif_env \<Rightarrow> nat \<Rightarrow> string" where
  "id_of G k = gstr 16 (print_nat G (unat (of_nat k :: u64)))"

definition ids_below :: "notif_env \<Rightarrow> nat \<Rightarrow> entry list \<Rightarrow> bool" where
  "ids_below G n es \<longleftrightarrow>
     (\<exists>ks. map e_id es = map (id_of G) ks \<and> sorted_wrt (<) ks \<and> (\<forall>k \<in> set ks. 1 \<le> k \<and> k < n))"

definition notif_inv :: "notif_env \<Rightarrow> notif \<Rightarrow> bool" where
  "notif_inv G s \<longleftrightarrow> length (entries s) \<le> unat MAX_LIVE \<and> max_live s \<in> {1..MAX_LIVE}
     \<and> default_ttl s \<in> {1..TTL_MAX_MS} \<and> (\<forall>e \<in> set (entries s). entry_ok e)
     \<and> (\<exists>n \<ge> 1. next_id s = of_nat n \<and> ids_below G n (entries s))"

lemma ids_below_subseq: "ids_below G n es \<Longrightarrow> subseq es' es \<Longrightarrow> ids_below G n es'"
proof -
  assume "ids_below G n es" and sub: "subseq es' es"
  then obtain ks where ks: "map e_id es = map (id_of G) ks" "sorted_wrt (<) ks"
      "\<forall>k \<in> set ks. 1 \<le> k \<and> k < n"
    by (auto simp: ids_below_def)
  obtain N where N: "es' = nths es N" using sub by (auto simp: subseq_conv_nths)
  have "map e_id es' = map (id_of G) (nths ks N)"
    using ks(1) by (simp add: N nths_map [symmetric])
  moreover have "sorted_wrt (<) (nths ks N)"
    using ks(2) by (simp add: strict_sorted_iff sorted_nths distinct_nthsI)
  moreover have "\<forall>k \<in> set (nths ks N). 1 \<le> k \<and> k < n"
    using ks(3) set_nths_subset by fastforce
  ultimately show ?thesis by (auto simp: ids_below_def)
qed

lemma ids_below_snoc:
  "ids_below G n es \<Longrightarrow> 1 \<le> n \<Longrightarrow> e_id e = id_of G n \<Longrightarrow> ids_below G (Suc n) (es @ [e])"
proof -
  assume "ids_below G n es" and "1 \<le> n" and e: "e_id e = id_of G n"
  then obtain ks where "map e_id es = map (id_of G) ks" "sorted_wrt (<) ks"
      "\<forall>k \<in> set ks. 1 \<le> k \<and> k < n"
    by (auto simp: ids_below_def)
  with \<open>1 \<le> n\<close> e show ?thesis
    unfolding ids_below_def by (intro exI [of _ "ks @ [n]"]) (auto simp: sorted_wrt_append)
qed

lemma clamp_or_range: "d \<in> {1..c} \<Longrightarrow> clamp_or d c v \<in> {1..c}"
  by (auto simp: clamp_or_def Let_def word_le_nat_alt not_less word_less_nat_alt)
     (metis Suc_leI bot_nat_0.not_eq_extremum unat_eq_zero)+

lemma coerce_range: "d \<in> {1..TTL_MAX_MS} \<Longrightarrow> coerce_ttl_ms v d \<in> {1..TTL_MAX_MS}"
  by (auto simp: coerce_ttl_ms_def TTL_MAX_MS_def word_le_nat_alt not_less word_less_nat_alt)
     (metis Suc_leI bot_nat_0.not_eq_extremum unat_eq_zero)

lemma entry_ok_new:
  assumes "default_ttl s \<in> {1..TTL_MAX_MS}" and "length t \<le> 95"
  shows "entry_ok (new_entry G s n t ts)"
  using assms coerce_range [OF assms(1)] length_gstr [of 32] length_gstr [of 256]
  by (auto simp: entry_ok_def new_entry_def Let_def trim_source_def sub_text_def kind_valid_def
      split: option.split list.splits)

lemma notif_init_inv: "notif_inv G notif_init"
  by (auto simp: notif_inv_def notif_init_def MAX_LIVE_def DEFAULT_MAX_LIVE_def DEFAULT_TTL_MS_def
      TTL_MAX_MS_def ids_below_def intro!: exI [of _ 1])

lemma broadcast_core [simp]:
  "entries (notif_broadcast G s) = entries s" "next_id (notif_broadcast G s) = next_id s"
  "max_live (notif_broadcast G s) = max_live s" "default_ttl (notif_broadcast G s) = default_ttl s"
  "notif_inv G (notif_broadcast G s) = notif_inv G s"
  by (simp_all add: notif_broadcast_def notif_inv_def)

lemma config_inv: "notif_inv G s \<Longrightarrow> notif_inv G (handle_notif_config G r s)"
proof -
  have *: "notif_inv G (config_node_step G n s)" if "notif_inv G s" for n s
    using that clamp_or_range [of DEFAULT_MAX_LIVE MAX_LIVE]
      clamp_or_range [of DEFAULT_TTL_MS TTL_MAX_MS]
    by (auto simp: notif_inv_def config_node_step_def MAX_LIVE_def DEFAULT_MAX_LIVE_def
        DEFAULT_TTL_MS_def TTL_MAX_MS_def)
  have "notif_inv G (fold (config_node_step G) ks s)" if "notif_inv G s" for ks s
    using that by (induction ks arbitrary: s) (auto intro: *)
  then show "notif_inv G s \<Longrightarrow> notif_inv G (handle_notif_config G r s)"
    by (simp add: handle_notif_config_def split: rom.split)
qed

text \<open>What one accepted notification does to the list.\<close>

definition kept :: "notif \<Rightarrow> entry list" where
  "kept s = (if unat (max_live s) \<le> length (entries s) then drop 1 (entries s) else entries s)"

lemma subseq_kept: "subseq (kept s) (entries s)"
  by (simp add: kept_def sublist_imp_subseq)

lemma accept_one_cases:
  "accept_one G n s =
     (if str_length G (sub_text 96 n ''title'') = 0 then (False, s)
      else (True, s\<lparr>entries := kept s @ [new_entry G s n (case sub_text 96 n ''title'' of None \<Rightarrow> [] | Some t \<Rightarrow> t)
                                    (fst (now_ms G s))],
                    next_id := next_id s + 1, boot_ms := boot_ms (snd (now_ms G s)),
                    clock_reads := Suc (clock_reads s)\<rparr>))"
  by (simp add: accept_one_def drop_oldest_def kept_def now_ms_def Let_def)

lemma sub_text_length: "sub_text n x t = Some v \<Longrightarrow> length v \<le> n - 1"
  using length_gstr [of n] by (auto simp: sub_text_def split: list.splits)

lemma accept_inv: "notif_inv G s \<Longrightarrow> notif_inv G (snd (accept_one G n s))"
proof -
  assume inv: "notif_inv G s"
  let ?t = "case sub_text 96 n ''title'' of None \<Rightarrow> [] | Some t \<Rightarrow> t"
  let ?e = "new_entry G s n ?t (fst (now_ms G s))"
  have t: "length ?t \<le> 95" using sub_text_length [of 96 n "''title''"] by (auto split: option.split)
  obtain k where k: "1 \<le> k" "next_id s = of_nat k" "ids_below G k (entries s)"
    using inv by (auto simp: notif_inv_def)
  have ids: "ids_below G (Suc k) (kept s @ [?e])"
    using k by (intro ids_below_snoc ids_below_subseq [OF k(3) subseq_kept])
      (auto simp: new_entry_def Let_def id_of_def)
  have succ: "next_id s + 1 = of_nat (Suc k)" using k(2) by simp
  have ok: "\<forall>e \<in> set (kept s @ [?e]). entry_ok e"
    using inv entry_ok_new [of s ?t G n] t set_drop_subset [of 1 "entries s"]
    by (auto simp: notif_inv_def kept_def)
  have len: "length (kept s @ [?e]) \<le> unat MAX_LIVE"
    using inv by (auto simp: notif_inv_def kept_def word_le_nat_alt)
  have ex: "\<exists>m \<ge> 1. next_id s + 1 = of_nat m \<and> ids_below G m (kept s @ [?e])"
    using ids succ by (metis le_add1 plus_1_eq_Suc)
  show ?thesis
    using inv ok len ex by (auto simp: accept_one_cases notif_inv_def)
qed

text \<open>The loop over a request, as a fold over the state and a flag.\<close>

definition accept_all :: "notif_env \<Rightarrow> xml list \<Rightarrow> notif \<Rightarrow> notif" where
  "accept_all G ns s = fold (\<lambda>n s. snd (accept_one G n s)) ns s"

definition acceptable :: "notif_env \<Rightarrow> xml \<Rightarrow> bool" where
  "acceptable G n \<longleftrightarrow> str_length G (sub_text 96 n ''title'') \<noteq> 0"

lemma accept_loop:
  "fold (\<lambda>n (any, s). let (ok, s') = accept_one G n s in (any \<or> ok, s')) ns (b, s)
     = (b \<or> (\<exists>n \<in> set ns. acceptable G n), accept_all G ns s)"
  by (induction ns arbitrary: b s) (auto simp: accept_all_def acceptable_def accept_one_cases Let_def)

lemma parse_and_apply_eq:
  "parse_and_apply G req s =
     (let s' = accept_all G (kids_of_type req ''notification'') s
      in if \<exists>n \<in> set (kids_of_type req ''notification''). acceptable G n then notif_broadcast G s' else s')"
  unfolding parse_and_apply_def accept_loop by (simp add: Let_def)

lemma accept_all_inv: "notif_inv G s \<Longrightarrow> notif_inv G (accept_all G ns s)"
  by (induction ns arbitrary: s) (auto simp: accept_all_def accept_inv)

lemma accept_all_out: "notif_out (accept_all G ns s) = notif_out s"
  by (induction ns arbitrary: s) (auto simp: accept_all_def accept_one_cases)

lemma accept_all_none: "\<forall>n \<in> set ns. \<not> acceptable G n \<Longrightarrow> accept_all G ns s = s"
  by (induction ns arbitrary: s) (auto simp: accept_all_def accept_one_cases acceptable_def)

lemma request_inv: "notif_inv G s \<Longrightarrow> notif_inv G (handle_notif_request G r s)"
  by (auto simp: handle_notif_request_def parse_and_apply_eq accept_all_inv Let_def split: rom.split)

lemma expiry_inv: "notif_inv G s \<Longrightarrow> notif_inv G (handle_expiry G now s)"
proof -
  assume inv: "notif_inv G s"
  have "length (filter (\<lambda>e. \<not> expired now e) (entries s)) \<le> unat MAX_LIVE"
    using inv by (auto simp: notif_inv_def intro: order_trans [OF length_filter_le])
  moreover have "ids_below G n (filter (\<lambda>e. \<not> expired now e) (entries s))"
    if "ids_below G n (entries s)" for n
    using that by (rule ids_below_subseq) simp
  ultimately have "notif_inv G (s\<lparr>entries := filter (\<lambda>e. \<not> expired now e) (entries s)\<rparr>)"
    using inv by (auto simp: notif_inv_def)
  then show ?thesis using inv by (simp add: handle_expiry_def Let_def)
qed

lemma notif_step_inv: "notif_inv G s \<Longrightarrow> notif_inv G (notif_step G i s)"
  by (cases i) (auto intro: request_inv config_inv expiry_inv)

lemma notif_start_inv: "notif_start G s \<Longrightarrow> notif_inv G s"
  by (auto simp: notif_start_def notif_construct_def intro!: request_inv config_inv notif_init_inv)

section \<open>The published list\<close>

text \<open>What was published last lists the entries the daemon holds now.\<close>

definition up_to_date :: "notif_env \<Rightarrow> notif \<Rightarrow> bool" where
  "up_to_date G s \<longleftrightarrow> notif_out s \<noteq> []
     \<and> xkids (last (notif_out s)) = map (notification_node G) (entries s)"

lemma config_frame:
  "entries (handle_notif_config G r s) = entries s"
  "notif_out (handle_notif_config G r s) = notif_out s"
proof -
  have "entries (fold (config_node_step G) ks s) = entries s
      \<and> notif_out (fold (config_node_step G) ks s) = notif_out s" for ks
    by (induction ks arbitrary: s) (auto simp: config_node_step_def)
  then show "entries (handle_notif_config G r s) = entries s"
      "notif_out (handle_notif_config G r s) = notif_out s"
    by (auto simp: handle_notif_config_def split: rom.split)
qed

lemma up_to_date_broadcast [simp]: "up_to_date G (notif_broadcast G s)"
  by (simp add: up_to_date_def notif_broadcast_def notifications_xml_def)

lemma up_to_date_step: "up_to_date G s \<Longrightarrow> up_to_date G (notif_step G i s)"
proof (cases i)
  case (Notif_request r)
  then show "up_to_date G s \<Longrightarrow> ?thesis"
    by (auto simp: handle_notif_request_def parse_and_apply_eq Let_def accept_all_none split: rom.split)
next
  case (Notif_config r)
  then show "up_to_date G s \<Longrightarrow> ?thesis" by (simp add: up_to_date_def config_frame)
next
  case (Notif_sweep now)
  have "filter (\<lambda>e. \<not> expired now e) (entries s) = entries s"
    if "\<forall>e \<in> set (entries s). \<not> expired now e"
    using that by simp
  with Notif_sweep show "up_to_date G s \<Longrightarrow> ?thesis"
    by (auto simp: handle_expiry_def Let_def)
qed

lemma out_grows: "\<exists>new. notif_out (notif_step G i s) = notif_out s @ new"
  by (cases i)
     (auto simp: handle_notif_request_def parse_and_apply_eq Let_def accept_all_out config_frame
       handle_expiry_def notif_broadcast_def split: rom.split)

interpretation notif: emitting_machine "notif_start G" "notif_step G"
    "\<lambda>s. notif_inv G s \<and> up_to_date G s" notif_out for G
  using notif_start_inv notif_step_inv up_to_date_step out_grows
  by unfold_locales (auto simp: notif_start_def notif_construct_def)

text \<open>
  C21: in every state the notifier reaches, whatever requests, configurations and sweeps arrive, the
  list fits its array of 32 entries, every entry has a valid kind, a lifetime between 1 and 30000 ms
  and texts within their capacities, the identifiers are those of an increasing sequence of numbers
  already given out, and the list published last is the list the daemon holds.
\<close>

theorem notifier_list_invariant:
  "notif_inv G (notif_reach G cfg req is) \<and> up_to_date G (notif_reach G cfg req is)"
  unfolding notif_reach_def by (rule notif.reach_inv) (auto simp: notif_start_def)

section \<open>Requests\<close>

text \<open>
  What a request does, where \<open>length()\<close> counts the terminating null. A notification is refused
  exactly when it has no title element, so that one with an empty title is accepted; an accepted one
  goes to the end of the list, and the oldest one leaves when the list is full.
\<close>

theorem notification_accepted:
  assumes "counts_nul G"
  shows "accept_one G n s =
    (if kids_of_type n ''title'' = [] then (False, s)
     else (True, s\<lparr>entries := (if unat (max_live s) \<le> length (entries s) then drop 1 (entries s) else entries s)
                      @ [new_entry G s n (gstr 96 (content (hd (kids_of_type n ''title'')))) (fst (now_ms G s))],
                   next_id := next_id s + 1, boot_ms := boot_ms (snd (now_ms G s)),
                   clock_reads := Suc (clock_reads s)\<rparr>))"
  using assms
  by (auto simp: accept_one_cases counts_nul_def sub_text_def kept_def split: list.split)

text \<open>A framework for the concrete instances.\<close>

definition demo_notif :: notif_env where
  "demo_notif = \<lparr>key_known = \<lambda>k. False, parse_xml = \<lambda>s. None, parse_hid = \<lambda>s. Raw s,
     to_u32 = \<lambda>s. if s = ''4000'' then Some 4000 else None, to_bool = \<lambda>s. None,
     ser_config = \<lambda>x. None, print_nat = \<lambda>n. replicate n (CHR ''1''), report_fits = \<lambda>b n. True,
     str_length = (\<lambda>s. case s of None \<Rightarrow> 0 | Some v \<Rightarrow> Suc (length v)),
     clock = (\<lambda>k. 600000)\<rparr>"

definition demo_note :: xml where
  "demo_note = node ''notification'' [(''ttl_ms'', ''4000'')] [leaf ''title'' []]"

lemma demo_counts_nul: "counts_nul demo_notif"
  by (simp add: counts_nul_def demo_notif_def)

theorem notification_accepted_witness:
  "counts_nul demo_notif \<and> fst (accept_one demo_notif demo_note notif_init)"
  using notification_accepted [OF demo_counts_nul, of demo_note notif_init] demo_counts_nul
  by (simp add: demo_note_def kids_of_type_def)

section \<open>Lifetimes\<close>

lemma ucast_ttl: "unat (ucast (t :: u32) :: u64) = unat t"
  using unat_u32_bound [of t] by (simp add: unsigned_ucast_eq take_bit_nat_eq_self)

text \<open>
  Requests take their time relative to the first one, the sweep takes it absolutely. A
  notification posted when the timer shows \<open>t\<close> and swept when it shows \<open>r\<close> stays exactly when
  \<open>r + boot < t + ttl\<close>, where \<open>boot\<close> is the time of the first notification: it lives that much shorter
  than its lifetime, and where the first one came later than its own lifetime, not at all.
\<close>

theorem lifetime_cut_by_boot_time:
  assumes "counts_nul G" and "accept_one G n s = (True, s')"
    and "unat (clock G (clock_reads s)) + unat (e_ttl (last (entries s'))) < 2 ^ 64"
    and "boot_ms s \<le> clock G (clock_reads s)"
  shows "last (entries s') \<in> set (entries (handle_expiry G r s')) \<longleftrightarrow>
    unat r + unat (boot_ms s') < unat (clock G (clock_reads s)) + unat (e_ttl (last (entries s')))"
proof -
  let ?t = "clock G (clock_reads s)"
  let ?e = "last (entries s')"
  have s': "s' = snd (accept_one G n s)" using assms(2) by simp
  have acc: "str_length G (sub_text 96 n ''title'') \<noteq> 0"
    using assms(2) by (auto simp: accept_one_cases split: if_splits)
  have ts: "e_ts ?e = ?t - boot_ms s'" and boot: "boot_ms s' \<le> ?t"
    using assms(4) acc by (auto simp: s' accept_one_cases new_entry_def now_ms_def Let_def)
  have mem: "?e \<in> set (entries s')" using acc by (simp add: s' accept_one_cases)
  have sub: "unat (?t - boot_ms s') = unat ?t - unat (boot_ms s')"
    using boot by (rule unat_sub)
  have sum: "unat (?t - boot_ms s' + ucast (e_ttl ?e)) = unat ?t - unat (boot_ms s') + unat (e_ttl ?e)"
    using assms(3) sub by (subst unat_add_lem [THEN iffD1]) (simp_all add: ucast_ttl)
  have "expired r ?e \<longleftrightarrow> unat ?t - unat (boot_ms s') + unat (e_ttl ?e) \<le> unat r"
    by (simp add: expired_def ts word_le_nat_alt sum)
  moreover have "unat (boot_ms s') \<le> unat ?t" using boot by (simp add: word_le_nat_alt)
  ultimately have "expired r ?e \<longleftrightarrow> unat ?t + unat (e_ttl ?e) \<le> unat r + unat (boot_ms s')"
    by linarith
  then show ?thesis using mem by (auto simp: handle_expiry_def Let_def not_le [symmetric])
qed

text \<open>
  The first notification comes ten minutes after the start with a lifetime of four seconds; a sweep
  one millisecond later removes it.
\<close>

theorem lifetime_cut_by_boot_time_witness:
  "\<not> last (entries (snd (accept_one demo_notif demo_note notif_init)))
     \<in> set (entries (handle_expiry demo_notif 600001 (snd (accept_one demo_notif demo_note notif_init))))"
proof -
  let ?s = "snd (accept_one demo_notif demo_note notif_init)"
  have acc: "accept_one demo_notif demo_note notif_init = (True, ?s)"
    by (simp add: accept_one_cases demo_notif_def demo_note_def sub_text_def kids_of_type_def)
  have vals: "boot_ms ?s = 600000" "e_ttl (last (entries ?s)) = 4000"
      "clock demo_notif (clock_reads notif_init) = 600000" "boot_ms notif_init = 0"
    by (simp_all add: accept_one_cases demo_notif_def demo_note_def sub_text_def kids_of_type_def
        new_entry_def now_ms_def Let_def notif_init_def attr_u32_def coerce_ttl_ms_def TTL_MAX_MS_def
        genode.truncate_def)
  show ?thesis
    using lifetime_cut_by_boot_time [OF demo_counts_nul acc, of 600001] by (simp add: vals)
qed

end
