(* ===== verification/Logdisk.thy ===== *)
theory Logdisk
  imports Genode_Iface Text_Scan Machine
begin

text \<open>
  \<open>sponge_logdisk/main.cc\<close>: the persistent log. The LOG sessions are served on an entrypoint of
  their own, which formats messages into a backlog in RAM; the main entrypoint drains the backlog
  into a file that is rotated at the start and at a size limit. The backlog is the array \<open>_pending\<close>
  with its two indices, subtraction wrapping as on \<open>size_t\<close>. The trace holds the operations on the
  file. A handler that waits for the file system forever leaves \<open>io_active\<close> set, as in the code. What
  the session entrypoint appends while the main one writes is part of the script of a drain; a batch
  is written as it was when it was taken. The component's own log lines are left out.
\<close>

definition LINE_MAX :: nat where "LINE_MAX = 1024"
definition LABEL_LEN :: nat where "LABEL_LEN = 96"
definition PATH_LEN :: nat where "PATH_LEN = 128"
definition PENDING_MAX :: nat where "PENDING_MAX = 262144"

section \<open>State\<close>

record logd =
  lg_path :: string
  lg_suffix :: string
  max_bytes :: u64
  tick_ms :: u64
  pmem :: "nat \<Rightarrow> char"
  plen :: nat
  poff :: nat
  tick_pending :: bool
  io_active :: bool
  dropped :: u64
  lg_file :: bool
  file_bytes :: u64
  lg_ticks :: u64
  lg_ms :: u64
  lg_vfs :: bool
  lg_timer :: bool
  lg_out :: "vfs_op list"

definition logd_init :: logd where
  "logd_init = \<lparr>lg_path = ''/boot.log'', lg_suffix = ''.1'', max_bytes = 8388608, tick_ms = 0,
     pmem = (\<lambda>i. NUL), plen = 0, poff = 0, tick_pending = False, io_active = False, dropped = 0,
     lg_file = False, file_bytes = 0, lg_ticks = 0, lg_ms = 0, lg_vfs = False, lg_timer = False,
     lg_out = []\<rparr>"

definition lg_emit_ops :: "vfs_op list \<Rightarrow> logd \<Rightarrow> logd" where
  "lg_emit_ops ops s = s\<lparr>lg_out := lg_out s @ ops\<rparr>"

section \<open>Formatting\<close>

definition append_num :: "nat \<Rightarrow> string \<Rightarrow> u64 \<Rightarrow> string" where
  "append_num cap buf v = buf_append 1 cap buf (decimal (unat v))"

definition session_prefix :: "string \<Rightarrow> string" where
  "session_prefix label = buf_appends 1 LABEL_LEN [] [''['', gstr LABEL_LEN label, '']'' @ [SP]]"

text \<open>
  One line of a message: the characters up to the newline or the end, without the colour markers.
  A marker ends at the next \<open>m\<close>, which may stand behind the newline. The result is the line and what
  is left of the message, the newline included.
\<close>

function scan_line :: "string \<Rightarrow> string \<Rightarrow> string \<times> string" where
  "scan_line line [] = (line, [])"
| "scan_line line (c # p) =
     (if c = NL then (line, c # p)
      else if c = CHR 0x1B then scan_line line (drop 1 (dropWhile (\<lambda>x. x \<noteq> CHR ''m'') p))
      else scan_line (buf_append 1 LINE_MAX line [c]) p)"
  by pat_completeness auto

termination
proof (relation "measure (\<lambda>(line, p). length p)")
  fix line :: string and c :: char and p
  show "((line, drop 1 (dropWhile (\<lambda>x. x \<noteq> CHR ''m'') p)), line, c # p)
      \<in> measure (\<lambda>(line, p). length p)"
    using length_dropWhile_le [of "\<lambda>x. x \<noteq> CHR ''m''" p] by simp
qed auto

lemma scan_line_shrinks: "length (snd (scan_line line p)) \<le> length p"
proof (induction line p rule: scan_line.induct)
  case (2 line c p)
  show ?case
    using 2 length_dropWhile_le [of "\<lambda>x. x \<noteq> CHR ''m''" p] by auto
qed simp

lemma scan_line_step:
  "p \<noteq> [] \<Longrightarrow> length (case snd (scan_line line p) of [] \<Rightarrow> [] | c # r \<Rightarrow> r) < length p"
proof (induction line p rule: scan_line.induct)
  case (2 line c p)
  show ?case
    using scan_line_shrinks [of line "drop 1 (dropWhile (\<lambda>x. x \<noteq> CHR ''m'') p)"]
      scan_line_shrinks [of "buf_append 1 LINE_MAX line [c]" p]
      length_dropWhile_le [of "\<lambda>x. x \<noteq> CHR ''m''" p]
    by (auto split: list.split)
qed simp

definition line_head :: "u64 \<Rightarrow> string \<Rightarrow> string" where
  "line_head ms tag = buf_appends 1 LINE_MAX (append_num LINE_MAX [] ms) [[SP], tag]"

text \<open>The lines a message is queued as, each ended by a newline if it still fits.\<close>

function format_lines :: "u64 \<Rightarrow> string \<Rightarrow> string \<Rightarrow> string list" where
  "format_lines ms tag p =
     (if p = [] then []
      else let (line, rest) = scan_line (line_head ms tag) p
           in buf_append 1 LINE_MAX line [NL]
              # format_lines ms tag (case rest of [] \<Rightarrow> [] | c # r \<Rightarrow> r))"
  by pat_completeness auto

termination
  by (relation "measure (\<lambda>(ms, tag, p). length p)") (auto, metis scan_line_step snd_conv)

declare format_lines.simps [simp del]

section \<open>The backlog\<close>

definition copy_in :: "string \<Rightarrow> logd \<Rightarrow> logd" where
  "copy_in line s = s\<lparr>pmem := (\<lambda>i. if plen s \<le> i \<and> i < plen s + length line
       then line ! (i - plen s) else pmem s i), plen := plen s + length line\<rparr>"

definition compact :: "logd \<Rightarrow> logd" where
  "compact s = (let rest = size_sub (plen s) (poff s)
     in s\<lparr>pmem := (\<lambda>i. if i < rest then pmem s (poff s + i) else pmem s i), plen := rest, poff := 0\<rparr>)"

definition append_locked :: "string \<Rightarrow> logd \<Rightarrow> logd" where
  "append_locked line s =
     (if plen s + length line \<le> PENDING_MAX then copy_in line s
      else if poff s = 0 \<and> PENDING_MAX < length line then s
      else
        (let excess = plen s + length line - PENDING_MAX;
             s1 = s\<lparr>poff := poff s + excess, plen := size_sub (plen s) excess,
                    dropped := dropped s + of_nat excess\<rparr>;
             s2 = (if PENDING_MAX div 2 \<le> poff s1 then compact s1 else s1)
         in if PENDING_MAX < plen s2 + length line then s2 else copy_in line s2))"

text \<open>What the backlog holds.\<close>

definition backlog :: "logd \<Rightarrow> string" where
  "backlog s = map (pmem s) [poff s..<plen s]"

text \<open>
  A message is queued line by line. The signal submitted at the end goes to a context of \<open>_work_recv\<close>,
  a receiver on which nothing ever waits: no handler runs, and the state stays as it is.
\<close>

definition queue_message :: "string \<Rightarrow> string \<Rightarrow> logd \<Rightarrow> logd" where
  "queue_message tag msg s = fold append_locked (format_lines (lg_ms s) tag msg) s"

section \<open>The file\<close>

text \<open>The answers of the file system to one call of \<open>_emit\<close>, or to the opening at the start.\<close>

record emit_io =
  rot_stat :: "nat option"
  rot_rename :: bool
  rot_open :: bool
  rot_trunc :: bool
  new_open :: bool
  new_stat :: "nat option"
  em_writes :: "write_ans list"
  em_syncs :: "bool list"

definition close_file :: "logd \<Rightarrow> logd" where
  "close_file s = (if lg_file s then s\<lparr>lg_file := False, file_bytes := 0\<rparr> else s)"

definition rotated_path :: "logd \<Rightarrow> string" where
  "rotated_path s = buf_appends 1 (PATH_LEN + 32) [] [lg_path s, lg_suffix s]"

definition rotate_existing :: "emit_io \<Rightarrow> logd \<Rightarrow> logd" where
  "rotate_existing io s =
     (if \<not> lg_vfs s then s
      else case rot_stat io of
        None \<Rightarrow> s
      | Some n \<Rightarrow>
          (if n = 0 then s
           else if rot_rename io then lg_emit_ops [Vfs_rename (lg_path s) (rotated_path s)] s
           else if rot_open io then lg_emit_ops (Vfs_open (lg_path s) # (if rot_trunc io then [Vfs_truncate (lg_path s) 0] else [])) s
           else s))"

definition open_file :: "emit_io \<Rightarrow> logd \<Rightarrow> logd" where
  "open_file io s =
     (if \<not> lg_vfs s \<or> lg_file s then s
      else if \<not> new_open io then s
      else (lg_emit_ops [Vfs_create (lg_path s)] s)
             \<lparr>file_bytes := (case new_stat io of None \<Rightarrow> 0 | Some n \<Rightarrow> of_nat n), lg_file := True\<rparr>)"

text \<open>
  The write loop of \<open>_emit\<close>: \<open>off\<close> and the file position both advance by what was written, and the next
  write goes to their sum.
\<close>

fun emit_loop :: "string \<Rightarrow> string \<Rightarrow> nat \<Rightarrow> u64 \<Rightarrow> write_ans list \<Rightarrow> io_end \<times> u64 \<times> vfs_op list" where
  "emit_loop path data off fb [] = (if length data \<le> off then Done else Blocked, fb, [])"
| "emit_loop path data off fb (a # as) =
     (if length data \<le> off then (Done, fb, [])
      else case a of
        Write_retry \<Rightarrow> emit_loop path data off fb as
      | Write_err \<Rightarrow> (Failed, fb, [])
      | Write_ok n \<Rightarrow>
          (if n = 0 then (Failed, fb, [])
           else let (e, fb', ops) = emit_loop path data (off + n) (fb + of_nat n) as
                in (e, fb', Vfs_write path (unat (fb + of_nat off)) (take n (drop off data)) # ops)))"

text \<open>\<open>_emit\<close>; the flag is whether it returns.\<close>

definition emit_data :: "emit_io \<Rightarrow> string \<Rightarrow> logd \<Rightarrow> bool \<times> logd" where
  "emit_data io data s =
     (if \<not> lg_file s \<or> data = [] then (True, s)
      else
        (let s1 = (if max_bytes s < file_bytes s + of_nat (length data)
                   then open_file io (rotate_existing io (close_file s)) else s)
         in if \<not> lg_file s1 then (True, s1)
            else case emit_loop (lg_path s1) data 0 (file_bytes s1) (em_writes io) of
              (e, fb, ops) \<Rightarrow>
                (let s2 = (lg_emit_ops ops s1)\<lparr>file_bytes := fb\<rparr>
                 in case e of
                   Failed \<Rightarrow> (True, close_file s2)
                 | Blocked \<Rightarrow> (False, s2)
                 | Done \<Rightarrow> (if sync_loop (em_syncs io) = Done
                            then (True, lg_emit_ops [Vfs_sync (lg_path s1)] s2) else (False, s2)))))"

definition boot_header :: "emit_io \<Rightarrow> logd \<Rightarrow> bool \<times> logd" where
  "boot_header io s = emit_data io
     (buf_append 1 LINE_MAX
       (append_num LINE_MAX
         (buf_appends 1 LINE_MAX [] [''=== sponge_logdisk: boot start, path '', lg_path s, '', cap ''])
         (max_bytes s))
       ('' bytes ==='' @ [NL])) s"

definition tick_line :: "emit_io \<Rightarrow> logd \<Rightarrow> bool \<times> logd" where
  "tick_line io s0 =
     (let s = s0\<lparr>lg_ticks := lg_ticks s0 + 1\<rparr>;
          line = buf_append 1 LINE_MAX
            (append_num LINE_MAX
              (buf_append 1 LINE_MAX (append_num LINE_MAX [] (lg_ticks s))
                 '' [sponge_logdisk] tick alive dropped='')
              (dropped s)) [NL]
      in emit_data io line s)"

section \<open>The drain\<close>

text \<open>
  What may happen while the main entrypoint waits inside \<open>_emit\<close>: messages on the session entrypoint,
  and tick signals, whose nested drain returns at once because \<open>_io_active\<close> is set.
\<close>

datatype meanwhile = Logged string string | Ticked

definition note_tick :: "logd \<Rightarrow> logd" where
  "note_tick s = s\<lparr>tick_pending := True, lg_ms := lg_ms s + tick_ms s\<rparr>"

fun happens :: "meanwhile \<Rightarrow> logd \<Rightarrow> logd" where
  "happens (Logged tag msg) s = queue_message tag msg s"
| "happens Ticked s = note_tick s"

record drain_round =
  dr_io :: emit_io
  dr_during :: "meanwhile list"
  dr_tick_io :: emit_io
  dr_after :: "meanwhile list"

definition take_batch :: "drain_round \<Rightarrow> logd \<Rightarrow> bool \<times> logd" where
  "take_batch r s =
     (let len = size_sub (plen s) (poff s);
          s1 = s\<lparr>tick_pending := False\<rparr>
      in if lg_file s1 \<and> len \<noteq> 0 then emit_data (dr_io r) (backlog s1) s1 else (True, s1))"

definition clear_backlog :: "logd \<Rightarrow> logd" where
  "clear_backlog s = s\<lparr>poff := 0, plen := 0\<rparr>"

fun drain_loop :: "drain_round list \<Rightarrow> logd \<Rightarrow> logd" where
  "drain_loop [] s =
     (if poff s = plen s \<and> \<not> tick_pending s then s\<lparr>io_active := False\<rparr> else s)"
| "drain_loop (r # rs) s =
     (if poff s = plen s \<and> \<not> tick_pending s then s\<lparr>io_active := False\<rparr>
      else case take_batch r s of
        (returns, s1) \<Rightarrow>
          (if \<not> returns then fold happens (dr_during r) s1
           else
             (let s2 = clear_backlog (fold happens (dr_during r) s1);
                  (returns, s3) = (if tick_pending s then tick_line (dr_tick_io r) s2 else (True, s2));
                  s4 = fold happens (dr_after r) s3
              in if returns then drain_loop rs s4 else s4)))"

definition drain :: "drain_round list \<Rightarrow> logd \<Rightarrow> logd" where
  "drain rs s = (if io_active s then s else drain_loop rs (s\<lparr>io_active := True\<rparr>))"

section \<open>Configuration and start\<close>

record log_env = genode +
  to_u64 :: "string \<Rightarrow> u64 option"

definition copy_attr :: "xml \<Rightarrow> string \<Rightarrow> nat \<Rightarrow> string \<Rightarrow> string" where
  "copy_attr x k cap dst = (case attr x k of None \<Rightarrow> dst | Some v \<Rightarrow> take (cap - 1) v)"

definition read_log_config :: "log_env \<Rightarrow> rom \<Rightarrow> logd \<Rightarrow> logd" where
  "read_log_config G r s =
     (case r of
        Rom_node x \<Rightarrow>
          (let m = (case attr x ''max_bytes'' of None \<Rightarrow> 0
                      | Some v \<Rightarrow> (case to_u64 G v of None \<Rightarrow> 0 | Some n \<Rightarrow> n))
           in s\<lparr>lg_path := copy_attr x ''path'' PATH_LEN (lg_path s),
                lg_suffix := copy_attr x ''rotate_suffix'' 32 (lg_suffix s),
                max_bytes := (if 0 < m then m else max_bytes s),
                tick_ms := ucast (attr_u32 (genode.truncate G) x ''tick_ms'' 0)\<rparr>)
      | _ \<Rightarrow> s)"

text \<open>
  The constructor. \<open>early\<close> is what other components log while it waits for the file system;
  \<open>timer_ok\<close> says whether the Timer session could be opened.
\<close>

definition logd_construct ::
    "log_env \<Rightarrow> rom \<Rightarrow> (string \<times> string) list \<Rightarrow> emit_io \<Rightarrow> bool \<Rightarrow> logd" where
  "logd_construct G r early io timer_ok =
     (let s0 = read_log_config G r logd_init;
          s1 = fold (\<lambda>(p, m). queue_message p m) early (s0\<lparr>lg_vfs := has_sub_node r ''vfs''\<rparr>);
          s2 = open_file io (rotate_existing io s1);
          (returns, s3) = (if lg_file s2 then boot_header io s2 else (True, s2))
      in if returns \<and> tick_ms s3 \<noteq> 0 \<and> timer_ok then s3\<lparr>lg_timer := True\<rparr> else s3)"

datatype logd_in = Log_write string string | Tick_signal "drain_round list"

fun logd_step :: "logd_in \<Rightarrow> logd \<Rightarrow> logd" where
  "logd_step (Log_write label msg) s = queue_message (session_prefix label) msg s"
| "logd_step (Tick_signal rs) s = (if lg_timer s then drain rs (note_tick s) else s)"

definition logd_start :: "log_env \<Rightarrow> logd \<Rightarrow> bool" where
  "logd_start G s \<longleftrightarrow> (\<exists>r early io ok. s = logd_construct G r early io ok)"

definition logd_reach ::
    "log_env \<Rightarrow> rom \<Rightarrow> (string \<times> string) list \<Rightarrow> emit_io \<Rightarrow> bool \<Rightarrow> logd_in list \<Rightarrow> logd" where
  "logd_reach G r early io ok is = run logd_step (logd_construct G r early io ok) is"

end
