(* ===== verification/Logdisk_Props.thy ===== *)
theory Logdisk_Props
  imports Logdisk
begin

text \<open>
  What the persistent log guarantees of its backlog, and where lines are lost: without a tick
  nothing is written after the start, an overflow drops new bytes together with old ones, what
  arrives during a write is forgotten, and a short write shifts the rest of its batch.
\<close>

section \<open>Lines\<close>

lemma scan_line_length:
  "length line \<le> LINE_MAX - 1 \<Longrightarrow> length (fst (scan_line line p)) \<le> LINE_MAX - 1"
proof (induction line p rule: scan_line.induct)
  case (2 line c p)
  then show ?case using length_buf_append [of line LINE_MAX 1 "[c]"] by simp
qed simp

lemma line_head_length: "length (line_head ms tag) \<le> LINE_MAX - 1"
  unfolding line_head_def append_num_def
  by (intro length_buf_appends length_buf_append) simp

lemma format_lines_length: "list_all (\<lambda>l. length l < LINE_MAX) (format_lines ms tag p)"
proof (induction ms tag p rule: format_lines.induct)
  case (1 ms tag p)
  have "length (buf_append 1 LINE_MAX (fst (scan_line (line_head ms tag) p)) [NL]) \<le> LINE_MAX - 1"
    by (intro length_buf_append scan_line_length line_head_length)
  then have "length (buf_append 1 LINE_MAX (fst (scan_line (line_head ms tag) p)) [NL]) < LINE_MAX"
    by (simp add: LINE_MAX_def)
  with 1 show ?case
    by (subst format_lines.simps) (auto simp: Let_def split: prod.split)
qed

section \<open>The backlog\<close>

definition backlog_inv :: "logd \<Rightarrow> bool" where
  "backlog_inv s \<longleftrightarrow> poff s \<le> plen s \<and> plen s \<le> PENDING_MAX \<and> 2 * poff s < PENDING_MAX"

lemma backlog_copy_in: "poff s \<le> plen s \<Longrightarrow> backlog (copy_in line s) = backlog s @ line"
  (is "_ \<Longrightarrow> ?thesis")
proof -
  assume le: "poff s \<le> plen s"
  have new: "map (\<lambda>i. line ! (i - plen s)) [plen s..<plen s + length line] = line"
    by (rule nth_equalityI) simp_all
  let ?f = "\<lambda>i. if plen s \<le> i \<and> i < plen s + length line then line ! (i - plen s) else pmem s i"
  have "backlog (copy_in line s) = map ?f [poff s..<plen s + length line]"
    by (simp add: backlog_def copy_in_def)
  also have "\<dots> = map ?f [poff s..<plen s] @ map ?f [plen s..<plen s + length line]"
    by (simp only: upt_add_eq_append [OF le] map_append)
  also have "map ?f [poff s..<plen s] = backlog s" unfolding backlog_def by (rule map_cong) auto
  also have "map ?f [plen s..<plen s + length line]
      = map (\<lambda>i. line ! (i - plen s)) [plen s..<plen s + length line]" by (rule map_cong) auto
  finally show ?thesis by (simp only: new)
qed

lemma backlog_compact:
  assumes "poff s \<le> plen s"
  shows "backlog (compact s) = backlog s" and "plen (compact s) = plen s - poff s"
    and "poff (compact s) = 0"
  using assms by (auto simp: backlog_def compact_def size_sub_def Let_def intro!: nth_equalityI)

lemma backlog_cut:
  "backlog (s\<lparr>poff := poff s + k, plen := plen s - k, dropped := d\<rparr>)
     = drop k (take (length (backlog s) - k) (backlog s))"
proof (cases "poff s + k \<le> plen s - k")
  case True
  then show ?thesis by (intro nth_equalityI) (auto simp: backlog_def add.commute add.left_commute)
next
  case False
  then show ?thesis by (auto simp: backlog_def)
qed

text \<open>What an append that does not fit does, given the bound on the line.\<close>

lemma append_locked_full:
  assumes inv: "backlog_inv s" and line: "length line < LINE_MAX"
    and full: "PENDING_MAX < plen s + length line"
  defines "k \<equiv> plen s + length line - PENDING_MAX"
  shows "backlog (append_locked line s) = drop k (take (length (backlog s) - k) (backlog s)) @ line"
    and "backlog_inv (append_locked line s)"
proof -
  let ?s1 = "s\<lparr>poff := poff s + k, plen := plen s - k, dropped := dropped s + of_nat k\<rparr>"
  let ?s2 = "if PENDING_MAX div 2 \<le> poff ?s1 then compact ?s1 else ?s1"
  have k: "0 < k" "k \<le> length line" "k \<le> plen s"
    using inv line full by (auto simp: k_def backlog_inv_def LINE_MAX_def PENDING_MAX_def)
  have "k + PENDING_MAX = plen s + length line" using full by (simp add: k_def)
  then have "poff s + k \<le> plen s - k"
    using inv line unfolding backlog_inv_def LINE_MAX_def PENDING_MAX_def by linarith
  then have le: "poff ?s1 \<le> plen ?s1" by simp
  have sub: "size_sub (plen s) k = plen s - k" using k by (simp add: size_sub_def)
  have room: "\<not> PENDING_MAX < plen ?s2 + length line"
    using inv full le backlog_compact [OF le] by (auto simp: k_def backlog_inv_def)
  have eq: "append_locked line s = copy_in line ?s2"
  proof -
    have "\<not> plen s + length line \<le> PENDING_MAX" "\<not> (poff s = 0 \<and> PENDING_MAX < length line)"
      using full line by (simp_all add: LINE_MAX_def PENDING_MAX_def)
    then show ?thesis
      using room unfolding append_locked_def Let_def k_def [symmetric] sub by (simp only: if_False)
  qed
  have le2: "poff ?s2 \<le> plen ?s2" using le backlog_compact [OF le] by simp
  have "backlog ?s2 = backlog ?s1" using backlog_compact [OF le] by simp
  then show "backlog (append_locked line s) = drop k (take (length (backlog s) - k) (backlog s)) @ line"
    unfolding eq backlog_copy_in [OF le2] by (simp only: backlog_cut)
  have "2 * poff ?s2 < PENDING_MAX"
    using backlog_compact [OF le] by (auto simp: PENDING_MAX_def)
  then show "backlog_inv (append_locked line s)"
    using le2 room unfolding eq by (auto simp: backlog_inv_def copy_in_def)
qed

lemma append_locked_inv:
  assumes "backlog_inv s" and "length line < LINE_MAX"
  shows "backlog_inv (append_locked line s)"
proof (cases "plen s + length line \<le> PENDING_MAX")
  case True
  then show ?thesis using assms by (simp add: append_locked_def backlog_inv_def copy_in_def)
next
  case False
  then show ?thesis using append_locked_full(2) [OF assms] by simp
qed

lemma queue_inv: "backlog_inv s \<Longrightarrow> backlog_inv (queue_message tag msg s)"
proof -
  have "backlog_inv (fold append_locked ls s)" if "backlog_inv s" "list_all (\<lambda>l. length l < LINE_MAX) ls" for ls s
    using that by (induction ls arbitrary: s) (auto intro: append_locked_inv)
  then show "backlog_inv s \<Longrightarrow> ?thesis" by (simp add: queue_message_def format_lines_length)
qed

section \<open>Frames\<close>

text \<open>What an append leaves alone, and what the file operations leave alone.\<close>

definition same_file :: "logd \<Rightarrow> logd \<Rightarrow> bool" where
  "same_file s t \<longleftrightarrow> lg_out t = lg_out s \<and> lg_timer t = lg_timer s \<and> tick_pending t = tick_pending s
     \<and> tick_ms t = tick_ms s"

definition same_backlog :: "logd \<Rightarrow> logd \<Rightarrow> bool" where
  "same_backlog s t \<longleftrightarrow> pmem t = pmem s \<and> plen t = plen s \<and> poff t = poff s \<and> tick_ms t = tick_ms s
     \<and> lg_timer t = lg_timer s \<and> tick_pending t = tick_pending s"

lemma same_file_append: "same_file s (append_locked line s)"
  by (simp add: same_file_def append_locked_def copy_in_def compact_def Let_def)

lemma same_file_trans: "same_file s t \<Longrightarrow> same_file t u \<Longrightarrow> same_file s u"
  by (simp add: same_file_def)

lemma same_file_fold: "(\<And>x s. P x \<Longrightarrow> same_file s (f x s)) \<Longrightarrow> \<forall>x \<in> set xs. P x \<Longrightarrow> same_file s (fold f xs s)"
proof (induction xs arbitrary: s)
  case Nil
  then show ?case by (simp add: same_file_def)
next
  case (Cons x xs)
  then have "same_file s (f x s)" "same_file (f x s) (fold f xs (f x s))" by simp_all
  then show ?case by (auto intro: same_file_trans)
qed

lemma same_file_queue: "same_file s (queue_message tag msg s)"
  unfolding queue_message_def by (rule same_file_fold [where P = "\<lambda>_. True"]) (simp_all add: same_file_append)

lemma same_file_logged:
  "\<forall>e \<in> set es. \<exists>p m. e = Logged p m \<Longrightarrow> same_file s (fold happens es s)"
  by (rule same_file_fold [where P = "\<lambda>e. \<exists>p m. e = Logged p m"]) (auto intro: same_file_queue)

lemma same_backlog_refl [simp, intro]: "same_backlog s s"
  by (simp add: same_backlog_def)

lemma same_backlog_trans: "same_backlog s t \<Longrightarrow> same_backlog t u \<Longrightarrow> same_backlog s u"
  by (simp add: same_backlog_def)

lemma same_backlog_inv: "same_backlog s t \<Longrightarrow> backlog_inv t = backlog_inv s"
  by (simp add: same_backlog_def backlog_inv_def)

lemma same_backlog_ops [intro]:
  "same_backlog s t \<Longrightarrow> same_backlog s (lg_emit_ops ops t)"
  "same_backlog s t \<Longrightarrow> same_backlog s (close_file t)"
  "same_backlog s t \<Longrightarrow> same_backlog s (t\<lparr>file_bytes := b\<rparr>)"
  "same_backlog s t \<Longrightarrow> same_backlog s (t\<lparr>lg_ticks := k\<rparr>)"
  "same_backlog s t \<Longrightarrow> same_backlog s (t\<lparr>file_bytes := b, lg_file := f\<rparr>)"
  by (simp_all add: same_backlog_def lg_emit_ops_def close_file_def)

lemma same_backlog_files [intro]:
  "same_backlog s t \<Longrightarrow> same_backlog s (rotate_existing io t)"
  "same_backlog s t \<Longrightarrow> same_backlog s (open_file io t)"
  by (auto simp: rotate_existing_def open_file_def split: option.split)

lemma same_backlog_emit: "same_backlog s t \<Longrightarrow> same_backlog s (snd (emit_data io data t))"
  unfolding emit_data_def Let_def by (auto split: io_end.split prod.split intro!: same_backlog_ops same_backlog_files)

lemma same_backlog_header: "same_backlog s t \<Longrightarrow> same_backlog s (snd (boot_header io t))"
  unfolding boot_header_def by (rule same_backlog_emit)

lemma same_backlog_tick: "same_backlog s t \<Longrightarrow> same_backlog s (snd (tick_line io t))"
  unfolding tick_line_def Let_def by (intro same_backlog_emit same_backlog_ops)

lemma same_backlog_batch: "same_backlog (s\<lparr>tick_pending := False\<rparr>) (snd (take_batch r s))"
  unfolding take_batch_def Let_def by (auto intro: same_backlog_emit)

section \<open>The invariant\<close>

lemma note_tick_inv: "backlog_inv s \<Longrightarrow> backlog_inv (note_tick s)"
  by (simp add: backlog_inv_def note_tick_def)

lemma happens_inv: "backlog_inv s \<Longrightarrow> backlog_inv (fold happens es s)"
proof (induction es arbitrary: s)
  case (Cons e es)
  then show ?case by (cases e) (auto intro: queue_inv note_tick_inv)
qed simp

lemma clear_inv: "backlog_inv (clear_backlog s)"
  by (simp add: backlog_inv_def clear_backlog_def PENDING_MAX_def)

lemma drain_loop_inv: "backlog_inv s \<Longrightarrow> backlog_inv (drain_loop rs s)"
proof (induction rs s rule: drain_loop.induct)
  case (1 s)
  then show ?case by (simp add: backlog_inv_def)
next
  case (2 r rs s)
  obtain ret s1 where b: "take_batch r s = (ret, s1)" by fastforce
  let ?s2 = "clear_backlog (fold happens (dr_during r) s1)"
  obtain ret' s3 where t: "(if tick_pending s then tick_line (dr_tick_io r) ?s2 else (True, ?s2)) = (ret', s3)"
    by fastforce
  have s1: "backlog_inv s1"
    using 2(2) same_backlog_inv [OF same_backlog_batch [of s r]] by (simp add: b backlog_inv_def)
  have s3: "backlog_inv s3"
    using t clear_inv same_backlog_inv [OF same_backlog_tick [OF same_backlog_refl, of ?s2 "dr_tick_io r"]]
    by (auto split: if_splits)
  show ?case
  proof (cases "poff s = plen s \<and> \<not> tick_pending s")
    case True
    then show ?thesis using 2(2) by (simp add: backlog_inv_def)
  next
    case False
    then show ?thesis using b t s1 s3 2(1) happens_inv by (auto simp: Let_def)
  qed
qed

lemma logd_step_inv: "backlog_inv s \<Longrightarrow> backlog_inv (logd_step i s)"
proof (cases i)
  case (Tick_signal rs)
  assume "backlog_inv s"
  then have "backlog_inv (note_tick s)" by (rule note_tick_inv)
  moreover have "backlog_inv (s'\<lparr>io_active := True\<rparr>) = backlog_inv s'" for s'
    by (simp add: backlog_inv_def)
  ultimately show ?thesis
    using \<open>backlog_inv s\<close> by (auto simp: Tick_signal drain_def intro: drain_loop_inv)
qed (simp add: queue_inv)

lemma logd_construct_inv: "backlog_inv (logd_construct G r early io ok)"
proof -
  let ?s0 = "(read_log_config G r logd_init)\<lparr>lg_vfs := has_sub_node r ''vfs''\<rparr>"
  have "backlog_inv ?s0"
    by (simp add: backlog_inv_def read_log_config_def logd_init_def PENDING_MAX_def Let_def split: rom.split)
  moreover have "backlog_inv (fold (\<lambda>(p, m). queue_message p m) es s)" if "backlog_inv s" for es s
    using that by (induction es arbitrary: s) (auto intro: queue_inv)
  ultimately have s1: "backlog_inv (fold (\<lambda>(p, m). queue_message p m) early ?s0)" by blast
  let ?s2 = "open_file io (rotate_existing io (fold (\<lambda>(p, m). queue_message p m) early ?s0))"
  have "same_backlog (fold (\<lambda>(p, m). queue_message p m) early ?s0)
      (snd (if lg_file ?s2 then boot_header io ?s2 else (True, ?s2)))"
    by (simp add: same_backlog_header same_backlog_files)
  then have "backlog_inv (snd (if lg_file ?s2 then boot_header io ?s2 else (True, ?s2)))"
    using s1 by (simp only: same_backlog_inv)
  moreover have "backlog_inv (s\<lparr>lg_timer := True\<rparr>) = backlog_inv s" for s by (simp add: backlog_inv_def)
  ultimately show ?thesis by (simp add: logd_construct_def Let_def case_prod_beta)
qed

interpretation logdisk: machine "logd_start G" logd_step backlog_inv for G
  by unfold_locales (auto simp: logd_start_def logd_construct_inv logd_step_inv)

text \<open>
  C19: in every state the log reaches, whatever is logged while it starts, runs or waits for the file
  system, the indices of the backlog are ordered and inside the array, so no subtraction in the
  overflow code wraps, and every line it queues fits its buffer.
\<close>

theorem backlog_within_array:
  "backlog_inv (logd_reach G r early io ok is)
     \<and> list_all (\<lambda>l. length l < LINE_MAX) (format_lines ms (session_prefix label) msg)"
  unfolding logd_reach_def
  by (intro conjI format_lines_length logdisk.reach_inv) (auto simp: logd_start_def)

text \<open>
  What queueing a line does to the backlog. While it fits it is appended. Where it does not, by
  \<open>k\<close> bytes, the oldest \<open>k\<close> bytes are dropped, and so are the newest \<open>k\<close>: the end of what was logged
  last before.
\<close>

theorem overflow_drops_both_ends:
  assumes "backlog_inv s" and "length line < LINE_MAX"
  shows "backlog (append_locked line s) =
    (let k = plen s + length line - PENDING_MAX
     in drop k (take (length (backlog s) - k) (backlog s)) @ line)"
proof (cases "plen s + length line \<le> PENDING_MAX")
  case True
  then show ?thesis
    using assms backlog_copy_in by (simp add: append_locked_def backlog_inv_def)
next
  case False
  then show ?thesis using append_locked_full(1) [OF assms] by (simp add: Let_def)
qed

definition full_logd :: logd where
  "full_logd = logd_init\<lparr>pmem := (\<lambda>i. if i = PENDING_MAX - 2 then CHR ''z'' else CHR ''a''),
     plen := PENDING_MAX\<rparr>"

theorem overflow_drops_both_ends_witness:
  "backlog_inv full_logd
    \<and> backlog (append_locked ''xy'' full_logd) = drop 2 (take (PENDING_MAX - 2) (backlog full_logd)) @ ''xy''"
proof -
  have inv: "backlog_inv full_logd"
    by (simp add: backlog_inv_def full_logd_def logd_init_def PENDING_MAX_def)
  have len: "length (backlog full_logd) = PENDING_MAX" "plen full_logd = PENDING_MAX"
    by (simp_all add: backlog_def full_logd_def logd_init_def)
  show ?thesis
    using overflow_drops_both_ends [OF inv, of "''xy''"] inv len by (simp add: LINE_MAX_def Let_def)
qed

section \<open>Lines that are lost\<close>

text \<open>
  The wake-up of the main entrypoint reaches no handler. Without \<open>tick_ms\<close> in the configuration,
  whatever is logged after the start, nothing is ever written to the file again.
\<close>

theorem untimed_log_never_written:
  assumes "attr_u32 (genode.truncate G) x ''tick_ms'' 0 = 0"
  shows "lg_out (logd_reach G (Rom_node x) early io ok is)
    = lg_out (logd_construct G (Rom_node x) early io ok)"
proof -
  let ?s0 = "logd_construct G (Rom_node x) early io ok"
  have early: "same_file s (fold (\<lambda>(p, m). queue_message p m) es s)" for es s
    by (rule same_file_fold [where P = "\<lambda>_. True"]) (auto intro: same_file_queue)
  have "\<not> lg_timer ?s0"
  proof -
    let ?s = "(read_log_config G (Rom_node x) logd_init)\<lparr>lg_vfs := has_sub_node (Rom_node x) ''vfs''\<rparr>"
    let ?s1 = "fold (\<lambda>(p, m). queue_message p m) early ?s"
    let ?s2 = "open_file io (rotate_existing io ?s1)"
    let ?s3 = "snd (if lg_file ?s2 then boot_header io ?s2 else (True, ?s2))"
    have "same_backlog ?s1 ?s3"
      by (simp add: same_backlog_header same_backlog_files)
    moreover have "tick_ms ?s = 0" "\<not> lg_timer ?s"
      using assms by (simp_all add: read_log_config_def logd_init_def Let_def)
    ultimately have "tick_ms ?s3 = 0" "\<not> lg_timer ?s3"
      using early [where s = ?s and es = early] by (simp_all add: same_file_def same_backlog_def)
    then show ?thesis by (simp add: logd_construct_def Let_def case_prod_beta)
  qed
  moreover have "lg_out (run logd_step s is) = lg_out s" if "\<not> lg_timer s" for s
    using that
  proof (induction "is" arbitrary: s)
    case (Cons i "is")
    have "lg_out (logd_step i s) = lg_out s \<and> \<not> lg_timer (logd_step i s)"
      using Cons.prems same_file_queue by (cases i) (auto simp: same_file_def)
    then show ?case using Cons.IH by simp
  qed simp
  ultimately show ?thesis by (simp add: logd_reach_def)
qed

definition demo_log :: log_env where
  "demo_log = \<lparr>key_known = \<lambda>k. False, parse_xml = \<lambda>s. None, parse_hid = \<lambda>s. Raw s,
     to_u32 = \<lambda>s. None, to_bool = \<lambda>s. None, ser_config = \<lambda>x. None, print_nat = \<lambda>n. [],
     report_fits = \<lambda>b n. True, to_u64 = \<lambda>s. None\<rparr>"

definition demo_log_config :: xml where
  "demo_log_config = node ''config'' [(''path'', ''/l'')] [leaf ''vfs'' []]"

definition demo_emit :: emit_io where
  "demo_emit = \<lparr>rot_stat = None, rot_rename = True, rot_open = True, rot_trunc = True, new_open = True,
     new_stat = Some 0, em_writes = [Write_ok 1000], em_syncs = [False]\<rparr>"

theorem untimed_log_never_written_witness:
  "lg_out (logd_reach demo_log (Rom_node demo_log_config) [] demo_emit True [Log_write ''a'' ''hi''])
     = lg_out (logd_construct demo_log (Rom_node demo_log_config) [] demo_emit True)"
  by (rule untimed_log_never_written) (simp add: demo_log_config_def attr_u32_def)

text \<open>
  A drain forgets what is logged while it writes. When it has taken a batch and the write
  returns, the lines logged in between are neither in the backlog nor written: the file has got what
  the batch wrote, and the backlog is empty.
\<close>

theorem lines_logged_during_write_lost:
  assumes "take_batch r s = (True, s1)" and "poff s \<noteq> plen s" and "\<not> tick_pending s"
    and "\<forall>e \<in> set (dr_during r). \<exists>p m. e = Logged p m" and "dr_after r = []"
  shows "lg_out (drain_loop (r # rs) s) = lg_out s1 \<and> backlog (drain_loop (r # rs) s) = []"
proof -
  let ?s2 = "clear_backlog (fold happens (dr_during r) s1)"
  have nt: "\<not> tick_pending s1"
    using same_backlog_batch [of s r] assms(1) by (simp add: same_backlog_def)
  have "same_file s1 (fold happens (dr_during r) s1)" using assms(4) by (rule same_file_logged)
  then have out: "lg_out ?s2 = lg_out s1" "\<not> tick_pending ?s2"
    using nt by (simp_all add: same_file_def clear_backlog_def)
  have "poff ?s2 = plen ?s2" "backlog ?s2 = []" by (simp_all add: clear_backlog_def backlog_def)
  moreover have "drain_loop rs ?s2 = ?s2\<lparr>io_active := False\<rparr>"
    using out(2) calculation(1) by (cases rs) simp_all
  ultimately show ?thesis using assms out by (simp add: Let_def backlog_def)
qed

text \<open>
  A short write shifts the rest. When the first write of a batch takes only \<open>n\<close> of its bytes, the
  next ones are not written behind them but \<open>n\<close> bytes further on, at twice the distance from the
  start of the batch.
\<close>

lemma emit_loop_next:
  "emit_loop path data off fb as = (Done, fb', ops) \<Longrightarrow> off < length data
    \<Longrightarrow> \<exists>m ops'. ops = Vfs_write path (unat (fb + of_nat off)) (take m (drop off data)) # ops'"
  by (induction path data off fb as arbitrary: ops rule: emit_loop.induct)
     (auto simp: Let_def split: write_ans.splits if_splits prod.splits)

theorem short_write_shifts_rest:
  assumes "emit_loop path data 0 fb (Write_ok n # as) = (Done, fb', ops)"
    and "0 < n" and "n < length data"
  shows "\<exists>m ops'. ops = Vfs_write path (unat fb) (take n data)
    # Vfs_write path (unat (fb + of_nat (2 * n))) (take m (drop n data)) # ops'"
proof -
  obtain ops1 where 1: "emit_loop path data n (fb + of_nat n) as = (Done, fb', ops1)"
    and ops: "ops = Vfs_write path (unat fb) (take n data) # ops1"
    using assms by (auto simp: Let_def split: prod.splits if_splits)
  obtain m ops' where "ops1 = Vfs_write path (unat (fb + of_nat n + of_nat n)) (take m (drop n data)) # ops'"
    using emit_loop_next [OF 1 assms(3)] by blast
  moreover have "fb + of_nat n + of_nat n = fb + of_nat (2 * n)" by simp
  ultimately show ?thesis using ops by metis
qed

theorem short_write_shifts_rest_witness:
  "emit_loop ''/l'' ''abcd'' 0 10 [Write_ok 1, Write_ok 3]
     = (Done, 14, [Vfs_write ''/l'' 10 ''a'', Vfs_write ''/l'' 12 ''bcd''])
   \<and> (\<exists>m ops'. [Vfs_write ''/l'' 10 ''a'', Vfs_write ''/l'' 12 ''bcd'']
        = Vfs_write ''/l'' (unat (10 :: u64)) (take 1 ''abcd'')
          # Vfs_write ''/l'' (unat (10 + of_nat (2 * 1) :: u64)) (take m (drop 1 ''abcd'')) # ops')"
proof -
  have e: "emit_loop ''/l'' ''abcd'' 0 10 [Write_ok 1, Write_ok 3]
     = (Done, 14, [Vfs_write ''/l'' 10 ''a'', Vfs_write ''/l'' 12 ''bcd''])"
    by simp
  then show ?thesis using short_write_shifts_rest [OF e] by simp
qed

end
