(* ===== verification/Vct_Args.thy ===== *)
theory Vct_Args
  imports Genode_Iface
begin

text \<open>
  \<open>vct/args.cc\<close> and \<open>vct/command_router.cc\<close>: how the command-line tool turns its configuration ROM,
  in XML or in HID format, into a list of tokens, the tokens into an invocation, and the invocation
  into a command. Warnings are left out.
\<close>

definition MAX_ARGS :: nat where "MAX_ARGS = 32"

record args =
  subcommand :: string
  positional :: string
  positional2 :: string
  explain :: bool
  manual :: bool
  json :: bool
  verbose :: bool
  resources :: bool
  help_flag :: bool
  profile :: string
  lang :: string
  dropped_args :: u32
  enable_notifications :: bool

definition default_args :: args where
  "default_args = \<lparr>subcommand = ''status'', positional = [], positional2 = [], explain = False,
     manual = False, json = False, verbose = False, resources = False, help_flag = False, profile = [],
     lang = ''en'', dropped_args = 0, enable_notifications = True\<rparr>"

section \<open>Tokens\<close>

text \<open>Everything behind the first equals sign.\<close>

definition after_equals :: "string \<Rightarrow> string" where
  "after_equals t = drop 1 (dropWhile (\<lambda>c. c \<noteq> CHR ''='') t)"

definition language_from_equals_form :: "string \<Rightarrow> string" where
  "language_from_equals_form t = gstr 8 (after_equals t)"

definition value_from_equals_form :: "string \<Rightarrow> string" where
  "value_from_equals_form t = gstr 128 (after_equals t)"

fun starts_with :: "string \<Rightarrow> string \<Rightarrow> bool" where
  "starts_with s [] \<longleftrightarrow> True"
| "starts_with [] (p # ps) \<longleftrightarrow> False"
| "starts_with (c # s) (p # ps) \<longleftrightarrow> c = p \<and> starts_with s ps"

definition apply_token :: "string \<Rightarrow> args \<Rightarrow> args" where
  "apply_token t a =
     (if t = ''--explain'' \<or> t = ''-x'' then a\<lparr>explain := True\<rparr>
      else if t = ''--manual'' \<or> t = ''-m'' then a\<lparr>manual := True\<rparr>
      else if t = ''--json'' then a\<lparr>json := True\<rparr>
      else if t = ''--verbose'' \<or> t = ''-v'' then a\<lparr>verbose := True\<rparr>
      else if t = ''--resources'' then a\<lparr>resources := True\<rparr>
      else if t = ''--help'' \<or> t = ''-h'' then a\<lparr>help_flag := True\<rparr>
      else if t = ''--version'' \<or> t = ''-V'' then a\<lparr>subcommand := ''version''\<rparr>
      else if t = ''--lang'' then a
      else if starts_with t ''--lang='' then a\<lparr>lang := language_from_equals_form t\<rparr>
      else if starts_with t ''--profile='' then a\<lparr>profile := gstr 32 (value_from_equals_form t)\<rparr>
      else if subcommand a = ''status'' then a\<lparr>subcommand := gstr 32 t\<rparr>
      else if positional a = [] then a\<lparr>positional := gstr 128 t\<rparr>
      else if positional2 a = [] then a\<lparr>positional2 := gstr 128 t\<rparr>
      else a)"

text \<open>The loop over the tokens: two flags take the token that follows as their value.\<close>

fun apply_tokens :: "string list \<Rightarrow> args \<Rightarrow> args" where
  "apply_tokens [] a = a"
| "apply_tokens [t] a =
     (if t = ''--lang'' then a else if t = ''--profile'' then a else apply_token t a)"
| "apply_tokens (t # v # ts) a =
     (if t = ''--lang'' then apply_tokens ts (a\<lparr>lang := gstr 8 v\<rparr>)
      else if t = ''--profile'' then apply_tokens ts (a\<lparr>profile := gstr 32 v\<rparr>)
      else apply_tokens (v # ts) (apply_token t a))"

section \<open>The configuration ROM\<close>

definition looks_like_xml :: "string \<Rightarrow> bool" where
  "looks_like_xml s =
     (case dropWhile (\<lambda>c. c = SP \<or> c = TAB \<or> c = NL \<or> c = CR) s of
        [] \<Rightarrow> False | c # r \<Rightarrow> c = CHR ''<'')"

definition collect_arg_token :: "string \<Rightarrow> string list \<times> u32 \<Rightarrow> string list \<times> u32" where
  "collect_arg_token t = (\<lambda>(ts, n). if MAX_ARGS \<le> length ts then (ts, n + 1) else (ts @ [t], n))"

definition affirmative :: "string \<Rightarrow> bool" where
  "affirmative v \<longleftrightarrow> v = ''yes'' \<or> v = ''true'' \<or> v = ''on'' \<or> v = ''1''"

definition xml_arg :: "xml \<Rightarrow> string" where
  "xml_arg x = (case attr x ''name'' of Some v \<Rightarrow> gstr 128 v | None \<Rightarrow> gstr 128 (content x))"

definition xml_tokens :: "xml \<Rightarrow> string list \<times> u32" where
  "xml_tokens config =
     (case kids_of_type config ''args'' of
        [] \<Rightarrow> ([], 0)
      | n # _ \<Rightarrow> fold (\<lambda>x. collect_arg_token (xml_arg x)) (kids_of_type n ''arg'') ([], 0))"

definition hid_tokens :: "xml \<Rightarrow> string list \<times> u32" where
  "hid_tokens config =
     fold (\<lambda>n acc. fold (\<lambda>x. collect_arg_token (attr_str 128 x ''name'')) (kids_of_type n ''arg'') acc)
       (kids_of_type config ''args'') ([], 0)"

definition notifications_attr :: "xml \<Rightarrow> bool" where
  "notifications_attr x = affirmative (case attr x ''enable_notifications'' of None \<Rightarrow> ''yes'' | Some v \<Rightarrow> gstr 8 v)"

text \<open>The tokens, the number of dropped ones and whether notifications are on.\<close>

definition read_tokens :: "genode \<Rightarrow> string \<Rightarrow> (string list \<times> u32) \<times> bool" where
  "read_tokens G s =
     (if looks_like_xml s then
        (case parse_xml G s of
           None \<Rightarrow> (([], 0), True)
         | Some config \<Rightarrow> (xml_tokens config, notifications_attr config))
      else if has_type (parse_hid G s) ''config'' then
        (hid_tokens (parse_hid G s), notifications_attr (parse_hid G s))
      else (([], 0), True))"

definition args_of_tokens :: "string list \<Rightarrow> u32 \<Rightarrow> bool \<Rightarrow> args" where
  "args_of_tokens ts n notify =
     (let a = apply_tokens ts (default_args\<lparr>dropped_args := n, enable_notifications := notify\<rparr>)
      in if help_flag a \<and> subcommand a = ''status'' then a\<lparr>subcommand := ''help''\<rparr> else a)"

definition parse_args :: "genode \<Rightarrow> string \<Rightarrow> args" where
  "parse_args G s = (case read_tokens G s of ((ts, n), notify) \<Rightarrow> args_of_tokens ts n notify)"

section \<open>Dispatch\<close>

datatype command =
    StatusCommand | HelpCommand | VersionCommand | ComponentListCommand | InstallCommand bool
  | RemoveCommand bool | LaunchCommand | PowerCommand bool | SearchCommand | UpdateCommand
  | ListCommand | ConfigCommand | BakeCommand | ThemeCommand | LeitzentraleCommand

text \<open>The flag of a command is whether it gets the notifier.\<close>

definition vct_dispatch :: "bool \<Rightarrow> args \<Rightarrow> command" where
  "vct_dispatch notifier a =
     (let cmd = subcommand a; nf = enable_notifications a \<and> notifier
      in if cmd = ''status'' then StatusCommand
         else if cmd = ''help'' then HelpCommand
         else if cmd = ''version'' then VersionCommand
         else if cmd = ''component'' then
           (if positional a = ''list'' then ComponentListCommand else HelpCommand)
         else if cmd = ''install'' then InstallCommand nf
         else if cmd = ''remove'' then RemoveCommand nf
         else if cmd = ''launch'' then LaunchCommand
         else if cmd = ''shutdown'' \<or> cmd = ''reboot'' then PowerCommand nf
         else if cmd = ''search'' then SearchCommand
         else if cmd = ''update'' then UpdateCommand
         else if cmd = ''list'' then ListCommand
         else if cmd = ''config'' then ConfigCommand
         else if cmd = ''bake'' then BakeCommand
         else if cmd = ''theme'' then ThemeCommand
         else if cmd = ''leitzentrale'' then LeitzentraleCommand
         else HelpCommand)"

section \<open>Facts\<close>

lemma collect_bound:
  "length (fst acc) \<le> MAX_ARGS \<Longrightarrow> length (fst (collect_arg_token t acc)) \<le> MAX_ARGS"
  by (auto simp: collect_arg_token_def split: prod.split)

lemma collect_fold_bound:
  "length (fst acc) \<le> MAX_ARGS \<Longrightarrow> length (fst (fold (\<lambda>x. collect_arg_token (f x)) xs acc)) \<le> MAX_ARGS"
proof (induction xs arbitrary: acc)
  case (Cons x xs)
  then show ?case using collect_bound [of acc "f x"] by simp
qed simp

text \<open>
  A word that is neither a flag nor takes a value: it starts with something other than a dash. The
  empty word is one, too.
\<close>

definition plain :: "string \<Rightarrow> bool" where
  "plain t \<longleftrightarrow> take 1 t \<noteq> ''-''"

lemma plain_not_flag:
  "plain t \<Longrightarrow> apply_token t a =
     (if subcommand a = ''status'' then a\<lparr>subcommand := gstr 32 t\<rparr>
      else if positional a = [] then a\<lparr>positional := gstr 128 t\<rparr>
      else if positional2 a = [] then a\<lparr>positional2 := gstr 128 t\<rparr>
      else a)"
  by (cases t) (auto simp: apply_token_def plain_def)

lemma plain_apply [simp]: "plain t \<Longrightarrow> apply_tokens (t # ts) a = apply_tokens ts (apply_token t a)"
  by (cases ts) (auto simp: plain_def)

lemma flag_apply:
  "t \<noteq> ''--lang'' \<Longrightarrow> t \<noteq> ''--profile'' \<Longrightarrow> apply_tokens (t # ts) a = apply_tokens ts (apply_token t a)"
  by (cases ts) auto

text \<open>The tokens that stand for an invocation.\<close>

definition flag_tokens :: "args \<Rightarrow> string list" where
  "flag_tokens a = (if explain a then [''--explain''] else []) @ (if manual a then [''--manual''] else [])
     @ (if json a then [''--json''] else []) @ (if verbose a then [''--verbose''] else [])
     @ (if resources a then [''--resources''] else []) @ (if help_flag a then [''--help''] else [])
     @ [''--profile'', profile a] @ [''--lang'', lang a]"

definition render_args :: "args \<Rightarrow> string list" where
  "render_args a = (if subcommand a = ''status'' then []
       else subcommand a # (if positional a = [] then [] else positional a #
                              (if positional2 a = [] then [] else [positional2 a])))
     @ flag_tokens a"

text \<open>
  An invocation that can be written down: words that are no flags and fit their buffers, no
  positional without the one before it, and no \<open>status\<close> with positionals or with \<open>--help\<close>.
\<close>

definition well_formed_args :: "args \<Rightarrow> bool" where
  "well_formed_args a \<longleftrightarrow>
     plain (subcommand a) \<and> plain (positional a) \<and> plain (positional2 a)
     \<and> length (subcommand a) < 32 \<and> length (positional a) < 128 \<and> length (positional2 a) < 128
     \<and> length (profile a) < 32 \<and> length (lang a) < 8
     \<and> (positional a = [] \<longrightarrow> positional2 a = [])
     \<and> (subcommand a = ''status'' \<longrightarrow> positional a = [] \<and> \<not> help_flag a)"

lemma token_switch [simp]:
  "apply_token ''--explain'' b = b\<lparr>explain := True\<rparr>"
  "apply_token ''--manual'' b = b\<lparr>manual := True\<rparr>"
  "apply_token ''--json'' b = b\<lparr>json := True\<rparr>"
  "apply_token ''--verbose'' b = b\<lparr>verbose := True\<rparr>"
  "apply_token ''--resources'' b = b\<lparr>resources := True\<rparr>"
  "apply_token ''--help'' b = b\<lparr>help_flag := True\<rparr>"
  by (simp_all add: apply_token_def)

lemma switch_off [simp]:
  "\<not> explain b \<Longrightarrow> b\<lparr>explain := False\<rparr> = b"
  "\<not> manual b \<Longrightarrow> b\<lparr>manual := False\<rparr> = b"
  "\<not> json b \<Longrightarrow> b\<lparr>json := False\<rparr> = b"
  "\<not> verbose b \<Longrightarrow> b\<lparr>verbose := False\<rparr> = b"
  "\<not> resources b \<Longrightarrow> b\<lparr>resources := False\<rparr> = b"
  "\<not> help_flag b \<Longrightarrow> b\<lparr>help_flag := False\<rparr> = b"
  by (cases b; simp)+

lemma apply_switch:
  "\<not> explain b \<Longrightarrow> apply_tokens ((if c then [''--explain''] else []) @ ts) b = apply_tokens ts (b\<lparr>explain := c\<rparr>)"
  "\<not> manual b \<Longrightarrow> apply_tokens ((if c then [''--manual''] else []) @ ts) b = apply_tokens ts (b\<lparr>manual := c\<rparr>)"
  "\<not> json b \<Longrightarrow> apply_tokens ((if c then [''--json''] else []) @ ts) b = apply_tokens ts (b\<lparr>json := c\<rparr>)"
  "\<not> verbose b \<Longrightarrow> apply_tokens ((if c then [''--verbose''] else []) @ ts) b = apply_tokens ts (b\<lparr>verbose := c\<rparr>)"
  "\<not> resources b \<Longrightarrow> apply_tokens ((if c then [''--resources''] else []) @ ts) b = apply_tokens ts (b\<lparr>resources := c\<rparr>)"
  "\<not> help_flag b \<Longrightarrow> apply_tokens ((if c then [''--help''] else []) @ ts) b = apply_tokens ts (b\<lparr>help_flag := c\<rparr>)"
  by (cases c; simp add: flag_apply)+

lemma apply_flags:
  assumes "length (profile a) < 32" "length (lang a) < 8"
    and "\<not> explain b" "\<not> manual b" "\<not> json b" "\<not> verbose b" "\<not> resources b" "\<not> help_flag b"
  shows "apply_tokens (flag_tokens a) b = b\<lparr>explain := explain a, manual := manual a, json := json a,
    verbose := verbose a, resources := resources a, help_flag := help_flag a, profile := profile a, lang := lang a\<rparr>"
  using assms by (simp add: flag_tokens_def apply_switch)

text \<open>
  C27: an invocation survives being written as tokens. The tokens of a well-formed invocation, at
  most twelve of them, are parsed back into it.
\<close>

theorem args_roundtrip:
  assumes "well_formed_args a"
  shows "args_of_tokens (render_args a) (dropped_args a) (enable_notifications a) = a"
proof -
  let ?d = "default_args\<lparr>dropped_args := dropped_args a, enable_notifications := enable_notifications a\<rparr>"
  have fl: "\<And>b. \<not> explain b \<Longrightarrow> \<not> manual b \<Longrightarrow> \<not> json b \<Longrightarrow> \<not> verbose b \<Longrightarrow> \<not> resources b \<Longrightarrow> \<not> help_flag b
      \<Longrightarrow> apply_tokens (flag_tokens a) b = b\<lparr>explain := explain a, manual := manual a, json := json a,
        verbose := verbose a, resources := resources a, help_flag := help_flag a, profile := profile a, lang := lang a\<rparr>"
    using assms by (intro apply_flags) (auto simp: well_formed_args_def)
  have "apply_tokens (render_args a) ?d = a"
  proof (cases "subcommand a = ''status''")
    case True
    then show ?thesis using assms
      by (simp add: render_args_def fl well_formed_args_def default_args_def)
  next
    case False
    then show ?thesis using assms
      by (simp add: render_args_def fl well_formed_args_def plain_not_flag default_args_def)
  qed
  then show ?thesis using assms
    by (auto simp: args_of_tokens_def Let_def well_formed_args_def)
qed

theorem args_roundtrip_witness:
  "args_of_tokens [''config'', ''panel.size'', ''40'', ''--json'', ''--profile'', [], ''--lang'', ''ko''] 0 True
     = default_args\<lparr>subcommand := ''config'', positional := ''panel.size'', positional2 := ''40'',
         json := True, lang := ''ko''\<rparr>"
proof -
  let ?a = "default_args\<lparr>subcommand := ''config'', positional := ''panel.size'', positional2 := ''40'',
      json := True, lang := ''ko''\<rparr>"
  have "well_formed_args ?a" by (simp add: well_formed_args_def default_args_def plain_def)
  from args_roundtrip [OF this] show ?thesis
    by (simp add: render_args_def flag_tokens_def default_args_def)
qed

text \<open>
  The word \<open>status\<close> is not taken as a subcommand of its own: the next word replaces it, so that
  \<open>vct status shutdown\<close> shuts the system down.
\<close>

theorem status_word_replaced:
  "vct_dispatch n (args_of_tokens (''status'' # ts) k b) = vct_dispatch n (args_of_tokens ts k b)"
proof -
  have "apply_token ''status'' (default_args\<lparr>dropped_args := k, enable_notifications := b\<rparr>)
      = default_args\<lparr>dropped_args := k, enable_notifications := b\<rparr>"
    by (simp add: plain_not_flag plain_def default_args_def)
  then show ?thesis by (simp add: args_of_tokens_def plain_def)
qed

end
