(* ===== verification/Vct_State.thy ===== *)
theory Vct_State
  imports Genode_Iface
begin

text \<open>
  \<open>vct/init_state.cc\<close>: the reader of the tabular state report of \<open>init\<close>. A pointer into the report is
  the rest of the report from there on, so that a scan that does not stop at the end of its line
  goes on into the following ones, as in the code.
\<close>

definition MAX_CHILDREN :: nat where "MAX_CHILDREN = 16"

record child_state =
  c_name :: string
  c_binary :: string
  c_state :: string
  ram_assigned :: u64
  ram_quota :: u64
  ram_used :: u64
  ram_avail :: u64
  cap_assigned :: u64
  cap_quota :: u64
  cap_used :: u64
  cap_avail :: u64

record init_state =
  available :: bool
  total_ram_quota :: u64
  total_ram_used :: u64
  total_ram_avail :: u64
  total_caps_quota :: u64
  total_caps_used :: u64
  total_caps_avail :: u64
  children :: "child_state list"
  in_child :: bool

definition no_state :: init_state where
  "no_state = \<lparr>available = False, total_ram_quota = 0, total_ram_used = 0, total_ram_avail = 0,
     total_caps_quota = 0, total_caps_used = 0, total_caps_avail = 0, children = [], in_child = False\<rparr>"

section \<open>Scanners\<close>

definition skip_spaces :: "string \<Rightarrow> string" where
  "skip_spaces = dropWhile (\<lambda>c. c = SP)"

definition key_here :: "string \<Rightarrow> string \<Rightarrow> bool" where
  "key_here key p \<longleftrightarrow> take (Suc (length key)) p = key @ '':''"

text \<open>The loop both readers of a field share: the text behind \<open>key:\<close>.\<close>

function find_field :: "string \<Rightarrow> string \<Rightarrow> string option" where
  "find_field key s =
     (if s = [] then None
      else let p = skip_spaces s
           in if key_here key p then Some (skip_spaces (drop (Suc (length key)) p))
              else find_field key (drop 1 (dropWhile (\<lambda>c. c \<noteq> CHR ''|'') p)))"
  by pat_completeness auto

termination
proof (relation "measure (\<lambda>(key, s). length s)")
  fix key s p :: string
  assume s: "s \<noteq> []" and p: "p = skip_spaces s"
  have 1: "length (dropWhile (\<lambda>c. c \<noteq> CHR ''|'') p) \<le> length p" by (rule length_dropWhile_le)
  have 2: "length p \<le> length s" unfolding p skip_spaces_def by (rule length_dropWhile_le)
  have "length (drop 1 (dropWhile (\<lambda>c. c \<noteq> CHR ''|'') p)) < length s"
    using 1 2 s by (cases s) auto
  then show "((key, drop 1 (dropWhile (\<lambda>c. c \<noteq> CHR ''|'') p)), key, s) \<in> measure (\<lambda>(key, s). length s)"
    by simp
qed simp

declare find_field.simps [simp del]

text \<open>\<open>num_bytes\<close> stands for \<open>Num_bytes::parse\<close>, 0 where it finds no number.\<close>

definition parse_value :: "(string \<Rightarrow> u64) \<Rightarrow> string \<Rightarrow> string \<Rightarrow> u64" where
  "parse_value num_bytes line key = (case find_field key line of None \<Rightarrow> 0 | Some p \<Rightarrow> num_bytes p)"

definition word_at :: "nat \<Rightarrow> string \<Rightarrow> string" where
  "word_at n p = take (n - 1) (takeWhile (\<lambda>c. c \<noteq> CHR ''|'' \<and> c \<noteq> SP) p)"

definition extract_string :: "string \<Rightarrow> string \<Rightarrow> nat \<Rightarrow> string" where
  "extract_string line key n = (case find_field key line of None \<Rightarrow> [] | Some p \<Rightarrow> word_at n p)"

definition line_starts_with :: "string \<Rightarrow> string \<Rightarrow> bool" where
  "line_starts_with line p \<longleftrightarrow> take (length p) line = p"

definition next_line :: "string \<Rightarrow> string" where
  "next_line s = drop 1 (dropWhile (\<lambda>c. c \<noteq> NL) s)"

definition line_indent :: "string \<Rightarrow> nat" where
  "line_indent line = length (takeWhile (\<lambda>c. c = SP) line)"

definition line_type_is :: "string \<Rightarrow> string \<Rightarrow> bool" where
  "line_type_is l ty \<longleftrightarrow> take (length ty) l = ty \<and> take 1 (skip_spaces (drop (length ty) l)) = ''|''"

section \<open>The report\<close>

definition new_child :: "string \<Rightarrow> child_state" where
  "new_child l =
     (let state = extract_string l ''state'' 16
      in \<lparr>c_name = word_at 64 (skip_spaces (drop 6 l)), c_binary = extract_string l ''binary'' 64,
          c_state = (if state = [] then ''ok'' else state),
          ram_assigned = 0, ram_quota = 0, ram_used = 0, ram_avail = 0,
          cap_assigned = 0, cap_quota = 0, cap_used = 0, cap_avail = 0\<rparr>)"

definition upd_last :: "('a \<Rightarrow> 'a) \<Rightarrow> 'a list \<Rightarrow> 'a list" where
  "upd_last f xs = (if xs = [] then [] else xs[length xs - 1 := f (last xs)])"

definition top_line :: "(string \<Rightarrow> u64) \<Rightarrow> string \<Rightarrow> init_state \<Rightarrow> init_state" where
  "top_line nb l st =
     (if line_type_is l ''ram'' then
        st\<lparr>total_ram_quota := parse_value nb l ''quota'', total_ram_used := parse_value nb l ''used'',
           total_ram_avail := parse_value nb l ''avail''\<rparr>
      else if line_type_is l ''caps'' then
        st\<lparr>total_caps_quota := parse_value nb l ''quota'', total_caps_used := parse_value nb l ''used'',
           total_caps_avail := parse_value nb l ''avail''\<rparr>
      else if line_starts_with l ''child '' then
        (if length (children st) < MAX_CHILDREN
         then st\<lparr>children := children st @ [new_child l], in_child := True\<rparr>
         else st\<lparr>in_child := False\<rparr>)
      else st)"

definition child_line :: "(string \<Rightarrow> u64) \<Rightarrow> string \<Rightarrow> init_state \<Rightarrow> init_state" where
  "child_line nb l st =
     (if line_type_is l ''ram'' then
        st\<lparr>children := upd_last (\<lambda>c. c\<lparr>ram_assigned := parse_value nb l ''assigned'',
             ram_quota := parse_value nb l ''quota'', ram_used := parse_value nb l ''used'',
             ram_avail := parse_value nb l ''avail''\<rparr>) (children st)\<rparr>
      else if line_type_is l ''caps'' then
        st\<lparr>children := upd_last (\<lambda>c. c\<lparr>cap_assigned := parse_value nb l ''assigned'',
             cap_quota := parse_value nb l ''quota'', cap_used := parse_value nb l ''used'',
             cap_avail := parse_value nb l ''avail''\<rparr>) (children st)\<rparr>
      else st)"

text \<open>One turn of the loop; \<open>line\<close> is the rest of the report from the line on.\<close>

definition parse_line :: "(string \<Rightarrow> u64) \<Rightarrow> string \<Rightarrow> init_state \<Rightarrow> init_state" where
  "parse_line nb line st =
     (let indent = line_indent line; l = drop indent line
      in if \<not> line_starts_with l ''+ '' then st
         else if indent = 0 then top_line nb (drop 2 l) st
         else if indent = 2 \<and> in_child st then child_line nb (drop 2 l) st
         else st)"

function parse_lines :: "(string \<Rightarrow> u64) \<Rightarrow> string \<Rightarrow> init_state \<Rightarrow> init_state" where
  "parse_lines nb s st = (if s = [] then st else parse_lines nb (next_line s) (parse_line nb s st))"
  by pat_completeness auto

termination
proof (relation "measure (\<lambda>(nb, s, st). length s)")
  fix nb :: "string \<Rightarrow> u64" and s :: string and st :: init_state
  assume "s \<noteq> []"
  then have "length (next_line s) < length s"
    using length_dropWhile_le [of "\<lambda>c. c \<noteq> NL" s] unfolding next_line_def by (cases s) auto
  then show "((nb, next_line s, parse_line nb s st), nb, s, st) \<in> measure (\<lambda>(nb, s, st). length s)"
    by simp
qed simp

declare parse_lines.simps [simp del]

definition parse_content :: "(string \<Rightarrow> u64) \<Rightarrow> string option \<Rightarrow> init_state \<Rightarrow> init_state" where
  "parse_content nb r st =
     (case r of None \<Rightarrow> st | Some s \<Rightarrow> parse_lines nb (cstr s) (st\<lparr>in_child := False\<rparr>))"

text \<open>
  The polling loop of the constructor: at most thirty updates, until a child appears. \<open>polls k\<close> is what
  the ROM holds after the \<open>k\<close>-th update.
\<close>

fun poll_state :: "(string \<Rightarrow> u64) \<Rightarrow> (nat \<Rightarrow> string option) \<Rightarrow> nat \<Rightarrow> nat \<Rightarrow> init_state \<Rightarrow> init_state" where
  "poll_state nb polls k 0 st = st"
| "poll_state nb polls k (Suc n) st =
     (let st' = (parse_content nb (polls k) st)\<lparr>available := polls k \<noteq> None\<rparr>
      in if children st' \<noteq> [] then st' else poll_state nb polls (Suc k) n st')"

text \<open>\<open>None\<close> in place of the updates: the session for the report was refused.\<close>

definition read_state :: "(string \<Rightarrow> u64) \<Rightarrow> (nat \<Rightarrow> string option) option \<Rightarrow> init_state" where
  "read_state nb r = (case r of None \<Rightarrow> no_state | Some polls \<Rightarrow> poll_state nb polls 0 30 no_state)"

section \<open>Facts\<close>

lemma parse_line_children: "length (children st) \<le> MAX_CHILDREN \<Longrightarrow> length (children (parse_line nb s st)) \<le> MAX_CHILDREN"
  by (auto simp: parse_line_def Let_def top_line_def child_line_def upd_last_def)

lemma parse_lines_children: "length (children st) \<le> MAX_CHILDREN \<Longrightarrow> length (children (parse_lines nb s st)) \<le> MAX_CHILDREN"
proof (induction nb s st rule: parse_lines.induct)
  case (1 nb s st)
  then show ?case
    using parse_line_children [of st nb s] by (subst parse_lines.simps) simp
qed

lemma poll_state_children:
  "length (children st) \<le> MAX_CHILDREN \<Longrightarrow> length (children (poll_state nb polls k n st)) \<le> MAX_CHILDREN"
proof (induction nb polls k n st rule: poll_state.induct)
  case (2 nb polls k n st)
  have "length (children (parse_content nb (polls k) st)) \<le> MAX_CHILDREN"
    using 2(2) by (auto simp: parse_content_def intro: parse_lines_children split: option.split)
  then show ?case using 2(1) by (simp add: Let_def)
qed simp

text \<open>The child table never overflows.\<close>

lemma read_state_children: "length (children (read_state nb r)) \<le> MAX_CHILDREN"
  by (auto simp: read_state_def no_state_def intro: poll_state_children split: option.split)

text \<open>The segments a line has between its bars.\<close>

definition has_field :: "string \<Rightarrow> string \<Rightarrow> bool" where
  "has_field key seg \<longleftrightarrow> key_here key (skip_spaces seg)"

lemma skip_spaces_append:
  "skip_spaces (seg @ c # r) = (if skip_spaces seg = [] then skip_spaces (c # r) else skip_spaces seg @ c # r)"
  by (simp add: skip_spaces_def dropWhile_append)

lemma key_here_append:
  assumes "c \<notin> set key" and "c \<noteq> CHR '':''"
  shows "key_here key (p @ c # r) = key_here key p"
proof (cases "length p < Suc (length key)")
  case True
  have c: "c \<notin> set (key @ '':'')" using assms by simp
  have "c \<in> set (take (Suc (length key)) (p @ c # r))"
    using True by (auto simp: take_Cons' Suc_diff_le)
  then have "\<not> key_here key (p @ c # r)" using c unfolding key_here_def by metis
  moreover have "\<not> key_here key p"
    using True unfolding key_here_def by (metis length_append_singleton length_take less_irrefl min_less_iff_conj)
  ultimately show ?thesis by simp
qed (simp add: key_here_def)

lemma not_key_end:
  assumes "\<not> has_field key seg" and "c \<notin> set key" and "c \<noteq> CHR '':''" and "c \<noteq> SP"
  shows "\<not> key_here key (skip_spaces (seg @ c # r))"
proof (cases "skip_spaces seg = []")
  case True
  have "skip_spaces (c # r) = [] @ c # r" using assms(4) by (simp add: skip_spaces_def)
  moreover have "\<not> key_here key []" by (simp add: key_here_def)
  ultimately show ?thesis
    using True key_here_append [OF assms(2,3), of "[]" r] by (simp add: skip_spaces_append)
next
  case False
  then show ?thesis
    using assms(1) key_here_append [OF assms(2,3)] by (simp add: skip_spaces_append has_field_def)
qed

lemma skip_bar: "dropWhile (\<lambda>c. c \<noteq> CHR ''|'') (skip_spaces s) = dropWhile (\<lambda>c. c \<noteq> CHR ''|'') s"
  by (induction s) (auto simp: skip_spaces_def)

lemma find_field_skip:
  "s \<noteq> [] \<Longrightarrow> \<not> key_here key (skip_spaces s)
    \<Longrightarrow> find_field key s = find_field key (drop 1 (dropWhile (\<lambda>c. c \<noteq> CHR ''|'') s))"
  by (subst find_field.simps) (simp add: Let_def skip_bar)

text \<open>
  A field is looked up in the whole rest of the report, not in its line. When a line has no
  field \<open>key\<close>, the reader takes the first such field of the lines that follow, so that a child
  without a \<open>state\<close> field gets the state of a later one.
\<close>

theorem field_read_past_line:
  assumes "\<forall>seg \<in> set (split_on (CHR ''|'') line). \<not> has_field key seg"
    and "NL \<notin> set key" and "CHR ''|'' \<notin> set key"
  shows "find_field key (line @ NL # rest)
    = find_field key (drop 1 (dropWhile (\<lambda>c. c \<noteq> CHR ''|'') rest))"
  using assms(1)
proof (induction line rule: length_induct)
  case (1 line)
  show ?case
  proof (cases "CHR ''|'' \<in> set line")
    case False
    then have "\<not> has_field key line" using "1.prems" by (simp add: split_on_notin)
    then have "find_field key (line @ NL # rest)
        = find_field key (drop 1 (dropWhile (\<lambda>c. c \<noteq> CHR ''|'') (line @ NL # rest)))"
      using assms(2) by (intro find_field_skip not_key_end) auto
    moreover have "dropWhile (\<lambda>c. c \<noteq> CHR ''|'') (line @ NL # rest) = dropWhile (\<lambda>c. c \<noteq> CHR ''|'') rest"
      using False by (subst dropWhile_append2) auto
    ultimately show ?thesis by simp
  next
    case True
    then obtain a b where line: "line = a @ CHR ''|'' # b" and a: "CHR ''|'' \<notin> set a"
      using split_list_first by fastforce
    have segs: "split_on (CHR ''|'') line = a # split_on (CHR ''|'') b"
      unfolding line by (rule split_on_append [OF a])
    have "find_field key (line @ NL # rest)
        = find_field key (drop 1 (dropWhile (\<lambda>c. c \<noteq> CHR ''|'') (line @ NL # rest)))"
      using "1.prems" assms(3) segs
      by (simp only: line append_assoc append_Cons) (intro find_field_skip not_key_end; simp)
    also have "drop 1 (dropWhile (\<lambda>c. c \<noteq> CHR ''|'') (line @ NL # rest)) = b @ NL # rest"
    proof -
      have "dropWhile (\<lambda>c. c \<noteq> CHR ''|'') (a @ CHR ''|'' # b @ NL # rest) = CHR ''|'' # b @ NL # rest"
        using a by (subst dropWhile_append2) auto
      then show ?thesis by (simp add: line)
    qed
    also have "find_field key (b @ NL # rest)
        = find_field key (drop 1 (dropWhile (\<lambda>c. c \<noteq> CHR ''|'') rest))"
      using "1.IH" "1.prems" segs by (simp add: line)
    finally show ?thesis .
  qed
qed

theorem field_read_past_line_witness:
  "find_field ''state'' (''child a | binary: a'' @ NL # ''+ child b | state: incomplete'')
     = Some ''incomplete''"
proof -
  have *: "\<forall>seg \<in> set (split_on (CHR ''|'') ''child a | binary: a''). \<not> has_field ''state'' seg"
    by (simp add: has_field_def key_here_def skip_spaces_def)
  have "find_field ''state'' (''child a | binary: a'' @ NL # ''+ child b | state: incomplete'')
      = find_field ''state'' '' state: incomplete''"
    using field_read_past_line [OF *, of "''+ child b | state: incomplete''"] by simp
  then show ?thesis
    by (simp add: find_field.simps [of "''state''" "'' state: incomplete''"] key_here_def skip_spaces_def)
qed

end
