(* ===== verification/Vct_Client.thy ===== *)
theory Vct_Client
  imports Vct_Args Vct_State
begin

text \<open>
  What the commands of \<open>vct\<close> share: the client of the backend daemons
  (\<open>lib/src/sponge_backend_client/backend_client.cc\<close>), the notifier's poster
  (\<open>vct/notifier_reporter.cc\<close>), and bounded text building. A command is a function of the environment
  and the invocation; its result is the exit code and what it does, in order: lines logged, warnings,
  help pages (a page per command in one of two languages, its text left out), reports and waits.
\<close>

datatype vct_out =
    Log string
  | Warn string
  | Help_page string bool
  | Send string xml
  | Msleep nat

text \<open>
  The environment of one invocation. \<open>print_bytes\<close> is the output of \<open>Number_of_bytes\<close>, \<open>num_bytes\<close> its
  parser. \<open>answers r k\<close> is what the result ROM holds at the \<open>k\<close>-th poll for the \<open>r\<close>-th request,
  \<open>rom_at l k\<close> what the ROM \<open>l\<close> holds after the \<open>k\<close>-th update, \<open>text_at l\<close> the text of a ROM that can be
  opened and is valid. \<open>post_clock\<close> is the reading of the poster's own timer session, \<open>post_ok\<close> whether
  its report session opens.
\<close>

record vct_env = genode +
  print_bytes :: "u64 \<Rightarrow> string"
  num_bytes :: "string \<Rightarrow> u64"
  state_rom :: "(nat \<Rightarrow> string option) option"
  rom_at :: "string \<Rightarrow> nat \<Rightarrow> rom"
  text_at :: "string \<Rightarrow> string option"
  answers :: "nat \<Rightarrow> nat \<Rightarrow> rom"
  post_clock :: u64
  post_ok :: bool

section \<open>Text\<close>

definition EM :: string where
  "EM = [CHR 0xE2, CHR 0x80, CHR 0x94]"

definition num :: "'a genode_scheme \<Rightarrow> u64 \<Rightarrow> string" where
  "num G v = print_nat G (unat v)"

text \<open>\<open>if (pos + slack < sizeof(buf))\<close> before a piece that is copied without a further test.\<close>

definition put_if :: "nat \<Rightarrow> nat \<Rightarrow> string \<Rightarrow> string \<Rightarrow> string" where
  "put_if cap slack s buf = (if length buf + slack < cap then buf @ s else buf)"

text \<open>\<open>while (*s && pos + k < sizeof(buf))\<close>.\<close>

definition put_while :: "nat \<Rightarrow> nat \<Rightarrow> string \<Rightarrow> string \<Rightarrow> string" where
  "put_while cap k s buf = buf_append k cap buf s"

lemma put_length [bounded]:
  "length buf \<le> cap - 1 \<Longrightarrow> length s \<le> slack \<Longrightarrow> length (put_if cap slack s buf) \<le> cap - 1"
  "length buf \<le> cap - 1 \<Longrightarrow> 1 \<le> k \<Longrightarrow> length (put_while cap k s buf) \<le> cap - 1"
  by (auto simp: put_if_def put_while_def buf_append_def)

section \<open>Requests to the daemons\<close>

definition pkg_match :: "string \<Rightarrow> string \<Rightarrow> xml \<Rightarrow> bool" where
  "pkg_match op pkg r \<longleftrightarrow> has_type r ''result'' \<and> attr_str 32 r ''op'' = gstr 32 op
     \<and> (op \<noteq> ''list'' \<longrightarrow> attr_str 128 r ''pkg'' = gstr 128 pkg) \<and> attr r ''status'' \<noteq> None"

definition config_match :: "string \<Rightarrow> string \<Rightarrow> string option \<Rightarrow> xml \<Rightarrow> bool" where
  "config_match op key v r \<longleftrightarrow> has_type r ''result'' \<and> attr_str 32 r ''op'' = gstr 32 op
     \<and> (op \<noteq> ''list'' \<longrightarrow> attr_str 128 r ''key'' = gstr 128 key)
     \<and> (case v of None \<Rightarrow> True
        | Some w \<Rightarrow> attr r ''value'' = None \<or> attr_str 128 r ''value'' = gstr 128 w)
     \<and> attr r ''status'' \<noteq> None"

text \<open>
  Every request reports, waits, and polls at most sixty times. \<open>poll_from k n\<close>: the answer that is
  accepted, and the waits.
\<close>

fun poll_from :: "(nat \<Rightarrow> rom) \<Rightarrow> (xml \<Rightarrow> bool) \<Rightarrow> nat \<Rightarrow> nat \<Rightarrow> xml option \<times> vct_out list" where
  "poll_from roms ok k 0 = (None, [])"
| "poll_from roms ok k (Suc n) =
     (case roms k of
        Rom_node x \<Rightarrow>
          (if ok x then (Some x, [])
           else let (r, os) = poll_from roms ok (Suc k) n in (r, Msleep 100 # os))
      | _ \<Rightarrow> (let (r, os) = poll_from roms ok (Suc k) n in (r, Msleep 100 # os)))"

definition send_and_poll ::
    "vct_env \<Rightarrow> nat \<Rightarrow> string \<Rightarrow> (string \<times> string) list \<Rightarrow> (xml \<Rightarrow> bool) \<Rightarrow> xml option \<times> vct_out list" where
  "send_and_poll G r label as ok =
     (let (x, os) = poll_from (answers G r) ok 0 60
      in (x, Send label (leaf ''request'' as) # Msleep 200 # os))"

definition pkg_request :: "vct_env \<Rightarrow> nat \<Rightarrow> string \<Rightarrow> string \<Rightarrow> xml option \<times> vct_out list" where
  "pkg_request G r op pkg =
     send_and_poll G r ''request'' [(''op'', op), (''pkg'', pkg)] (pkg_match op pkg)"

definition pkg_list_request :: "vct_env \<Rightarrow> xml option \<times> vct_out list" where
  "pkg_list_request G = send_and_poll G 0 ''request'' [(''op'', ''list'')] (pkg_match ''list'' [])"

definition config_get :: "vct_env \<Rightarrow> string \<Rightarrow> xml option \<times> vct_out list" where
  "config_get G key =
     send_and_poll G 0 ''config_request'' [(''op'', ''get''), (''key'', key)] (config_match ''get'' key None)"

definition config_set :: "vct_env \<Rightarrow> string \<Rightarrow> string \<Rightarrow> xml option \<times> vct_out list" where
  "config_set G key v =
     send_and_poll G 0 ''config_request'' [(''op'', ''set''), (''key'', key), (''value'', v)]
       (config_match ''set'' key (Some v))"

definition config_list :: "vct_env \<Rightarrow> xml option \<times> vct_out list" where
  "config_list G =
     send_and_poll G 0 ''config_request'' [(''op'', ''list'')] (config_match ''list'' [] None)"

section \<open>Notifications\<close>

record poster =
  last_title :: string
  last_body :: string
  last_ms :: u64
  post_enabled :: bool

definition poster_init :: poster where
  "poster_init = \<lparr>last_title = [], last_body = [], last_ms = 0, post_enabled = False\<rparr>"

definition post_xml :: "genode \<Rightarrow> string \<Rightarrow> string \<Rightarrow> string \<Rightarrow> nat \<Rightarrow> xml" where
  "post_xml G title body kind ttl =
     (let k = gstr 16 kind;
          k = (if k \<noteq> ''info'' \<and> k \<noteq> ''warn'' \<and> k \<noteq> ''error'' then ''info'' else k)
      in node ''notif_request'' []
           [node ''notification''
              [(''source'', ''vct''), (''kind'', k), (''ttl_ms'', print_nat G ttl)]
              (Elem ''title'' [] [] title # (if body = [] then [] else [Elem ''body'' [] [] body]))])"

text \<open>
  \<open>NotifierReporter::post\<close>. The title and the body are recorded before the session is tried, so that
  the warning about an absent notifier, which asks whether they differ from the recorded ones, is
  never issued.
\<close>

definition post_notification ::
    "vct_env \<Rightarrow> string \<Rightarrow> string \<Rightarrow> string \<Rightarrow> nat \<Rightarrow> poster \<Rightarrow> poster \<times> vct_out list" where
  "post_notification G title body kind ttl p =
     (let t = gstr 128 title; b = gstr 256 body; now = post_clock G
      in if t = last_title p \<and> b = last_body p \<and> now - last_ms p < 1000 then (p, [])
         else
           (let p = p\<lparr>last_title := t, last_body := b, last_ms := now\<rparr>;
                wired = \<not> post_enabled p \<and> post_ok G;
                p = p\<lparr>post_enabled := post_enabled p \<or> post_ok G\<rparr>;
                os = (if wired then [Log ''vct: notifier poster wired to sponge_notifier''] else [])
            in if \<not> post_enabled p then
                 (if t \<noteq> last_title p \<or> b \<noteq> last_body p
                  then (p, os @ [Warn (''notifier unavailable, dropping: '' @ title)]) else (p, os))
               else (p, os @ [Send ''notif_request'' (post_xml (genode.truncate G) title body kind ttl)])))"

definition notify_if :: "vct_env \<Rightarrow> bool \<Rightarrow> string \<Rightarrow> string \<Rightarrow> vct_out list" where
  "notify_if G nf title body =
     (if nf then snd (post_notification G title body ''info'' 5000 poster_init) else [])"

section \<open>Facts\<close>

text \<open>The polls end, after at most sixty waits, with the first answer that matches.\<close>

lemma poll_from_result:
  "fst (poll_from roms ok k n) =
     (case find (\<lambda>i. case roms i of Rom_node x \<Rightarrow> ok x | _ \<Rightarrow> False) [k..<k + n] of
        None \<Rightarrow> None | Some i \<Rightarrow> (case roms i of Rom_node x \<Rightarrow> Some x | _ \<Rightarrow> None))"
proof (induction roms ok k n rule: poll_from.induct)
  case (2 roms ok k n)
  have "[k..<k + Suc n] = k # [Suc k..<Suc k + n]" by (simp add: upt_conv_Cons)
  then show ?case using 2 by (auto simp: case_prod_beta split: rom.split)
qed simp

lemma poll_from_sound: "fst (poll_from roms ok k n) = Some x \<Longrightarrow> ok x"
  by (induction roms ok k n rule: poll_from.induct)
     (auto simp: case_prod_beta split: rom.splits if_splits)

lemma poll_from_waits: "length (snd (poll_from roms ok k n)) \<le> n \<and> set (snd (poll_from roms ok k n)) \<subseteq> {Msleep 100}"
  by (induction roms ok k n rule: poll_from.induct)
     (auto simp: case_prod_beta split: rom.split)

end
