(* ===== verification/Vct_Commands.thy ===== *)
theory Vct_Commands
  imports Vct_Client
begin

text \<open>
  \<open>vct/commands.cc\<close>: the commands of \<open>vct\<close>. Each takes the environment and the invocation and returns
  its exit code with its outputs. The lines are those of the code; the texts of the help pages are
  left out.
\<close>

type_synonym outcome = "nat \<times> vct_out list"

abbreviation VERSION_STRING :: string where "VERSION_STRING \<equiv> ''0.2.0''"
abbreviation CODENAME :: string where "CODENAME \<equiv> ''Archaeocyte''"
abbreviation PLATFORM_BASE :: string where "PLATFORM_BASE \<equiv> ''base-sel4''"
abbreviation PLATFORM_VENDOR :: string where "PLATFORM_VENDOR \<equiv> ''seL4 Foundation''"

definition korean :: "args \<Rightarrow> bool" where "korean a \<longleftrightarrow> lang a = ''ko''"

definition line :: "string list \<Rightarrow> vct_out" where "line ss = Log (concat ss)"

definition does_not_answer :: "string \<Rightarrow> string" where
  "does_not_answer who = who @ '' did not answer''"

section \<open>Help and version\<close>

definition help_execute :: "args \<Rightarrow> outcome" where
  "help_execute a =
     (0, [line [''vct '', EM, '' Very Convenient Tool''],
          line [''version: '', VERSION_STRING, '' ('', CODENAME, '')''], Log [],
          Help_page ''help'' (korean a), Warn (''not implemented: full subcommand set (Phase 4+). status, version, help, component list, install ''
             @ ''(--explain/--manual/plain), remove, launch, list, search, update, config, theme apply, leitzentrale, ''
             @ ''shutdown, and reboot work today.'')])"

definition version_execute :: "args \<Rightarrow> outcome" where
  "version_execute a =
     (0, [line [''vct '', VERSION_STRING], line [''Sponge OS codename: '', CODENAME],
          line [''kernel base:        '', PLATFORM_BASE, '' ('', PLATFORM_VENDOR, '')'']])"

section \<open>Status and component list\<close>

definition key_value :: "xml \<Rightarrow> string \<Rightarrow> string option" where
  "key_value x name =
     map_option (\<lambda>k. attr_str 128 k ''value'')
       (find (\<lambda>k. attr_str 64 k ''name'' = gstr 64 name) (kids_of_type x ''key''))"

definition read_config_key :: "vct_env \<Rightarrow> string \<Rightarrow> string option" where
  "read_config_key G name = (case rom_at G ''configd'' 0 of Rom_node x \<Rightarrow> key_value x name | _ \<Rightarrow> None)"

text \<open>Profile and version of the bake, if there is one.\<close>

definition baked :: "vct_env \<Rightarrow> (string \<times> string) option" where
  "baked G =
     (case read_config_key G ''bake.profile'' of
        None \<Rightarrow> None
      | Some p \<Rightarrow> (case read_config_key G ''bake.version'' of
                    None \<Rightarrow> None
                  | Some v \<Rightarrow> if p = ''none'' then None else Some (p, v)))"

definition bake_line_of :: "vct_env \<Rightarrow> vct_out" where
  "bake_line_of G = (case baked G of Some (p, v) \<Rightarrow> line [''bake:        '', p, '' @ v'', v]
                                   | None \<Rightarrow> Log ''bake:        none'')"

definition json_children :: "(child_state \<Rightarrow> string list) \<Rightarrow> child_state list \<Rightarrow> vct_out list" where
  "json_children row cs =
     map (\<lambda>i. line ((if i = 0 then '' {'' else '' ,{'') # row (cs ! i))) [0..<length cs]"

definition status_child_json :: "vct_env \<Rightarrow> child_state \<Rightarrow> string list" where
  "status_child_json G c =
     [jq ''`name`:`'', c_name c, jq ''`,`binary`:`'', c_binary c, jq ''`,`state`:`'', c_state c,
      jq ''`,`ram`:{`used`:`'', print_bytes G (ram_used c), jq ''`,`quota`:`'', print_bytes G (ram_quota c),
      jq ''`},`caps`:{`used`:'', num G (cap_used c), jq '',`quota`:'', num G (cap_quota c), ''}}'']"

text \<open>The warning about a missing state report.\<close>

definition no_report :: "string \<Rightarrow> vct_out" where
  "no_report what = Warn (concat [''vct: init state report unavailable '', EM, '' '', what])"

definition status_resources_json :: "vct_env \<Rightarrow> init_state \<Rightarrow> vct_out list" where
  "status_resources_json G st =
     [line [jq ''{`command`:`status`,`resources`:true,`ram`:{`used`:`'', print_bytes G (total_ram_used st),
        jq ''`,`quota`:`'', print_bytes G (total_ram_quota st), jq ''`,`avail`:`'',
        print_bytes G (total_ram_avail st), jq ''`},`caps`:{`used`:'', num G (total_caps_used st),
        jq '',`quota`:'', num G (total_caps_quota st), jq '',`avail`:'', num G (total_caps_avail st),
        jq ''},`children`:['']]
     @ json_children (status_child_json G) (children st) @ [Log '']}'']"

definition status_resources :: "vct_env \<Rightarrow> init_state \<Rightarrow> vct_out list" where
  "status_resources G st =
     [Log ''=== Sponge OS status --resources ==='', line [''vct version: '', VERSION_STRING],
      line [''kernel base: '', PLATFORM_BASE], bake_line_of G, Log [],
      Log ''RESOURCE         USED          QUOTA          AVAIL'',
      line [''init RAM       '', print_bytes G (total_ram_used st), ''   '',
            print_bytes G (total_ram_quota st), ''   '', print_bytes G (total_ram_avail st)]]
     @ (if 0 < total_caps_quota st \<or> 0 < total_caps_used st
        then [line [''init caps      '', num G (total_caps_used st), ''         '',
                    num G (total_caps_quota st), ''         '', num G (total_caps_avail st)]] else [])
     @ [Log [], Log ''PER-CHILD:'',
        Log ''NAME                       BINARY                 RAM(used/quota)        CAPS(used/quota)        STATE'',
        Log ''----                       ------                 ---------------        ----------------        -----'']
     @ map (\<lambda>c. line [c_name c, ''  '', c_binary c, ''  '', print_bytes G (ram_used c), ''/'',
              print_bytes G (ram_quota c), ''        '', num G (cap_used c), ''/'', num G (cap_quota c),
              ''        '', c_state c]) (children st)"

definition status_json :: "vct_env \<Rightarrow> init_state \<Rightarrow> vct_out list" where
  "status_json G st =
     (if available st then
        [line ([jq ''{`command`:`status`,`ram_quota`:`'', print_bytes G (total_ram_quota st),
           jq ''`,`ram_used`:`'', print_bytes G (total_ram_used st), jq ''`,`ram_avail`:`'',
           print_bytes G (total_ram_avail st), jq ''`,`components`:'', print_nat G (length (children st)),
           jq '',`version`:`'', VERSION_STRING]
           @ (case baked G of
                Some (p, v) \<Rightarrow> [jq ''`,`bake`:{`profile`:`'', p, jq ''`,`version`:'', v, ''}}'']
              | None \<Rightarrow> [jq ''`,`bake`:null}'']))]
      else [line [jq ''{`command`:`status`,`ram_quota`:0,`ram_used`:0,`ram_avail`:0,`components`:0,`version`:`'',
                  VERSION_STRING, jq ''`,`status`:`scaffold`}'']])"

definition status_human :: "vct_env \<Rightarrow> init_state \<Rightarrow> vct_out list" where
  "status_human G st =
     [Log ''=== Sponge OS status ==='', line [''vct version: '', VERSION_STRING],
      line [''codename:    '', CODENAME], line [''kernel base: '', PLATFORM_BASE], bake_line_of G]
     @ (if available st then
          [line [''init RAM:    '', print_bytes G (total_ram_used st), '' / '',
                 print_bytes G (total_ram_quota st), '' (avail '', print_bytes G (total_ram_avail st), '')'']]
          @ (if 0 < total_caps_quota st \<or> 0 < total_caps_used st
             then [line [''init caps:   '', num G (total_caps_used st), '' / '', num G (total_caps_quota st),
                         '' (avail '', num G (total_caps_avail st), '')'']] else [])
          @ [line [''components:  '', print_nat G (length (children st))]]
        else [Log ''env:         connected (default sessions)'',
              no_report ''showing scaffold data'',
              Warn ''not implemented: live component / resource statistics (Phase 14 W11 #43 closes this for --resources).''])"

definition status_execute :: "vct_env \<Rightarrow> args \<Rightarrow> outcome" where
  "status_execute G a =
     (let st = read_state (num_bytes G) (state_rom G) in
      if resources a then
        (if \<not> available st then (1, [no_report ''cannot show resources''])
         else (0, if json a then status_resources_json G st else status_resources G st))
      else (0, if json a then status_json G st else status_human G st))"

definition list_child_json :: "vct_env \<Rightarrow> child_state \<Rightarrow> string list" where
  "list_child_json G c =
     [jq ''`name`:`'', c_name c, jq ''`,`binary`:`'', c_binary c, jq ''`,`state`:`'', c_state c,
      jq ''`,`ram`:{`assigned`:`'', print_bytes G (ram_assigned c), jq ''`,`quota`:`'',
      print_bytes G (ram_quota c), jq ''`,`used`:`'', print_bytes G (ram_used c), jq ''`,`avail`:`'',
      print_bytes G (ram_avail c), jq ''`},`caps`:{`assigned`:'', num G (cap_assigned c), jq '',`quota`:'',
      num G (cap_quota c), jq '',`used`:'', num G (cap_used c), jq '',`avail`:'', num G (cap_avail c), ''}}'']"

definition component_list_execute :: "vct_env \<Rightarrow> args \<Rightarrow> outcome" where
  "component_list_execute G a =
     (let st = read_state (num_bytes G) (state_rom G) in
      if \<not> available st then
        (1, [no_report ''cannot list components'', Log ''No component data available.''])
      else if json a then (0, [Log ''[''] @ json_children (list_child_json G) (children st) @ [Log '']''])
      else (0, [Log ''NAME  BINARY  RAM(used/assigned)  CAPS(used/assigned)  STATE'',
                Log ''----  ------  -----------------  --------------------  -----'']
               @ map (\<lambda>c. line [c_name c, ''  '', c_binary c, ''  ram '', print_bytes G (ram_used c), ''/'',
                        print_bytes G (ram_assigned c), ''  caps '', num G (cap_used c), ''/'',
                        num G (cap_assigned c), ''  '', c_state c]) (children st)))"

section \<open>Answers of the daemons\<close>

definition status_of :: "xml \<Rightarrow> string" where "status_of x = attr_str 32 x ''status''"

text \<open>The children of the first child of a type.\<close>

definition under :: "xml \<Rightarrow> string \<Rightarrow> string \<Rightarrow> xml list" where
  "under x t u = (case kids_of_type x t of [] \<Rightarrow> [] | k # _ \<Rightarrow> kids_of_type k u)"

definition deps_line_from :: "xml \<Rightarrow> string" where
  "deps_line_from x =
     (let ds = under x ''dependencies'' ''dep'';
          buf = fold (\<lambda>d buf.
                  put_while 256 1 (attr_str 64 d ''name'') (if buf = [] then buf else put_if 256 2 '', '' buf))
                ds []
      in if ds = [] then ''none'' else gstr 256 buf)"

text \<open>One turn of the loop: the flag is whether it is the first.\<close>

definition json_array_step :: "string \<Rightarrow> bool \<times> string \<Rightarrow> bool \<times> string" where
  "json_array_step name = (\<lambda>(first, buf).
     (False, put_if 256 1 [DQ] (put_while 256 2 name (put_if 256 2 [DQ]
        (if first then buf else put_if 256 2 '', '' buf)))))"

definition json_array_of :: "xml \<Rightarrow> string \<Rightarrow> string" where
  "json_array_of x t =
     (case kids_of_type x t of
        [] \<Rightarrow> ''[]''
      | k # _ \<Rightarrow>
          put_if 256 1 '']'' (snd (fold (\<lambda>c. json_array_step (attr_str 64 c ''name''))
            (kids_of_type k ''component'') (True, ''[''))))"

text \<open>The names joined by commas in a buffer of 256 bytes; three renderers share the loop.\<close>

definition joined_names :: "xml \<Rightarrow> string \<Rightarrow> string" where
  "joined_names x t =
     snd (fold (\<lambda>c (first, buf).
            (False, put_while 256 1 (attr_str 64 c ''name'') (if first then buf else put_if 256 2 '', '' buf)))
          (under x t ''component'') (True, []))"

text \<open>The JSON line of a failed operation.\<close>

definition json_error :: "string \<Rightarrow> string \<Rightarrow> string \<Rightarrow> vct_out" where
  "json_error cmd pkg e =
     line [jq ''{`command`:`'', cmd, jq ''`,`package`:`'', pkg, jq ''`,`status`:`error`,`error`:`'', e, jq ''`}'']"

definition no_answer :: "bool \<Rightarrow> string \<Rightarrow> string \<Rightarrow> string \<Rightarrow> outcome" where
  "no_answer js cmd pkg warning =
     (1, [if js then json_error cmd pkg (does_not_answer ''sponge_pkgd'')
          else Warn (concat [warning, [SQ], pkg, [SQ]])])"

definition error_line :: "string \<Rightarrow> xml \<Rightarrow> outcome" where
  "error_line cmd x = (1, [line [cmd, '': error: '', attr_str 256 x ''error'']])"

section \<open>Install\<close>

definition component_line :: "genode \<Rightarrow> string \<Rightarrow> xml \<Rightarrow> vct_out" where
  "component_line G indent c =
     (let name = attr_str 64 c ''name''; req = attr_str 128 c ''requires'' in
      if \<not> attr_bool G c ''new'' True then line [indent, name, '' (already present, reused)'']
      else if req \<noteq> [] then line [indent, name, '' (requires '', req, '' sessions)'']
      else line [indent, name])"

record route_row =
  rr_label :: string
  rr_target :: string
  rr_readonly :: bool
  rr_subpath :: string

definition route_row_of :: "genode \<Rightarrow> xml \<Rightarrow> route_row" where
  "route_row_of G r =
     \<lparr>rr_label = gstr 96 (attr_str 64 r ''component'' @ ''.'' @ attr_str 32 r ''session''),
      rr_target = attr_str 32 r ''target'', rr_readonly = attr_bool G r ''readonly'' False,
      rr_subpath = attr_str 64 r ''subpath''\<rparr>"

definition route_lines :: "genode \<Rightarrow> xml list \<Rightarrow> vct_out list" where
  "route_lines G rs =
     (let rows = map (route_row_of G) (take 32 rs);
          max_len = foldr (\<lambda>r. max (length (rr_label r))) rows 0
      in map (\<lambda>r.
           let pad = replicate (min (max_len - length (rr_label r)) 63) SP in
           if rr_readonly r \<and> rr_subpath r \<noteq> []
           then line [''   '', rr_label r, pad, '' -> '', rr_target r, '' (read-only: '', rr_subpath r, '')'']
           else line [''   '', rr_label r, pad, '' -> '', rr_target r]) rows)"

definition render_explain_human :: "genode \<Rightarrow> xml \<Rightarrow> outcome" where
  "render_explain_human G x =
     (if status_of x \<noteq> ''ok'' then error_line ''install'' x
      else (0, [Log ''The following steps are planned:'', Log [], Log ''1. Fetch package metadata'',
                line [''   - '', attr_str 128 x ''pkg'', '' '', attr_str 32 x ''version''],
                line [''   - Dependencies: '', deps_line_from x],
                Log ''2. Add to component tree'', Log ''   Under init:'']
               @ map (component_line G ''     - '') (under x ''components'' ''component'')
               @ [Log ''3. Configure session routing''] @ route_lines G (under x ''routes'' ''route'')
               @ (case kids_of_type x ''launcher'' of
                    [] \<Rightarrow> []
                  | l # _ \<Rightarrow> [Log ''4. Register launcher entry'',
                              line [''   Category: '', attr_str 32 l ''category'']])
               @ [Log [], Log ''Re-run without --explain to execute.'']))"

definition render_explain_json :: "xml \<Rightarrow> outcome" where
  "render_explain_json x =
     (let pkg = attr_str 128 x ''pkg'' in
      if status_of x \<noteq> ''ok'' then (1, [json_error ''install'' pkg (attr_str 256 x ''error'')])
      else (0, [line ([jq ''{`command`:`install`,`package`:`'', pkg, jq ''`,`status`:`planned`,`version`:`'',
                 attr_str 32 x ''version'', jq ''`,`components`:'', json_array_of x ''components'']
                 @ (case kids_of_type x ''launcher'' of
                      [] \<Rightarrow> [''}'']
                    | l # _ \<Rightarrow> [jq '',`launcher`:{`category`:`'', attr_str 32 l ''category'', jq ''`}}'']))]))"

definition render_install_human :: "vct_env \<Rightarrow> bool \<Rightarrow> xml \<Rightarrow> outcome" where
  "render_install_human G nf x =
     (let pkg = attr_str 128 x ''pkg''; peer = attr_str 64 x ''peer'' in
      if status_of x = ''exclusive-conflict'' then
        (1, [line [''install: '', pkg, '' cannot start while '', peer, '' holds the same hardware resource''],
             line [''  remedy: vct remove '', peer], line [''          vct install '', pkg]])
      else if status_of x \<noteq> ''ok'' then error_line ''install'' x
      else
        (let added = joined_names x ''components_added'' in
         (0, [Log ''Resolving dependencies... done'', Log ''Generating component configuration... done'',
              Log ''Installing... done'', Log [],
              line [''Installed package: '', pkg, '' '', attr_str 32 x ''version''],
              if added = [] then line [''Components added: (none '', EM, '' already installed)'']
              else line [''Components added: '', gstr 256 added]]
             @ (case kids_of_type x ''launcher'' of
                  [] \<Rightarrow> []
                | l # _ \<Rightarrow> [line [''Launcher entry: '', attr_str 32 l ''category'',
                                  '' (registration deferred to Phase 5)'']])
             @ notify_if G nf ''install completed'' pkg)))"

definition render_install_json :: "xml \<Rightarrow> outcome" where
  "render_install_json x =
     (let pkg = attr_str 128 x ''pkg'' in
      if status_of x = ''exclusive-conflict'' then
        (1, [line [jq ''{`command`:`install`,`package`:`'', pkg,
               jq ''`,`status`:`error`,`error`:`exclusive-conflict`,`peer`:`'', attr_str 64 x ''peer'',
               jq ''`,`group`:`'', attr_str 32 x ''group'', jq ''`}'']])
      else if status_of x \<noteq> ''ok'' then (1, [json_error ''install'' pkg (attr_str 256 x ''error'')])
      else (0, [line [jq ''{`command`:`install`,`package`:`'', pkg, jq ''`,`status`:`success`,`version`:`'',
                 attr_str 32 x ''version'', jq ''`,`components_added`:'', json_array_of x ''components_added'', ''}'']]))"

definition render_manual_plan :: "genode \<Rightarrow> xml \<Rightarrow> vct_out list" where
  "render_manual_plan G x =
     [line [''Manual install: '', attr_str 128 x ''pkg'',
        ''  (step-by-step; per-step [Y/n] confirmation arrives with the interactive shell)''], Log [],
      Log ''1/4 Fetch package metadata'',
      line [''   - '', attr_str 128 x ''pkg'', '' '', attr_str 32 x ''version''],
      line [''   - Dependencies: '', deps_line_from x], Log ''2/4 Resolve dependency tree'']
     @ map (component_line G ''   - '') (under x ''components'' ''component'')
     @ [Log ''3/4 Generate component configuration'',
        line [''   adding under pkg_runtime: '', attr_str 128 x ''pkg'']]"

definition render_manual_done :: "xml \<Rightarrow> vct_out list" where
  "render_manual_done x =
     (let added = joined_names x ''components_added'' in
      [Log ''4/4 Start components'',
       if added = [] then line [''   (no new components '', EM, '' already installed)'']
       else line [''   starting: '', gstr 256 added], Log [], Log ''Done.''])"

text \<open>What to do with the answer to the \<open>r\<close>-th request, or without one.\<close>

definition with_answer ::
    "xml option \<times> vct_out list \<Rightarrow> outcome \<Rightarrow> (xml \<Rightarrow> outcome) \<Rightarrow> outcome" where
  "with_answer r none f =
     (let (x, os) = r; (rc, out) = (case x of None \<Rightarrow> none | Some y \<Rightarrow> f y) in (rc, os @ out))"

definition install_manual :: "vct_env \<Rightarrow> string \<Rightarrow> outcome" where
  "install_manual G pkg =
     (let no = no_answer False ''install'' pkg ''vct: sponge_pkgd did not answer for '' in
      with_answer (pkg_request G 0 ''explain'' pkg) no (\<lambda>plan.
        if status_of plan \<noteq> ''ok'' then error_line ''install'' plan
        else
          (let (rc, os) = with_answer (pkg_request G 1 ''install'' pkg) no (\<lambda>inst.
                 if status_of inst \<noteq> ''ok'' then error_line ''install'' inst
                 else (0, render_manual_done inst))
           in (rc, render_manual_plan (genode.truncate G) plan @ os))))"

definition install_execute :: "vct_env \<Rightarrow> bool \<Rightarrow> args \<Rightarrow> outcome" where
  "install_execute G nf a =
     (let pkg = positional a;
          no = no_answer False ''install'' pkg ''vct: sponge_pkgd did not answer for '' in
      if pkg = [] then
        (1, [Warn ''vct: install requires a package name'',
             Log ''Usage: vct install <package> [--explain] [--manual] [--json]''])
      else if manual a then install_manual G pkg
      else if explain a then
        with_answer (pkg_request G 0 ''explain'' pkg) no
          (\<lambda>x. if json a then render_explain_json x else render_explain_human (genode.truncate G) x)
      else
        with_answer (pkg_request G 0 ''install'' pkg)
          (no_answer (json a) ''install'' pkg ''vct: sponge_pkgd did not answer for '')
          (\<lambda>x. if json a then render_install_json x else render_install_human G nf x))"

section \<open>Remove, launch, list\<close>

definition render_remove_human :: "vct_env \<Rightarrow> bool \<Rightarrow> xml \<Rightarrow> outcome" where
  "render_remove_human G nf x =
     (let pkg = attr_str 128 x ''pkg'' in
      if status_of x \<noteq> ''ok'' then error_line ''remove'' x
      else
        (let removed = joined_names x ''components_removed'' in
         (0, [line [''Removing package: '', pkg],
              if removed = [] then Log ''Components removed: (none)''
              else line [''Components removed: '', gstr 256 removed],
              line [''Removed package: '', pkg]] @ notify_if G nf ''remove completed'' pkg)))"

definition render_remove_json :: "xml \<Rightarrow> outcome" where
  "render_remove_json x =
     (let pkg = attr_str 128 x ''pkg'' in
      if status_of x \<noteq> ''ok'' then (1, [json_error ''remove'' pkg (attr_str 256 x ''error'')])
      else (0, [line [jq ''{`command`:`remove`,`package`:`'', pkg, jq ''`,`status`:`success`,`components_removed`:'',
                 json_array_of x ''components_removed'', ''}'']]))"

definition remove_execute :: "vct_env \<Rightarrow> bool \<Rightarrow> args \<Rightarrow> outcome" where
  "remove_execute G nf a =
     (let pkg = positional a in
      if pkg = [] then
        (1, [Warn ''vct: remove requires a package name'', Log ''Usage: vct remove <package> [--json]''])
      else
        with_answer (pkg_request G 0 ''remove'' pkg)
          (no_answer (json a) ''remove'' pkg ''vct: sponge_pkgd did not answer for '')
          (\<lambda>x. if json a then render_remove_json x else render_remove_human G nf x))"

definition attr_or :: "xml \<Rightarrow> string \<Rightarrow> string \<Rightarrow> string" where
  "attr_or x k d = (case attr x k of None \<Rightarrow> d | Some v \<Rightarrow> gstr 32 v)"

definition render_launch_human :: "xml \<Rightarrow> outcome" where
  "render_launch_human x =
     (let pkg = attr_str 128 x ''pkg''; st = status_of x; peer = attr_str 64 x ''peer'' in
      if st = ''ok'' then (0, [line [''launched: '', pkg]])
      else if st = ''not-installed'' then (1, [line [''launch: '', pkg, '' is not installed'']])
      else if st = ''already-running'' then (1, [line [''launch: '', pkg, '' is already running'']])
      else if st = ''binary-missing'' then
        (1, [line [''launch: '', pkg, '' failed '', EM, '' its binary is not present in this image'']])
      else if st = ''exclusive-conflict'' then
        (1, [line [''launch: '', pkg, '' failed '', EM, '' '', peer, '' already holds this hardware resource''],
             line [''  remedy: vct remove '', peer], line [''          vct launch '', pkg]])
      else if st = ''insufficient-resources'' then
        (1, [line [''launch: '', pkg, '' failed '', EM, '' not enough memory or capabilities (needs '',
               attr_or x ''need_ram'' ''?'', '' bytes RAM and '', attr_or x ''need_caps'' ''?'', '' caps; '',
               attr_or x ''avail_ram'' ''?'', '' bytes RAM and '', attr_or x ''avail_caps'' ''?'',
               '' caps are free)'']])
      else error_line ''launch'' x)"

definition render_launch_json :: "xml \<Rightarrow> outcome" where
  "render_launch_json x =
     (let pkg = attr_str 128 x ''pkg''; st = status_of x in
      if st = ''ok'' then (0, [line [jq ''{`command`:`launch`,`package`:`'', pkg, jq ''`,`status`:`success`}'']])
      else if st = ''not-installed'' \<or> st = ''already-running'' \<or> st = ''binary-missing'' then
        (1, [json_error ''launch'' pkg st])
      else if st = ''exclusive-conflict'' then
        (1, [line [jq ''{`command`:`launch`,`package`:`'', pkg,
               jq ''`,`status`:`error`,`error`:`exclusive-conflict`,`peer`:`'', attr_str 64 x ''peer'',
               jq ''`,`group`:`'', attr_str 32 x ''group'', jq ''`}'']])
      else if st = ''insufficient-resources'' then
        (1, [line [jq ''{`command`:`launch`,`package`:`'', pkg,
               jq ''`,`status`:`error`,`error`:`insufficient-resources`,`need_ram`:`'', attr_or x ''need_ram'' [],
               jq ''`,`avail_ram`:`'', attr_or x ''avail_ram'' [], jq ''`,`need_caps`:`'', attr_or x ''need_caps'' [],
               jq ''`,`avail_caps`:`'', attr_or x ''avail_caps'' [], jq ''`}'']])
      else (1, [json_error ''launch'' pkg (attr_str 256 x ''error'')]))"

definition launch_execute :: "vct_env \<Rightarrow> args \<Rightarrow> outcome" where
  "launch_execute G a =
     (let pkg = positional a in
      if pkg = [] then
        (1, [Warn ''vct: launch requires a package name'', Log ''Usage: vct launch <package> [--json] [--help]''])
      else
        (let (rc, os) = with_answer (pkg_request G 0 ''launch'' pkg)
               (no_answer (json a) ''launch'' pkg ''vct: sponge_pkgd did not answer launch for '')
               (\<lambda>x. if json a then render_launch_json x else render_launch_human x)
         in (rc, line [''vct: launch: requesting start of '', pkg] # os)))"

text \<open>
  The loop that writes objects of two members into a buffer of 512 bytes; the two users differ in the
  second member and in one guard.
\<close>

definition json_row :: "string \<Rightarrow> nat \<Rightarrow> string \<times> string \<Rightarrow> bool \<times> string \<Rightarrow> bool \<times> string" where
  "json_row key2 slack = (\<lambda>(a, b) (first, buf).
     let buf = (if first then buf else put_if 512 2 '', '' buf);
         buf = put_if 512 2 ''{'' buf;
         buf = (if length buf + 12 < 512 then put_while 512 1 (jq ''`name`:`'') buf else buf);
         buf = put_while 512 1 a buf;
         buf = (if length buf + slack < 512 then put_while 512 1 (jq ''`,`'' @ key2 @ jq ''`:`'') buf else buf);
         buf = put_while 512 1 b buf;
         buf = put_if 512 2 [DQ, CHR ''}''] buf
     in (False, buf))"

definition json_rows :: "string \<Rightarrow> nat \<Rightarrow> (string \<times> string) list \<Rightarrow> string" where
  "json_rows key2 slack rows =
     put_if 512 1 '']'' (snd (fold (json_row key2 slack) rows (True, ''['')))"

definition render_pkg_list_human :: "xml \<Rightarrow> outcome" where
  "render_pkg_list_human x =
     (let ps = under x ''packages'' ''package'' in
      if status_of x \<noteq> ''ok'' then error_line ''list'' x
      else if ps = [] then (0, [Log ''No packages installed.''])
      else (0, [Log ''Installed packages:'', Log ''NAME    VERSION'', Log ''------  -------'']
               @ map (\<lambda>p. line [attr_str 64 p ''name'', ''  '', attr_str 32 p ''version'']) ps))"

definition render_pkg_list_json :: "xml \<Rightarrow> outcome" where
  "render_pkg_list_json x =
     (if status_of x \<noteq> ''ok'' then
        (1, [line [jq ''{`command`:`list`,`status`:`error`,`error`:`'', attr_str 256 x ''error'', jq ''`}'']])
      else (0, [line [jq ''{`command`:`list`,`status`:`success`,`packages`:'',
                 gstr 512 (json_rows ''version'' 16
                   (map (\<lambda>p. (attr_str 64 p ''name'', attr_str 32 p ''version'')) (under x ''packages'' ''package''))),
                 ''}'']]))"

definition list_execute :: "vct_env \<Rightarrow> args \<Rightarrow> outcome" where
  "list_execute G a =
     with_answer (pkg_list_request G)
       (1, [if json a then Log (jq ''{`command`:`list`,`status`:`error`,`error`:`sponge_pkgd did not answer`}'')
            else Warn ''vct: sponge_pkgd did not answer for list''])
       (\<lambda>x. if json a then render_pkg_list_json x else render_pkg_list_human x)"

section \<open>Configuration\<close>

definition render_get_human :: "xml \<Rightarrow> outcome" where
  "render_get_human x =
     (if status_of x \<noteq> ''ok'' then error_line ''config'' x
      else (0, [line [attr_str 128 x ''key'', '' = '', attr_str 128 x ''value'']]))"

definition render_get_json :: "xml \<Rightarrow> outcome" where
  "render_get_json x =
     (let key = attr_str 128 x ''key'' in
      if status_of x \<noteq> ''ok'' then
        (1, [line [jq ''{`command`:`config`,`op`:`get`,`key`:`'', key, jq ''`,`status`:`error`,`error`:`'',
               attr_str 256 x ''error'', jq ''`}'']])
      else (0, [line [jq ''{`command`:`config`,`op`:`get`,`key`:`'', key, jq ''`,`value`:`'',
                 attr_str 128 x ''value'', jq ''`,`status`:`success`}'']]))"

definition render_set_human :: "xml \<Rightarrow> outcome" where
  "render_set_human x =
     (if status_of x \<noteq> ''ok'' then error_line ''config'' x
      else (0, [line [''Set '', attr_str 128 x ''key'', '' = '', attr_str 128 x ''value'']]))"

definition render_set_json :: "xml \<Rightarrow> outcome" where
  "render_set_json x =
     (let head = [jq ''{`command`:`config`,`op`:`set`,`key`:`'', attr_str 128 x ''key'', jq ''`,`value`:`'',
                  attr_str 128 x ''value''] in
      if status_of x \<noteq> ''ok'' then
        (1, [line (head @ [jq ''`,`status`:`error`,`error`:`'', attr_str 256 x ''error'', jq ''`}''])])
      else (0, [line (head @ [jq ''`,`status`:`success`}''])]))"

definition render_config_list_human :: "xml \<Rightarrow> outcome" where
  "render_config_list_human x =
     (let ks = under x ''keys'' ''key'' in
      if status_of x \<noteq> ''ok'' then error_line ''config'' x
      else if ks = [] then (0, [Log ''No configuration keys.''])
      else (0, [Log ''Configuration keys:'', Log ''KEY               VALUE'', Log ''---------------   -----'']
               @ map (\<lambda>k. line [attr_str 64 k ''name'', ''   '', attr_str 128 k ''value'']) ks))"

definition config_rows :: "xml \<Rightarrow> (string \<times> string) list" where
  "config_rows x = map (\<lambda>k. (attr_str 64 k ''name'', attr_str 128 k ''value'')) (under x ''keys'' ''key'')"

definition render_config_list_json :: "xml \<Rightarrow> outcome" where
  "render_config_list_json x =
     (if status_of x \<noteq> ''ok'' then
        (1, [line [jq ''{`command`:`config`,`op`:`list`,`status`:`error`,`error`:`'',
               attr_str 256 x ''error'', jq ''`}'']])
      else (0, [line [jq ''{`command`:`config`,`op`:`list`,`status`:`success`,`keys`:'',
                 gstr 512 (json_rows ''value'' 14 (config_rows x)), ''}'']]))"

definition config_no_answer :: "string list \<Rightarrow> outcome" where
  "config_no_answer head =
     (1, [line (jq ''{`command`:`config`,`op`:'' # head
            @ [jq ''`status`:`error`,`error`:`sponge_configd did not answer`}''])])"

definition config_execute :: "vct_env \<Rightarrow> args \<Rightarrow> outcome" where
  "config_execute G a =
     (let key = positional a; v = positional2 a in
      if key = ''list'' then
        with_answer (config_list G)
          (if json a then config_no_answer [jq ''`list`,'']
           else (1, [Warn ''vct: sponge_configd did not answer for list'']))
          (\<lambda>x. if json a then render_config_list_json x else render_config_list_human x)
      else if key = [] then
        (1, [Warn (concat [''vct: config requires a key or '', [SQ], ''list'', [SQ]]), Log ''Usage: vct config <key> [<value>] | vct config list''])
      else if v = [] then
        with_answer (config_get G key)
          (if json a then config_no_answer [jq ''`get`,`key`:`'', key, jq ''`,'']
           else (1, [Warn (concat [''vct: sponge_configd did not answer for '', [SQ], key, [SQ]])]))
          (\<lambda>x. if json a then render_get_json x else render_get_human x)
      else
        with_answer (config_set G key v)
          (if json a then config_no_answer [jq ''`set`,`key`:`'', key, jq ''`,`value`:`'', v, jq ''`,'']
           else (1, [Warn (concat [''vct: sponge_configd did not answer for '', [SQ], key, [SQ]])]))
          (\<lambda>x. if json a then render_set_json x else render_set_human x))"

text \<open>The warning about a word that is not a subcommand.\<close>

definition unknown_word :: "string \<Rightarrow> string \<Rightarrow> string \<Rightarrow> vct_out" where
  "unknown_word what w expected =
     Warn (concat [''vct: unknown '', what, '' '', [SQ], w, [SQ], '' '', EM, '' expected '', expected])"

definition theme_execute :: "vct_env \<Rightarrow> args \<Rightarrow> outcome" where
  "theme_execute G a =
     (let verb = positional a; name = positional2 a; page = Help_page ''theme'' (korean a);
          fail = (\<lambda>e. line [jq ''{`command`:`theme`,`op`:`apply`,`name`:`'', name,
                    jq ''`,`status`:`error`,`error`:`'', e, jq ''`}'']) in
      if verb = ''--help'' \<or> verb = ''-h'' then (0, [page])
      else if verb \<noteq> ''apply'' then (1, [unknown_word ''theme subcommand'' verb (concat [[SQ], ''apply'', [SQ]]), page])
      else if name = [] then (1, [Warn ''vct: theme apply requires a theme name'', page])
      else
        with_answer (config_set G ''theme.active'' name)
          (1, [if json a then fail (does_not_answer ''sponge_configd'')
               else Warn (concat [''vct: sponge_configd did not answer for theme '', [SQ], name, [SQ]])])
          (\<lambda>x. if status_of x \<noteq> ''ok'' then
                 (1, [if json a then fail (attr_str 256 x ''error'')
                      else line [''theme: error: '', attr_str 256 x ''error'']])
               else (0, [if json a then line [jq ''{`command`:`theme`,`op`:`apply`,`name`:`'', name,
                                               jq ''`,`status`:`success`}'']
                         else line [''Applied theme: '', name]])))"

end
