(* ===== verification/Vct_System.thy ===== *)
theory Vct_System
  imports Vct_Commands Configd
begin

text \<open>
  The rest of \<open>vct/commands.cc\<close> (the Leitzentrale switch, power control, the search in the package
  repository, the version comparison), \<open>vct/bake_command.cc\<close>, and the program as a whole
  (\<open>vct/vct_main.cc\<close>): parse, dispatch, exit.
\<close>

section \<open>Leitzentrale\<close>

definition lz_error :: "string list \<Rightarrow> string \<Rightarrow> vct_out" where
  "lz_error op e = line (jq ''{`command`:`leitzentrale`,`op`:`'' # op @ [jq ''`status`:`error`,`error`:`'', e, jq ''`}''])"

text \<open>The updates of a ROM, at most \<open>n\<close>, until the condition holds, with the waits in between.\<close>

fun poll_rom :: "(nat \<Rightarrow> rom) \<Rightarrow> (rom \<Rightarrow> bool) \<Rightarrow> nat \<Rightarrow> nat \<Rightarrow> rom \<times> vct_out list" where
  "poll_rom f ok k 0 = (Rom_invalid, [])"
| "poll_rom f ok k (Suc n) =
     (if ok (f k) then (f k, [])
      else let (r, os) = poll_rom f ok (Suc k) n in (r, Msleep 100 # os))"

definition valid_rom :: "rom \<Rightarrow> bool" where
  "valid_rom r \<longleftrightarrow> r \<noteq> Rom_invalid"

definition rom_attr :: "nat \<Rightarrow> rom \<Rightarrow> string \<Rightarrow> string" where
  "rom_attr n r k = (case r of Rom_node x \<Rightarrow> attr_str n x k | _ \<Rightarrow> [])"

definition rom_kids :: "rom \<Rightarrow> string \<Rightarrow> xml list" where
  "rom_kids r t = (case r of Rom_node x \<Rightarrow> kids_of_type x t | _ \<Rightarrow> [])"

definition lz_diff :: "vct_env \<Rightarrow> args \<Rightarrow> outcome" where
  "lz_diff G a =
     (let (model, os) = poll_rom (rom_at G ''lz_model'') valid_rom 0 30 in
      if \<not> valid_rom model then
        (1, os @ [if json a then lz_error [jq ''diff`,''] ''lz_model unavailable''
                  else Log ''leitzentrale diff: lz_watch not reachable''])
      else
        (let diverged = rom_attr 8 model ''diverged'' = ''true'' in
         (0, os @
           (if json a then
              [line [jq ''{`command`:`leitzentrale`,`op`:`diff`,`diverged`:'',
                     if diverged then ''true'' else ''false'', ''}'']]
            else Log (if diverged then ''Leitzentrale model: DIVERGED''
                      else ''Leitzentrale model: clean (matches baseline)'')
              # map (\<lambda>f. line [''  '', attr_str 32 f ''name'',
                    if attr_str 8 f ''changed'' = ''true'' then ''  CHANGED'' else ''  clean''])
                  (rom_kids model ''file'')))))"

definition lz_keep_or_revert :: "vct_env \<Rightarrow> string \<Rightarrow> string \<Rightarrow> args \<Rightarrow> outcome" where
  "lz_keep_or_revert G verb op a =
     (let (r, os) = poll_rom (rom_at G ''lz_watch_result'')
                      (\<lambda>r. valid_rom r \<and> rom_attr 16 r ''op'' = op) 0 30;
          ok = (valid_rom r \<and> rom_attr 16 r ''status'' = ''ok'')
      in (if ok then 0 else 1,
          [Send ''lz_watch_request'' (leaf ''lz_watch_request'' [(''op'', op)]), Msleep 100] @ os
          @ [if json a then line [jq ''{`command`:`leitzentrale`,`op`:`'', verb, jq ''`,`status`:`'',
                                  if ok then ''ok'' else jq ''error`}'']
             else line [''leitzentrale '', verb, '': '', if ok then ''done'' else ''lz_watch did not answer'']]))"

definition lz_status :: "vct_env \<Rightarrow> args \<Rightarrow> outcome" where
  "lz_status G a =
     with_answer (config_get G ''leitzentrale.enabled'')
       (1, [if json a then lz_error [jq ''status`,''] (does_not_answer ''sponge_configd'')
            else Warn ''vct: sponge_configd did not answer''])
       (\<lambda>x. let active = (attr_str 32 x ''value'' = ''true'') in
            (0, [if json a then line [jq ''{`command`:`leitzentrale`,`op`:`status`,`active`:'',
                                      if active then ''true'' else ''false'', ''}'']
                 else line [''Leitzentrale: '', if active then ''active'' else ''inactive'']]))"

definition lz_switch :: "vct_env \<Rightarrow> bool \<Rightarrow> args \<Rightarrow> outcome" where
  "lz_switch G off a =
     (let want = (if off then ''false'' else ''true'');
          err = (\<lambda>e. lz_error [jq ''set`,`value`:`'', want, jq ''`,''] e) in
      with_answer (config_set G ''leitzentrale.enabled'' want)
        (1, [if json a then err (does_not_answer ''sponge_configd'')
             else Warn ''vct: sponge_configd did not answer for leitzentrale.enabled''])
        (\<lambda>x. if status_of x \<noteq> ''ok'' then
               (1, [if json a then err (attr_str 256 x ''error'')
                    else line [''leitzentrale: error: '', attr_str 256 x ''error'']])
             else
               (0, [line [''vct: leitzentrale '', if off then ''disabled'' else ''enabled'',
                          '' (leitzentrale.enabled='', want, '')''],
                    if json a then line [jq ''{`command`:`leitzentrale`,`op`:`set`,`value`:`'', want,
                                         jq ''`,`status`:`success`}'']
                    else Log (if off then ''Leitzentrale hidden.'' else ''Leitzentrale window enabled.'')])))"

definition leitzentrale_execute :: "vct_env \<Rightarrow> args \<Rightarrow> outcome" where
  "leitzentrale_execute G a =
     (let verb = positional a; off = (verb \<in> {''off'', ''disable'', ''false''});
          sync = (verb \<in> {''diff'', ''keep'', ''revert''}); page = Help_page ''leitzentrale'' (korean a) in
      if verb = ''--help'' \<or> verb = ''-h'' then (0, [page])
      else if \<not> off \<and> verb \<noteq> ''status'' \<and> \<not> sync \<and> verb \<noteq> [] then
        (1, [unknown_word ''leitzentrale argument'' verb ''off/status/diff/keep/revert or nothing'', page])
      else if sync then
        (if verb = ''diff'' then lz_diff G a
         else lz_keep_or_revert G verb (if verb = ''keep'' then ''snapshot'' else ''revert'') a)
      else if verb = ''status'' then lz_status G a
      else lz_switch G off a)"

section \<open>Power\<close>

abbreviation POWER_SIDE_EFFECT_BOUND_MS :: nat where "POWER_SIDE_EFFECT_BOUND_MS \<equiv> 4000"

definition power_failed :: "genode \<Rightarrow> string \<Rightarrow> bool \<Rightarrow> bool \<Rightarrow> vct_out list" where
  "power_failed G verb reboot js =
     (let what = (if reboot then ''reset'' else ''power off'');
          state = (if reboot then ''reset'' else ''poweroff'');
          bound = print_nat G POWER_SIDE_EFFECT_BOUND_MS in
      if js then
        [line [jq ''{`command`:`'', verb, jq ''`,`state`:`'', state,
           jq ''`,`status`:`error`,`error`:`System service (acpica) unavailable - guest did not '', what,
           '' within '', bound, jq ''ms`}'']]
      else
        [line [''vct: '', verb, '': System service (acpica) unavailable - guest did not '', what,
               '' within '', bound, ''ms''],
         line [''vct: '', verb, '': escape hatch - QEMU monitor: '',
               if reboot then ''system_reset'' else ''system_powerdown'',
               '' (Ctrl-A x, or -qmp; see docs/13-installation.md).'']])"

definition power_execute :: "vct_env \<Rightarrow> bool \<Rightarrow> args \<Rightarrow> outcome" where
  "power_execute G nf a =
     (let verb = subcommand a; reboot = (verb = ''reboot'');
          state = (if reboot then ''reset'' else ''poweroff'') in
      if positional a = ''--help'' \<or> positional a = ''-h'' then
        (0, [Help_page (if reboot then ''reboot'' else ''shutdown'') (korean a)])
      else
        (1, [line [''vct: '', verb, '': requesting '', state],
             Send ''system'' (leaf ''system'' [(''state'', state)])]
            @ notify_if G nf verb state
            @ (if json a then [line [jq ''{`command`:`'', verb, jq ''`,`state`:`'', state,
                                     jq ''`,`status`:`requested`}'']] else [])
            @ replicate (POWER_SIDE_EFFECT_BOUND_MS div 200) (Msleep 200)
            @ power_failed (genode.truncate G) verb reboot (json a)))"

section \<open>The package repository\<close>

record repo_pkg =
  rp_name :: string
  rp_version :: string
  rp_description :: string

text \<open>The names in the index, or \<open>None\<close> when there is none.\<close>

definition repo_names :: "vct_env \<Rightarrow> string list option" where
  "repo_names G =
     (case rom_at G ''pkg_index.xml'' 0 of
        Rom_node root \<Rightarrow>
          (if has_type root ''packages''
           then Some (map (\<lambda>p. attr_str 64 p ''name'') (kids_of_type root ''pkg'')) else None)
      | _ \<Rightarrow> None)"

definition load_repo_pkg :: "vct_env \<Rightarrow> string \<Rightarrow> repo_pkg option" where
  "load_repo_pkg G name =
     (case rom_at G (gstr 96 (''pkg_'' @ name @ ''.xml'')) 0 of
        Rom_node root \<Rightarrow>
          (if \<not> has_type root ''package'' then None
           else case (kids_of_type root ''name'', kids_of_type root ''version'', kids_of_type root ''description'') of
                  (n # _, v # _, d # _) \<Rightarrow>
                    Some \<lparr>rp_name = gstr 64 (content n), rp_version = gstr 32 (content v),
                          rp_description = gstr 192 (content d)\<rparr>
                | _ \<Rightarrow> None)
      | _ \<Rightarrow> None)"

definition lower :: "char \<Rightarrow> char" where
  "lower c = (if is_upper c then char_of (of_char c - of_char (CHR ''A'') + of_char (CHR ''a'') :: nat) else c)"

text \<open>The two nested loops: some window of the haystack agrees with the needle up to case.\<close>

fun window_matches :: "string \<Rightarrow> string \<Rightarrow> bool" where
  "window_matches h [] \<longleftrightarrow> True"
| "window_matches [] (n # ns) \<longleftrightarrow> False"
| "window_matches (c # h) (n # ns) \<longleftrightarrow> lower c = lower n \<and> window_matches h ns"

definition ci_contains :: "string \<Rightarrow> string \<Rightarrow> bool" where
  "ci_contains h needle =
     (if needle = [] \<or> length h < length needle then needle = []
      else list_ex (\<lambda>i. window_matches (drop i h) needle) [0..<Suc (length h - length needle)])"

definition search_hits :: "vct_env \<Rightarrow> string \<Rightarrow> string list \<Rightarrow> repo_pkg list" where
  "search_hits G needle names =
     filter (\<lambda>p. ci_contains (rp_name p) needle \<or> ci_contains (rp_description p) needle)
       (List.map_filter (load_repo_pkg G) names)"

definition search_json_step :: "repo_pkg \<Rightarrow> bool \<times> string \<Rightarrow> bool \<times> string" where
  "search_json_step p = (\<lambda>(first, buf).
     let w = put_while 768 1;
         buf = (if first then buf else put_if 768 2 '', '' buf);
         buf = put_if 768 2 ''{'' buf;
         buf = w (rp_name p) (w (jq ''`name`:`'') buf);
         buf = w (rp_version p) (w (jq ''`,`version`:`'') buf);
         buf = w (rp_description p) (w (jq ''`,`description`:`'') buf)
     in (False, put_if 768 2 [DQ, CHR ''}''] buf))"

definition search_execute :: "vct_env \<Rightarrow> args \<Rightarrow> outcome" where
  "search_execute G a =
     (let needle = positional a; page = Help_page ''search'' (korean a) in
      if needle = ''--help'' \<or> needle = ''-h'' then (0, [page])
      else if needle = [] then (1, [Warn ''vct: search requires a term'', page])
      else case repo_names G of
        None \<Rightarrow>
          (1, [if json a then line [jq ''{`command`:`search`,`term`:`'', needle,
                 jq ''`,`status`:`error`,`error`:`pkg_index.xml unavailable`}'']
               else Log ''search: pkg_index.xml unavailable (no repository staged)''])
      | Some names \<Rightarrow>
          (let hits = search_hits G needle names;
               head = [jq ''{`command`:`search`,`term`:`'', needle, jq ''`,`status`:`success`,`matches`:''] in
           if hits = [] then (0, [if json a then line (head @ [''[]}'']) else Log ''No matches.''])
           else if json a then
             (0, [line (head @ [gstr 768 (put_if 768 1 '']''
                    (snd (fold search_json_step hits (True, ''['')))), ''}''])])
           else (0, map (\<lambda>p. line [rp_name p, ''  '', rp_version p, ''  '', rp_description p]) hits)))"

section \<open>Version comparison\<close>

text \<open>One installed package: its row or line, and whether the repository carries another version.\<close>

definition update_row :: "string \<Rightarrow> string \<Rightarrow> repo_pkg option \<Rightarrow> string" where
  "update_row name ver r =
     (case r of
        None \<Rightarrow> gstr 256 (concat [jq ''{`name`:`'', name, jq ''`,`status`:`error`,`error`:`repo metadata missing`}''])
      | Some p \<Rightarrow>
          gstr 384 (concat [jq ''{`name`:`'', name, jq ''`,`installed_version`:`'', ver,
            jq ''`,`repo_version`:`'', rp_version p, jq ''`,`status`:`'',
            if ver = rp_version p then ''current'' else jq ''delta`}'']))"

definition update_line :: "string \<Rightarrow> string \<Rightarrow> repo_pkg option \<Rightarrow> vct_out" where
  "update_line name ver r =
     (case r of
        None \<Rightarrow> line [''update: error: '', name, '' - repo metadata missing'']
      | Some p \<Rightarrow>
          (if ver = rp_version p then line [''already current: '', name, '' '', ver]
           else line [''repo carries '', rp_version p, '', installed '', ver, '' '', EM,
                      '' effective after next image build'']))"

definition is_delta :: "string \<Rightarrow> repo_pkg option \<Rightarrow> bool" where
  "is_delta ver r = (case r of None \<Rightarrow> False | Some p \<Rightarrow> ver \<noteq> rp_version p)"

definition installed_rows :: "vct_env \<Rightarrow> string \<Rightarrow> xml \<Rightarrow> (string \<times> string \<times> repo_pkg option) list" where
  "installed_rows G flt root =
     map (\<lambda>p. (attr_str 64 p ''name'', attr_str 32 p ''version'', load_repo_pkg G (attr_str 64 p ''name'')))
       (filter (\<lambda>p. flt = [] \<or> attr_str 64 p ''name'' = gstr 64 flt) (under root ''packages'' ''package''))"

definition update_json_step :: "string \<times> string \<times> repo_pkg option \<Rightarrow> bool \<times> string \<Rightarrow> bool \<times> string" where
  "update_json_step = (\<lambda>(name, ver, r) (first, buf).
     (False, put_while 1024 1 (update_row name ver r) (if first then buf else put_if 1024 2 '', '' buf)))"

definition update_results :: "(string \<times> string \<times> repo_pkg option) list \<Rightarrow> string" where
  "update_results rows = put_if 1024 1 '']'' (snd (fold update_json_step rows (True, ''['')))"

definition update_fail :: "string list \<Rightarrow> string \<Rightarrow> vct_out" where
  "update_fail head e = line (jq ''{`command`:`update`,'' # head @ [jq ''`status`:`error`,`error`:`'', e, jq ''`}''])"

text \<open>The human lines are logged while the document is walked, before the filter is found to miss.\<close>

definition update_execute :: "vct_env \<Rightarrow> args \<Rightarrow> outcome" where
  "update_execute G a =
     (let flt = positional a in
      if flt = ''--help'' \<or> flt = ''-h'' then (0, [Help_page ''update'' (korean a)])
      else
        (let (inst, os) = poll_rom (rom_at G ''installed'') valid_rom 0 20 in
         case inst of
           Rom_invalid \<Rightarrow>
             (1, os @ [if json a then update_fail [] ''installed broadcast unavailable (sponge_pkgd absent)''
                       else Log ''update: installed broadcast unavailable (sponge_pkgd absent)''])
         | Rom_malformed \<Rightarrow>
             (1, os @ [if json a then update_fail [] ''installed broadcast malformed''
                       else Log ''update: installed broadcast malformed''])
         | Rom_node root \<Rightarrow>
             (let rows = installed_rows G flt root;
                  lines = (if json a then [] else map (\<lambda>(n, v, r). update_line n v r) rows) in
              if flt \<noteq> [] \<and> rows = [] then
                (1, os @ [if json a then update_fail [jq ''`package`:`'', flt, jq ''`,'']
                                           ''not installed (use vct list to inspect)''
                          else line [''update: error: '', flt, '' is not installed (use vct list to inspect)'']])
              else
                (0, os @ lines @
                   (if json a then
                      [line [jq ''{`command`:`update`,`status`:`success`,`checked`:'', print_nat G (length rows),
                         jq '',`deltas`:'', print_nat G (length (filter (\<lambda>(n, v, r). is_delta v r) rows)),
                         jq '',`results`:'', gstr 1024 (update_results rows), ''}'']] else [])))))"

section \<open>Bake\<close>

definition bake_text :: "vct_env \<Rightarrow> string \<Rightarrow> nat \<Rightarrow> bool \<Rightarrow> string option" where
  "bake_text G name cap quoted =
     (case text_at G ''bake_manifest'' of None \<Rightarrow> None | Some m \<Rightarrow> find_json_value m name cap quoted)"

definition bake_profile :: "vct_env \<Rightarrow> (string \<times> string) option" where
  "bake_profile G =
     (case (bake_text G ''profile'' 128 True, bake_text G ''profile_config_version'' 16 False) of
        (Some p, Some v) \<Rightarrow> Some (p, v) | _ \<Rightarrow> None)"

definition config_value :: "vct_env \<Rightarrow> string \<Rightarrow> string \<Rightarrow> string" where
  "config_value G name dflt = (case read_config_key G name of None \<Rightarrow> dflt | Some v \<Rightarrow> v)"

text \<open>The defaults file, line by line: the pairs the loop calls its argument with.\<close>

definition default_pair :: "string \<Rightarrow> (string \<times> string) option" where
  "default_pair raw =
     (let l = trim blank raw in
      if l = [] \<or> hd l = CHR ''#'' \<or> CHR ''='' \<notin> set l then None
      else
        let key = rev (dropWhile tab_or_space (rev (takeWhile (\<lambda>c. c \<noteq> CHR ''='') l)));
            v = dropWhile tab_or_space (tl (dropWhile (\<lambda>c. c \<noteq> CHR ''='') l))
        in if key = [] \<or> 128 \<le> length key \<or> 128 \<le> length v then None else Some (cstr key, cstr v))"

function default_pairs :: "string \<Rightarrow> (string \<times> string) list" where
  "default_pairs buf =
     (if buf = [] \<or> hd buf = NUL then []
      else let l = takeWhile (\<lambda>c. c \<noteq> NL) buf;
               rest = default_pairs (drop (Suc (length l)) buf)
           in case default_pair l of None \<Rightarrow> rest | Some kv \<Rightarrow> kv # rest)"
  by pat_completeness auto
termination
  by (relation "measure length") auto

declare default_pairs.simps [simp del]

definition profile_selected :: "args \<Rightarrow> string \<Rightarrow> bool" where
  "profile_selected a p \<longleftrightarrow> profile a = [] \<or> profile a = gstr 32 p"

definition not_on_media :: "args \<Rightarrow> vct_out" where
  "not_on_media a = line [''Profile '', [SQ], profile a, [SQ], '' is not present on this media.'']"

definition bake_list :: "vct_env \<Rightarrow> args \<Rightarrow> outcome" where
  "bake_list G a =
     (let head = jq ''{`command`:`bake`,`op`:`list`,`status`:`success`,`profiles`:['' in
      case bake_profile G of
        None \<Rightarrow> (0, [if json a then line [head, '']}'']
                     else if korean a then Help_page ''no bake manifest'' True
                     else Log ''No bake manifest on this media.''])
      | Some (p, v) \<Rightarrow>
          (if \<not> profile_selected a p then
             (0, [if json a then line [head, '']}''] else not_on_media a])
           else
             (0, [if json a then line [head, jq ''{`name`:`'', p, jq ''`,`version`:'', v, ''}]}'']
                  else if korean a then Help_page (concat [''bake list '', p, '' @ v'', v]) True
                  else line [''Bake profile on this media: '', p, '' @ v'', v]])))"

definition bake_row_json :: "vct_env \<Rightarrow> string \<times> string \<Rightarrow> bool \<times> string \<Rightarrow> bool \<times> string" where
  "bake_row_json G = (\<lambda>(key, v) (first, buf).
     (False, fold (put_while 2048 1)
        [jq ''{`key`:`'', key, jq ''`,`baked`:`'', v, jq ''`,`current`:`'', config_value G key [], jq ''`}'']
        (if first then buf else put_while 2048 1 '','' buf)))"

definition bake_rows :: "vct_env \<Rightarrow> string \<Rightarrow> (string \<times> string) list" where
  "bake_rows G defaults =
     default_pairs defaults
     @ (case bake_text G ''theme'' 128 True of None \<Rightarrow> [] | Some t \<Rightarrow> [(''theme.active'', t)])"

definition bake_show :: "vct_env \<Rightarrow> args \<Rightarrow> outcome" where
  "bake_show G a =
     (case (bake_profile G, text_at G ''bake_config_defaults'') of
        (Some (p, v), Some defaults) \<Rightarrow>
          (if \<not> profile_selected a p then (1, [not_on_media a])
           else
             (let profile = config_value G ''bake.profile'' ''none'';
                  version = config_value G ''bake.version'' ''0'';
                  applied = config_value G ''bake.applied'' ''no'' in
              if json a then
                (0, [line [jq ''{`command`:`bake`,`op`:`show`,`status`:`success`,`profile`:`'', profile,
                       jq ''`,`version`:'', version, jq '',`applied`:`'', applied, jq ''`,`defaults`:['',
                       gstr 2048 (snd (fold (bake_row_json G) (bake_rows G defaults) (True, []))), '']}'']])
              else
                (0, [if korean a then Help_page (concat [''bake show '', profile, '' @ v'', version, '' '', applied]) True
                     else line [''Bake state: '', profile, '' @ v'', version, '' (applied: '', applied, '')''],
                     Log ''KEY  BAKED  CURRENT'']
                    @ map (\<lambda>(k, b). line [k, ''  '', b, ''  '', config_value G k ''(unavailable)''])
                        (bake_rows G defaults))))
      | _ \<Rightarrow>
          (1, [if json a then Log (jq ''{`command`:`bake`,`op`:`show`,`status`:`error`,`error`:`no bake manifest on this media`}'')
               else Log ''No bake manifest on this media.'']))"

definition bake_reset :: "vct_env \<Rightarrow> args \<Rightarrow> outcome" where
  "bake_reset G a =
     (let fail = (\<lambda>e. line [jq ''{`command`:`bake`,`op`:`reset`,`status`:`error`,`error`:`'', e, jq ''`}'']) in
      case bake_profile G of
        None \<Rightarrow> (1, [if json a then fail ''no bake manifest on this media''
                     else Log ''No bake manifest on this media.''])
      | Some (p, v) \<Rightarrow>
          (if \<not> profile_selected a p then (1, [not_on_media a])
           else
             (let steps = (if \<not> manual a then []
                else if korean a then [Help_page ''bake reset steps'' True]
                else [Log ''1/3 Read current bake state'',
                      Log ''2/3 Ask configd to re-apply the media defaults'',
                      Log ''3/3 Persist and broadcast the baked keys'']);
                  (rc, os) = with_answer (config_set G ''bake.applied'' ''no'')
                    (1, [if json a then fail (does_not_answer ''sponge_configd'')
                         else Warn ''vct: sponge_configd did not answer bake reset''])
                    (\<lambda>x. if status_of x \<noteq> ''ok'' then
                           (let e = (case attr x ''error'' of None \<Rightarrow> ''reset rejected'' | Some e \<Rightarrow> gstr 256 e)
                            in (1, [if json a then fail e else line [''bake reset: error: '', e]]))
                         else
                           (0, [if json a then line [jq ''{`command`:`bake`,`op`:`reset`,`status`:`success`,`profile`:`'',
                                                     p, jq ''`,`version`:'', v, ''}'']
                                else if korean a then Help_page (concat [''bake reset '', p, '' @ v'', v]) True
                                else line [''Re-applied baked defaults: '', p, '' @ v'', v]]))
              in (rc, steps @ os))))"

definition bake_execute :: "vct_env \<Rightarrow> args \<Rightarrow> outcome" where
  "bake_execute G a =
     (let page = Help_page ''bake'' (korean a) in
      if help_flag a \<or> positional a = [] then (0, [page])
      else if positional a = ''list'' then bake_list G a
      else if positional a = ''show'' then bake_show G a
      else if positional a = ''reset'' then bake_reset G a
      else (1, [unknown_word ''bake subcommand'' (positional a) ''list, show, or reset'', page]))"

section \<open>The program\<close>

fun execute :: "vct_env \<Rightarrow> args \<Rightarrow> command \<Rightarrow> outcome" where
  "execute G a StatusCommand = status_execute G a"
| "execute G a HelpCommand = help_execute a"
| "execute G a VersionCommand = version_execute a"
| "execute G a ComponentListCommand = component_list_execute G a"
| "execute G a (InstallCommand nf) = install_execute G nf a"
| "execute G a (RemoveCommand nf) = remove_execute G nf a"
| "execute G a LaunchCommand = launch_execute G a"
| "execute G a (PowerCommand nf) = power_execute G nf a"
| "execute G a SearchCommand = search_execute G a"
| "execute G a UpdateCommand = update_execute G a"
| "execute G a ListCommand = list_execute G a"
| "execute G a ConfigCommand = config_execute G a"
| "execute G a BakeCommand = bake_execute G a"
| "execute G a ThemeCommand = theme_execute G a"
| "execute G a LeitzentraleCommand = leitzentrale_execute G a"

text \<open>\<open>Main::run\<close>: the exit code and the outputs of one invocation with the given configuration ROM.\<close>

definition vct_run :: "vct_env \<Rightarrow> string \<Rightarrow> outcome" where
  "vct_run G config =
     (let a = parse_args (genode.truncate G) config;
          (rc, os) = execute G a (vct_dispatch True a);
          yn = (\<lambda>b. if b then ''1'' else ''0'')
      in (rc,
          [line [''vct ('', VERSION_STRING, '' / '', CODENAME, '') starting'']]
          @ (if verbose a then
               [line [''vct: subcommand='', [SQ], subcommand a, [SQ], '' positional='', [SQ], positional a, [SQ],
                      '' explain='', yn (explain a), '' manual='', yn (manual a), '' json='', yn (json a)]]
             else [])
          @ os))"

end
