(* ===== verification/Vct_Props.thy ===== *)
theory Vct_Props
  imports Vct_System Configd_Props Pkgd_Props
begin

text \<open>
  What the command-line tool does with the answers of the daemons: which answers it recognises (the
  interface of requests and results, interpreted for both daemons), what its exit code says, and the
  places where its output or its reading of the invocation goes wrong.
\<close>

section \<open>Requests and results\<close>

text \<open>
  The client reports a request and polls the result channel; the daemon reacts to the request and
  writes its answer there. The law: an answer to a valid request is one the client accepts.
\<close>

locale result_channel =
  fixes accepts :: "'q \<Rightarrow> xml \<Rightarrow> bool"
    and reply :: "'q \<Rightarrow> 's \<Rightarrow> xml option"
    and valid :: "'q \<Rightarrow> 's \<Rightarrow> bool"
  assumes reply_accepted: "valid q s \<Longrightarrow> reply q s = Some x \<Longrightarrow> accepts q x"
begin

text \<open>An answer that shows up within the polls, with nothing acceptable before it, is what the client gets.\<close>

lemma served:
  assumes "valid q s" and "reply q s = Some x" and "k < n" and "roms k = Rom_node x"
    and "\<forall>i < k. \<forall>y. roms i = Rom_node y \<longrightarrow> \<not> accepts q y"
  shows "fst (poll_from roms (accepts q) 0 n) = Some x"
proof -
  let ?P = "\<lambda>i. case roms i of Rom_node y \<Rightarrow> accepts q y | _ \<Rightarrow> False"
  have "?P k" using reply_accepted [OF assms(1,2)] assms(4) by simp
  moreover have "\<forall>j < k. \<not> ?P j" using assms(5) by (auto split: rom.split)
  ultimately have "find ?P [0..<n] = Some k" using assms(3) by (auto simp: find_Some_iff)
  then show ?thesis using assms(4) by (simp add: poll_from_result)
qed

end

subsection \<open>The configuration daemon\<close>

type_synonym config_query = "string \<times> string \<times> string"

definition cfg_reply :: "genode \<Rightarrow> save_io \<Rightarrow> bake_roms \<Rightarrow> config_query \<Rightarrow> cfgd \<Rightarrow> xml option" where
  "cfg_reply G io roms = (\<lambda>(op, key, v) s.
     (let t = dispatch G op (gstr 128 key) (gstr 128 v) io roms s
      in if cfg_blocked t then None
         else case rev (cfg_out t) of Result ch x # _ \<Rightarrow> Some x | _ \<Rightarrow> None))"

definition cfg_accepts :: "config_query \<Rightarrow> xml \<Rightarrow> bool" where
  "cfg_accepts = (\<lambda>(op, key, v). config_match op key (if op = ''set'' then Some v else None))"

definition cfg_query :: "config_query \<Rightarrow> cfgd \<Rightarrow> bool" where
  "cfg_query = (\<lambda>(op, key, v) s. op \<in> {''get'', ''set'', ''list''})"

text \<open>What a handler leaves behind: it waits, or its last output is a result with the property.\<close>

definition ends_with :: "(xml \<Rightarrow> bool) \<Rightarrow> cfgd \<Rightarrow> bool" where
  "ends_with P t \<longleftrightarrow> cfg_blocked t \<or> (\<exists>out ch x. cfg_out t = out @ [Result ch x] \<and> P x)"

lemma ends_report: "P (node ''result'' as ks) \<Longrightarrow> ends_with P (report as ks s)"
  by (auto simp: ends_with_def report_def cfg_emit_def)

lemma ends_error:
  "ends_with (config_match op key v) (report_error op (gstr 128 key) why s)"
  unfolding report_error_def by (rule ends_report) (simp add: config_match_def attr_str_def split: option.split)

lemma ends_publish:
  "ends_with (config_match ''set'' key (Some v)) (publish_set (gstr 128 key) (gstr 128 v) io s)"
proof -
  have "ends_with (config_match ''set'' key (Some v)) (report_set_ok (gstr 128 key) (gstr 128 v) t)" for t
    unfolding report_set_ok_def by (rule ends_report) (simp add: config_match_def attr_str_def)
  then show ?thesis by (simp add: publish_set_def unless_blocked_def ends_with_def)
qed

lemma ends_if: "ends_with P s \<Longrightarrow> ends_with P t \<Longrightarrow> ends_with P (if c then s else t)"
  by simp

lemma ends_write_slot:
  "ends_with (config_match ''set'' key (Some v)) (write_slot G (gstr 128 key) (gstr 128 v) i io s)"
proof -
  let ?d = "if i < length (instantiated s) then instantiated s ! i else registry ! i"
  show ?thesis
    unfolding write_slot_def Let_def
    by (cases "value_valid G ?d (gstr 128 v)") (simp_all only: option.case ends_error ends_publish)
qed

lemma ends_set: "ends_with (config_match ''set'' key (Some v)) (do_set G (gstr 128 key) (gstr 128 v) io roms s)"
proof -
  obtain b s1 where e1: "apply_bake_defaults G roms s = (b, s1)" by fastforce
  obtain r s2 where e2: "resolve_slot G (gstr 128 key) s = (r, s2)" by fastforce
  have 1: "ends_with (config_match ''set'' key (Some v))
      (case (b, s1) of
         (False, s) \<Rightarrow> report_error ''set'' (gstr 128 key) ''baked defaults are unavailable'' s
       | (True, s) \<Rightarrow> publish_set (gstr 128 key) (gstr 128 v) io s)"
    by (cases b) (simp_all only: prod.case bool.case ends_error ends_publish)
  have 2: "ends_with (config_match ''set'' key (Some v))
      (case (r, s2) of
         (Inl why, s) \<Rightarrow> report_error ''set'' (gstr 128 key)
             (if why \<noteq> [] then why else unknown_key_msg s (gstr 128 key)) s
       | (Inr i, s) \<Rightarrow> write_slot G (gstr 128 key) (gstr 128 v) i io s)"
    by (cases r) (simp_all only: prod.case sum.case ends_error ends_write_slot)
  show ?thesis unfolding do_set_def e1 e2 by (intro ends_if 1 2 ends_error)
qed

lemma ends_get: "ends_with (config_match ''get'' key None) (do_get (gstr 128 key) s)"
proof -
  have "ends_with (config_match ''get'' key None) (report_get_ok (gstr 128 key) v s)" for v
    unfolding report_get_ok_def by (rule ends_report) (simp add: config_match_def attr_str_def)
  then show ?thesis by (auto simp: do_get_def split: option.split intro: ends_error)
qed

lemma ends_list: "ends_with (config_match ''list'' key None) (do_list G s)"
  unfolding do_list_def report_list_ok_def by (rule ends_report) (simp add: config_match_def attr_str_def)

lemma ends_dispatch:
  assumes "op \<in> {''get'', ''set'', ''list''}"
  shows "ends_with (cfg_accepts (op, key, v)) (dispatch G op (gstr 128 key) (gstr 128 v) io roms s)"
proof -
  have err: "ends_with (config_match op key w) (report_error op [] why s)" if "gstr 128 key = []" for why w
    using ends_error [of op key w why s] that by simp
  show ?thesis
    using assms ends_set [of key v G io roms s] ends_get [of key s] ends_list [of key G s] err
    by (auto simp: dispatch_def cfg_accepts_def)
qed

interpretation config_channel: result_channel cfg_accepts "cfg_reply G io roms" cfg_query for G io roms
proof unfold_locales
  fix q s x
  assume valid: "cfg_query q s" and reply: "cfg_reply G io roms q s = Some x"
  obtain op key v where q: "q = (op, key, v)" by (cases q) auto
  let ?t = "dispatch G op (gstr 128 key) (gstr 128 v) io roms s"
  have "ends_with (cfg_accepts q) ?t" using valid unfolding q by (intro ends_dispatch) (simp add: cfg_query_def)
  moreover have "\<not> cfg_blocked ?t" "\<exists>ch out. cfg_out ?t = out @ [Result ch x]"
    using reply unfolding q
    by (auto simp: cfg_reply_def Let_def split: if_splits list.splits cfg_out.splits)
  ultimately show "cfg_accepts q x" by (auto simp: ends_with_def)
qed

text \<open>
  C5: a configuration request is served end to end. When the daemon answers what \<open>vct config <key> <value>\<close>
  reports, and the answer shows up among the sixty polls with nothing acceptable before it, the tool
  exits with 0 exactly when the daemon's answer says \<open>ok\<close>, in both output formats.
\<close>

theorem config_set_end_to_end:
  assumes "positional a = key" and "positional2 a = v" and "key \<noteq> ''list''" and "key \<noteq> []" and "v \<noteq> []"
    and "cfg_reply G io roms (''set'', key, v) s = Some x"
    and "k < 60" and "answers V 0 k = Rom_node x"
    and "\<forall>i < k. \<forall>y. answers V 0 i = Rom_node y \<longrightarrow> \<not> config_match ''set'' key (Some v) y"
  shows "fst (config_execute V a) = (if status_of x = ''ok'' then 0 else 1)"
proof -
  have "fst (poll_from (answers V 0) (cfg_accepts (''set'', key, v)) 0 60) = Some x"
    using assms(6-9)
    by (intro config_channel.served) (auto simp: cfg_query_def cfg_accepts_def)
  then have "fst (config_set V key v) = Some x"
    by (simp add: config_set_def send_and_poll_def cfg_accepts_def case_prod_beta)
  then show ?thesis
    using assms(1-5)
    by (auto simp: config_execute_def with_answer_def Let_def case_prod_beta render_set_json_def
        render_set_human_def error_line_def)
qed

definition demo_vct :: "(nat \<Rightarrow> nat \<Rightarrow> rom) \<Rightarrow> vct_env" where
  "demo_vct ans = \<lparr>key_known = \<lambda>k. False, parse_xml = \<lambda>s. None, parse_hid = \<lambda>s. Raw s,
     to_u32 = \<lambda>s. None, to_bool = \<lambda>s. None, ser_config = \<lambda>x. None, print_nat = \<lambda>n. [],
     report_fits = \<lambda>b n. True, print_bytes = \<lambda>n. [], num_bytes = \<lambda>s. 0, state_rom = None,
     rom_at = \<lambda>l k. Rom_invalid, text_at = \<lambda>l. None, answers = ans, post_clock = 0, post_ok = True\<rparr>"

definition refused_set :: xml where
  "refused_set = node ''result'' [(''status'', ''error''), (''op'', ''set''), (''key'', ''bake.version''),
     (''error'', ''bake metadata is read-only (use bake.applied=no to reset)'')] []"

theorem config_set_end_to_end_witness:
  "fst (config_execute (demo_vct (\<lambda>r k. if k = 2 then Rom_node refused_set else Rom_invalid))
          (default_args\<lparr>positional := ''bake.version'', positional2 := ''7''\<rparr>)) = 1"
proof -
  let ?a = "default_args\<lparr>positional := ''bake.version'', positional2 := ''7''\<rparr>"
  let ?V = "demo_vct (\<lambda>r k. if k = 2 then Rom_node refused_set else Rom_invalid)"
  have r: "cfg_reply bare_genode (ce_save quiet_env) None (''set'', ''bake.version'', ''7'') cfg_init = Some refused_set"
    by (simp add: cfg_reply_def Let_def dispatch_def do_set_def report_error_def report_def cfg_emit_def
        refused_set_def cfg_init_def)
  have a: "positional ?a = ''bake.version''" "positional2 ?a = ''7''" by simp_all
  have "fst (config_execute ?V ?a) = (if status_of refused_set = ''ok'' then 0 else 1)"
    by (rule config_set_end_to_end [OF a _ _ _ r, of 2]) (simp_all add: demo_vct_def)
  then show ?thesis by (simp add: refused_set_def status_of_def attr_str_def)
qed

subsection \<open>The package daemon\<close>

definition pk_reply :: "genode \<Rightarrow> pk_io \<Rightarrow> string \<times> string \<Rightarrow> pkgd \<Rightarrow> xml option" where
  "pk_reply G io = (\<lambda>(op, pkg) s.
     (let t = pkg_dispatch G io op (gstr 128 pkg) s
      in if pk_blocked t then None
         else case rev (pk_out t) of Answer ch x # _ \<Rightarrow> Some x | _ \<Rightarrow> None))"

definition pk_accepts :: "string \<times> string \<Rightarrow> xml \<Rightarrow> bool" where
  "pk_accepts = (\<lambda>(op, pkg). pkg_match op pkg)"

text \<open>
  A refusal for lack of resources names the package that does not fit, which need not be the one that
  was asked for.
\<close>

definition refuses_other :: "genode \<Rightarrow> pk_io \<Rightarrow> string \<Rightarrow> pkgd \<Rightarrow> bool" where
  "refuses_other G io pkg s \<longleftrightarrow>
     (\<exists>p r. install_refusal G io (gstr 128 pkg) (resolve_in G (gstr 128 pkg) s) = Some (p, r) \<and> p \<noteq> gstr 128 pkg)"

definition pk_query :: "genode \<Rightarrow> pk_io \<Rightarrow> string \<times> string \<Rightarrow> pkgd \<Rightarrow> bool" where
  "pk_query G io = (\<lambda>(op, pkg) s. op \<in> {''explain'', ''install'', ''remove'', ''launch'', ''list''}
     \<and> (op = ''install'' \<longrightarrow> \<not> refuses_other G io pkg s))"

definition pk_ends_with :: "(xml \<Rightarrow> bool) \<Rightarrow> pkgd \<Rightarrow> bool" where
  "pk_ends_with P t \<longleftrightarrow> pk_blocked t \<or> (\<exists>out ch x. pk_out t = out @ [Answer ch x] \<and> P x)"

lemma pk_ends_answer: "P (node ''result'' as ks) \<Longrightarrow> pk_ends_with P (answer as ks s)"
  by (auto simp: pk_ends_with_def answer_def pk_emit_def)

lemma pk_ends_stuck: "(\<And>s. pk_ends_with P (f s)) \<Longrightarrow> pk_ends_with P (unless_stuck f s)"
  by (auto simp: unless_stuck_def pk_ends_with_def)

lemma pk_match_intro:
  "attr_str 32 (node ''result'' as ks) ''op'' = gstr 32 op
    \<Longrightarrow> attr_str 128 (node ''result'' as ks) ''pkg'' = gstr 128 pkg
    \<Longrightarrow> attr (node ''result'' as ks) ''status'' \<noteq> None \<Longrightarrow> pkg_match op pkg (node ''result'' as ks)"
  by (simp add: pkg_match_def)

lemma pk_ends_reports:
  "pk_ends_with (pkg_match op pkg) (pkg_report_error op (gstr 128 pkg) msg s)"
  "pk_ends_with (pkg_match ''explain'' pkg) (report_ok G (gstr 128 pkg) s)"
  "pk_ends_with (pkg_match ''install'' pkg) (report_install_ok (gstr 128 pkg) root added s)"
  "pk_ends_with (pkg_match ''remove'' pkg) (report_remove_ok (gstr 128 pkg) removed s)"
  "pk_ends_with (pkg_match ''launch'' pkg) (report_launch_ok (gstr 128 pkg) outcome s)"
  "pk_ends_with (pkg_match op pkg) (report_insufficient G op (gstr 128 pkg) a b c d s)"
  "pk_ends_with (pkg_match op pkg) (report_conflict op (gstr 128 pkg) peer grp s)"
  "pk_ends_with (pkg_match ''list'' pkg) (pkg_report_list_ok G s)"
  unfolding pkg_report_error_def report_ok_def report_install_ok_def report_remove_ok_def
    report_launch_ok_def report_insufficient_def report_conflict_def pkg_report_list_ok_def Let_def
  by (rule pk_ends_answer; simp add: pkg_match_def attr_str_def)+

lemma pk_ends_install:
  "\<not> refuses_other G io pkg s \<Longrightarrow> pk_ends_with (pkg_match ''install'' pkg) (do_install G io (gstr 128 pkg) s)"
  unfolding do_install_def Let_def refuses_other_def
  by (auto split: option.split prod.split intro!: pk_ends_stuck pk_ends_reports)

lemma pk_ends_launch: "pk_ends_with (pkg_match ''launch'' pkg) (do_launch G io (gstr 128 pkg) s)"
  unfolding do_launch_def start_package_def Let_def
  by (auto split: option.split prod.split bool.split intro!: pk_ends_reports)

lemma pk_ends_remove: "pk_ends_with (pkg_match ''remove'' pkg) (do_remove G io (gstr 128 pkg) s)"
  unfolding do_remove_def Let_def by (auto intro!: pk_ends_stuck pk_ends_reports)

lemma pk_ends_explain: "pk_ends_with (pkg_match ''explain'' pkg) (do_explain G (gstr 128 pkg) s)"
  unfolding do_explain_def Let_def by (auto intro!: pk_ends_reports)

lemma pk_ends_dispatch:
  assumes "pk_query G io (op, pkg) s"
  shows "pk_ends_with (pkg_match op pkg) (pkg_dispatch G io op (gstr 128 pkg) s)"
proof -
  have err: "pk_ends_with (pkg_match op pkg) (pkg_report_error op [] why s)" if "gstr 128 pkg = []" for why
    using pk_ends_reports(1) [of op pkg why s] that by simp
  show ?thesis
    using assms err pk_ends_install pk_ends_launch pk_ends_remove pk_ends_explain pk_ends_reports(8)
    by (auto simp: pkg_dispatch_def pk_query_def pkg_do_list_def)
qed

interpretation package_channel: result_channel pk_accepts "pk_reply G io" "pk_query G io" for G io
proof unfold_locales
  fix q s x
  assume valid: "pk_query G io q s" and reply: "pk_reply G io q s = Some x"
  obtain op pkg where q: "q = (op, pkg)" by (cases q) auto
  let ?t = "pkg_dispatch G io op (gstr 128 pkg) s"
  have "pk_ends_with (pk_accepts q) ?t"
    using pk_ends_dispatch valid unfolding q by (simp add: pk_accepts_def)
  moreover have "\<not> pk_blocked ?t" "\<exists>ch out. pk_out ?t = out @ [Answer ch x]"
    using reply unfolding q
    by (auto simp: pk_reply_def Let_def split: if_splits list.splits pk_out.splits)
  ultimately show "pk_accepts q x" by (auto simp: pk_ends_with_def)
qed

lemma exit_with_answer:
  "fst (with_answer r none f) = (case fst r of None \<Rightarrow> fst none | Some x \<Rightarrow> fst (f x))"
  by (auto simp: with_answer_def case_prod_beta split: option.split)

lemma exit_install:
  "fst (render_install_json x) = (if status_of x = ''ok'' then 0 else 1)"
  "fst (render_install_human V nf x) = (if status_of x = ''ok'' then 0 else 1)"
  by (simp_all add: render_install_json_def render_install_human_def Let_def error_line_def)

lemma poll_from_nothing:
  "\<forall>i y. k \<le> i \<longrightarrow> i < k + n \<longrightarrow> roms i = Rom_node y \<longrightarrow> \<not> ok y \<Longrightarrow> fst (poll_from roms ok k n) = None"
proof (induction n arbitrary: k)
  case (Suc n)
  have "fst (poll_from roms ok (Suc k) n) = None" by (rule Suc.IH) (intro allI impI, rule Suc.prems [rule_format], simp_all)
  moreover have "\<not> ok y" if "roms k = Rom_node y" for y using Suc.prems [rule_format, of k y] that by simp
  ultimately show ?case by (auto simp: case_prod_beta split: rom.split)
qed simp

text \<open>
  C26: a package request is served end to end. Take \<open>vct install <pkg>\<close> without the options \<open>--manual\<close>
  and \<open>--explain\<close>. If the answer of the daemon is the first acceptable one among the sixty polls, the
  tool exits with 0 exactly when that answer says \<open>ok\<close>; the daemon must not refuse for another package
  of the plan. If no poll shows an acceptable answer, the tool exits with 1, whatever the daemon did: an
  answer that comes too late is reported as a failure.
\<close>

theorem install_end_to_end:
  assumes "positional a = pkg" and "pkg \<noteq> []" and "\<not> manual a" and "\<not> explain a"
  shows "(\<forall>x k. \<not> refuses_other G io pkg s \<longrightarrow> pk_reply G io (''install'', pkg) s = Some x
      \<longrightarrow> k < 60 \<longrightarrow> answers V 0 k = Rom_node x
      \<longrightarrow> (\<forall>i < k. \<forall>y. answers V 0 i = Rom_node y \<longrightarrow> \<not> pkg_match ''install'' pkg y)
      \<longrightarrow> fst (install_execute V nf a) = (if status_of x = ''ok'' then 0 else 1))
    \<and> ((\<forall>i < 60. \<forall>y. answers V 0 i = Rom_node y \<longrightarrow> \<not> pkg_match ''install'' pkg y)
      \<longrightarrow> fst (install_execute V nf a) = 1)"
proof (intro conjI allI impI)
  fix x k
  assume h: "\<not> refuses_other G io pkg s" "pk_reply G io (''install'', pkg) s = Some x" "k < 60" "answers V 0 k = Rom_node x"
    "\<forall>i < k. \<forall>y. answers V 0 i = Rom_node y \<longrightarrow> \<not> pkg_match ''install'' pkg y"
  have "fst (poll_from (answers V 0) (pk_accepts (''install'', pkg)) 0 60) = Some x"
    using h by (intro package_channel.served) (auto simp: pk_query_def pk_accepts_def)
  then have "fst (pkg_request V 0 ''install'' pkg) = Some x"
    by (simp add: pkg_request_def send_and_poll_def pk_accepts_def case_prod_beta)
  then show "fst (install_execute V nf a) = (if status_of x = ''ok'' then 0 else 1)"
    using assms by (simp add: install_execute_def Let_def exit_with_answer exit_install)
next
  assume none: "\<forall>i < 60. \<forall>y. answers V 0 i = Rom_node y \<longrightarrow> \<not> pkg_match ''install'' pkg y"
  have "fst (poll_from (answers V 0) (pkg_match ''install'' pkg) 0 60) = None"
    by (rule poll_from_nothing) (use none in simp)
  then have "fst (pkg_request V 0 ''install'' pkg) = None"
    by (simp add: pkg_request_def send_and_poll_def case_prod_beta)
  then show "fst (install_execute V nf a) = 1"
    using assms by (simp add: install_execute_def Let_def exit_with_answer no_answer_def)
qed

definition empty_pkgd :: pkgd where
  "empty_pkgd = (pkgd_init demo_meta)\<lparr>repo := demo_repo\<rparr>"

theorem install_end_to_end_witness:
  "\<exists>x. pk_reply demo_genode demo_io (''install'', ''fba'') empty_pkgd = Some x
     \<and> fst (install_execute (demo_vct (\<lambda>r k. if k = 7 then Rom_node x else Rom_invalid)) False (default_args\<lparr>positional := ''fba''\<rparr>)) = 0
     \<and> fst (install_execute (demo_vct (\<lambda>r k. if k = 60 then Rom_node x else Rom_invalid)) False (default_args\<lparr>positional := ''fba''\<rparr>)) = 1"
proof -
  let ?s = "resolve_in demo_genode ''fba'' empty_pkgd"
  have res: "resolvable demo_genode demo_repo ''fba''"
    using demo_acyclic by (auto simp: resolvable_def demo_needs demo_metadata)
  then have rok: "rok (rsv ?s)"
    using resolve_rok [OF demo_repo_wf, of demo_genode "names empty_pkgd" "''fba''"]
    by (auto simp: resolve_in_def Let_def empty_pkgd_def)
  have off: "\<not> app_armed ?s" "\<not> driver_armed ?s" "\<not> pk_blocked ?s" "\<not> pk_store ?s"
    by (simp_all add: resolve_in_def Let_def empty_pkgd_def pkgd_init_def)
  have adm: "install_refusal demo_genode demo_io ''fba'' ?s = None" using off by (simp add: install_refusal_def)
  have other: "\<not> refuses_other demo_genode demo_io ''fba'' empty_pkgd" using adm by (simp add: refuses_other_def gstr_def)
  let ?r = "rederive demo_genode (add_root ''fba'' ?s)"
  have "\<not> pk_blocked ?r" "\<not> pk_store ?r" using off by (simp_all add: rederive_frame add_root_def)
  then have sv: "save_roots (rq_save demo_io) ?r = ?r" "\<not> pk_blocked ?r" by (simp_all add: save_roots_def)
  let ?t = "do_install demo_genode demo_io ''fba'' empty_pkgd"
  obtain p added u where t: "?t = report_install_ok ''fba'' p added u"
    using rok adm sv by (auto simp: do_install_def Let_def unless_stuck_def)
  obtain as ks out ch where o: "pk_out ?t = out @ [Answer ch (node ''result'' ((''status'', ''ok'') # as) ks)]"
    unfolding t by (auto simp: report_install_ok_def answer_def pk_emit_def pkg_cache_items_def record_answer_def)
  have "repo_wf (repo empty_pkgd)" "resolvable demo_genode (repo empty_pkgd) ''fba''"
    using demo_repo_wf res by (simp_all add: empty_pkgd_def)
  then have "\<not> pk_blocked ?t" using do_install_sets(5) [of demo_genode empty_pkgd "''fba''" demo_io] adm sv by simp
  moreover have "pkg_dispatch demo_genode demo_io ''install'' (gstr 128 ''fba'') empty_pkgd = ?t"
    by (simp add: pkg_dispatch_def gstr_def)
  ultimately have x: "pk_reply demo_genode demo_io (''install'', ''fba'') empty_pkgd = Some (node ''result'' ((''status'', ''ok'') # as) ks)"
    by (simp only: pk_reply_def prod.case Let_def o) simp
  let ?x = "node ''result'' ((''status'', ''ok'') # as) ks"
  have ok: "status_of ?x = ''ok''" by (simp add: status_of_def attr_str_def)
  have a: "positional (default_args\<lparr>positional := ''fba''\<rparr>) = ''fba''" "''fba'' \<noteq> []" "\<not> manual (default_args\<lparr>positional := ''fba''\<rparr>)"
    "\<not> explain (default_args\<lparr>positional := ''fba''\<rparr>)" by (simp_all add: default_args_def)
  note e = install_end_to_end [OF a, where G = demo_genode and io = demo_io and s = empty_pkgd and nf = False]
  have "fst (install_execute (demo_vct (\<lambda>r k. if k = 7 then Rom_node ?x else Rom_invalid)) False (default_args\<lparr>positional := ''fba''\<rparr>)) = 0"
    using conjunct1 [OF e [where V = "demo_vct (\<lambda>r k. if k = 7 then Rom_node ?x else Rom_invalid)"],
        THEN spec, of ?x, THEN spec, of 7] other x ok by (simp add: demo_vct_def)
  moreover have "fst (install_execute (demo_vct (\<lambda>r k. if k = 60 then Rom_node ?x else Rom_invalid)) False (default_args\<lparr>positional := ''fba''\<rparr>)) = 1"
    using conjunct2 [OF e [where V = "demo_vct (\<lambda>r k. if k = 60 then Rom_node ?x else Rom_invalid)"]] by (simp add: demo_vct_def)
  ultimately show ?thesis using x by blast
qed

text \<open>
  The exception. An install that is refused because another package of its plan does not fit is
  answered under that package's name, so the predicate by which \<open>vct\<close> recognises the answer to its
  request does not accept it.
\<close>

theorem refusal_of_other_unrecognised:
  assumes "refuses_other G io pkg s" and "rok (rsv (resolve_in G (gstr 128 pkg) s))" and "gstr 128 pkg \<noteq> []"
    and "install_refusal G io (gstr 128 pkg) (resolve_in G (gstr 128 pkg) s) = Some (p, r)" and "length p < 128"
    and "pk_reply G io (''install'', pkg) s = Some x"
  shows "\<not> pkg_match ''install'' pkg x"
proof -
  obtain nr ar nc ac where r: "r = (nr, ar, nc, ac)" by (cases r) auto
  let ?s = "resolve_in G (gstr 128 pkg) s"
  have p: "p \<noteq> gstr 128 pkg" using assms(1,4) by (auto simp: refuses_other_def)
  have d: "pkg_dispatch G io ''install'' (gstr 128 pkg) s = report_insufficient G ''install'' p nr ar nc ac ?s"
    using assms(2-4) r by (simp add: pkg_dispatch_def do_install_def Let_def)
  have "attr_str 128 x ''pkg'' = p"
    using assms(5,6) by (auto simp: pk_reply_def d Let_def report_insufficient_def answer_def pk_emit_def
        attr_str_def split: if_splits)
  then show ?thesis using p by (simp add: pkg_match_def)
qed

text \<open>An application whose service starts with it, and a sandbox without room for the service.\<close>

definition svc_meta :: "string \<Rightarrow> rom" where
  "svc_meta l =
     (if l = ''pkg_app.xml'' then demo_meta_doc ''app'' [''svc''] []
      else if l = ''pkg_svc.xml'' then demo_meta_doc ''svc'' [] [leaf ''autostart'' []]
      else Rom_invalid)"

definition svc_repo :: repo where
  "svc_repo = \<lparr>known = [''app'', ''svc''], index_loaded = True, binary_prefix = [], meta_rom = svc_meta\<rparr>"

definition svc_genode :: genode where
  "svc_genode = demo_genode\<lparr>parse_hid := \<lambda>t. node ''state'' []
     [leaf ''ram'' [(''avail'', ''1K'')], leaf ''caps'' [(''avail'', ''9'')]]\<rparr>"

definition svc_io :: pk_io where
  "svc_io = demo_io\<lparr>rq_budget := \<lambda>d k. Some ''state''\<rparr>"

definition svc_pkgd :: pkgd where
  "svc_pkgd = (pkgd_init svc_meta)\<lparr>repo := svc_repo, app_armed := True\<rparr>"

lemma svc_metadata:
  "metadata svc_genode svc_repo n =
     (if n = ''app'' then Some ((demo_package ''app'')\<lparr>deps := [''svc'']\<rparr>)
      else if n = ''svc'' then Some ((demo_package ''svc'')\<lparr>has_autostart := True\<rparr>) else None)"
proof -
  have "metadata svc_genode svc_repo ''app'' = Some ((demo_package ''app'')\<lparr>deps := [''svc'']\<rparr>)"
      "metadata svc_genode svc_repo ''svc'' = Some ((demo_package ''svc'')\<lparr>has_autostart := True\<rparr>)"
    by (simp_all add: metadata_def load_package_def svc_repo_def svc_meta_def demo_meta_doc_def
        parse_package_def parse_child_def missing_element_def kids_of_type_def fill_package_def
        demo_package_def new_package_def add_dep_def attr_str_def gstr_def Let_def)
  moreover have "metadata svc_genode svc_repo n = None" if "n \<noteq> ''app''" "n \<noteq> ''svc''"
    using that metadata_known [of svc_genode svc_repo n] by (fastforce simp: svc_repo_def)
  ultimately show ?thesis by simp
qed

lemma svc_requires: "requires svc_genode svc_repo a b \<longleftrightarrow> a = ''app'' \<and> b = ''svc''"
  by (auto simp: requires_def svc_metadata demo_package_def new_package_def)

lemma svc_needs: "needs svc_genode svc_repo ''app'' b \<longleftrightarrow> b = ''app'' \<or> b = ''svc''"
proof
  show "b = ''app'' \<or> b = ''svc''" if "needs svc_genode svc_repo ''app'' b"
    using that by (induction rule: rtranclp_induct) (auto simp: svc_requires)
qed (auto simp: svc_requires)

lemma svc_plan:
  "rok (resolve svc_genode svc_repo [] ''app'')"
  "plan (resolve svc_genode svc_repo [] ''app'')
     = map (plan_entry svc_genode svc_repo []) [''svc'', ''app'']"
proof -
  have wf: "repo_wf svc_repo" by (simp add: repo_wf_def svc_repo_def)
  have "\<not> (requires svc_genode svc_repo)\<^sup>+\<^sup>+ n n" for n
    by (auto simp: svc_requires dest!: tranclpD elim: converse_rtranclpE)
  then show ok: "rok (resolve svc_genode svc_repo [] ''app'')"
    using wf by (auto simp: resolve_rok resolvable_def svc_needs svc_metadata)
  obtain ns where ns: "plan (resolve svc_genode svc_repo [] ''app'') = map (plan_entry svc_genode svc_repo []) ns"
      "distinct ns" "set ns = {n. needs svc_genode svc_repo ''app'' n}" "last ns = ''app''" "ns \<noteq> []"
    by (rule resolve_plan [OF wf ok])
  have set: "set ns = {''app'', ''svc''}" using ns(3) by (auto simp: svc_needs)
  then have "length ns = 2" using distinct_card [OF ns(2)] by simp
  then obtain a b where "ns = [a, b]" by (auto simp: length_Suc_conv numeral_2_eq_2)
  then have "ns = [''svc'', ''app'']" using ns(2,4) set by auto
  then show "plan (resolve svc_genode svc_repo [] ''app'')
      = map (plan_entry svc_genode svc_repo []) [''svc'', ''app'']" using ns(1) by simp
qed

lemma svc_refusal:
  "install_refusal svc_genode svc_io ''app'' (resolve_in svc_genode ''app'' svc_pkgd)
     = Some (''svc'', 32 * 1024 * 1024, 1024, 512, 9)"
proof -
  let ?s = "resolve_in svc_genode ''app'' svc_pkgd"
  have s: "plan (rsv ?s) = map (plan_entry svc_genode svc_repo []) [''svc'', ''app'']"
      "app_armed ?s" "running ?s = []"
    using svc_plan(2) by (simp_all add: resolve_in_def Let_def svc_pkgd_def pkgd_init_def)
  have c: "plan_entry svc_genode svc_repo [] ''svc''
      = ((demo_package ''svc'')\<lparr>has_autostart := True, reused := False\<rparr>)"
    by (simp add: plan_entry_def svc_metadata demo_package_def new_package_def)
  have budget: "read_budget svc_genode (Some ''state'') = Some (1024, 9)"
    by (simp add: read_budget_def svc_genode_def avail_of_def attr_str_def quota_bytes_def digits_value_def
        is_digit_def digit_val_def less_eq_char_def Let_def)
  have q: "quota_bytes ''32M'' = Some (32 * 1024 * 1024)"
    by (simp add: quota_bytes_def digits_value_def is_digit_def digit_val_def less_eq_char_def Let_def)
  show ?thesis
    using s budget q by (simp add: install_refusal_def c demo_package_def new_package_def sandbox_budget_def
        admits_def armed_def is_driver_def svc_io_def demo_io_def fits_def)
qed

theorem refusal_of_other_unrecognised_witness:
  "\<exists>x. pk_reply svc_genode svc_io (''install'', ''app'') svc_pkgd = Some x \<and> \<not> pkg_match ''install'' ''app'' x"
proof -
  have rok: "rok (rsv (resolve_in svc_genode ''app'' svc_pkgd))"
    using svc_plan(1) by (simp add: resolve_in_def Let_def svc_pkgd_def pkgd_init_def)
  have "\<not> pk_blocked (resolve_in svc_genode ''app'' svc_pkgd)"
    by (simp add: resolve_in_def Let_def svc_pkgd_def pkgd_init_def)
  then obtain x where x: "pk_reply svc_genode svc_io (''install'', ''app'') svc_pkgd = Some x"
    using rok svc_refusal by (simp add: pk_reply_def pkg_dispatch_def do_install_def Let_def
        report_insufficient_def answer_def pk_emit_def pkg_cache_items_def record_answer_def)
  have "refuses_other svc_genode svc_io ''app'' svc_pkgd"
    using svc_refusal by (simp add: refuses_other_def)
  from refusal_of_other_unrecognised [OF this _ _ _ _ x] show ?thesis
    using rok svc_refusal x by simp
qed

end
