(* ===== verification/Vct_Output_Props.thy ===== *)
theory Vct_Output_Props
  imports Vct_Props
begin

text \<open>
  What \<open>vct\<close> prints and does against what was asked: the JSON lists that are cut in their fixed
  buffers, the row of the version comparison that is never closed, and the help flag that the power
  commands do not see.
\<close>

section \<open>JSON rows in a buffer of 512 bytes\<close>

definition jr :: "string \<times> string \<Rightarrow> bool \<times> string \<Rightarrow> bool \<times> string" where
  "jr = json_row ''value'' 14"

lemma fst_jr [simp]: "fst (jr ab st) = False"
  by (simp add: jr_def json_row_def Let_def case_prod_beta)

text \<open>The seven steps of one turn.\<close>

lemma jr_steps:
  obtains c d e f g h where
    "c = (if first then buf else put_if 512 2 '', '' buf)"
    "d = put_if 512 2 ''{'' c"
    "e = (if length d + 12 < 512 then put_while 512 1 (jq ''`name`:`'') d else d)"
    "f = put_while 512 1 a e"
    "g = (if length f + 14 < 512 then put_while 512 1 (jq ''`,`'' @ ''value'' @ jq ''`:`'') f else f)"
    "h = put_while 512 1 b g"
    "snd (jr (a, b) (first, buf)) = put_if 512 2 [DQ, CHR ''}''] h"
  by (simp only: jr_def json_row_def Let_def case_prod_conv snd_conv)

text \<open>The lengths after the steps: \<open>la\<close> and \<open>lb\<close> are those of the two values.\<close>

lemma jr_arith:
  fixes n :: nat
  assumes c: "c = (if first then n else if n + 2 < 512 then n + 2 else n)"
    and d: "d = (if c + 2 < 512 then c + 1 else c)"
    and e: "e = (if d + 12 < 512 then d + min (511 - d) 8 else d)"
    and f: "f = e + min (511 - e) la"
    and g: "g = (if f + 14 < 512 then f + min (511 - f) 11 else f)"
    and h: "h = g + min (511 - g) lb"
    and r: "r = (if h + 2 < 512 then h + 2 else h)"
    and n: "n \<le> 511"
  shows "r \<le> 511 \<and> n \<le> r \<and> min 500 (n + (if first then 22 else 24) + la + lb) \<le> r
    \<and> (500 \<le> n \<and> \<not> first \<and> 8 \<le> la \<longrightarrow> r = 511)"
proof -
  have m: "n \<le> c" "c \<le> d" "d \<le> e" "e \<le> f" "f \<le> g" "g \<le> h" "h \<le> r"
    subgoal unfolding c by simp
    subgoal unfolding d by simp
    subgoal unfolding e by simp
    subgoal unfolding f by simp
    subgoal unfolding g by simp
    subgoal unfolding h by simp
    subgoal unfolding r by simp
    done
  have u: "c \<le> 511" unfolding c using n by simp
  have u2: "d \<le> 511" unfolding d using u by simp
  have u3: "e \<le> 511" unfolding e using u2 by simp
  have u4: "f \<le> 511" unfolding f using u3 by simp
  have u5: "g \<le> 511" unfolding g using u4 by simp
  have u6: "h \<le> 511" unfolding h using u5 by simp
  have u7: "r \<le> 511" unfolding r using u6 by simp
  have low: "n + (if first then 22 else 24) + la + lb \<le> r" if "r < 500"
  proof -
    have "r = h + 2" using that r by (simp split: if_splits)
    then have h': "h < 498" using that by simp
    then have "h = g + lb" using h m(6) by linarith
    have "f < 498" using h' m by linarith
    then have "g = f + 11" using g by simp
    have "f = e + la" using f \<open>f < 498\<close> by linarith
    have "d < 500" using \<open>f < 498\<close> m by linarith
    then have "e = d + 8" using e by simp
    have "c < 500" using \<open>d < 500\<close> m by linarith
    then have "d = c + 1" using d by simp
    have "n < 500" using \<open>c < 500\<close> m by linarith
    then have "c = n + (if first then 0 else 2)" using c by simp
    show ?thesis using \<open>r = h + 2\<close> \<open>h = g + lb\<close> \<open>g = f + 11\<close> \<open>f = e + la\<close> \<open>e = d + 8\<close> \<open>d = c + 1\<close>
        \<open>c = n + (if first then 0 else 2)\<close> by simp
  qed
  have top: "r = 511" if "500 \<le> n" "\<not> first" "8 \<le> la"
  proof -
    have c': "c = (if n + 2 < 512 then n + 2 else n)" unfolding c using that by simp
    have "503 \<le> d"
    proof (cases "n + 2 < 512")
      case True
      then have "502 \<le> c" using c' that by simp
      then show ?thesis unfolding d by simp
    next
      case False
      then have "510 \<le> c" using c' by simp
      then show ?thesis unfolding d by simp
    qed
    then have "503 \<le> e" using m by linarith
    then have "f = 511" using f that u3 by linarith
    then show ?thesis using m u7 by linarith
  qed
  have "min 500 (n + (if first then 22 else 24) + la + lb) \<le> r"
    by (cases "r < 500") (use low in \<open>simp_all add: min.coboundedI2 min.coboundedI1\<close>)
  moreover have "n \<le> r" using m by linarith
  ultimately show ?thesis using top u7 by blast
qed

lemma jr_length:
  assumes "length buf \<le> 511"
  shows "length (snd (jr (a, b) (first, buf))) \<le> 511
    \<and> length buf \<le> length (snd (jr (a, b) (first, buf)))
    \<and> min 500 (length buf + (if first then 22 else 24) + length a + length b) \<le> length (snd (jr (a, b) (first, buf)))
    \<and> (500 \<le> length buf \<and> \<not> first \<and> 8 \<le> length a \<longrightarrow> length (snd (jr (a, b) (first, buf))) = 511)"
proof (rule jr_steps [of first buf a b])
  fix c d e f g h
  assume s: "c = (if first then buf else put_if 512 2 '', '' buf)" "d = put_if 512 2 ''{'' c"
    "e = (if length d + 12 < 512 then put_while 512 1 (jq ''`name`:`'') d else d)"
    "f = put_while 512 1 a e"
    "g = (if length f + 14 < 512 then put_while 512 1 (jq ''`,`'' @ ''value'' @ jq ''`:`'') f else f)"
    "h = put_while 512 1 b g" "snd (jr (a, b) (first, buf)) = put_if 512 2 [DQ, CHR ''}''] h"
  show ?thesis
    unfolding s(7)
  proof (rule jr_arith [of "length c" first "length buf" "length d" "length e" "length f" "length a" "length g"
        "length h" "length b"])
    show "length c = (if first then length buf else if length buf + 2 < 512 then length buf + 2 else length buf)"
      by (simp add: s(1) put_if_def)
    show "length d = (if length c + 2 < 512 then length c + 1 else length c)"
      by (simp add: s(2) put_if_def)
    show "length e = (if length d + 12 < 512 then length d + min (511 - length d) 8 else length d)"
      by (simp add: s(3) put_while_def buf_append_def jq_def)
    show "length f = length e + min (511 - length e) (length a)"
      by (simp add: s(4) put_while_def buf_append_def)
    show "length g = (if length f + 14 < 512 then length f + min (511 - length f) 11 else length f)"
      by (simp add: s(5) put_while_def buf_append_def jq_def)
    show "length h = length g + min (511 - length g) (length b)"
      by (simp add: s(6) put_while_def buf_append_def)
    show "length (put_if 512 2 [DQ, CHR ''}''] h) = (if length h + 2 < 512 then length h + 2 else length h)"
      by (simp add: put_if_def)
  qed (rule assms)
qed

text \<open>What the steps keep of the characters.\<close>

lemma notin_put:
  "x \<notin> set buf \<Longrightarrow> x \<notin> set s \<Longrightarrow> x \<notin> set (put_if cap k s buf)"
  "x \<notin> set buf \<Longrightarrow> x \<notin> set s \<Longrightarrow> x \<notin> set (put_while cap k s buf)"
  by (auto simp: put_if_def put_while_def buf_append_def dest: in_set_takeD)

lemma in_put: "x \<in> set buf \<Longrightarrow> x \<in> set (put_if cap k s buf)" "x \<in> set buf \<Longrightarrow> x \<in> set (put_while cap k s buf)"
  by (auto simp: put_if_def put_while_def buf_append_def)

lemma jr_keeps_out:
  assumes n: "CHR '']'' \<notin> set buf" "CHR '']'' \<notin> set a" "CHR '']'' \<notin> set b"
  shows "CHR '']'' \<notin> set (snd (jr (a, b) (first, buf)))"
proof (rule jr_steps [of first buf a b])
  fix c d e f g h
  assume s: "c = (if first then buf else put_if 512 2 '', '' buf)" "d = put_if 512 2 ''{'' c"
    "e = (if length d + 12 < 512 then put_while 512 1 (jq ''`name`:`'') d else d)"
    "f = put_while 512 1 a e"
    "g = (if length f + 14 < 512 then put_while 512 1 (jq ''`,`'' @ ''value'' @ jq ''`:`'') f else f)"
    "h = put_while 512 1 b g" "snd (jr (a, b) (first, buf)) = put_if 512 2 [DQ, CHR ''}''] h"
  have "CHR '']'' \<notin> set c" unfolding s(1) using n(1) by (simp add: notin_put)
  then have "CHR '']'' \<notin> set d" unfolding s(2) by (simp add: notin_put)
  then have "CHR '']'' \<notin> set e" unfolding s(3) by (simp add: notin_put jq_def)
  then have "CHR '']'' \<notin> set f" unfolding s(4) using n(2) by (simp add: notin_put)
  then have "CHR '']'' \<notin> set g" unfolding s(5) by (simp add: notin_put jq_def)
  then have "CHR '']'' \<notin> set h" unfolding s(6) using n(3) by (simp add: notin_put)
  then show ?thesis unfolding s(7) by (simp add: notin_put)
qed

lemma jr_keeps_in:
  assumes n: "CHR ''['' \<in> set buf"
  shows "CHR ''['' \<in> set (snd (jr (a, b) (first, buf)))"
proof (rule jr_steps [of first buf a b])
  fix c d e f g h
  assume s: "c = (if first then buf else put_if 512 2 '', '' buf)" "d = put_if 512 2 ''{'' c"
    "e = (if length d + 12 < 512 then put_while 512 1 (jq ''`name`:`'') d else d)"
    "f = put_while 512 1 a e"
    "g = (if length f + 14 < 512 then put_while 512 1 (jq ''`,`'' @ ''value'' @ jq ''`:`'') f else f)"
    "h = put_while 512 1 b g" "snd (jr (a, b) (first, buf)) = put_if 512 2 [DQ, CHR ''}''] h"
  have "CHR ''['' \<in> set c" unfolding s(1) using n by (simp add: in_put)
  then have "CHR ''['' \<in> set d" unfolding s(2) by (rule in_put)
  then have "CHR ''['' \<in> set e" unfolding s(3) by (simp add: in_put)
  then have "CHR ''['' \<in> set f" unfolding s(4) by (rule in_put)
  then have "CHR ''['' \<in> set g" unfolding s(5) by (simp add: in_put)
  then have "CHR ''['' \<in> set h" unfolding s(6) by (rule in_put)
  then show ?thesis unfolding s(7) by (rule in_put)
qed

lemma jr_fold_out:
  "\<forall>(a, b) \<in> set rows. CHR '']'' \<notin> set a \<and> CHR '']'' \<notin> set b \<Longrightarrow> CHR '']'' \<notin> set (snd st)
    \<Longrightarrow> CHR '']'' \<notin> set (snd (fold jr rows st))"
proof (induction rows arbitrary: st)
  case (Cons ab rows)
  then show ?case
    using Cons.IH [of "jr ab st"] jr_keeps_out [of "snd st" "fst ab" "snd ab" "fst st"]
    by (simp add: case_prod_beta)
qed simp

lemma jr_fold_in: "CHR ''['' \<in> set (snd st) \<Longrightarrow> CHR ''['' \<in> set (snd (fold jr rows st))"
proof (induction rows arbitrary: st)
  case (Cons ab rows)
  then show ?case
    using Cons.IH [of "jr ab st"] jr_keeps_in [of "snd st" "fst ab" "snd ab" "fst st"] by simp
qed simp

definition row_size :: "(string \<times> string) list \<Rightarrow> nat" where
  "row_size rows = sum_list (map (\<lambda>(a, b). 24 + length a + length b) rows)"

lemma jr_fold_length:
  "length buf \<le> 511 \<Longrightarrow> length (snd (fold jr rows (False, buf))) \<le> 511
    \<and> length buf \<le> length (snd (fold jr rows (False, buf)))
    \<and> min 500 (length buf + row_size rows) \<le> length (snd (fold jr rows (False, buf)))"
proof (induction rows arbitrary: buf)
  case (Cons ab rows)
  obtain a b where ab: "ab = (a, b)" by fastforce
  obtain buf' where j: "jr (a, b) (False, buf) = (False, buf')" by (metis fst_jr prod.collapse)
  have 1: "length buf' \<le> 511" "length buf \<le> length buf'" "min 500 (length buf + 24 + length a + length b) \<le> length buf'"
    using jr_length [OF Cons.prems, of a b False] by (simp_all add: j)
  have 2: "length (snd (fold jr rows (False, buf'))) \<le> 511" "length buf' \<le> length (snd (fold jr rows (False, buf')))"
      "min 500 (length buf' + row_size rows) \<le> length (snd (fold jr rows (False, buf')))"
    using Cons.IH [OF 1(1)] by simp_all
  have "min 500 (length buf + row_size (ab # rows)) \<le> length (snd (fold jr rows (False, buf')))"
    using 1 2 by (simp add: row_size_def ab min_def split: if_splits)
  then show ?case using 1 2 by (simp add: ab j)
qed (simp add: row_size_def)

lemma jr_fold_first: "fst (fold jr rows (False, buf)) = False"
  by (induction rows arbitrary: buf) (simp_all, metis fst_jr prod.collapse)

text \<open>
  Rows that need more than 500 bytes before a last of at least eight: the buffer ends up full, and
  stays full whatever follows.
\<close>

lemma jr_full:
  assumes "501 \<le> row_size (r0 # rows)" and "8 \<le> length a"
  shows "length (snd (fold jr (r0 # rows @ (a, b) # rest) (True, ''[''))) = 511"
proof -
  obtain a0 b0 where r0: "r0 = (a0, b0)" by fastforce
  obtain buf0 where j0: "jr (a0, b0) (True, ''['') = (False, buf0)" by (metis fst_jr prod.collapse)
  have l0: "length buf0 \<le> 511" "min 500 (23 + length a0 + length b0) \<le> length buf0"
    using jr_length [of "''[''" a0 b0 True] by (simp_all add: j0)
  obtain buf1 where j1: "fold jr rows (False, buf0) = (False, buf1)"
    using jr_fold_first [of rows buf0] by (metis prod.collapse)
  have l1: "length buf1 \<le> 511" "500 \<le> length buf1"
    using jr_fold_length [OF l0(1), of rows] l0(2) assms(1) by (auto simp: j1 r0 row_size_def)
  obtain buf2 where j2: "jr (a, b) (False, buf1) = (False, buf2)" by (metis fst_jr prod.collapse)
  have "length buf2 = 511" using jr_length [OF l1(1), of a b False] l1(2) assms(2) by (simp add: j2)
  then show ?thesis using jr_fold_length [of buf2 rest] by (simp add: r0 j0 j1 j2)
qed

section \<open>The list of configuration keys\<close>

lemma registry_sorted:
  "map (\<lambda>i. kname (registry ! i)) sorted_order_flat =
     [''background.color'', ''background.image'', ''bake.applied'', ''bake.profile'', ''bake.version'',
      ''clock.format'', ''launcher.sort_by'', ''leitzentrale.enabled'', ''panel.height'', ''panel.ids'',
      ''panel.position'', ''panel.visible_widgets'', ''shortcuts.bindings'', ''theme.active'']"
proof -
  have "map (\<lambda>i. kname (registry ! i)) sorted_order_flat = map ((!) (map kname registry)) sorted_order_flat"
    unfolding sorted_order_flat_def by (rule map_cong) auto
  also have "\<dots> = sort (map kname registry)" unfolding sorted_order_flat_def by (rule sel_order_names)
  also have "\<dots> = [''background.color'', ''background.image'', ''bake.applied'', ''bake.profile'', ''bake.version'',
      ''clock.format'', ''launcher.sort_by'', ''leitzentrale.enabled'', ''panel.height'', ''panel.ids'',
      ''panel.position'', ''panel.visible_widgets'', ''shortcuts.bindings'', ''theme.active'']"
    by code_simp
  finally show ?thesis .
qed

definition list_answer :: "genode \<Rightarrow> cfgd \<Rightarrow> xml" where
  "list_answer G s = node ''result'' [(''status'', ''ok''), (''op'', ''list''),
     (''count'', print_nat G (length registry + length (instantiated s)))] [node ''keys'' [] (key_nodes s)]"

lemma config_rows_answer:
  "config_rows (list_answer G s) =
     map (\<lambda>i. (gstr 64 (kname (registry ! i)), gstr 128 (cvalues s ! i))) sorted_order_flat
     @ map (\<lambda>i. (gstr 64 (kname (instantiated s ! i)), gstr 128 (inst_values s ! i))) (sorted_order_instantiated s)"
proof -
  have "filter (\<lambda>k. has_type k ''key'') (map (\<lambda>i. key_node (f i) (g i)) is) = map (\<lambda>i. key_node (f i) (g i)) is" for f g "is"
    by (induction "is") (simp_all add: key_node_def)
  then show ?thesis
    by (simp add: config_rows_def list_answer_def under_def kids_of_type_def key_nodes_def comp_def
        key_node_def attr_str_def)
qed

lemma list_body_full: "length (snd (fold jr (config_rows (list_answer G s)) (True, ''[''))) = 511"
proof -
  define v where "v i = gstr 128 (cvalues s ! i)" for i
  obtain i0 i1 i2 i3 i4 i5 i6 i7 i8 i9 i10 i11 i12 i13 where
    ord: "sorted_order_flat = [i0, i1, i2, i3, i4, i5, i6, i7, i8, i9, i10, i11, i12, i13]"
  proof -
    have "length sorted_order_flat = 14" by (simp add: sorted_order_flat_def registry_def)
    then show ?thesis using that by (auto simp: length_Suc_conv numeral_eq_Suc)
  qed
  define R where "R = map (\<lambda>i. (gstr 64 (kname (instantiated s ! i)), gstr 128 (inst_values s ! i))) (sorted_order_instantiated s)"
  have names: "kname (registry ! i0) = ''background.color''" "kname (registry ! i1) = ''background.image''"
    "kname (registry ! i2) = ''bake.applied''" "kname (registry ! i3) = ''bake.profile''"
    "kname (registry ! i4) = ''bake.version''" "kname (registry ! i5) = ''clock.format''"
    "kname (registry ! i6) = ''launcher.sort_by''" "kname (registry ! i7) = ''leitzentrale.enabled''"
    "kname (registry ! i8) = ''panel.height''" "kname (registry ! i9) = ''panel.ids''"
    "kname (registry ! i10) = ''panel.position''" "kname (registry ! i11) = ''panel.visible_widgets''"
    "kname (registry ! i12) = ''shortcuts.bindings''" "kname (registry ! i13) = ''theme.active''"
    using registry_sorted unfolding ord by simp_all
  have rows: "config_rows (list_answer G s) =
      (''background.color'', v i0) # [(''background.image'', v i1), (''bake.applied'', v i2), (''bake.profile'', v i3),
        (''bake.version'', v i4), (''clock.format'', v i5), (''launcher.sort_by'', v i6),
        (''leitzentrale.enabled'', v i7), (''panel.height'', v i8), (''panel.ids'', v i9), (''panel.position'', v i10),
        (''panel.visible_widgets'', v i11), (''shortcuts.bindings'', v i12)] @ (''theme.active'', v i13) # R"
    unfolding config_rows_answer ord R_def by (simp add: names v_def)
  show ?thesis
    unfolding rows by (rule jr_full) (simp_all add: row_size_def)
qed

text \<open>
  \<open>vct config list --json\<close> is never complete. The fourteen registered keys alone exceed the buffer
  of 512 bytes, whatever their values: the answer of the configuration daemon to a list request is
  printed with the array cut at 511 characters and, unless a value contains one, no closing bracket.
\<close>

theorem config_list_json_cut:
  assumes "cfg_reply G io roms (''list'', key, v) s = Some x"
    and "\<forall>(a, b) \<in> set (config_rows x). CHR '']'' \<notin> set a \<and> CHR '']'' \<notin> set b"
  shows "\<exists>t. render_config_list_json x = (0, [Log t]) \<and> CHR ''['' \<in> set t \<and> CHR '']'' \<notin> set t"
proof -
  have x: "x = list_answer G s"
    using assms(1) by (auto simp: cfg_reply_def Let_def dispatch_def do_list_def report_list_ok_def report_def
        cfg_emit_def list_answer_def split: if_splits)
  let ?b = "snd (fold jr (config_rows x) (True, ''[''))"
  have len: "length ?b = 511" unfolding x by (rule list_body_full)
  have body: "json_rows ''value'' 14 (config_rows x) = ?b"
    using len by (simp add: json_rows_def jr_def put_if_def)
  have cut: "gstr 512 ?b = ?b" using len by simp
  have out: "CHR '']'' \<notin> set ?b" using assms(2) by (rule jr_fold_out) simp
  have ins: "CHR ''['' \<in> set ?b" by (rule jr_fold_in) simp
  have ok: "status_of x = ''ok''" by (simp add: x list_answer_def status_of_def attr_str_def)
  let ?t = "concat [jq ''{`command`:`config`,`op`:`list`,`status`:`success`,`keys`:'', ?b, ''}'']"
  have "render_config_list_json x = (0, [Log ?t])"
    unfolding render_config_list_json_def line_def body cut using ok by simp
  moreover have "CHR ''['' \<in> set ?t" using ins by simp
  moreover have "CHR '']'' \<notin> set ?t" using out by (simp add: jq_def)
  ultimately show ?thesis by blast
qed

theorem config_list_json_cut_witness:
  "\<exists>x t. cfg_reply bare_genode (ce_save quiet_env) None (''list'', [], []) cfg_init = Some x
     \<and> render_config_list_json x = (0, [Log t]) \<and> CHR ''['' \<in> set t \<and> CHR '']'' \<notin> set t"
proof -
  have r: "cfg_reply bare_genode (ce_save quiet_env) None (''list'', [], []) cfg_init
      = Some (list_answer bare_genode cfg_init)"
    by (simp add: cfg_reply_def Let_def dispatch_def do_list_def report_list_ok_def report_def
        cfg_emit_def list_answer_def cfg_init_def key_nodes_def sorted_order_instantiated_def)
  have i: "i < length registry" if "i \<in> set sorted_order_flat" for i
    using that by (simp add: sorted_order_flat_def)
  have n: "CHR '']'' \<notin> set (kname (registry ! i))" if "i < length registry" for i
    using that unfolding registry_def by (auto simp: less_Suc_eq nth_Cons')
  have "\<forall>(a, b) \<in> set (config_rows (list_answer bare_genode cfg_init)). CHR '']'' \<notin> set a \<and> CHR '']'' \<notin> set b"
    using i n by (auto simp: config_rows_answer cfg_init_def sorted_order_instantiated_def sel_order_def gstr_def
        dest: in_set_takeD)
  from config_list_json_cut [OF r this] r show ?thesis by blast
qed

section \<open>The version comparison\<close>

lemma set_gstr: "set (gstr n t) \<subseteq> set t"
  by (auto simp: gstr_def dest: in_set_takeD)

text \<open>
  The row that \<open>vct update --json\<close> prints for a package that is up to date is not closed: it opens
  an object and a string and ends behind the word \<open>current\<close>.
\<close>

theorem current_row_not_closed:
  assumes "rp_version p = ver" and "length name < 64" and "length ver < 32"
    and "CHR ''}'' \<notin> set name" and "CHR ''}'' \<notin> set ver"
  shows "update_row name ver (Some p)
      = jq ''{`name`:`'' @ name @ jq ''`,`installed_version`:`'' @ ver @ jq ''`,`repo_version`:`'' @ ver
        @ jq ''`,`status`:`'' @ ''current''
    \<and> CHR ''}'' \<notin> set (update_row name ver (Some p))"
proof -
  let ?t = "jq ''{`name`:`'' @ name @ jq ''`,`installed_version`:`'' @ ver @ jq ''`,`repo_version`:`'' @ ver
        @ jq ''`,`status`:`'' @ ''current''"
  have "update_row name ver (Some p) = gstr 384 ?t" using assms(1) by (simp add: update_row_def)
  moreover have "length ?t < 384" using assms(2,3) by (simp add: jq_def)
  ultimately have row: "update_row name ver (Some p) = ?t" by simp
  have "CHR ''}'' \<notin> set ?t" using assms(4,5) by (simp add: jq_def)
  then show ?thesis using row by simp
qed

theorem current_row_not_closed_witness:
  "CHR ''}'' \<notin> set (update_row ''edit'' ''1'' (Some \<lparr>rp_name = ''edit'', rp_version = ''1'', rp_description = []\<rparr>))"
  using current_row_not_closed [of "\<lparr>rp_name = ''edit'', rp_version = ''1'', rp_description = []\<rparr>" "''1''" "''edit''"]
  by (simp add: jq_def)

section \<open>Help for the power commands\<close>

lemma gstr_short: "gstr n t = u \<Longrightarrow> Suc (length u) < n \<Longrightarrow> t = u"
  by (cases "length t < n") (auto simp: gstr_def)

lemma apply_token_positional:
  assumes "positional a \<notin> {''--help'', ''-h''}"
  shows "positional (apply_token t a) \<notin> {''--help'', ''-h''}"
proof (cases "t = ''--help'' \<or> t = ''-h''")
  case True
  then show ?thesis using assms by (auto simp: apply_token_def)
next
  case False
  then have "gstr 128 t \<notin> {''--help'', ''-h''}" using gstr_short [of 128 t] by auto
  then show ?thesis using assms by (simp add: apply_token_def)
qed

lemma apply_tokens_positional:
  "positional a \<notin> {''--help'', ''-h''} \<Longrightarrow> positional (apply_tokens ts a) \<notin> {''--help'', ''-h''}"
proof (induction ts a rule: apply_tokens.induct)
  case (2 t a)
  then show ?case using apply_token_positional [of a t] by simp
next
  case (3 t v ts a)
  then show ?case using apply_token_positional [of a t] by simp
qed simp

text \<open>
  A power command always acts. The help flag is taken out of the words before the command looks
  for it among them, so the help page of the power commands is never shown: whatever the words of the
  invocation, \<open>--help\<close> included, when they select a power command it sends the power report.
\<close>

theorem power_help_acts:
  assumes "vct_dispatch n (args_of_tokens ts k b) = PowerCommand nf"
  shows "Send ''system'' (leaf ''system''
      [(''state'', if subcommand (args_of_tokens ts k b) = ''reboot'' then ''reset'' else ''poweroff'')])
    \<in> set (snd (power_execute G nf (args_of_tokens ts k b)))"
proof -
  let ?a = "args_of_tokens ts k b"
  have "positional ?a \<notin> {''--help'', ''-h''}"
    using apply_tokens_positional [of "default_args\<lparr>dropped_args := k, enable_notifications := b\<rparr>" ts]
    by (simp add: args_of_tokens_def Let_def default_args_def)
  then show ?thesis by (simp add: power_execute_def Let_def)
qed

theorem power_help_acts_witness:
  "Send ''system'' (leaf ''system'' [(''state'', ''poweroff'')])
     \<in> set (snd (power_execute (demo_vct (\<lambda>r k. Rom_invalid)) True (args_of_tokens [''shutdown'', ''--help''] 0 True)))"
proof -
  have a: "subcommand (args_of_tokens [''shutdown'', ''--help''] 0 True) = ''shutdown''"
      "enable_notifications (args_of_tokens [''shutdown'', ''--help''] 0 True)"
    by (simp_all add: args_of_tokens_def Let_def apply_token_def starts_with.simps default_args_def)
  have "vct_dispatch True (args_of_tokens [''shutdown'', ''--help''] 0 True) = PowerCommand True"
    by (simp add: vct_dispatch_def a)
  from power_help_acts [OF this, of "demo_vct (\<lambda>r k. Rom_invalid)"] show ?thesis by (simp add: a)
qed

end
