(* ===== verification/Config_View.thy ===== *)
theory Config_View
  imports Configd_Props
begin

text \<open>
  How a reader of the configuration broadcast finds a key, and what it finds: the clients of
  \<open>sponge_configd\<close> (\<open>sponge_themed\<close>, the controllers of \<open>sponge-de\<close>) all walk over the \<open>key\<close>
  children of the document and take the first one with the name. The broadcast of a daemon in any
  reachable state answers such a lookup with the stored value.
\<close>

definition first_key :: "xml \<Rightarrow> string \<Rightarrow> xml option" where
  "first_key x name = find (\<lambda>k. attr_str 64 k ''name'' = name) (kids_of_type x ''key'')"

lemma key_node_simps [simp]:
  "has_type (key_node k v) ''key''" "attr_str 64 (key_node k v) ''name'' = gstr 64 k"
  "attr (key_node k v) ''value'' = Some v"
  by (simp_all add: key_node_def attr_str_def)

lemma pattern_key_short:
  assumes "pattern_key k"
  shows "length k < 64"
proof -
  obtain ident where e: "pattern_extract_id k = Some ident" using assms by (auto simp: pattern_key_def)
  then obtain suf where f: "find (shape_fits k) id_suffixes = Some suf"
    by (auto simp: pattern_extract_id_def split: option.splits)
  have s: "suf \<in> set id_suffixes" using f by (auto simp: find_Some_iff)
  have l: "length suf \<le> 16" using s by (auto simp: id_suffixes_def)
  have "length suf < length k" using f by (auto simp: find_Some_iff shape_fits_def)
  moreover have "size_sub (size_sub (length k) (length panel_prefix)) (length suf) \<le> 16"
    using e f by (auto simp: pattern_extract_id_def Let_def split: if_splits)
  ultimately show ?thesis using l assms
    by (auto simp: size_sub_def pattern_key_def split: if_splits)
qed

lemma registry_short: "i < 14 \<Longrightarrow> length (kname (registry ! i)) < 64"
proof -
  have "\<forall>d \<in> set registry. length (kname d) < 64" by code_simp
  then show "i < 14 \<Longrightarrow> length (kname (registry ! i)) < 64" by simp
qed

lemma find_key_registry:
  assumes "i < 14"
  shows "find_key (kname (registry ! i)) = Some i"
proof -
  have l: "length registry = 14" and d: "distinct (map kname registry)" by code_simp+
  show ?thesis using assms nth_eq_iff_index_eq [OF d] by (auto simp: find_key_def find_Some_iff l)
qed

lemma key_nodes_find:
  assumes g: "lengths.good s" and l: "cfg_lookup s key = Some v" and k: "length key < 64"
  shows "find (\<lambda>n. attr_str 64 n ''name'' = key) (key_nodes s) = Some (key_node key v)"
proof (rule find_only)
  have sh: "shape_inv s" using g by (simp add: lengths.good_def)
  have inst: "find_key (kname (instantiated s ! i)) = None" "length (kname (instantiated s ! i)) < 64"
    "find_instantiated s (kname (instantiated s ! i)) = Some i"
    if "i < length (instantiated s)" for i
    using sh that pattern_key_short [of "kname (instantiated s ! i)"] find_inst_iff
    by (auto simp: shape_inv_def pattern_key_def)
  have flat: "find_key (kname (registry ! i)) = Some i" if "i < 14" for i
    using that find_key_registry by simp
  show "key_node key v \<in> set (key_nodes s)"
  proof (cases "find_key key")
    case (Some i)
    then have "i < 14" "kname (registry ! i) = key" by (auto dest: find_key_Some)
    then show ?thesis using l Some by (force simp: key_nodes_def sorted_order_flat_def cfg_lookup_def)
  next
    case None
    then obtain i where i: "find_instantiated s key = Some i" "inst_values s ! i = v"
      using l by (auto simp: cfg_lookup_def)
    then have "i < length (instantiated s)" "kname (instantiated s ! i) = key"
      using find_inst_iff sh by (auto simp: shape_inv_def)
    then show ?thesis using i by (force simp: key_nodes_def sorted_order_instantiated_def)
  qed
  show "attr_str 64 (key_node key v) ''name'' = key" using k by simp
  fix z
  assume z: "z \<in> set (key_nodes s)" and n: "attr_str 64 z ''name'' = key"
  then consider (flat) i where "i < 14" "z = key_node (kname (registry ! i)) (cvalues s ! i)"
    | (inst) i where "i < length (instantiated s)" "z = key_node (kname (instantiated s ! i)) (inst_values s ! i)"
    by (auto simp: key_nodes_def sorted_order_flat_def sorted_order_instantiated_def)
  then show "z = key_node key v"
  proof cases
    case (flat i)
    then have "key = kname (registry ! i)" using n registry_short by simp
    then show ?thesis using l flat(2) flat(1) \<open>i < 14 \<Longrightarrow> find_key (kname (registry ! i)) = Some i\<close>
      by (simp add: cfg_lookup_def)
  next
    case (inst i)
    then have "key = kname (instantiated s ! i)" using n inst(2) \<open>\<And>i. i < length (instantiated s) \<Longrightarrow> length (kname (instantiated s ! i)) < 64\<close>
      by simp
    then show ?thesis using l inst \<open>\<And>i. i < length (instantiated s) \<Longrightarrow> find_key (kname (instantiated s ! i)) = None\<close>
        \<open>\<And>i. i < length (instantiated s) \<Longrightarrow> find_instantiated s (kname (instantiated s ! i)) = Some i\<close>
      by (simp add: cfg_lookup_def)
  qed
qed

lemma broadcast_key:
  assumes "lengths.good s" and "cfg_lookup s key = Some v" and "length key < 64"
  shows "first_key (broadcast_xml s) key = Some (key_node key v)"
proof -
  have "list_all (\<lambda>n. has_type n ''key'') (key_nodes s)"
    by (auto simp: list_all_iff key_nodes_def)
  then have "kids_of_type (broadcast_xml s) ''key'' = key_nodes s @ [leaf ''key'' [(''name'', ''leitzentrale.diverged''),
      (''value'', if lz_diverged s then ''true'' else ''false'')]]"
    by (simp add: kids_of_type_def broadcast_xml_def list_all_iff)
  then show ?thesis using key_nodes_find [OF assms] by (simp add: first_key_def find_append)
qed

text \<open>
  An accepted write is followed by one broadcast (unless the file system keeps the daemon waiting),
  and a reader of that broadcast finds the new value under the key and the old ones under the others.
\<close>

lemma accepted_set_broadcast:
  assumes g: "lengths.good s" and "key \<notin> bake_keys" and "writable s key" and v: "length v < 128"
    and "value_valid G (key_def_of key) v = None"
    and unblocked: "\<not> cfg_blocked (do_set G key v io roms s)"
  obtains pre x post where
    "cfg_out (do_set G key v io roms s) = cfg_out s @ pre @ Broadcast x # post"
    and "\<And>o'. o' \<in> set (pre @ post) \<Longrightarrow> \<forall>y. o' \<noteq> Broadcast y"
    and "\<And>k w. length k < 64 \<Longrightarrow> ((cfg_lookup s)(key \<mapsto> v)) k = Some w \<Longrightarrow> first_key x k = Some (key_node k w)"
proof -
  obtain s1 where s1: "do_set G key v io roms s = publish_set key v io s1"
    "cfg_lookup s1 = (cfg_lookup s)(key \<mapsto> v)" "shape_inv s1" "cfg_out s1 = cfg_out s"
    using set_accepted [OF assms(1-5), of io roms] by blast
  have "length key < 128" using assms(3) registry_short
    by (fastforce simp: writable_def pattern_key_def dest: find_key_Some split: option.splits)
  then have "lengths.good (do_set G key v io roms s)" using g v by (intro lengths.good_do_set)
  then have g1: "lengths.good s1" using s1(1) lengths.good_cong [OF publish_set_frame(1)] by simp
  have b: "\<not> (if store_enabled s1 then snd (save_ops (store_text s1) io) else cfg_blocked s1)"
    using unblocked s1(1)
    by (auto simp: publish_set_def unless_blocked_def save_store_def report_defs split: if_splits prod.splits)
  show thesis
  proof (rule that)
    show "cfg_out (do_set G key v io roms s) = cfg_out s
        @ (if store_enabled s1 then map Disk (fst (save_ops (store_text s1) io)) else [])
        @ Broadcast (broadcast_xml s1) # [Result (active_channel s1) (leaf ''result''
            [(''status'', ''ok''), (''op'', ''set''), (''key'', gstr 128 key), (''value'', gstr 128 v)])]"
      using b by (simp add: s1 publish_set_out)
  next
    fix o'
    assume "o' \<in> set ((if store_enabled s1 then map Disk (fst (save_ops (store_text s1) io)) else [])
      @ [Result (active_channel s1) (leaf ''result''
            [(''status'', ''ok''), (''op'', ''set''), (''key'', gstr 128 key), (''value'', gstr 128 v)])])"
    then show "\<forall>y. o' \<noteq> Broadcast y" by (auto split: if_splits)
  next
    fix k w
    assume "length k < 64" and "((cfg_lookup s)(key \<mapsto> v)) k = Some w"
    then show "first_key (broadcast_xml s1) k = Some (key_node k w)"
      using broadcast_key [OF g1] s1(2) by simp
  qed
qed

end
