(* ===== verification/Themed.thy ===== *)
theory Themed
  imports Config_View
begin

text \<open>
  \<open>sponge_themed/main.cc\<close>: the theme daemon. It reads the key \<open>theme.active\<close> of the configuration
  broadcast, opens the ROM module \<open><name>.theme\<close> and publishes its content. The state is the name
  published last, the reports, and whether the component is asleep: when its parent denies a session
  the base library stops the component for good (\<open>run/sponge-theme.run\<close>, \<open>sponge-de/rom/optional_rom_dataspace.h\<close>),
  so the handler of \<open>Rom_connection_failed\<close> sees other failures only. Log lines are left out.
\<close>

section \<open>State\<close>

record themed =
  published_name :: string
  theme_out :: "xml list"
  themed_asleep :: bool

text \<open>
  What opening a ROM module yields: nothing, since the parent denies the session and the component never
  goes on; an exception; an invalid dataspace; or its bytes.
\<close>

datatype rom_module = Module_denied | Module_failed | Module_invalid | Module_bytes string

section \<open>Resolution\<close>

definition read_active_theme :: "rom \<Rightarrow> string option" where
  "read_active_theme r =
     (case r of
        Rom_node root \<Rightarrow> map_option (\<lambda>k. attr_str 64 k ''value'') (first_key root ''theme.active'')
      | _ \<Rightarrow> None)"

definition theme_report :: "string \<Rightarrow> string \<Rightarrow> xml" where
  "theme_report name bytes = Elem ''theme'' [(''name'', name)] [] bytes"

definition publish_theme :: "string \<Rightarrow> string \<Rightarrow> themed \<Rightarrow> themed" where
  "publish_theme name bytes s =
     s\<lparr>theme_out := theme_out s @ [theme_report name bytes], published_name := gstr 64 name\<rparr>"

definition resolve_and_publish :: "(string \<Rightarrow> rom_module) \<Rightarrow> string \<Rightarrow> themed \<Rightarrow> bool \<times> themed" where
  "resolve_and_publish roms name s =
     (case roms (gstr 96 (name @ ''.theme'')) of
        Module_denied \<Rightarrow> (False, s\<lparr>themed_asleep := True\<rparr>)
      | Module_failed \<Rightarrow> (False, s)
      | Module_invalid \<Rightarrow> (False, s)
      | Module_bytes b \<Rightarrow>
          (if strip_nuls b = [] then (False, s) else (True, publish_theme name (strip_nuls b) s)))"

section \<open>Handlers\<close>

definition themed_handle_config :: "(string \<Rightarrow> rom_module) \<Rightarrow> rom \<Rightarrow> themed \<Rightarrow> themed" where
  "themed_handle_config roms r s =
     (if themed_asleep s then s
      else case read_active_theme r of
        None \<Rightarrow> s
      | Some active \<Rightarrow>
          (if published_name s = active then s else snd (resolve_and_publish roms active s)))"

definition themed_construct :: "(string \<Rightarrow> rom_module) \<Rightarrow> rom \<Rightarrow> themed" where
  "themed_construct roms r =
     (let s = \<lparr>published_name = [], theme_out = [], themed_asleep = False\<rparr>
      in case read_active_theme r of None \<Rightarrow> s | Some active \<Rightarrow> snd (resolve_and_publish roms active s))"

section \<open>The abstract contract\<close>

text \<open>
  The theme a name stands for, if its module is there and not empty. The daemon promises one report
  for each change of the resolvable active name, in order, and nothing else, up to the first broadcast
  that names a theme whose module it is denied.
\<close>

definition theme_content :: "(string \<Rightarrow> rom_module) \<Rightarrow> string \<Rightarrow> string option" where
  "theme_content roms name =
     (case roms (gstr 96 (name @ ''.theme'')) of
        Module_bytes b \<Rightarrow> if strip_nuls b = [] then None else Some (strip_nuls b)
      | _ \<Rightarrow> None)"

definition active_names :: "(string \<Rightarrow> rom_module) \<Rightarrow> rom list \<Rightarrow> string list" where
  "active_names roms rs = filter (\<lambda>n. theme_content roms n \<noteq> None) (List.map_filter read_active_theme rs)"

definition themed_spec :: "(string \<Rightarrow> rom_module) \<Rightarrow> rom list \<Rightarrow> xml list" where
  "themed_spec roms rs =
     map (\<lambda>n. theme_report n (the (theme_content roms n))) (remdups_adj (active_names roms rs))"

definition denied :: "(string \<Rightarrow> rom_module) \<Rightarrow> rom \<Rightarrow> bool" where
  "denied roms r \<longleftrightarrow>
     (case read_active_theme r of None \<Rightarrow> False | Some n \<Rightarrow> roms (gstr 96 (n @ ''.theme'')) = Module_denied)"

definition heard :: "(string \<Rightarrow> rom_module) \<Rightarrow> rom list \<Rightarrow> rom list" where
  "heard roms rs = takeWhile (\<lambda>r. \<not> denied roms r) rs"

lemma length_active: "read_active_theme r = Some n \<Longrightarrow> length n < 64"
  by (auto simp: read_active_theme_def attr_str_def gstr_def split: rom.splits option.splits)

lemma resolve_content:
  "roms (gstr 96 (name @ ''.theme'')) \<noteq> Module_denied \<Longrightarrow> resolve_and_publish roms name s = (case theme_content roms name of
     None \<Rightarrow> (False, s) | Some b \<Rightarrow> (True, publish_theme name b s))"
  by (simp add: resolve_and_publish_def theme_content_def split: rom_module.split)

lemma denied_content: "roms (gstr 96 (name @ ''.theme'')) = Module_denied \<Longrightarrow> theme_content roms name = None"
  by (simp add: theme_content_def)

lemma remdups_adj_snoc:
  "remdups_adj (xs @ [x]) = (if xs \<noteq> [] \<and> last xs = x then remdups_adj xs else remdups_adj xs @ [x])"
  by (induction xs rule: remdups_adj.induct) auto

text \<open>
  The state after a list of broadcasts: awake or not, the reports of the contract, and the name of the
  last one (the empty name before the first).
\<close>

definition themed_rel :: "(string \<Rightarrow> rom_module) \<Rightarrow> rom list \<Rightarrow> themed \<Rightarrow> bool" where
  "themed_rel roms rs s \<longleftrightarrow> (themed_asleep s \<longleftrightarrow> heard roms rs \<noteq> rs) \<and> theme_out s = themed_spec roms (heard roms rs)
     \<and> published_name s = (if active_names roms (heard roms rs) = [] then [] else last (active_names roms (heard roms rs)))"

lemma active_names_snoc:
  "active_names roms (rs @ [r]) = active_names roms rs
     @ (case read_active_theme r of None \<Rightarrow> [] | Some n \<Rightarrow> if theme_content roms n = None then [] else [n])"
  by (simp add: active_names_def List.map_filter_def split: option.split)

lemma active_names_content: "n \<in> set (active_names roms rs) \<Longrightarrow> theme_content roms n \<noteq> None"
  by (simp add: active_names_def)

lemma heard_snoc: "heard roms (rs @ [r]) = (if heard roms rs = rs \<and> \<not> denied roms r then rs @ [r] else heard roms rs)"
  by (induction rs) (auto simp: heard_def)

lemma heard_short: "heard roms rs \<noteq> rs @ [r]"
proof -
  have "length (heard roms rs) \<le> length rs" unfolding heard_def by (rule length_takeWhile_le)
  then show ?thesis by (metis length_append_singleton not_less_eq_eq order_refl)
qed

definition no_empty_theme :: "(string \<Rightarrow> rom_module) \<Rightarrow> bool" where
  "no_empty_theme roms \<longleftrightarrow> theme_content roms [] = None \<and> roms ''.theme'' \<noteq> Module_denied"

lemma themed_rel_step:
  assumes "no_empty_theme roms" and "themed_rel roms rs s"
  shows "themed_rel roms (rs @ [r]) (themed_handle_config roms r s)"
proof (cases "themed_asleep s")
  case True
  then have "heard roms rs \<noteq> rs" using assms(2) by (simp add: themed_rel_def)
  then have "heard roms (rs @ [r]) = heard roms rs" by (simp add: heard_snoc)
  then show ?thesis using True assms(2) heard_short [of roms rs r]
    by (simp add: themed_rel_def themed_handle_config_def)
next
  case awake: False
  then have h: "heard roms rs = rs" using assms(2) by (simp add: themed_rel_def)
  have p: "theme_out s = themed_spec roms rs"
    "published_name s = (if active_names roms rs = [] then [] else last (active_names roms rs))"
    using assms(2) by (simp_all add: themed_rel_def h)
  show ?thesis
  proof (cases "read_active_theme r")
    case None
    then have "heard roms (rs @ [r]) = rs @ [r]" by (simp add: heard_snoc h denied_def)
    then show ?thesis using None p awake
      by (simp add: themed_rel_def themed_handle_config_def active_names_snoc themed_spec_def)
  next
    case (Some n)
    have l: "gstr 64 n = n" using length_active [OF Some] by simp
    show ?thesis
    proof (cases "roms (gstr 96 (n @ ''.theme'')) = Module_denied")
      case True
      then have "n \<noteq> []" using assms(1) by (auto simp: no_empty_theme_def gstr_def)
      moreover have "n \<notin> set (active_names roms rs)" using active_names_content denied_content [where name = n and roms = roms, OF True] by blast
      ultimately have "published_name s \<noteq> n" using p(2) by (auto split: if_splits)
      then have "themed_handle_config roms r s = s\<lparr>themed_asleep := True\<rparr>"
        using awake Some True by (simp add: themed_handle_config_def resolve_and_publish_def)
      moreover have "heard roms (rs @ [r]) = rs" using True Some by (simp add: heard_snoc h denied_def)
      ultimately show ?thesis using p by (simp add: themed_rel_def)
    next
      case granted: False
      then have hs: "heard roms (rs @ [r]) = rs @ [r]" using Some by (simp add: heard_snoc h denied_def)
      note rc = resolve_content [where name = n and roms = roms, OF granted]
      show ?thesis
      proof (cases "theme_content roms n")
        case None
        then have "themed_handle_config roms r s = s" using Some awake rc by (simp add: themed_handle_config_def)
        then show ?thesis using None p Some awake hs
          by (simp add: themed_rel_def active_names_snoc themed_spec_def)
      next
        case c: (Some b)
        then have ne: "n \<noteq> []" using assms(1) by (auto simp: no_empty_theme_def)
        have a: "active_names roms (rs @ [r]) = active_names roms rs @ [n]"
          using Some c by (simp add: active_names_snoc)
        show ?thesis
        proof (cases "published_name s = n")
          case True
          then have "active_names roms rs \<noteq> []" "last (active_names roms rs) = n"
            using ne p(2) by (auto split: if_splits)
          then show ?thesis using True p Some a awake hs
            by (simp add: themed_rel_def themed_handle_config_def themed_spec_def remdups_adj_snoc)
        next
          case False
          then have "\<not> (active_names roms rs \<noteq> [] \<and> last (active_names roms rs) = n)"
            using p(2) by auto
          then have "remdups_adj (active_names roms (rs @ [r])) = remdups_adj (active_names roms rs) @ [n]"
            using a by (simp add: remdups_adj_snoc)
          then show ?thesis using False p Some c a l awake hs
            by (simp add: themed_rel_def themed_handle_config_def themed_spec_def rc publish_theme_def)
        qed
      qed
    qed
  qed
qed

lemma themed_rel_start:
  assumes "no_empty_theme roms"
  shows "themed_rel roms [r] (themed_construct roms r)"
proof -
  let ?s = "\<lparr>published_name = [], theme_out = [], themed_asleep = False\<rparr>"
  have "themed_rel roms [] ?s" by (simp add: themed_rel_def heard_def themed_spec_def active_names_def List.map_filter_def)
  from themed_rel_step [OF assms this, of r]
  have "themed_rel roms [r] (themed_handle_config roms r ?s)" by simp
  moreover have "resolve_and_publish roms [] ?s = (False, ?s)"
    using assms by (simp add: no_empty_theme_def resolve_content gstr_def)
  then have "themed_construct roms r = themed_handle_config roms r ?s"
    by (auto simp: themed_construct_def themed_handle_config_def split: option.split)
  ultimately show ?thesis by simp
qed

lemma themed_rel_run:
  "no_empty_theme roms \<Longrightarrow> themed_rel roms rs s
    \<Longrightarrow> themed_rel roms (rs @ rs') (run (themed_handle_config roms) s rs')"
proof (induction rs' arbitrary: rs s)
  case (Cons r rs')
  from Cons.IH [OF Cons.prems(1) themed_rel_step [OF Cons.prems]] show ?case by simp
qed simp

text \<open>
  C18: the reports of the theme daemon refine the contract. After any sequence of broadcasts the
  reports it has published are exactly the resolvable active themes in order, each once per change
  of the name, with the content of their modules; broadcasts that do not change the theme, name a
  theme whose module is empty, invalid or fails to open, or lack the key publish nothing. This holds up
  to the first broadcast that names a theme whose module the parent denies: from there on the daemon
  sleeps and never publishes again. The one assumption is that a module whose name is just \<open>.theme\<close> is
  not denied and has no content, as under the catch-all route of the run scripts.
\<close>

theorem themed_refines_spec:
  assumes "no_empty_theme roms"
  defines "s \<equiv> \<lambda>r rs. run (themed_handle_config roms) (themed_construct roms r) rs"
  shows "theme_out (s r rs) = themed_spec roms (heard roms (r # rs))
    \<and> (themed_asleep (s r rs) \<longleftrightarrow> (\<exists>q \<in> set (r # rs). denied roms q))"
proof -
  have "themed_rel roms (r # rs) (s r rs)"
    using themed_rel_run [OF assms(1) themed_rel_start [OF assms(1)], of r rs] by (simp add: s_def)
  moreover have "heard roms qs \<noteq> qs \<longleftrightarrow> (\<exists>q \<in> set qs. denied roms q)" for qs
    by (auto simp: heard_def takeWhile_eq_all_conv)
  ultimately show ?thesis by (simp only: themed_rel_def)
qed

text \<open>A boot image with two themes, one of them padded, and an empty one.\<close>

definition demo_roms :: "string \<Rightarrow> rom_module" where
  "demo_roms n = (if n = ''default.theme'' then Module_bytes ''[metadata]'' else if n = ''light.theme''
     then Module_bytes (''[panel]'' @ [NUL, NUL]) else if n = ''empty.theme'' then Module_bytes [NUL]
     else if n = ''gone.theme'' then Module_denied else Module_invalid)"

definition demo_broadcast :: "string \<Rightarrow> rom" where
  "demo_broadcast v = Rom_node (node ''config'' []
     [key_node ''clock.format'' ''HH:mm'', key_node ''theme.active'' v])"

theorem themed_refines_spec_witness:
  "theme_out (run (themed_handle_config demo_roms) (themed_construct demo_roms (demo_broadcast ''default''))
     [demo_broadcast ''default'', demo_broadcast ''typo'', demo_broadcast ''light'', demo_broadcast ''gone'', demo_broadcast ''default''])
   = [theme_report ''default'' ''[metadata]'', theme_report ''light'' ''[panel]'']"
proof -
  have e: "no_empty_theme demo_roms" by (simp add: no_empty_theme_def theme_content_def demo_roms_def gstr_def)
  let ?rs = "[demo_broadcast ''default'', demo_broadcast ''typo'', demo_broadcast ''light'', demo_broadcast ''gone'', demo_broadcast ''default'']"
  have "themed_spec demo_roms (heard demo_roms (demo_broadcast ''default'' # ?rs))
    = [theme_report ''default'' ''[metadata]'', theme_report ''light'' ''[panel]'']" by code_simp
  then show ?thesis using themed_refines_spec [OF e, of "demo_broadcast ''default''" ?rs] by simp
qed

section \<open>Applying a theme\<close>

lemma handle_config_view:
  assumes "first_key x ''theme.active'' = Some (key_node ''theme.active'' v)" and "length v < 64"
    and "\<not> themed_asleep t" and "roms (gstr 96 (v @ ''.theme'')) \<noteq> Module_denied"
  shows "themed_handle_config roms (Rom_node x) t =
    (if published_name t = v then t else case theme_content roms v of
       None \<Rightarrow> t | Some c \<Rightarrow> t\<lparr>theme_out := theme_out t @ [theme_report v c], published_name := v\<rparr>)"
proof -
  have "read_active_theme (Rom_node x) = Some v"
    using assms by (simp add: read_active_theme_def attr_str_def)
  then show ?thesis using assms(2,3) resolve_content [where name = v and roms = roms, OF assms(4)]
    by (simp add: themed_handle_config_def publish_theme_def split: option.split)
qed

text \<open>
  Applying a theme through both daemons. When \<open>sponge_configd\<close> accepts a write of
  \<open>theme.active\<close> and its store does not keep it waiting, it broadcasts exactly once, and the theme
  daemon reacts to that broadcast with one report of the named theme and its content; it publishes
  nothing when that theme is already published or has no content, and then keeps the old one.
\<close>

theorem theme_apply_end_to_end:
  assumes "lengths.good s" and "writable s ''theme.active''" and "length v < 64"
    and "value_valid G (key_def_of ''theme.active'') v = None"
    and "\<not> cfg_blocked (do_set G ''theme.active'' v io roms s)"
    and "\<not> themed_asleep t" and "mods (gstr 96 (v @ ''.theme'')) \<noteq> Module_denied"
  shows "\<exists>pre x post. cfg_out (do_set G ''theme.active'' v io roms s) = cfg_out s @ pre @ Broadcast x # post
    \<and> (\<forall>o' y. o' \<in> set (pre @ post) \<longrightarrow> o' \<noteq> Broadcast y)
    \<and> themed_handle_config mods (Rom_node x) t =
        (if published_name t = v then t else case theme_content mods v of
           None \<Rightarrow> t | Some c \<Rightarrow> t\<lparr>theme_out := theme_out t @ [theme_report v c], published_name := v\<rparr>)"
proof -
  have b: "''theme.active'' \<notin> bake_keys" and v: "length v < 128" using assms(3) by simp_all
  obtain pre x post where o: "cfg_out (do_set G ''theme.active'' v io roms s) = cfg_out s @ pre @ Broadcast x # post"
    "\<And>o'. o' \<in> set (pre @ post) \<Longrightarrow> \<forall>y. o' \<noteq> Broadcast y"
    "\<And>k w. length k < 64 \<Longrightarrow> ((cfg_lookup s)(''theme.active'' \<mapsto> v)) k = Some w
       \<Longrightarrow> first_key x k = Some (key_node k w)"
    using accepted_set_broadcast [OF assms(1) b assms(2) v assms(4,5)] by blast
  have "first_key x ''theme.active'' = Some (key_node ''theme.active'' v)" by (rule o(3)) simp_all
  from handle_config_view [where roms = mods, OF this assms(3,6,7)] show ?thesis using o(1,2) by blast
qed

theorem theme_apply_end_to_end_witness:
  "\<exists>pre x post. cfg_out (do_set bare_genode ''theme.active'' ''light'' (ce_save quiet_env) None fresh_cfg)
      = cfg_out fresh_cfg @ pre @ Broadcast x # post
    \<and> theme_out (themed_handle_config demo_roms (Rom_node x) \<lparr>published_name = ''default'', theme_out = [], themed_asleep = False\<rparr>)
        = [theme_report ''light'' ''[panel]'']"
proof -
  have k: "find_key ''theme.active'' = Some 13" by code_simp
  have i: "instantiated fresh_cfg = []" "store_enabled fresh_cfg = False" "cfg_blocked fresh_cfg = False"
    by (simp_all add: fresh_cfg_def fill_defaults_def cfg_init_def)
  have w: "writable fresh_cfg ''theme.active''" by (simp add: writable_def k i)
  have v: "value_valid bare_genode (key_def_of ''theme.active'') ''light'' = None"
    by (simp add: key_def_of_def k value_valid_def registry_def)
  obtain s1 where "do_set bare_genode ''theme.active'' ''light'' (ce_save quiet_env) None fresh_cfg
      = publish_set ''theme.active'' ''light'' (ce_save quiet_env) s1"
    and "store_enabled s1 = store_enabled fresh_cfg" and "cfg_blocked s1 = cfg_blocked fresh_cfg"
    using set_accepted [OF fresh_cfg_good _ w _ v, of "ce_save quiet_env" None] by auto
  then have nb: "\<not> cfg_blocked (do_set bare_genode ''theme.active'' ''light'' (ce_save quiet_env) None fresh_cfg)"
    using i by (simp add: publish_set_def unless_blocked_def save_store_def report_defs)
  have c: "theme_content demo_roms ''light'' = Some ''[panel]''" by code_simp
  then have g: "demo_roms (gstr 96 (''light'' @ ''.theme'')) \<noteq> Module_denied" by (auto simp: theme_content_def)
  obtain pre x post where o: "cfg_out (do_set bare_genode ''theme.active'' ''light'' (ce_save quiet_env) None fresh_cfg)
      = cfg_out fresh_cfg @ pre @ Broadcast x # post"
    and t: "themed_handle_config demo_roms (Rom_node x) \<lparr>published_name = ''default'', theme_out = [], themed_asleep = False\<rparr>
      = \<lparr>published_name = ''light'', theme_out = [theme_report ''light'' ''[panel]''], themed_asleep = False\<rparr>"
    using theme_apply_end_to_end [where mods = demo_roms and t = "\<lparr>published_name = ''default'', theme_out = [], themed_asleep = False\<rparr>",
        OF fresh_cfg_good w _ v nb _ g] c by auto
  show ?thesis by (intro exI conjI, rule o) (simp add: t)
qed

end
