(* ===== verification/Decorator_Bridge.thy ===== *)
theory Decorator_Bridge
  imports Genode_Iface Machine
begin

text \<open>
  \<open>sponge_decorator_bridge/main.cc\<close>: the component that derives the configuration of the window
  decorator from the theme that \<open>sponge_themed\<close> publishes. The scanner of the theme text, the
  handler and the generated configuration. A position in the text is the list of the characters from
  there to the end of the buffer, the terminating zero included. Log lines are left out.
\<close>

section \<open>State\<close>

record bridge =
  last_color :: string
  deco_out :: "xml list"

section \<open>Scanning the theme\<close>

definition in_line :: "char \<Rightarrow> bool" where
  "in_line c \<longleftrightarrow> c \<noteq> NL \<and> c \<noteq> CR"

definition tab_or_sp :: "char \<Rightarrow> bool" where
  "tab_or_sp c \<longleftrightarrow> c = SP \<or> c = TAB"

text \<open>One carriage return, then one newline.\<close>

definition skip_one :: "char \<Rightarrow> string \<Rightarrow> string" where
  "skip_one c l = (case l of [] \<Rightarrow> [] | x # xs \<Rightarrow> if x = c then xs else l)"

definition skip_eol :: "string \<Rightarrow> string" where
  "skip_eol l = skip_one NL (skip_one CR l)"

text \<open>
  \<open>header_section\<close> is the section after a line whose text after the bracket is \<open>tag\<close>, given the
  characters \<open>ptr\<close> from there to the end of the buffer; \<open>color_entry\<close> the value found in a line of
  the colors section, given the rest of that line and of the buffer.
\<close>

definition header_section :: "'a genode_scheme \<Rightarrow> bool \<Rightarrow> string \<Rightarrow> string \<Rightarrow> bool" where
  "header_section G colors tag ptr =
     (let name = takeWhile (\<lambda>c. c \<noteq> CHR '']'') tag
      in if length name < length tag then range_string G 32 ptr (length name) = ''colors'' else colors)"

definition color_entry :: "'a str_genode_scheme \<Rightarrow> string \<Rightarrow> string \<Rightarrow> string option" where
  "color_entry G s ptr =
     (let k = takeWhile (\<lambda>c. c \<noteq> CHR ''='' \<and> \<not> tab_or_sp c) s;
          key = range_string G 32 ptr (length k);
          s1 = dropWhile tab_or_sp (drop (length k) s);
          s2 = dropWhile tab_or_sp (if s1 \<noteq> [] \<and> hd s1 = CHR ''='' then tl s1 else s1);
          v = rev (dropWhile (\<lambda>c. tab_or_sp c \<or> c = CR) (rev s2));
          val = range_string G 16 (drop (length s - length s2) ptr) (length v)
      in if key = ''panel_bg'' \<and> 0 < str_length G (Some val) then Some val else None)"

lemma length_skip_one: "length (skip_one c l) \<le> length l"
  by (auto simp: skip_one_def split: list.split)

lemma skip_eol_shrinks: "l \<noteq> [] \<Longrightarrow> length (skip_eol (drop (length (takeWhile in_line l)) l)) < length l"
proof (cases "takeWhile in_line l")
  case Nil
  assume "l \<noteq> []"
  then obtain x xs where l: "l = x # xs" by (cases l) auto
  then have "x = NL \<or> x = CR" using Nil by (auto simp: in_line_def split: if_splits)
  then show ?thesis using Nil l length_skip_one [of NL xs] by (auto simp: skip_eol_def skip_one_def)
next
  case (Cons c cs)
  let ?r = "drop (length (takeWhile in_line l)) l"
  have "length (skip_eol ?r) \<le> length ?r"
    unfolding skip_eol_def using length_skip_one le_trans by blast
  moreover have "length ?r < length l" using Cons by (cases l) auto
  ultimately show ?thesis by simp
qed

function scan_theme :: "'a str_genode_scheme \<Rightarrow> bool \<Rightarrow> string \<Rightarrow> string option" where
  "scan_theme G colors l =
     (if l = [] then None
      else
        let raw = takeWhile in_line l;
            s = dropWhile tab_or_sp raw;
            ptr = drop (length raw - length s) l;
            rest = skip_eol (drop (length raw) l)
        in if s = [] \<or> hd s = CHR ''#'' \<or> hd s = CHR '';'' then scan_theme G colors rest
           else if hd s = CHR ''['' then scan_theme G (header_section G colors (tl s) (tl ptr)) rest
           else if colors then
             (case color_entry G s ptr of Some c \<Rightarrow> Some c | None \<Rightarrow> scan_theme G colors rest)
           else scan_theme G colors rest)"
  by pat_completeness auto

termination
  by (relation "measure (\<lambda>(G, colors, l). length l)") (auto intro: skip_eol_shrinks)

declare scan_theme.simps [simp del]

text \<open>The buffer of the text: its characters and as many of the terminating zero as the length counts.\<close>

definition read_panel_bg :: "'a str_genode_scheme \<Rightarrow> rom \<Rightarrow> string option" where
  "read_panel_bg G r =
     (case r of
        Rom_node root \<Rightarrow>
          (if has_type root ''theme''
           then let ini = cstr (gstr 8192 (content root))
                in scan_theme G False (take (str_length G (Some ini)) (ini @ [NUL]))
           else None)
      | _ \<Rightarrow> None)"

section \<open>Publishing\<close>

definition decorator_config :: "string \<Rightarrow> xml" where
  "decorator_config color = node ''config'' []
     [leaf ''libc'' [(''stdout'', ''/dev/log''), (''stderr'', ''/dev/log'')],
      node ''vfs'' [] [node ''dir'' [(''name'', ''dev'')] [leaf ''log'' []],
                       leaf ''tar'' [(''name'', ''decor.tar'')]],
      leaf ''policy'' [(''label_prefix'', []), (''decoration'', ''yes''), (''motion'', ''1''), (''color'', color)],
      leaf ''default-policy'' [(''decoration'', ''yes''), (''motion'', ''1''), (''color'', color)]]"

definition publish_config :: "string \<Rightarrow> bridge \<Rightarrow> bridge" where
  "publish_config color s = s\<lparr>deco_out := deco_out s @ [decorator_config color]\<rparr>"

definition publish_fallback :: "bridge \<Rightarrow> bridge" where
  "publish_fallback = publish_config ''#1e1e2e''"

definition handle_theme :: "'a str_genode_scheme \<Rightarrow> rom \<Rightarrow> bridge \<Rightarrow> bridge" where
  "handle_theme G r s =
     (case read_panel_bg G r of
        None \<Rightarrow> if last_color s = [] then publish_fallback s else s
      | Some c \<Rightarrow> if c = last_color s then s else publish_config c (s\<lparr>last_color := c\<rparr>))"

definition bridge_construct :: "'a str_genode_scheme \<Rightarrow> rom \<Rightarrow> bridge" where
  "bridge_construct G r = handle_theme G r \<lparr>last_color = [], deco_out = []\<rparr>"

section \<open>What the decorator sees\<close>

text \<open>
  A name built from a range contains what follows the range. The name of a section header is
  followed by its closing bracket, so it never equals a name without one.
\<close>

lemma range_string_misses:
  assumes "ptr = name @ CHR '']'' # r" and "NUL \<notin> set name" and "CHR '']'' \<notin> set w" and "length w < 31"
  shows "range_string G 32 ptr n \<noteq> w"
proof
  assume e: "range_string G 32 ptr n = w"
  then have w: "w = cstr ptr @ print_nat G n"
    using assms(4) by (auto simp: range_string_def gstr_def min_def split: if_splits)
  have "cstr ptr = name @ CHR '']'' # cstr r" using assms(1,2) by (auto simp: cstr_def takeWhile_append)
  then show False using w assms(3) by simp
qed

text \<open>Only the end of the buffer holds a zero.\<close>

definition zero_ended :: "string \<Rightarrow> bool" where
  "zero_ended l \<longleftrightarrow> NUL \<notin> set (butlast l)"

lemma zero_ended_suffix: "zero_ended (a @ b) \<Longrightarrow> zero_ended b"
  by (cases "b = []") (auto simp: zero_ended_def butlast_append)

lemma zero_ended_drop: "zero_ended l \<Longrightarrow> zero_ended (drop n l)"
  using zero_ended_suffix [of "take n l" "drop n l"] by simp

lemma zero_ended_skip_one: "zero_ended l \<Longrightarrow> zero_ended (skip_one c l)"
  using zero_ended_drop [of l 1] by (cases l) (simp_all add: skip_one_def)

lemma zero_ended_skip: "zero_ended l \<Longrightarrow> zero_ended (skip_eol l)"
  by (simp add: skip_eol_def zero_ended_skip_one)

lemma zero_ended_before: "zero_ended (n @ c # r) \<Longrightarrow> c \<noteq> NUL \<Longrightarrow> NUL \<notin> set n"
  by (auto simp: zero_ended_def butlast_append)

lemma header_never_colors:
  assumes "zero_ended l" and "prefix tag l"
  shows "\<not> header_section G False tag l"
proof (cases "length (takeWhile (\<lambda>c. c \<noteq> CHR '']'') tag) < length tag")
  case True
  define n where "n = takeWhile (\<lambda>c. c \<noteq> CHR '']'') tag"
  define d where "d = dropWhile (\<lambda>c. c \<noteq> CHR '']'') tag"
  have t: "tag = n @ d" by (simp add: n_def d_def)
  then have "d \<noteq> []" using True by (auto simp: n_def)
  moreover from this have "hd d = CHR '']''" unfolding d_def using hd_dropWhile by blast
  ultimately obtain r where "d = CHR '']'' # r" by (cases d) auto
  moreover obtain q where "l = tag @ q" using assms(2) by (auto simp: prefix_def)
  ultimately have l: "l = n @ CHR '']'' # (r @ q)" using t by simp
  have "NUL \<notin> set n" using assms(1) l zero_ended_before [of n "CHR '']''" "r @ q"] by simp
  then have "range_string G 32 l (length n) \<noteq> ''colors''" by (intro range_string_misses [OF l]) simp_all
  then show ?thesis by (simp add: header_section_def n_def)
qed (simp add: header_section_def)

lemma trimmed_prefix:
  "prefix (dropWhile p (takeWhile q l)) (drop (length (takeWhile q l) - length (dropWhile p (takeWhile q l))) l)"
proof -
  define raw where "raw = takeWhile q l"
  have r: "raw = take (length raw) l" unfolding raw_def by (rule takeWhile_eq_take)
  have k: "length raw - length (dropWhile p raw) = length (takeWhile p raw)"
  proof -
    have "length (takeWhile p raw) + length (dropWhile p raw) = length raw"
      by (simp only: length_append [symmetric] takeWhile_dropWhile_id)
    then show ?thesis by simp
  qed
  have "dropWhile p raw = drop (length (takeWhile p raw)) raw" by (rule dropWhile_eq_drop)
  also have "\<dots> = take (length raw - length (takeWhile p raw)) (drop (length (takeWhile p raw)) l)"
    by (subst r) (simp only: drop_take)
  finally show ?thesis using k take_is_prefix by (metis raw_def)
qed

lemma prefix_tl: "prefix xs ys \<Longrightarrow> prefix (tl xs) (tl ys)"
  by (cases xs) (auto simp: prefix_def)

lemma scan_theme_no_color: "zero_ended l \<Longrightarrow> scan_theme G False l = None"
proof (induction "length l" arbitrary: l rule: less_induct)
  case less
  let ?raw = "takeWhile in_line l" and ?rest = "skip_eol (drop (length (takeWhile in_line l)) l)"
  let ?s = "dropWhile tab_or_sp ?raw"
  let ?ptr = "drop (length ?raw - length ?s) l"
  have z: "zero_ended ?rest" using less.prems by (intro zero_ended_skip zero_ended_drop)
  have r: "l \<noteq> [] \<Longrightarrow> scan_theme G False ?rest = None" using less.hyps [OF skip_eol_shrinks z] .
  have "\<not> header_section G False (tl ?s) (tl ?ptr)"
  proof (rule header_never_colors)
    show "zero_ended (tl ?ptr)" using zero_ended_drop [OF zero_ended_drop [OF less.prems], of 1 "length ?raw - length ?s"]
      by (simp only: drop_Suc drop_0 One_nat_def)
    show "prefix (tl ?s) (tl ?ptr)" by (rule prefix_tl) (rule trimmed_prefix)
  qed
  then show ?case using r by (subst scan_theme.simps) (simp add: Let_def)
qed

lemma read_panel_bg_None: "read_panel_bg G r = None"
proof -
  have "zero_ended (take n (cstr s @ [NUL]))" for n s
  proof -
    have "NUL \<notin> set (cstr s)" unfolding cstr_def by (auto dest: set_takeWhileD)
    then show ?thesis
      by (cases "n \<le> length (cstr s)") (auto simp: zero_ended_def butlast_append dest!: in_set_butlastD in_set_takeD)
  qed
  then show ?thesis by (auto simp: read_panel_bg_def Let_def scan_theme_no_color split: rom.split)
qed

text \<open>
  C38: the bridge never follows a theme. Whatever themes are published to it, it emits one and the
  same configuration, with the built-in color, at its start and at every signal. The name of a
  section header is taken from the header to the end of the text, so the colors section is never
  recognised and no entry of a theme is ever read.
\<close>

theorem bridge_never_follows_theme:
  "deco_out (run (handle_theme G) (bridge_construct G r) rs)
    = replicate (Suc (length rs)) (decorator_config ''#1e1e2e'')"
proof -
  have h: "last_color s = [] \<Longrightarrow> handle_theme G r s = publish_fallback s" for r s
    by (simp add: handle_theme_def read_panel_bg_None)
  have "last_color s = [] \<Longrightarrow> deco_out (run (handle_theme G) s rs)
      = deco_out s @ replicate (length rs) (decorator_config ''#1e1e2e'')" for s
    by (induction rs arbitrary: s) (simp_all add: h publish_fallback_def publish_config_def)
  then show ?thesis by (simp add: bridge_construct_def h publish_fallback_def publish_config_def)
qed

end
