(* ===== verification/Lz_Watch.thy ===== *)
theory Lz_Watch
  imports Configd Machine
begin

text \<open>
  \<open>lz_watch/main.cc\<close>: the watcher of the model files of the expert subsystem, which reports whether
  they differ from a baseline and puts the baseline back on request. One file is watched, as in the
  code. The component never returns from its poll loop, so the requests are those the loop finds in
  the ROM. The state holds the watched file; others write it between the passes of the loop. Log
  lines are left out.
\<close>

section \<open>State\<close>

abbreviation MAX_FILE :: nat where "MAX_FILE \<equiv> 8192"
abbreviation WATCHED_FILE :: string where "WATCHED_FILE \<equiv> ''deploy''"

datatype lz_out = Model_report xml | Watch_result xml

record lzw =
  model_file :: "string option"
  baseline :: string
  have_baseline :: bool
  lz_out :: "lz_out list"

text \<open>
  What the file system answers in one pass: whether the file can be opened for reading and for
  writing.
\<close>

record lz_fs =
  fs_readable :: bool
  fs_writable :: bool

section \<open>Operations\<close>

text \<open>A file that is missing, empty, larger than the buffer or not readable reads as empty.\<close>

definition read_file :: "lz_fs \<Rightarrow> lzw \<Rightarrow> string" where
  "read_file fs s =
     (case model_file s of
        None \<Rightarrow> []
      | Some c \<Rightarrow> if c = [] \<or> MAX_FILE < length c then [] else if fs_readable fs then c else [])"

definition take_snapshot :: "lz_fs \<Rightarrow> lzw \<Rightarrow> lzw" where
  "take_snapshot fs s = s\<lparr>baseline := read_file fs s\<rparr>"

definition file_changed :: "lz_fs \<Rightarrow> lzw \<Rightarrow> bool" where
  "file_changed fs s \<longleftrightarrow>
     (let cur = read_file fs s
      in length cur \<noteq> length (baseline s) \<or> take (length cur) cur \<noteq> take (length cur) (baseline s))"

definition revert :: "lz_fs \<Rightarrow> lzw \<Rightarrow> lzw" where
  "revert fs s = (if fs_writable fs then s\<lparr>model_file := Some (baseline s)\<rparr> else s)"

definition lz_model_xml :: "lz_fs \<Rightarrow> lzw \<Rightarrow> xml" where
  "lz_model_xml fs s =
     (let ch = have_baseline s \<and> file_changed fs s; v = (if ch then ''true'' else ''false'')
      in node ''lz_model'' [(''diverged'', v)] [leaf ''file'' [(''name'', WATCHED_FILE), (''changed'', v)]])"

definition emit_model :: "lz_fs \<Rightarrow> lzw \<Rightarrow> lzw" where
  "emit_model fs s = s\<lparr>lz_out := lz_out s @ [Model_report (lz_model_xml fs s)]\<rparr>"

definition emit_result :: "string \<Rightarrow> string \<Rightarrow> lzw \<Rightarrow> lzw" where
  "emit_result op status s =
     s\<lparr>lz_out := lz_out s @ [Watch_result (leaf ''result'' [(''op'', op), (''status'', status)])]\<rparr>"

text \<open>\<open>Attached_rom_dataspace::xml\<close> yields an empty node for a text that is no document.\<close>

definition lz_handle_request :: "lz_fs \<Rightarrow> rom \<Rightarrow> lzw \<Rightarrow> lzw" where
  "lz_handle_request fs r s =
     (case r of
        Rom_invalid \<Rightarrow> s
      | _ \<Rightarrow>
          (let op = (case r of Rom_node x \<Rightarrow> attr_str 16 x ''op'' | _ \<Rightarrow> [])
           in if op = ''snapshot'' then emit_result ''snapshot'' ''ok'' (emit_model fs (take_snapshot fs s))
              else if op = ''revert'' then emit_result ''revert'' ''ok'' (emit_model fs (revert fs s))
              else emit_result op ''error: unknown op'' s))"

text \<open>
  One pass of the loop, after its sleep: what the file holds by then, what the file system and the
  ROM answer, and the number of the pass.
\<close>

record lz_pass =
  ps_file :: "string option"
  ps_fs :: lz_fs
  ps_req :: rom

definition poll_pass :: "u32 \<Rightarrow> lz_pass \<Rightarrow> lzw \<Rightarrow> lzw" where
  "poll_pass i p s =
     (let s = lz_handle_request (ps_fs p) (ps_req p) (s\<lparr>model_file := ps_file p\<rparr>)
      in if i mod 3 = 0 then emit_model (ps_fs p) s else s)"

fun poll_loop :: "u32 \<Rightarrow> lz_pass list \<Rightarrow> lzw \<Rightarrow> lzw" where
  "poll_loop i [] s = s"
| "poll_loop i (p # ps) s = poll_loop (i + 1) ps (poll_pass i p s)"

definition lz_construct :: "lz_fs \<Rightarrow> string option \<Rightarrow> lzw" where
  "lz_construct fs f =
     emit_model fs ((take_snapshot fs \<lparr>model_file = f, baseline = [], have_baseline = False, lz_out = []\<rparr>)
       \<lparr>have_baseline := True\<rparr>)"

section \<open>Facts\<close>

lemma file_changed_iff: "file_changed fs s \<longleftrightarrow> read_file fs s \<noteq> baseline s"
  by (auto simp: file_changed_def Let_def)

lemma lz_simps [simp]:
  "model_file (emit_model fs s) = model_file s" "baseline (emit_model fs s) = baseline s"
  "have_baseline (emit_model fs s) = have_baseline s"
  "model_file (emit_result op st s) = model_file s" "baseline (emit_result op st s) = baseline s"
  "have_baseline (emit_result op st s) = have_baseline s"
  "model_file (take_snapshot fs s) = model_file s" "baseline (take_snapshot fs s) = read_file fs s"
  "have_baseline (take_snapshot fs s) = have_baseline s"
  "baseline (revert fs s) = baseline s" "have_baseline (revert fs s) = have_baseline s"
  by (simp_all add: emit_model_def emit_result_def take_snapshot_def revert_def)

lemma read_file_fits: "length (read_file fs s) \<le> MAX_FILE"
  by (auto simp: read_file_def split: option.split)

lemma read_file_cong: "model_file s = model_file s' \<Longrightarrow> read_file fs s = read_file fs s'"
  by (simp add: read_file_def)

text \<open>The baseline fits its array, is there from the first report on, and every report is well-formed.\<close>

definition lz_inv :: "lzw \<Rightarrow> bool" where
  "lz_inv s \<longleftrightarrow> length (baseline s) \<le> MAX_FILE \<and> have_baseline s"

interpretation lz: machine "\<lambda>s. \<exists>fs f. s = lz_construct fs f" "\<lambda>(i, p). poll_pass i p" lz_inv
proof unfold_locales
  fix s :: lzw and ip :: "u32 \<times> lz_pass"
  show "\<exists>fs f. s = lz_construct fs f \<Longrightarrow> lz_inv s"
    by (auto simp: lz_construct_def lz_inv_def read_file_fits)
  assume i: "lz_inv s"
  obtain i p where ip: "ip = (i, p)" by fastforce
  have "lz_inv (lz_handle_request fs r s')" if "lz_inv s'" for fs r s'
    using that by (auto simp: lz_inv_def lz_handle_request_def Let_def read_file_fits split: rom.split)
  from this [of "s\<lparr>model_file := ps_file p\<rparr>" "ps_fs p" "ps_req p"] i ip
  show "lz_inv ((case ip of (i, p) \<Rightarrow> poll_pass i p) s)"
    by (simp add: poll_pass_def Let_def lz_inv_def)
qed

text \<open>The loop is a run of its passes.\<close>

lemma poll_loop_run:
  "poll_loop i ps s = run (\<lambda>(i, p). poll_pass i p) s (zip (map (\<lambda>k. i + of_nat k) [0..<length ps]) ps)"
proof (induction ps arbitrary: i s)
  case (Cons p ps)
  have "map (\<lambda>k. i + of_nat k) [0..<length (p # ps)] = i # map (\<lambda>k. i + 1 + of_nat k) [0..<length ps]"
    by (simp add: upt_conv_Cons map_Suc_upt [symmetric] add.assoc del: upt_Suc)
  then show ?case using Cons.IH [of "i + 1"] by simp
qed simp

lemma poll_loop_inv: "lz_inv s \<Longrightarrow> lz_inv (poll_loop i ps s)"
  using lz.run_inv poll_loop_run by simp

lemma poll_loop_append: "poll_loop i (ps @ qs) s = poll_loop (i + of_nat (length ps)) qs (poll_loop i ps s)"
  by (induction ps arbitrary: i s) (simp_all add: add.assoc)

section \<open>Requests that stay in the ROM\<close>

definition rom_op :: "rom \<Rightarrow> string option" where
  "rom_op r = (case r of Rom_invalid \<Rightarrow> None | Rom_malformed \<Rightarrow> Some [] | Rom_node x \<Rightarrow> Some (attr_str 16 x ''op''))"

lemma lz_handle_request_op:
  "lz_handle_request fs r s =
     (case rom_op r of
        None \<Rightarrow> s
      | Some op \<Rightarrow>
          if op = ''snapshot'' then emit_result ''snapshot'' ''ok'' (emit_model fs (take_snapshot fs s))
          else if op = ''revert'' then emit_result ''revert'' ''ok'' (emit_model fs (revert fs s))
          else emit_result op ''error: unknown op'' s)"
  by (simp add: lz_handle_request_def rom_op_def split: rom.split)

lemma pass_snapshot:
  assumes "rom_op (ps_req p) = Some ''snapshot''"
  shows "baseline (poll_pass i p s) = read_file (ps_fs p) (s\<lparr>model_file := ps_file p\<rparr>)"
    and "model_file (poll_pass i p s) = ps_file p"
  using assms by (simp_all add: poll_pass_def Let_def lz_handle_request_op)

lemma pass_revert:
  assumes "rom_op (ps_req p) = Some ''revert''" and "fs_writable (ps_fs p)"
  shows "model_file (poll_pass i p s) = Some (baseline s)" and "baseline (poll_pass i p s) = baseline s"
  using assms by (simp_all add: poll_pass_def Let_def lz_handle_request_op revert_def emit_model_def emit_result_def)

lemma pass_idle:
  assumes "rom_op (ps_req p) \<notin> {Some ''snapshot'', Some ''revert''}"
  shows "baseline (poll_pass i p s) = baseline s" and "model_file (poll_pass i p s) = ps_file p"
  using assms by (auto simp: poll_pass_def Let_def lz_handle_request_op split: option.split)

text \<open>
  What a revert puts back. Whatever others have written since the start, a revert that no
  snapshot preceded leaves the file with the content it had at the start, if that was between one
  byte and the size of the buffer; a file that was missing is left empty, and so is a file that was
  larger, whose content is lost.
\<close>

theorem revert_restores_start:
  assumes "\<forall>p \<in> set ps. rom_op (ps_req p) \<notin> {Some ''snapshot'', Some ''revert''}"
    and "rom_op (ps_req q) = Some ''revert''" and "fs_writable (ps_fs q)" and "fs_readable fs"
  shows "model_file (poll_loop 0 (ps @ [q]) (lz_construct fs f))
    = Some (case f of None \<Rightarrow> [] | Some c \<Rightarrow> if length c \<le> MAX_FILE then c else [])"
proof -
  have "baseline (poll_loop i ps s) = baseline s" for i s
    using assms(1) by (induction ps arbitrary: i s) (simp_all add: pass_idle)
  then show ?thesis using pass_revert(1) [OF assms(2,3)] assms(4)
    by (auto simp: poll_loop_append lz_construct_def read_file_def split: option.split)
qed

definition lz_ok :: lz_fs where "lz_ok = \<lparr>fs_readable = True, fs_writable = True\<rparr>"

definition lz_ask :: "string \<Rightarrow> rom" where "lz_ask op = Rom_node (leaf ''request'' [(''op'', op)])"

theorem revert_restores_start_witness:
  "model_file (poll_loop 0 [\<lparr>ps_file = Some ''edited'', ps_fs = lz_ok, ps_req = Rom_invalid\<rparr>,
       \<lparr>ps_file = None, ps_fs = lz_ok, ps_req = lz_ask ''revert''\<rparr>] (lz_construct lz_ok (Some ''kept'')))
     = Some ''kept''"
  using revert_restores_start [of "[\<lparr>ps_file = Some ''edited'', ps_fs = lz_ok, ps_req = Rom_invalid\<rparr>]"
      "\<lparr>ps_file = None, ps_fs = lz_ok, ps_req = lz_ask ''revert''\<rparr>" lz_ok "Some ''kept''"]
  by (simp add: rom_op_def lz_ask_def attr_str_def lz_ok_def)

text \<open>
  A snapshot request is taken again in every pass while it stays in the ROM, which it does until
  the next request. A later revert therefore does not return to the snapshot: it leaves whatever the
  file held in the last pass before the revert, and edits that are one pass old are kept.
\<close>

theorem revert_keeps_last_poll:
  assumes "\<forall>p \<in> set ks. rom_op (ps_req p) = Some ''snapshot''" and "ks \<noteq> []"
    and "ps_file (last ks) = Some c" and "length c \<le> MAX_FILE" and "fs_readable (ps_fs (last ks))"
    and "rom_op (ps_req q) = Some ''revert''" and "fs_writable (ps_fs q)"
  shows "model_file (poll_loop i (ks @ [q]) s) = Some c"
proof -
  have "baseline (poll_loop i ks s) = c" for i s
    using assms(1-5)
  proof (induction ks arbitrary: i s)
    case (Cons k ks)
    then show ?case
      by (cases "ks = []") (auto simp: pass_snapshot read_file_def)
  qed simp
  then show ?thesis using pass_revert(1) [OF assms(6,7)] by (simp add: poll_loop_append)
qed

theorem revert_keeps_last_poll_witness:
  "model_file (poll_loop 0 [\<lparr>ps_file = Some ''kept'', ps_fs = lz_ok, ps_req = lz_ask ''snapshot''\<rparr>,
       \<lparr>ps_file = Some ''broken'', ps_fs = lz_ok, ps_req = lz_ask ''snapshot''\<rparr>,
       \<lparr>ps_file = Some ''broken'', ps_fs = lz_ok, ps_req = lz_ask ''revert''\<rparr>] (lz_construct lz_ok (Some ''kept'')))
     = Some ''broken''"
  using revert_keeps_last_poll [of "[\<lparr>ps_file = Some ''kept'', ps_fs = lz_ok, ps_req = lz_ask ''snapshot''\<rparr>,
       \<lparr>ps_file = Some ''broken'', ps_fs = lz_ok, ps_req = lz_ask ''snapshot''\<rparr>]" "''broken''"
      "\<lparr>ps_file = Some ''broken'', ps_fs = lz_ok, ps_req = lz_ask ''revert''\<rparr>" 0 "lz_construct lz_ok (Some ''kept'')"]
  by (simp add: rom_op_def lz_ask_def attr_str_def lz_ok_def)

section \<open>The divergence flag of the configuration daemon\<close>

lemma lz_model_flag:
  "cfgd.lz_watch c \<Longrightarrow> lz_diverged (handle_lz_model (Rom_node (lz_model_xml fs s)) c)
     \<longleftrightarrow> have_baseline s \<and> read_file fs s \<noteq> baseline s"
  by (auto simp: handle_lz_model_def lz_model_xml_def Let_def kids_of_type_def attr_str_def file_changed_iff
      generate_broadcast_def cfg_emit_def)

text \<open>
  C39: the divergence reaches the configuration. When no request was made, the report of every third
  pass makes \<open>sponge_configd\<close>, where it watches the model, broadcast \<open>leitzentrale.diverged\<close> as true
  exactly when the file reads differently from the start.
\<close>

theorem divergence_reaches_configd:
  assumes "\<forall>p \<in> set ps. rom_op (ps_req p) = None" and "rom_op (ps_req q) = None"
    and "of_nat (length ps) mod (3 :: u32) = 0" and "cfgd.lz_watch c"
  shows "\<exists>x. last (lz_out (poll_loop 0 (ps @ [q]) (lz_construct fs f))) = Model_report x
    \<and> (lz_diverged (handle_lz_model (Rom_node x) c) \<longleftrightarrow>
         read_file (ps_fs q) (lz_construct fs (ps_file q)) \<noteq> read_file fs (lz_construct fs f))"
proof -
  let ?s = "poll_loop 0 ps (lz_construct fs f)"
  have "lz_inv (lz_construct fs f)" using lz.start_inv by blast
  then have "have_baseline ?s" using poll_loop_inv by (auto simp: lz_inv_def)
  moreover have "baseline (poll_loop i ps s) = baseline s" for i s
    using assms(1) by (induction ps arbitrary: i s) (simp_all add: pass_idle)
  then have "baseline ?s = read_file fs (lz_construct fs f)"
    by (simp add: lz_construct_def read_file_def)
  moreover have "read_file (ps_fs q) (?s\<lparr>model_file := ps_file q\<rparr>) = read_file (ps_fs q) (lz_construct fs (ps_file q))"
    by (rule read_file_cong) (simp add: lz_construct_def)
  ultimately show ?thesis using assms(2,3) lz_model_flag [OF assms(4)]
    by (simp add: poll_loop_append poll_pass_def Let_def lz_handle_request_op emit_model_def)
qed

theorem divergence_reaches_configd_witness:
  "\<exists>x. last (lz_out (poll_loop 0 [\<lparr>ps_file = Some ''edited'', ps_fs = lz_ok, ps_req = Rom_invalid\<rparr>]
        (lz_construct lz_ok (Some ''kept'')))) = Model_report x
    \<and> lz_diverged (handle_lz_model (Rom_node x) (cfg_init\<lparr>lz_watch := True\<rparr>))"
  using divergence_reaches_configd [of "[]" "\<lparr>ps_file = Some ''edited'', ps_fs = lz_ok, ps_req = Rom_invalid\<rparr>"
      "cfg_init\<lparr>lz_watch := True\<rparr>" lz_ok "Some ''kept''"]
  by (simp add: rom_op_def read_file_def lz_construct_def lz_ok_def)

text \<open>
  After a snapshot request no later edit is reported. While the request stays in the ROM every
  report of the watcher says that nothing has changed, and \<open>sponge_configd\<close> never sees a divergence.
\<close>

theorem edits_after_keep_unreported:
  assumes "\<forall>p \<in> set ps. rom_op (ps_req p) = Some ''snapshot''" and "cfgd.lz_watch c"
  shows "\<exists>new. lz_out (poll_loop i ps s) = lz_out s @ new
    \<and> (\<forall>x. Model_report x \<in> set new \<longrightarrow> \<not> lz_diverged (handle_lz_model (Rom_node x) c))"
  using assms(1)
proof (induction ps arbitrary: i s)
  case (Cons p ps)
  let ?t = "take_snapshot (ps_fs p) (s\<lparr>model_file := ps_file p\<rparr>)"
  obtain n where n: "lz_out (poll_pass i p s) = lz_out s @ n"
    "\<forall>x. Model_report x \<in> set n \<longrightarrow> (\<exists>t. x = lz_model_xml (ps_fs p) t \<and> read_file (ps_fs p) t = baseline t)"
  proof -
    have r: "read_file (ps_fs p) t = baseline t" if "model_file t = model_file ?t" "baseline t = baseline ?t" for t
      using that read_file_cong [of t ?t] read_file_cong [of ?t "s\<lparr>model_file := ps_file p\<rparr>"] by simp
    show thesis using Cons.prems
      by (intro that [of "Model_report (lz_model_xml (ps_fs p) ?t)
            # Watch_result (leaf ''result'' [(''op'', ''snapshot''), (''status'', ''ok'')])
            # (if i mod 3 = 0 then [Model_report (lz_model_xml (ps_fs p) (emit_result ''snapshot'' ''ok''
                 (emit_model (ps_fs p) ?t)))] else [])"])
        (auto simp: poll_pass_def Let_def lz_handle_request_op emit_model_def emit_result_def take_snapshot_def
          intro!: exI r)
  qed
  obtain m where m: "lz_out (poll_loop (i + 1) ps (poll_pass i p s)) = lz_out (poll_pass i p s) @ m"
    "\<forall>x. Model_report x \<in> set m \<longrightarrow> \<not> lz_diverged (handle_lz_model (Rom_node x) c)"
    using Cons.IH [of "i + 1" "poll_pass i p s"] Cons.prems by auto
  have "\<not> lz_diverged (handle_lz_model (Rom_node x) c)" if "Model_report x \<in> set n" for x
    using n(2) that lz_model_flag [OF assms(2)] by auto
  then show ?case using n(1) m by (intro exI [of _ "n @ m"]) auto
qed simp

end
