(* ===== verification/Vct_Tty.thy ===== *)
theory Vct_Tty
  imports Vct_Client Machine
begin

text \<open>
  \<open>vct_tty/main.cc\<close>: the terminal session a shell uses to reach the package daemon. Bytes written to
  it are gathered into lines, each line becomes a request, and the answer is put into an output
  buffer that the shell reads back. The session component; the announcement of the service is left
  out. The answers of the daemon are those the polls of the client find, as for \<open>vct\<close>.
\<close>

section \<open>State\<close>

abbreviation IO_BUF_SIZE :: nat where "IO_BUF_SIZE \<equiv> 4096"
abbreviation LINE_LEN :: nat where "LINE_LEN \<equiv> 128"
abbreviation OUT_SIZE :: nat where "OUT_SIZE \<equiv> 4096"

record tty =
  tty_line :: string
  tty_buf :: string
  out_read :: nat
  tty_requests :: nat
  tty_sent :: "xml list"
  read_signals :: nat

definition tty_init :: tty where
  "tty_init = \<lparr>tty_line = [], tty_buf = [], out_read = 0, tty_requests = 0, tty_sent = [], read_signals = 0\<rparr>"

section \<open>Output\<close>

definition emit_char :: "char \<Rightarrow> tty \<Rightarrow> tty" where
  "emit_char c s = (if length (tty_buf s) < OUT_SIZE then s\<lparr>tty_buf := tty_buf s @ [c]\<rparr> else s)"

definition emit_str :: "string \<Rightarrow> tty \<Rightarrow> tty" where
  "emit_str cs s = fold emit_char (cstr cs) s"

definition result_line :: "xml \<Rightarrow> string" where
  "result_line n =
     (let name = attr_str 64 n ''name''; running = attr_str 64 n ''running''
      in if name = [] then []
         else ''  '' @ name @ (if running \<noteq> [] then ''  (running='' @ running @ '')'' else []) @ [NL])"

definition result_text :: "xml \<Rightarrow> string" where
  "result_text r =
     (let status = attr_str 64 r ''status''; op = attr_str 64 r ''op''; pkg = attr_str 64 r ''pkg''
      in ''vct: '' @ op @ (if pkg \<noteq> [] then '' '' @ pkg else []) @ '' -> '' @ status @ [NL]
         @ concat (map result_line (kids r)))"

definition SENTINEL :: string where "SENTINEL = ''=== vct: done ==='' @ [NL]"

definition USAGE :: string where "USAGE = ''usage: vct <explain|install|remove|list> [package]'' @ [NL]"

definition NO_ANSWER :: string where "NO_ANSWER = ''vct: no answer from the package backend (timeout)'' @ [NL]"

definition finish_response :: "tty \<Rightarrow> tty" where
  "finish_response s = (emit_str SENTINEL s)\<lparr>read_signals := Suc (read_signals s)\<rparr>"

section \<open>Input\<close>

text \<open>The answer to the next request, and the request itself.\<close>

definition tty_request :: "(nat \<Rightarrow> nat \<Rightarrow> rom) \<Rightarrow> string \<Rightarrow> string \<Rightarrow> tty \<Rightarrow> xml option \<times> tty" where
  "tty_request ans op pkg s =
     (let as = (''op'', op) # (if pkg = [] then [] else [(''pkg'', pkg)])
      in (fst (poll_from (ans (tty_requests s)) (pkg_match op pkg) 0 60),
          s\<lparr>tty_requests := Suc (tty_requests s), tty_sent := tty_sent s @ [leaf ''request'' as]\<rparr>))"

definition split_line :: "string \<Rightarrow> string \<times> string" where
  "split_line l =
     (let op = takeWhile (\<lambda>c. c \<noteq> SP) l
      in (op, take (LINE_LEN - 1) (dropWhile (\<lambda>c. c = SP) (drop (length op) l))))"

definition process_line :: "(nat \<Rightarrow> nat \<Rightarrow> rom) \<Rightarrow> tty \<Rightarrow> tty" where
  "process_line ans s =
     (let l = cstr (rev (dropWhile (\<lambda>c. c = NL \<or> c = CR) (rev (tty_line s)))); s = s\<lparr>tty_line := []\<rparr>
      in if l = [] then
           finish_response (emit_str USAGE s)
         else
           (let (op, pkg) = split_line l;
                (answer, s) = tty_request ans op pkg s
            in finish_response
                 (case answer of
                    Some r \<Rightarrow> emit_str (result_text r) s
                  | None \<Rightarrow> emit_str NO_ANSWER s)))"

definition tty_char :: "(nat \<Rightarrow> nat \<Rightarrow> rom) \<Rightarrow> char \<Rightarrow> tty \<Rightarrow> tty" where
  "tty_char ans c s =
     (if c = NL \<or> length (tty_line s) = LINE_LEN - 1 then process_line ans s
      else if c \<noteq> CR then s\<lparr>tty_line := tty_line s @ [c]\<rparr>
      else s)"

definition tty_write :: "(nat \<Rightarrow> nat \<Rightarrow> rom) \<Rightarrow> string \<Rightarrow> tty \<Rightarrow> nat \<times> tty" where
  "tty_write ans bytes s =
     (let bytes = take IO_BUF_SIZE bytes in (length bytes, fold (tty_char ans) bytes s))"

definition tty_avail :: "tty \<Rightarrow> bool" where
  "tty_avail s \<longleftrightarrow> out_read s < length (tty_buf s)"

definition tty_read :: "nat \<Rightarrow> tty \<Rightarrow> string \<times> tty" where
  "tty_read n s =
     (let k = min n (length (tty_buf s) - out_read s);
          s' = s\<lparr>out_read := out_read s + k\<rparr>
      in (take k (drop (out_read s) (tty_buf s)),
          if out_read s' = length (tty_buf s') then s'\<lparr>tty_buf := [], out_read := 0\<rparr> else s'))"

section \<open>Facts\<close>

lemma emit_char_simps [simp]:
  "tty_line (emit_char c s) = tty_line s" "out_read (emit_char c s) = out_read s"
  "tty_sent (emit_char c s) = tty_sent s" "tty_requests (emit_char c s) = tty_requests s"
  by (simp_all add: emit_char_def)

lemma emit_str_simps [simp]:
  "tty_line (emit_str cs s) = tty_line s" "out_read (emit_str cs s) = out_read s"
  "tty_sent (emit_str cs s) = tty_sent s" "tty_requests (emit_str cs s) = tty_requests s"
proof -
  have "tty_line (fold emit_char xs s) = tty_line s \<and> out_read (fold emit_char xs s) = out_read s
      \<and> tty_sent (fold emit_char xs s) = tty_sent s \<and> tty_requests (fold emit_char xs s) = tty_requests s" for xs
    by (induction xs arbitrary: s) simp_all
  then show "tty_line (emit_str cs s) = tty_line s" "out_read (emit_str cs s) = out_read s"
    "tty_sent (emit_str cs s) = tty_sent s" "tty_requests (emit_str cs s) = tty_requests s"
    by (simp_all add: emit_str_def)
qed

text \<open>What does not fit the buffer is dropped from the end.\<close>

lemma emit_str_buf: "tty_buf (emit_str cs s) = tty_buf s @ take (OUT_SIZE - length (tty_buf s)) (cstr cs)"
proof -
  have "tty_buf (fold emit_char xs s) = tty_buf s @ take (OUT_SIZE - length (tty_buf s)) xs" for xs
  proof (induction xs arbitrary: s)
    case (Cons x xs)
    show ?case
    proof (cases "length (tty_buf s) < OUT_SIZE")
      case True
      define m where "m = OUT_SIZE - Suc (length (tty_buf s))"
      have m: "OUT_SIZE - length (tty_buf s) = Suc m" using True by (simp add: m_def)
      have "tty_buf (emit_char x s) = tty_buf s @ [x]" using True by (simp add: emit_char_def)
      then show ?thesis using Cons [of "emit_char x s"] by (simp add: m) (simp add: m_def)
    next
      case False
      then have "emit_char x s = s" by (simp add: emit_char_def)
      then show ?thesis using False Cons [of s] by simp
    qed
  qed simp
  then show ?thesis by (simp add: emit_str_def)
qed

lemma finish_simps [simp]:
  "tty_line (finish_response s) = tty_line s" "out_read (finish_response s) = out_read s"
  "tty_sent (finish_response s) = tty_sent s" "tty_requests (finish_response s) = tty_requests s"
  "tty_buf (finish_response s) = tty_buf s @ take (OUT_SIZE - length (tty_buf s)) SENTINEL"
proof -
  have "cstr SENTINEL = SENTINEL" by (simp add: SENTINEL_def)
  then show "tty_buf (finish_response s) = tty_buf s @ take (OUT_SIZE - length (tty_buf s)) SENTINEL"
    by (simp add: finish_response_def emit_str_buf)
qed (simp_all add: finish_response_def)

text \<open>The response to a line, without the sentinel that ends it.\<close>

definition response :: "(nat \<Rightarrow> nat \<Rightarrow> rom) \<Rightarrow> nat \<Rightarrow> string \<Rightarrow> string" where
  "response ans k line =
     (let l = cstr (rev (dropWhile (\<lambda>c. c = NL \<or> c = CR) (rev line)))
      in if l = [] then USAGE
         else case fst (poll_from (ans k) (pkg_match (fst (split_line l)) (snd (split_line l))) 0 60) of
                Some r \<Rightarrow> cstr (result_text r)
              | None \<Rightarrow> NO_ANSWER)"

lemma process_line_simps [simp]:
  "tty_line (process_line ans s) = []" "out_read (process_line ans s) = out_read s"
  by (auto simp: process_line_def Let_def tty_request_def split: prod.split option.split)

lemma respond_buf:
  assumes "length (tty_buf s) \<le> OUT_SIZE"
  shows "tty_buf (finish_response (emit_str t s)) = tty_buf s @ take (OUT_SIZE - length (tty_buf s)) (cstr t @ SENTINEL)"
proof -
  define n where "n = OUT_SIZE - length (tty_buf s)"
  have "OUT_SIZE - length (tty_buf s @ take n (cstr t)) = n - length (cstr t)"
    using assms by (simp add: n_def min_def)
  then show ?thesis unfolding finish_simps emit_str_buf n_def [symmetric]
    by (simp only: take_append append_assoc)
qed

lemma cstr_lits: "cstr USAGE = USAGE" "cstr NO_ANSWER = NO_ANSWER"
  by (simp_all add: USAGE_def NO_ANSWER_def)

lemma process_line_buf:
  "length (tty_buf s) \<le> OUT_SIZE \<Longrightarrow> tty_buf (process_line ans s)
     = tty_buf s @ take (OUT_SIZE - length (tty_buf s)) (response ans (tty_requests s) (tty_line s) @ SENTINEL)"
  by (simp add: process_line_def response_def Let_def tty_request_def respond_buf case_prod_beta cstr_lits
        del: finish_simps split: option.split)

section \<open>Bounds\<close>

definition tty_inv :: "tty \<Rightarrow> bool" where
  "tty_inv s \<longleftrightarrow> length (tty_line s) < LINE_LEN \<and> NL \<notin> set (tty_line s) \<and> CR \<notin> set (tty_line s)
     \<and> length (tty_buf s) \<le> OUT_SIZE \<and> out_read s \<le> length (tty_buf s)"

datatype tty_op = Write string | Read nat

definition tty_step :: "(nat \<Rightarrow> nat \<Rightarrow> rom) \<Rightarrow> tty_op \<Rightarrow> tty \<Rightarrow> tty" where
  "tty_step ans p s = (case p of Write bs \<Rightarrow> snd (tty_write ans bs s) | Read n \<Rightarrow> snd (tty_read n s))"

lemma tty_inv_char: "tty_inv s \<Longrightarrow> tty_inv (tty_char ans c s)"
  by (auto simp: tty_inv_def tty_char_def process_line_buf)

lemma tty_inv_chars: "tty_inv s \<Longrightarrow> tty_inv (fold (tty_char ans) cs s)"
  by (induction cs arbitrary: s) (simp_all add: tty_inv_char)

interpretation tty: machine "\<lambda>s. s = tty_init" "tty_step ans" tty_inv for ans
proof unfold_locales
  fix s p
  show "s = tty_init \<Longrightarrow> tty_inv s" by (simp add: tty_init_def tty_inv_def)
  assume "tty_inv s"
  then show "tty_inv (tty_step ans p s)"
    by (auto simp: tty_step_def tty_write_def tty_read_def tty_inv_chars Let_def split: tty_op.split)
      (auto simp: tty_inv_def)
qed

lemma tty_line_char:
  "tty_line (tty_char ans c s) = (if c = NL \<or> length (tty_line s) = LINE_LEN - 1 then []
     else if c = CR then tty_line s else tty_line s @ [c])"
  by (simp add: tty_char_def)

text \<open>A run of characters that neither ends nor fills the line.\<close>

lemma tty_plain_chars:
  assumes "NL \<notin> set cs" and "CR \<notin> set cs" and "length (tty_line s) + length cs < LINE_LEN"
  shows "fold (tty_char ans) cs s = s\<lparr>tty_line := tty_line s @ cs\<rparr>"
  using assms
proof (induction cs arbitrary: s)
  case (Cons c cs)
  then have "tty_char ans c s = s\<lparr>tty_line := tty_line s @ [c]\<rparr>" by (auto simp: tty_char_def)
  then show ?case using Cons by simp
qed simp

section \<open>The session\<close>

text \<open>
  In every state a session can reach, by any writes and reads and whatever the daemon answers,
  the line leaves room for its terminating zero, the output fits its buffer and the read position
  stays within it.
\<close>

theorem tty_within_buffers:
  "let s = run (tty_step ans) tty_init ps
   in length (tty_line s) < LINE_LEN \<and> length (tty_buf s) \<le> OUT_SIZE \<and> out_read s \<le> length (tty_buf s)"
  using tty.reach_inv [of tty_init ans ps] by (simp add: tty_inv_def Let_def)

lemma strip_end_id: "NL \<notin> set l \<Longrightarrow> CR \<notin> set l \<Longrightarrow> rev (dropWhile (\<lambda>c. c = NL \<or> c = CR) (rev l)) = l"
  by (cases l rule: rev_cases) auto

text \<open>
  C40: a command line in one write. A line that fits, without its own line ends and zeros, is sent as
  one request with the word before the first space and what follows the spaces; what the shell reads
  back is the rendered answer of the daemon followed by the sentinel, in full when it fits the buffer.
\<close>

theorem tty_line_answered:
  assumes "tty_line s = []" and "tty_buf s = []" and "out_read s = 0"
    and "length cmd < LINE_LEN - 1" and "{NL, CR, NUL} \<inter> set cmd = {}" and "cmd \<noteq> []"
    and "length (response ans (tty_requests s) cmd @ SENTINEL) \<le> OUT_SIZE"
  shows "let s' = snd (tty_write ans (cmd @ [NL]) s); (op, pkg) = split_line cmd
    in tty_sent s' = tty_sent s @ [leaf ''request'' ((''op'', op) # (if pkg = [] then [] else [(''pkg'', pkg)]))]
       \<and> fst (tty_read OUT_SIZE s') = response ans (tty_requests s) cmd @ SENTINEL \<and> tty_line s' = []"
proof -
  let ?t = "s\<lparr>tty_line := cmd\<rparr>"
  have w: "snd (tty_write ans (cmd @ [NL]) s) = process_line ans ?t"
  proof -
    have "take IO_BUF_SIZE (cmd @ [NL]) = cmd @ [NL]" using assms(4) by simp
    moreover have "fold (tty_char ans) cmd s = ?t"
      using tty_plain_chars [of cmd s ans] assms(1,4,5) by simp
    ultimately show ?thesis by (simp add: tty_write_def tty_char_def Let_def)
  qed
  have l: "cstr (rev (dropWhile (\<lambda>c. c = NL \<or> c = CR) (rev cmd))) = cmd"
    using assms(5) by (simp add: strip_end_id)
  have b: "tty_buf (process_line ans ?t) = response ans (tty_requests s) cmd @ SENTINEL"
    using process_line_buf [of ?t ans] assms(2,7) by simp
  have "tty_sent (process_line ans ?t) = tty_sent s
      @ [leaf ''request'' ((''op'', fst (split_line cmd)) # (if snd (split_line cmd) = [] then [] else [(''pkg'', snd (split_line cmd))]))]"
    using assms(6) by (simp add: process_line_def l Let_def tty_request_def case_prod_beta split: option.split)
  moreover have "fst (tty_read OUT_SIZE (process_line ans ?t)) = response ans (tty_requests s) cmd @ SENTINEL"
    using b assms(3,7) by (simp add: tty_read_def Let_def)
  ultimately show ?thesis by (simp add: w Let_def case_prod_beta)
qed

definition tty_demo_answers :: "nat \<Rightarrow> nat \<Rightarrow> rom" where
  "tty_demo_answers r k = (if k < 2 then Rom_invalid
     else Rom_node (leaf ''result'' [(''op'', ''install''), (''pkg'', ''demo''), (''status'', ''ok'')]))"

theorem tty_line_answered_witness:
  "fst (tty_read OUT_SIZE (snd (tty_write tty_demo_answers (''install  demo'' @ [NL]) tty_init)))
     = ''vct: install demo -> ok'' @ [NL] @ SENTINEL"
proof -
  have r: "response tty_demo_answers 0 ''install  demo'' = ''vct: install demo -> ok'' @ [NL]"
    by code_simp
  show ?thesis
    using tty_line_answered [of tty_init "''install  demo''" tty_demo_answers]
    by (simp add: tty_init_def r SENTINEL_def Let_def case_prod_beta)
qed

text \<open>
  A line that is too long is cut in two. Its first 127 characters are taken as a command of their
  own, the next character is lost, and the rest begins the next line, to be taken as another command.
\<close>

theorem tty_long_line_split:
  assumes "tty_line s = []" and "length a = LINE_LEN - 1" and "{NL, CR, NUL} \<inter> set a = {}"
    and "c \<noteq> NL" and "length b < LINE_LEN" and "{NL, CR} \<inter> set b = {}"
  shows "let s' = snd (tty_write ans (a @ c # b) s)
    in tty_line s' = b \<and> tty_requests s' = Suc (tty_requests s)
       \<and> tty_sent s' = tty_sent s @ [leaf ''request'' ((''op'', fst (split_line a))
            # (if snd (split_line a) = [] then [] else [(''pkg'', snd (split_line a))]))]"
proof -
  let ?t = "s\<lparr>tty_line := a\<rparr>"
  have p: "snd (tty_write ans (a @ c # b) s) = (process_line ans ?t)\<lparr>tty_line := b\<rparr>"
  proof -
    have "take IO_BUF_SIZE (a @ c # b) = a @ c # b" using assms(2,5) by simp
    moreover have "fold (tty_char ans) a s = ?t"
      using tty_plain_chars [of a s ans] assms(1,2,3) by simp
    moreover have "tty_char ans c ?t = process_line ans ?t" using assms(2) by (simp add: tty_char_def)
    moreover have "fold (tty_char ans) b (process_line ans ?t) = (process_line ans ?t)\<lparr>tty_line := b\<rparr>"
      using tty_plain_chars [of b "process_line ans ?t" ans] assms(5,6) by simp
    ultimately show ?thesis by (simp add: tty_write_def Let_def)
  qed
  have l: "cstr (rev (dropWhile (\<lambda>c. c = NL \<or> c = CR) (rev a))) = a"
    using assms(3) by (simp add: strip_end_id)
  have "a \<noteq> []" using assms(2) by auto
  then have "tty_sent (process_line ans ?t) = tty_sent s @ [leaf ''request'' ((''op'', fst (split_line a))
            # (if snd (split_line a) = [] then [] else [(''pkg'', snd (split_line a))]))]"
    "tty_requests (process_line ans ?t) = Suc (tty_requests s)"
    by (simp_all add: process_line_def l Let_def tty_request_def case_prod_beta split: option.split)
  then show ?thesis by (simp add: p Let_def)
qed

theorem tty_long_line_split_witness:
  "tty_line (snd (tty_write tty_demo_answers (replicate 127 (CHR ''a'') @ CHR ''b'' # ''remove demo'') tty_init))
     = ''remove demo''"
  using tty_long_line_split [of tty_init "replicate 127 (CHR ''a'')" "CHR ''b''" "''remove demo''" tty_demo_answers]
  by (simp add: tty_init_def Let_def)

end
