(* ===== verification/De_Common.thy ===== *)
theory De_Common
  imports Genode_Iface Machine
begin

text \<open>
  What the controllers of \<open>sponge-de\<close> share: the switches in the component configuration that enable
  them, the text functions of Qt they use, and the poster of notifications
  (\<open>panel/notify_poster.cc\<close>). A \<open>QString\<close> is the list of the bytes it was made from, which the code
  reads and writes as UTF-8: the conversion is the identity on valid UTF-8, and texts that are not
  valid (where Qt puts a replacement character) are outside the model. Where the code cuts a string
  by characters, the texts are taken to be ASCII. The null string equals the empty one, as in Qt. Log
  lines are left out.
\<close>

section \<open>Switches in the configuration\<close>

text \<open>
  \<open>source_gate G tag src bytes\<close>: some child \<open>tag\<close> of the configuration has the source \<open>src\<close>. The
  bytes are those of the \<open>config\<close> ROM, \<open>None\<close> when it is not valid. Every controller has its own
  copy of this function.
\<close>

definition source_is :: "string \<Rightarrow> xml \<Rightarrow> bool" where
  "source_is src n \<longleftrightarrow> attr_str 32 n ''source'' = src"

definition source_gate :: "'a genode_scheme \<Rightarrow> string \<Rightarrow> string \<Rightarrow> string option \<Rightarrow> bool" where
  "source_gate G tag src rom =
     (case rom of
        None \<Rightarrow> False
      | Some bytes \<Rightarrow>
          (if bytes \<noteq> [] \<and> hd bytes = CHR ''<'' then
             (case parse_xml G bytes of None \<Rightarrow> False | Some root \<Rightarrow> list_ex (source_is src) (kids_of_type root tag))
           else list_ex (source_is src) (kids_of_type (parse_hid G bytes) tag)))"

definition config_asks_for_configd :: "'a genode_scheme \<Rightarrow> string option \<Rightarrow> bool" where
  "config_asks_for_configd G = source_gate G ''config'' ''configd''"

definition panels_asks_for_collection :: "'a genode_scheme \<Rightarrow> string option \<Rightarrow> bool" where
  "panels_asks_for_collection G = source_gate G ''panels'' ''collection''"

definition de_config_asks_for_controller :: "'a genode_scheme \<Rightarrow> string option \<Rightarrow> bool" where
  "de_config_asks_for_controller G = source_gate G ''de_config'' ''controller''"

text \<open>The poster's copy also asks for the type of the root when the configuration is not XML.\<close>

definition notifier_asks_for_daemon :: "'a genode_scheme \<Rightarrow> string option \<Rightarrow> bool" where
  "notifier_asks_for_daemon G rom =
     (case rom of
        None \<Rightarrow> False
      | Some bytes \<Rightarrow>
          (if bytes \<noteq> [] \<and> hd bytes = CHR ''<'' then source_gate G ''notifier'' ''daemon'' rom
           else has_type (parse_hid G bytes) ''config'' \<and> source_gate G ''notifier'' ''daemon'' rom))"

section \<open>Text\<close>

text \<open>\<open>QString::trimmed\<close> on ASCII white space.\<close>

definition q_space :: "char \<Rightarrow> bool" where
  "q_space c \<longleftrightarrow> c = SP \<or> (CHR 0x09 \<le> c \<and> c \<le> CR)"

definition trimmed :: "string \<Rightarrow> string" where
  "trimmed = trim q_space"

section \<open>The poster of notifications\<close>

record de_poster =
  opt_in :: bool
  poster_open :: bool
  post_title :: string
  post_body :: string
  post_ms :: u64
  post_out :: "xml list"

definition poster_start :: "'a genode_scheme \<Rightarrow> string option \<Rightarrow> de_poster" where
  "poster_start G cfg = \<lparr>opt_in = notifier_asks_for_daemon G cfg, poster_open = False, post_title = [],
     post_body = [], post_ms = 0, post_out = []\<rparr>"

definition de_notification :: "'a genode_scheme \<Rightarrow> string \<Rightarrow> string \<Rightarrow> string \<Rightarrow> nat \<Rightarrow> xml" where
  "de_notification G title body kind ttl =
     node ''notif_request'' [] [node ''notification''
       [(''source'', ''sponge-de''), (''kind'', kind), (''ttl_ms'', print_nat G ttl)]
       (Elem ''title'' [] [] title # (if body = [] then [] else [Elem ''body'' [] [] body]))]"

text \<open>\<open>opens\<close>: whether the report session can be created; \<open>now\<close>: the reading of the clock.\<close>

definition de_post ::
    "'a genode_scheme \<Rightarrow> bool \<Rightarrow> u64 \<Rightarrow> string \<Rightarrow> string \<Rightarrow> string \<Rightarrow> nat \<Rightarrow> de_poster \<Rightarrow> de_poster" where
  "de_post G opens now title body kind ttl p =
     (if \<not> opt_in p then p
      else
        let p = p\<lparr>poster_open := poster_open p \<or> opens\<rparr> in
        if \<not> poster_open p then (if title \<noteq> post_title p then p\<lparr>post_title := title\<rparr> else p)
        else
          let kind = (if kind \<noteq> ''info'' \<and> kind \<noteq> ''warn'' \<and> kind \<noteq> ''error'' then ''info'' else kind) in
          if title = post_title p \<and> body = post_body p \<and> now - post_ms p < 1000 then p
          else p\<lparr>post_title := title, post_body := body, post_ms := now,
                  post_out := post_out p @ [de_notification G title body kind ttl]\<rparr>)"

end
