(* ===== verification/Shell_Config.thy ===== *)
theory Shell_Config
  imports De_Common Config_View Configd_Registry_Props
begin

text \<open>
  \<open>sponge-de/config/config_controller.cc\<close>: the controller that turns the configuration broadcast into
  the signals of the shell. A broadcast arrives as a text, is parsed, and each setting that differs
  from the one applied last is signalled; settings of single panels are signalled every time. The
  widgets that receive the signals are not modelled.
\<close>

section \<open>Keys\<close>

definition cfg_key_value :: "xml \<Rightarrow> string \<Rightarrow> string" where
  "cfg_key_value root name =
     (case first_key root name of None \<Rightarrow> [] | Some k \<Rightarrow> attr_str 128 k ''value'')"

text \<open>The identifier and the suffix of a \<open>panel.<id>.<suffix>\<close> key, split at the last dot.\<close>

definition panel_suffixes :: "string list" where
  "panel_suffixes = [''height'', ''position'', ''visible_widgets'']"

definition parse_panel_id_key :: "string \<Rightarrow> (string \<times> string) option" where
  "parse_panel_id_key key =
     (if length key \<le> 6 \<or> take 6 key \<noteq> ''panel.'' then None
      else
        let tail = drop 6 key in
        if CHR ''.'' \<notin> set tail then None
        else
          let suf = rev (takeWhile (\<lambda>c. c \<noteq> CHR ''.'') (rev tail));
              id_len = length tail - length suf - 1
          in if id_len = 0 \<or> 16 < id_len then None
             else if suf = [] then None
             else if suf \<in> set panel_suffixes then Some (take id_len tail, suf) else None)"

fun height_digits :: "u32 \<Rightarrow> string \<Rightarrow> u32" where
  "height_digits acc [] = acc"
| "height_digits acc (c # cs) =
     (if is_digit c then height_digits (acc * 10 + of_nat (digit_val c)) cs else 0)"

definition parse_panel_height :: "string \<Rightarrow> u32" where
  "parse_panel_height v = (if v = [] then 0 else height_digits 0 v)"

section \<open>State and signals\<close>

record cfgctl =
  last_height :: string
  last_visible :: string
  last_position :: string
  last_clock :: string
  last_sort :: string
  last_bg_color :: string
  last_bg_image :: string
  last_ids :: string

definition cfgctl_init :: cfgctl where
  "cfgctl_init = \<lparr>last_height = [], last_visible = [], last_position = [], last_clock = [], last_sort = [],
     last_bg_color = [], last_bg_image = [], last_ids = []\<rparr>"

datatype de_signal =
    Panel_height u32
  | Panel_visible string
  | Panel_position string
  | Clock_format string
  | Launcher_sort string
  | Background_color string
  | Background_image string
  | Panel_ids string
  | Height_for string u32
  | Position_for string string
  | Visible_for string string

record bvals =
  bc_height :: string
  bc_visible :: string
  bc_position :: string
  bc_clock :: string
  bc_sort :: string
  bc_color :: string
  bc_image :: string
  bc_ids :: string
  bc_per_id :: "(string \<times> string \<times> string) list"

section \<open>Reading a broadcast\<close>

text \<open>The entries of single panels, at most 64.\<close>

definition per_id_entry :: "xml \<Rightarrow> (string \<times> string \<times> string) option" where
  "per_id_entry k =
     (case parse_panel_id_key (attr_str 128 k ''name'') of
        None \<Rightarrow> None
      | Some (ident, suf) \<Rightarrow> Some (ident, suf, attr_str 160 k ''value''))"

definition read_broadcast :: "xml \<Rightarrow> bvals" where
  "read_broadcast root =
     \<lparr>bc_height = cfg_key_value root ''panel.height'',
      bc_visible = cfg_key_value root ''panel.visible_widgets'',
      bc_position = cfg_key_value root ''panel.position'',
      bc_clock = cfg_key_value root ''clock.format'',
      bc_sort = cfg_key_value root ''launcher.sort_by'',
      bc_color = cfg_key_value root ''background.color'',
      bc_image = cfg_key_value root ''background.image'',
      bc_ids = cfg_key_value root ''panel.ids'',
      bc_per_id = take 64 (List.map_filter per_id_entry (kids_of_type root ''key''))\<rparr>"

section \<open>Signalling changes\<close>

definition emit_height :: "bvals \<Rightarrow> cfgctl \<Rightarrow> cfgctl \<times> de_signal list" where
  "emit_height b s =
     (let h = parse_panel_height (bc_height b)
      in if bc_height b \<noteq> last_height s \<and> h \<noteq> 0 then (s\<lparr>last_height := bc_height b\<rparr>, [Panel_height h])
         else (s, []))"

definition emit_flat :: "bvals \<Rightarrow> cfgctl \<Rightarrow> cfgctl \<times> de_signal list" where
  "emit_flat b s =
     (let (s, o0) = emit_height b s;
          o1 = (if bc_visible b \<noteq> last_visible s then [Panel_visible (bc_visible b)] else []);
          o2 = (if bc_position b \<noteq> last_position s then [Panel_position (bc_position b)] else []);
          o3 = (if bc_clock b \<noteq> last_clock s then [Clock_format (bc_clock b)] else []);
          o4 = (if bc_sort b \<noteq> last_sort s then [Launcher_sort (bc_sort b)] else []);
          color = (bc_color b \<noteq> last_bg_color s \<and> bc_color b \<noteq> []);
          image = (bc_image b \<noteq> last_bg_image s \<and> bc_image b \<noteq> [])
      in (s\<lparr>last_visible := bc_visible b, last_position := bc_position b, last_clock := bc_clock b,
             last_sort := bc_sort b,
             last_bg_color := if color then bc_color b else last_bg_color s,
             last_bg_image := if image then bc_image b else last_bg_image s\<rparr>,
          o0 @ o1 @ o2 @ o3 @ o4 @ (if color then [Background_color (bc_color b)] else [])
            @ (if image then [Background_image (bc_image b)] else [])))"

definition emit_ids :: "bvals \<Rightarrow> cfgctl \<Rightarrow> cfgctl \<times> de_signal list" where
  "emit_ids b s =
     (if bc_ids b \<noteq> last_ids s \<and> bc_ids b \<noteq> [] then (s\<lparr>last_ids := bc_ids b\<rparr>, [Panel_ids (bc_ids b)])
      else (s, []))"

text \<open>One entry of a single panel, and the loop, which drops entries equal to an earlier one.\<close>

definition per_id_signal :: "string \<times> string \<times> string \<Rightarrow> de_signal list" where
  "per_id_signal e =
     (case e of (ident, suf, v) \<Rightarrow>
        if suf = ''height'' then
          (let h = parse_panel_height v in if h \<noteq> 0 then [Height_for ident h] else [])
        else if suf = ''position'' then [Position_for ident v]
        else if suf = ''visible_widgets'' then [Visible_for ident v]
        else [])"

fun emit_per_id :: "(string \<times> string \<times> string) list \<Rightarrow> (string \<times> string \<times> string) list \<Rightarrow> de_signal list" where
  "emit_per_id seen [] = []"
| "emit_per_id seen (e # es) =
     (if e \<in> set seen then emit_per_id seen es
      else per_id_signal e @ emit_per_id (seen @ [e]) es)"

text \<open>The text of the notification; the settings are compared with those just recorded.\<close>

definition body_piece :: "string \<Rightarrow> string \<Rightarrow> string \<Rightarrow> string" where
  "body_piece name v prev = (if v \<noteq> prev then name @ ''='' @ v @ '' '' else [])"

definition notify_body :: "bvals \<Rightarrow> cfgctl \<Rightarrow> string" where
  "notify_body b s = trimmed
     (body_piece ''panel.height'' (bc_height b) (last_height s)
      @ body_piece ''panel.visible_widgets'' (bc_visible b) (last_visible s)
      @ body_piece ''panel.position'' (bc_position b) (last_position s)
      @ body_piece ''clock.format'' (bc_clock b) (last_clock s)
      @ body_piece ''launcher.sort_by'' (bc_sort b) (last_sort s)
      @ body_piece ''background.color'' (bc_color b) (last_bg_color s)
      @ body_piece ''background.image'' (bc_image b) (last_bg_image s))"

text \<open>
  The result is the state, the signals and the text of the notification, if one is posted.
\<close>

definition emit_changed :: "bvals \<Rightarrow> cfgctl \<Rightarrow> cfgctl \<times> de_signal list \<times> string option" where
  "emit_changed b s =
     (let (s, flat) = emit_flat b s;
          (s, ids) = emit_ids b s;
          per = emit_per_id [] (bc_per_id b);
          changed = (flat \<noteq> [] \<or> per \<noteq> [])
      in (s, flat @ ids @ per, if changed then Some (notify_body b s) else None))"

definition apply_config :: "'a genode_scheme \<Rightarrow> string \<Rightarrow> cfgctl \<Rightarrow> cfgctl \<times> de_signal list \<times> string option" where
  "apply_config G payload s =
     (if payload = [] then (s, [], None)
      else case parse_xml G payload of
             None \<Rightarrow> (s, [], None)
           | Some root \<Rightarrow> emit_changed (read_broadcast root) s)"

text \<open>
  One look at the ROM, by its signal or by the timer of 250 milliseconds: the bytes it holds, and the
  notification that goes to the poster.
\<close>

definition config_poll ::
    "'a genode_scheme \<Rightarrow> bool \<Rightarrow> u64 \<Rightarrow> string option \<Rightarrow> cfgctl \<times> de_poster \<Rightarrow> (cfgctl \<times> de_poster) \<times> de_signal list" where
  "config_poll G opens now rom sp =
     (case rom of
        None \<Rightarrow> (sp, [])
      | Some bytes \<Rightarrow>
          (let (s, signals, note) = apply_config G bytes (fst sp)
           in ((s, case note of
                     None \<Rightarrow> snd sp
                   | Some body \<Rightarrow> de_post G opens now ''config applied'' body ''info'' 3000 (snd sp)),
               signals)))"

section \<open>Keys of single panels\<close>

lemma panel_suffix_plain: "suf \<in> set panel_suffixes \<Longrightarrow> CHR ''.'' \<notin> set suf \<and> suf \<noteq> []"
  by (auto simp: panel_suffixes_def)

lemma parse_panel_id_key_iff:
  "parse_panel_id_key key = Some (ident, suf) \<longleftrightarrow>
     key = ''panel.'' @ ident @ CHR ''.'' # suf \<and> suf \<in> set panel_suffixes \<and> 1 \<le> length ident \<and> length ident \<le> 16"
proof
  assume p: "parse_panel_id_key key = Some (ident, suf)"
  define tail where "tail = drop 6 key"
  define sf where "sf = rev (takeWhile (\<lambda>c. c \<noteq> CHR ''.'') (rev tail))"
  have "take 6 key = ''panel.''" and dot: "CHR ''.'' \<in> set tail"
    using p by (auto simp: parse_panel_id_key_def tail_def Let_def split: if_splits)
  then have k: "key = ''panel.'' @ tail" unfolding tail_def by (metis append_take_drop_id)
  define r where "r = dropWhile (\<lambda>c. c \<noteq> CHR ''.'') (rev tail)"
  have rt: "rev tail = rev sf @ r" by (simp add: r_def sf_def)
  have "r \<noteq> []" unfolding r_def using dot by (simp add: dropWhile_eq_Nil_conv)
  moreover from this have "hd r = CHR ''.''" unfolding r_def using hd_dropWhile by blast
  ultimately obtain q where q: "r = CHR ''.'' # q" by (cases r) auto
  have t: "tail = rev q @ CHR ''.'' # sf" using arg_cong [OF rt, of rev] q by simp
  have "ident = take (length tail - length sf - 1) tail" "suf = sf" "sf \<in> set panel_suffixes"
    "1 \<le> length tail - length sf - 1" "length tail - length sf - 1 \<le> 16"
    using p by (auto simp: parse_panel_id_key_def tail_def [symmetric] sf_def [symmetric] Let_def split: if_splits)
  then show "key = ''panel.'' @ ident @ CHR ''.'' # suf \<and> suf \<in> set panel_suffixes
      \<and> 1 \<le> length ident \<and> length ident \<le> 16"
    using k t by simp
next
  assume a: "key = ''panel.'' @ ident @ CHR ''.'' # suf \<and> suf \<in> set panel_suffixes
      \<and> 1 \<le> length ident \<and> length ident \<le> 16"
  have "rev (takeWhile (\<lambda>c. c \<noteq> CHR ''.'') (rev (ident @ CHR ''.'' # suf))) = suf"
    using panel_suffix_plain [of suf] a by (simp add: takeWhile_append)
  then show "parse_panel_id_key key = Some (ident, suf)"
    using a panel_suffix_plain [of suf] by (auto simp: parse_panel_id_key_def Let_def)
qed

text \<open>
  The shell and the daemon agree on the keys of single panels. A key is one of a panel with the
  identifier \<open>ident\<close> for \<open>sponge_configd\<close> exactly when it is one for the shell and the identifier
  consists of the characters the daemon allows, although the two take the key apart in different ways.
\<close>

theorem panel_keys_agree:
  assumes "length key < 2 ^ 63"
  shows "pattern_extract_id key = Some ident \<longleftrightarrow>
    (\<exists>suf. parse_panel_id_key key = Some (ident, suf)) \<and> list_all id_charset_ok ident"
proof -
  have "(\<exists>suf \<in> set id_suffixes. key = panel_prefix @ ident @ suf)
      \<longleftrightarrow> (\<exists>suf \<in> set panel_suffixes. key = ''panel.'' @ ident @ CHR ''.'' # suf)"
    by (simp add: id_suffixes_def panel_suffixes_def)
  then show ?thesis
    by (auto simp: pattern_extract_id_iff [OF assms] parse_panel_id_key_iff)
qed

theorem panel_keys_agree_witness:
  "parse_panel_id_key ''panel.alpha.height'' = Some (''alpha'', ''height'') \<and> pattern_extract_id ''panel.a.b.height'' = None"
proof -
  have p: "parse_panel_id_key ''panel.alpha.height'' = Some (''alpha'', ''height'')"
    "parse_panel_id_key ''panel.a.b.height'' = Some (''a.b'', ''height'')" by code_simp+
  have "\<not> list_all id_charset_ok ''a.b''" by code_simp
  then have "pattern_extract_id ''panel.a.b.height'' \<noteq> Some i" for i
    using panel_keys_agree [of "''panel.a.b.height''" i] p(2) by auto
  with p(1) show ?thesis by auto
qed

section \<open>Settings\<close>

lemma emit_flat_state:
  "last_visible (fst (emit_flat b s)) = bc_visible b" "last_position (fst (emit_flat b s)) = bc_position b"
  "last_clock (fst (emit_flat b s)) = bc_clock b" "last_sort (fst (emit_flat b s)) = bc_sort b"
  "last_ids (fst (emit_flat b s)) = last_ids s"
  "bc_color b \<noteq> [] \<Longrightarrow> last_bg_color (fst (emit_flat b s)) = bc_color b"
  "bc_image b \<noteq> [] \<Longrightarrow> last_bg_image (fst (emit_flat b s)) = bc_image b"
  "parse_panel_height (bc_height b) \<noteq> 0 \<Longrightarrow> last_height (fst (emit_flat b s)) = bc_height b"
  by (auto simp: emit_flat_def emit_height_def Let_def)

lemma flat_set:
  "Panel_visible v \<in> set (snd (emit_flat b s)) \<longleftrightarrow> v = bc_visible b \<and> bc_visible b \<noteq> last_visible s"
  "Panel_position v \<in> set (snd (emit_flat b s)) \<longleftrightarrow> v = bc_position b \<and> bc_position b \<noteq> last_position s"
  "Clock_format v \<in> set (snd (emit_flat b s)) \<longleftrightarrow> v = bc_clock b \<and> bc_clock b \<noteq> last_clock s"
  "Launcher_sort v \<in> set (snd (emit_flat b s)) \<longleftrightarrow> v = bc_sort b \<and> bc_sort b \<noteq> last_sort s"
  "Background_color v \<in> set (snd (emit_flat b s)) \<longleftrightarrow> v = bc_color b \<and> bc_color b \<noteq> last_bg_color s \<and> v \<noteq> []"
  "Background_image v \<in> set (snd (emit_flat b s)) \<longleftrightarrow> v = bc_image b \<and> bc_image b \<noteq> last_bg_image s \<and> v \<noteq> []"
  "Panel_height h \<in> set (snd (emit_flat b s))
     \<longleftrightarrow> h = parse_panel_height (bc_height b) \<and> bc_height b \<noteq> last_height s \<and> h \<noteq> 0"
  "Panel_ids v \<notin> set (snd (emit_flat b s))"
  by (auto simp: emit_flat_def emit_height_def Let_def)

lemma emit_changed_parts:
  "fst (emit_changed b s) = fst (emit_ids b (fst (emit_flat b s)))"
  "fst (snd (emit_changed b s)) = snd (emit_flat b s) @ snd (emit_ids b (fst (emit_flat b s))) @ emit_per_id [] (bc_per_id b)"
  "snd (snd (emit_changed b s)) = (if snd (emit_flat b s) \<noteq> [] \<or> emit_per_id [] (bc_per_id b) \<noteq> []
     then Some (notify_body b (fst (emit_ids b (fst (emit_flat b s))))) else None)"
  by (simp_all add: emit_changed_def case_prod_beta Let_def)

lemma emit_ids_state:
  "last_visible (fst (emit_ids b s)) = last_visible s" "last_position (fst (emit_ids b s)) = last_position s"
  "last_clock (fst (emit_ids b s)) = last_clock s" "last_sort (fst (emit_ids b s)) = last_sort s"
  "last_bg_color (fst (emit_ids b s)) = last_bg_color s" "last_bg_image (fst (emit_ids b s)) = last_bg_image s"
  "last_height (fst (emit_ids b s)) = last_height s"
  "bc_ids b \<noteq> [] \<Longrightarrow> last_ids (fst (emit_ids b s)) = bc_ids b"
  by (auto simp: emit_ids_def)

text \<open>The signal that carries a setting of the whole shell.\<close>

definition flat_signal :: "string \<Rightarrow> (string \<Rightarrow> de_signal) option" where
  "flat_signal key =
     (if key = ''panel.visible_widgets'' then Some Panel_visible
      else if key = ''panel.position'' then Some Panel_position
      else if key = ''clock.format'' then Some Clock_format
      else if key = ''launcher.sort_by'' then Some Launcher_sort
      else if key = ''background.color'' then Some Background_color
      else if key = ''background.image'' then Some Background_image
      else if key = ''panel.ids'' then Some Panel_ids
      else if key = ''panel.height'' then Some (\<lambda>v. Panel_height (parse_panel_height v))
      else None)"

definition last_value :: "string \<Rightarrow> cfgctl \<Rightarrow> string" where
  "last_value key s =
     (if key = ''panel.visible_widgets'' then last_visible s
      else if key = ''panel.position'' then last_position s
      else if key = ''clock.format'' then last_clock s
      else if key = ''launcher.sort_by'' then last_sort s
      else if key = ''background.color'' then last_bg_color s
      else if key = ''background.image'' then last_bg_image s
      else if key = ''panel.ids'' then last_ids s
      else last_height s)"

lemma flat_signal_cases:
  assumes "flat_signal key = Some f"
  obtains (visible) "key = ''panel.visible_widgets''" "f = Panel_visible"
  | (position) "key = ''panel.position''" "f = Panel_position"
  | (clock) "key = ''clock.format''" "f = Clock_format"
  | (sort) "key = ''launcher.sort_by''" "f = Launcher_sort"
  | (color) "key = ''background.color''" "f = Background_color"
  | (image) "key = ''background.image''" "f = Background_image"
  | (ids) "key = ''panel.ids''" "f = Panel_ids"
  | (height) "key = ''panel.height''" "f = (\<lambda>v. Panel_height (parse_panel_height v))"
proof -
  have c: "(if p then Some x else y) = Some f \<longleftrightarrow> p \<and> x = f \<or> \<not> p \<and> y = Some f" for p and x :: "string \<Rightarrow> de_signal" and y
    by simp
  show thesis using assms unfolding flat_signal_def c
    by (elim disjE conjE) (simp_all only: that, simp)
qed

lemma per_id_signals:
  "g \<in> set (emit_per_id seen es) \<Longrightarrow> (\<exists>i h. g = Height_for i h) \<or> (\<exists>i v. g = Position_for i v \<or> g = Visible_for i v)"
proof (induction seen es rule: emit_per_id.induct)
  case (2 seen e es)
  then show ?case by (auto simp: per_id_signal_def Let_def split: if_splits prod.splits)
qed simp

lemma flat_signal_sent:
  assumes "flat_signal key = Some f" and "cfg_key_value root key = v" and "v \<noteq> []"
    and "key = ''panel.height'' \<longrightarrow> parse_panel_height v \<noteq> 0"
  shows "last_value key (fst (emit_changed (read_broadcast root) s)) = v"
    and "f v \<in> set (fst (snd (emit_changed (read_broadcast root) s))) \<longleftrightarrow> last_value key s \<noteq> v"
proof -
  let ?b = "read_broadcast root"
  have np: "f v \<notin> set (emit_per_id seen es)" for seen es
    using per_id_signals [of "f v" seen es] by (cases rule: flat_signal_cases [OF assms(1)]) auto
  have i: "f v \<in> set (snd (emit_ids b t)) \<longleftrightarrow> f = Panel_ids \<and> v = bc_ids b \<and> bc_ids b \<noteq> last_ids t \<and> v \<noteq> []" for b t
    by (cases rule: flat_signal_cases [OF assms(1)]) (auto simp: emit_ids_def fun_eq_iff)
  have m: "f v \<in> set (fst (snd (emit_changed ?b s))) \<longleftrightarrow> f v \<in> set (snd (emit_flat ?b s)) \<or> f v \<in> set (snd (emit_ids ?b (fst (emit_flat ?b s))))"
    using np by (simp add: emit_changed_parts)
  show "last_value key (fst (emit_changed ?b s)) = v"
    by (cases rule: flat_signal_cases [OF assms(1)])
      (use assms(2-4) in \<open>simp_all add: last_value_def emit_changed_parts emit_flat_state emit_ids_state read_broadcast_def\<close>)
  show "f v \<in> set (fst (snd (emit_changed ?b s))) \<longleftrightarrow> last_value key s \<noteq> v"
    unfolding m i by (cases rule: flat_signal_cases [OF assms(1)])
      (use assms(2-4) in \<open>auto simp: last_value_def flat_set emit_flat_state read_broadcast_def fun_eq_iff\<close>)
qed

text \<open>A height the daemon accepts is a number the shell reads.\<close>

lemma height_digits_number:
  "list_all is_digit v \<Longrightarrow> height_digits (of_nat m) v = of_nat (foldl (\<lambda>m c. m * 10 + digit_val c) m v)"
proof (induction v arbitrary: m)
  case (Cons c v)
  have "(of_nat m * 10 + of_nat (digit_val c) :: u32) = of_nat (m * 10 + digit_val c)" by simp
  then show ?case using Cons.prems Cons.IH [of "m * 10 + digit_val c"] by (simp del: of_nat_add of_nat_mult)
qed simp

lemma valid_height:
  assumes "value_valid G (key_def_of ''panel.height'') v = None"
  shows "parse_panel_height v \<noteq> 0"
proof -
  have k: "find_key ''panel.height'' = Some 8" by code_simp
  have d: "kind (registry ! 8) = Kind_UintRange" "unat (min_value (registry ! 8)) = 16" "unat (max_value (registry ! 8)) = 128"
    by (simp_all add: registry_def)
  have v: "v \<noteq> []" "uint_valid G (registry ! 8) v = None"
    using assms by (simp_all add: key_def_of_def k value_valid_def d(1) split: if_splits)
  then have n: "list_all is_digit v" "16 \<le> number v" "number v \<le> 128" using d(2,3) by (simp_all add: uint_valid_iff)
  then have "parse_panel_height v = of_nat (number v)"
    using v(1) height_digits_number [of v 0] by (simp add: parse_panel_height_def number_def)
  moreover have "unat (of_nat (number v) :: u32) = number v" using n(3) by (simp add: unat_of_nat take_bit_nat_eq_self)
  ultimately show ?thesis using n(2) by (metis not_numeral_le_zero unat_0)
qed

lemma valid_nonempty: "value_valid G d v = None \<Longrightarrow> v \<noteq> []"
  by (auto simp: value_valid_def)

lemma value_of_view: "first_key x k = Some (key_node k v) \<Longrightarrow> length v < 128 \<Longrightarrow> cfg_key_value x k = v"
  by (simp add: cfg_key_value_def attr_str_def)

text \<open>
  C14: a changed setting of the whole shell reaches it. The settings are the height, position, parts and
  list of panels, the format of the clock, the order of the launcher, and the color and image of the
  background. When \<open>sponge_configd\<close> accepts a value for one of them and its store does not keep it
  waiting, the broadcast that follows makes the controller emit the signal of that setting with that
  value exactly if it was not the value applied last, and it is the last one applied afterwards. (For
  the settings of single panels this is false, see \<open>per_panel_setting_repeats\<close>.)
\<close>

theorem setting_reaches_shell:
  assumes "lengths.good st" and "writable st key" and "length v < 128"
    and "value_valid G (key_def_of key) v = None" and "\<not> cfg_blocked (do_set G key v io roms st)"
    and "flat_signal key = Some f"
  shows "\<exists>pre x post. cfg_out (do_set G key v io roms st) = cfg_out st @ pre @ Broadcast x # post
    \<and> (\<forall>bytes. bytes \<noteq> [] \<and> parse_xml G bytes = Some x \<longrightarrow>
         (f v \<in> set (fst (snd (apply_config G bytes s))) \<longleftrightarrow> last_value key s \<noteq> v)
         \<and> last_value key (fst (apply_config G bytes s)) = v)"
proof -
  have k: "key \<notin> bake_keys" "length key < 64" by (cases rule: flat_signal_cases [OF assms(6)]; simp)+
  have h: "key = ''panel.height'' \<longrightarrow> parse_panel_height v \<noteq> 0" using assms(4) valid_height by blast
  obtain pre x post where o: "cfg_out (do_set G key v io roms st) = cfg_out st @ pre @ Broadcast x # post"
    "\<And>o'. o' \<in> set (pre @ post) \<Longrightarrow> \<forall>y. o' \<noteq> Broadcast y"
    "\<And>k w. length k < 64 \<Longrightarrow> ((cfg_lookup st)(key \<mapsto> v)) k = Some w \<Longrightarrow> first_key x k = Some (key_node k w)"
    using accepted_set_broadcast [OF assms(1) k(1) assms(2,3,4,5)] by blast
  have "cfg_key_value x key = v" by (rule value_of_view [OF o(3) assms(3)]) (simp_all add: k)
  note f = flat_signal_sent [OF assms(6) this valid_nonempty [OF assms(4)] h]
  have "\<forall>bytes. bytes \<noteq> [] \<and> parse_xml G bytes = Some x \<longrightarrow>
         (f v \<in> set (fst (snd (apply_config G bytes s))) \<longleftrightarrow> last_value key s \<noteq> v)
         \<and> last_value key (fst (apply_config G bytes s)) = v"
    using f by (simp add: apply_config_def)
  with o(1) show ?thesis by blast
qed

text \<open>A framework whose parser reads every text as the broadcast after the write.\<close>

definition after_write :: cfgd where
  "after_write = set_value 5 ''HH'' fresh_cfg"

definition reading_genode :: genode where
  "reading_genode = bare_genode\<lparr>parse_xml := (\<lambda>s. Some (broadcast_xml after_write))\<rparr>"

theorem setting_reaches_shell_witness:
  "Clock_format ''HH'' \<in> set (fst (snd (apply_config reading_genode ''x'' cfgctl_init)))
   \<and> cfg_out (do_set reading_genode ''clock.format'' ''HH'' (ce_save quiet_env) None fresh_cfg)
       = cfg_out fresh_cfg @ [Broadcast (broadcast_xml after_write), Result Vct (leaf ''result''
           [(''status'', ''ok''), (''op'', ''set''), (''key'', ''clock.format''), (''value'', ''HH'')])]"
proof -
  let ?d = "do_set reading_genode ''clock.format'' ''HH'' (ce_save quiet_env) None fresh_cfg"
  have k: "find_key ''clock.format'' = Some 5" by code_simp
  have i: "instantiated fresh_cfg = []" "store_enabled fresh_cfg = False" "cfg_blocked fresh_cfg = False"
    "active_channel fresh_cfg = Vct"
    by (simp_all add: fresh_cfg_def fill_defaults_def cfg_init_def)
  have w: "writable fresh_cfg ''clock.format''" by (simp add: writable_def k i)
  have v: "value_valid reading_genode (registry ! 5) ''HH'' = None"
    by (simp add: value_valid_def registry_def format_valid_def printable_def)
  then have v': "value_valid reading_genode (key_def_of ''clock.format'') ''HH'' = None"
    by (simp add: key_def_of_def k)
  have d: "?d = publish_set ''clock.format'' ''HH'' (ce_save quiet_env) after_write"
    using v by (simp add: do_set_unfold resolve_slot_def write_slot_def Let_def k i after_write_def)
  have a: "store_enabled after_write = False" "cfg_blocked after_write = False"
    "cfg_out after_write = cfg_out fresh_cfg" "active_channel after_write = Vct"
    using i by (simp_all add: after_write_def set_value_def)
  have nb: "\<not> cfg_blocked ?d"
    using a by (simp add: d publish_set_def unless_blocked_def save_store_def report_defs)
  have o: "cfg_out ?d = cfg_out fresh_cfg @ [Broadcast (broadcast_xml after_write), Result Vct (leaf ''result''
           [(''status'', ''ok''), (''op'', ''set''), (''key'', ''clock.format''), (''value'', ''HH'')])]"
    using a by (simp add: d publish_set_out)
  obtain pre x post where x: "cfg_out ?d = cfg_out fresh_cfg @ pre @ Broadcast x # post"
    and s: "parse_xml reading_genode ''x'' = Some x
      \<longrightarrow> Clock_format ''HH'' \<in> set (fst (snd (apply_config reading_genode ''x'' cfgctl_init)))"
    using setting_reaches_shell [OF fresh_cfg_good w _ v' nb, of Clock_format cfgctl_init]
    by (auto simp: flat_signal_def last_value_def cfgctl_init_def)
  have "x = broadcast_xml after_write"
    using x unfolding o by (auto simp: Cons_eq_append_conv append_eq_Cons_conv)
  then show ?thesis using s o by (simp add: reading_genode_def)
qed

definition shell_genode :: genode where
  "shell_genode = bare_genode\<lparr>parse_xml := (\<lambda>s. if s = ''bg'' then
     Some (node ''config'' [] [key_node ''clock.format'' ''HH'', key_node ''panel.alpha.position'' ''top'',
       key_node ''panel.height'' ''30'', key_node ''panel.ids'' ''alpha'']) else None)\<rparr>"

text \<open>
  The settings of single panels are signalled at every look at the broadcast. While the broadcast
  holds the position of some panel, each poll, every 250 milliseconds, signals it again and posts a
  notification that the configuration was applied, whether or not anything has changed; the poster
  holds back only what follows within a second of the last one.
\<close>

theorem per_panel_setting_repeats:
  assumes "parse_xml G bytes = Some root" and "bytes \<noteq> []"
    and "(ident, ''position'', v) \<in> set (bc_per_id (read_broadcast root))"
  shows "Position_for ident v \<in> set (fst (snd (apply_config G bytes s)))"
    and "snd (snd (apply_config G bytes s)) \<noteq> None"
    and "opt_in p \<and> (poster_open p \<or> opens) \<and> 1000 \<le> now - post_ms p \<longrightarrow>
      length (post_out (snd (fst (config_poll G opens now (Some bytes) (s, p))))) = Suc (length (post_out p))"
proof -
  have per: "e \<in> set es \<Longrightarrow> e \<notin> set seen \<Longrightarrow> set (per_id_signal e) \<subseteq> set (emit_per_id seen es)" for e seen es
  proof (induction seen es rule: emit_per_id.induct)
    case (2 seen e' es)
    then show ?case by (cases "e' = e") auto
  qed simp
  have i: "Position_for ident v \<in> set (emit_per_id [] (bc_per_id (read_broadcast root)))"
    using per [OF assms(3)] by (simp add: per_id_signal_def)
  then show 1: "Position_for ident v \<in> set (fst (snd (apply_config G bytes s)))"
    using assms by (simp add: apply_config_def emit_changed_parts)
  show 2: "snd (snd (apply_config G bytes s)) \<noteq> None"
    using i assms by (auto simp: apply_config_def emit_changed_parts)
  show "opt_in p \<and> (poster_open p \<or> opens) \<and> 1000 \<le> now - post_ms p \<longrightarrow>
      length (post_out (snd (fst (config_poll G opens now (Some bytes) (s, p))))) = Suc (length (post_out p))"
    using 2 by (auto simp: config_poll_def case_prod_beta Let_def de_post_def not_less)
qed

theorem per_panel_setting_repeats_witness:
  "Position_for ''alpha'' ''top'' \<in> set (fst (snd (apply_config shell_genode ''bg'' s)))
   \<and> snd (snd (apply_config shell_genode ''bg'' (fst (apply_config shell_genode ''bg'' cfgctl_init)))) \<noteq> None"
proof -
  let ?r = "node ''config'' [] [key_node ''clock.format'' ''HH'', key_node ''panel.alpha.position'' ''top'',
       key_node ''panel.height'' ''30'', key_node ''panel.ids'' ''alpha'']"
  have p: "parse_xml shell_genode ''bg'' = Some ?r" by (simp add: shell_genode_def)
  have m: "(''alpha'', ''position'', ''top'') \<in> set (bc_per_id (read_broadcast ?r))" by code_simp
  show ?thesis using per_panel_setting_repeats(1,2) [OF p _ m] by simp
qed

text \<open>
  The text of the notification is empty. The settings are compared with the recorded ones after
  those were recorded; only a height that is no number, or an emptied color or image, is ever named.
\<close>

theorem notification_without_text:
  assumes "snd (snd (emit_changed b s)) = Some body"
    and "parse_panel_height (bc_height b) \<noteq> 0" and "bc_color b \<noteq> []" and "bc_image b \<noteq> []"
  shows "body = []"
proof -
  have "body = notify_body b (fst (emit_ids b (fst (emit_flat b s))))"
    using assms(1) by (simp add: emit_changed_parts split: if_splits)
  then show ?thesis using assms(2-4)
    by (simp add: notify_body_def body_piece_def emit_ids_state emit_flat_state trimmed_def trim_def)
qed

theorem notification_without_text_witness:
  "snd (snd (emit_changed \<lparr>bc_height = ''30'', bc_visible = ''clock'', bc_position = ''top'', bc_clock = ''HH'',
     bc_sort = ''alpha'', bc_color = ''#000000'', bc_image = ''x'', bc_ids = [], bc_per_id = []\<rparr> cfgctl_init)) = Some []"
proof -
  let ?b = "\<lparr>bc_height = ''30'', bc_visible = ''clock'', bc_position = ''top'', bc_clock = ''HH'',
     bc_sort = ''alpha'', bc_color = ''#000000'', bc_image = ''x'', bc_ids = [], bc_per_id = []\<rparr>"
  have "snd (snd (emit_changed ?b cfgctl_init)) \<noteq> None" and h: "parse_panel_height (bc_height ?b) \<noteq> 0" by code_simp+
  then obtain t where t: "snd (snd (emit_changed ?b cfgctl_init)) = Some t" by auto
  have "t = []" by (rule notification_without_text [OF t h]) simp_all
  with t show ?thesis by simp
qed

text \<open>The list of panels is never signalled as empty.\<close>

lemma ids_signal_nonempty: "Panel_ids l \<in> set (fst (snd (apply_config G bytes s))) \<Longrightarrow> l \<noteq> []"
proof -
  have per: "Panel_ids l \<notin> set (emit_per_id seen es)" for seen es
    by (induction seen es rule: emit_per_id.induct) (auto simp: per_id_signal_def Let_def split: if_splits prod.splits)
  have "Panel_ids l \<notin> set (snd (emit_flat b s))" for b
    by (auto simp: emit_flat_def emit_height_def Let_def)
  then show "Panel_ids l \<in> set (fst (snd (apply_config G bytes s))) \<Longrightarrow> l \<noteq> []"
    using per by (auto simp: apply_config_def emit_changed_parts emit_ids_def split: if_splits option.splits)
qed

end
