(* ===== verification/Panel_Collection.thy ===== *)
theory Panel_Collection
  imports Shell_Config
begin

text \<open>
  \<open>sponge-de/panel/panel_collection.cc\<close>: the panels of the shell, one widget for each identifier of
  \<open>panel.ids\<close>, and the settings of single panels routed to them. A widget is named by the number of
  its construction, which stands for its address; what the collection does to widgets is recorded in
  order. The order in which the hash map lists its entries is not specified by the code; here it is
  the order of insertion.
\<close>

section \<open>State\<close>

datatype panel_role = Role_top | Role_bottom

datatype panel_act =
    Panel_added string nat
  | Panel_removed string
  | Apply_height nat u32
  | Set_role nat panel_role
  | Apply_position nat string
  | Apply_visible nat string

record pcol =
  panels :: "(string \<times> nat) list"
  default_panel :: "nat option"
  panels_built :: nat
  panel_acts :: "panel_act list"

definition pcol_init :: pcol where
  "pcol_init = \<lparr>panels = [], default_panel = None, panels_built = 0, panel_acts = []\<rparr>"

abbreviation default_id :: string where "default_id \<equiv> ''default''"

section \<open>Identifiers\<close>

definition id_char_ok :: "char \<Rightarrow> bool" where
  "id_char_ok c \<longleftrightarrow> is_lower c \<or> is_digit c \<or> c = CHR ''_'' \<or> c = CHR ''-''"

text \<open>The tokens between commas and semicolons.\<close>

fun csv_tokens :: "string \<Rightarrow> string \<Rightarrow> string list" where
  "csv_tokens cur [] = (if trimmed cur = [] then [] else [trimmed cur])"
| "csv_tokens cur (c # cs) =
     (if c = CHR '','' \<or> c = CHR '';'' then (if trimmed cur = [] then [] else [trimmed cur]) @ csv_tokens [] cs
      else csv_tokens (cur @ [c]) cs)"

definition parse_csv :: "string \<Rightarrow> string list" where
  "parse_csv csv = filter (\<lambda>i. i \<noteq> [] \<and> length i \<le> 16 \<and> list_all id_char_ok i) (csv_tokens [] csv)"

section \<open>Widgets\<close>

definition record_act :: "panel_act \<Rightarrow> pcol \<Rightarrow> pcol" where
  "record_act a s = s\<lparr>panel_acts := panel_acts s @ [a]\<rparr>"

definition create_panel :: "string \<Rightarrow> pcol \<Rightarrow> pcol" where
  "create_panel ident s =
     (if ident \<in> fst ` set (panels s) then s
      else let w = panels_built s
           in record_act (Panel_added ident w)
                (s\<lparr>panels := panels s @ [(ident, w)], panels_built := Suc w,
                   default_panel := if ident = default_id then Some w else default_panel s\<rparr>))"

definition destroy_panel :: "string \<Rightarrow> pcol \<Rightarrow> pcol" where
  "destroy_panel ident s =
     (if ident \<notin> fst ` set (panels s) then s
      else (record_act (Panel_removed ident) s)\<lparr>panels := filter (\<lambda>e. fst e \<noteq> ident) (panels s)\<rparr>)"

definition panel_for_id :: "string \<Rightarrow> pcol \<Rightarrow> nat option" where
  "panel_for_id ident s = map_of (panels s) ident"

definition find_or_default :: "string \<Rightarrow> pcol \<Rightarrow> nat option" where
  "find_or_default ident s = (case panel_for_id ident s of Some w \<Rightarrow> Some w | None \<Rightarrow> default_panel s)"

definition apply_panel_ids :: "string \<Rightarrow> pcol \<Rightarrow> pcol" where
  "apply_panel_ids comma_list s =
     (let new_ids = parse_csv comma_list;
          wanted = (if new_ids = [] then [default_id] else new_ids);
          s = fold (\<lambda>i s. if i \<in> fst ` set (panels s) then s else create_panel i s) wanted s;
          to_remove = filter (\<lambda>i. i \<notin> set wanted) (map fst (panels s))
      in fold destroy_panel to_remove s)"

section \<open>Settings of single panels\<close>

definition apply_height_for :: "string \<Rightarrow> u32 \<Rightarrow> pcol \<Rightarrow> pcol" where
  "apply_height_for ident h s =
     (case find_or_default ident s of None \<Rightarrow> s | Some w \<Rightarrow> record_act (Apply_height w h) s)"

definition role_of :: "string \<Rightarrow> panel_role option" where
  "role_of position =
     (if position = ''top'' then Some Role_top
      else if position = ''bottom'' \<or> position = ''left'' \<or> position = ''right'' then Some Role_bottom
      else None)"

definition apply_position_for :: "string \<Rightarrow> string \<Rightarrow> pcol \<Rightarrow> pcol" where
  "apply_position_for ident position s =
     (case find_or_default ident s of
        None \<Rightarrow> s
      | Some w \<Rightarrow>
          record_act (Apply_position w position)
            (case role_of position of None \<Rightarrow> s | Some r \<Rightarrow> record_act (Set_role w r) s))"

definition apply_visible_for :: "string \<Rightarrow> string \<Rightarrow> pcol \<Rightarrow> pcol" where
  "apply_visible_for ident v s =
     (case find_or_default ident s of None \<Rightarrow> s | Some w \<Rightarrow> record_act (Apply_visible w v) s)"

text \<open>The signals of the configuration controller the collection is connected to.\<close>

fun panel_signal :: "de_signal \<Rightarrow> pcol \<Rightarrow> pcol" where
  "panel_signal (Panel_ids l) s = apply_panel_ids l s"
| "panel_signal (Height_for i h) s = apply_height_for i h s"
| "panel_signal (Position_for i v) s = apply_position_for i v s"
| "panel_signal (Visible_for i v) s = apply_visible_for i v s"
| "panel_signal _ s = s"

section \<open>The set of panels\<close>

lemma record_act_simps [simp]:
  "panels (record_act a s) = panels s" "default_panel (record_act a s) = default_panel s"
  "panels_built (record_act a s) = panels_built s" "panel_acts (record_act a s) = panel_acts s @ [a]"
  by (simp_all add: record_act_def)

text \<open>Identifiers and widgets are unique, and every live widget was built.\<close>

definition pcol_inv :: "pcol \<Rightarrow> bool" where
  "pcol_inv s \<longleftrightarrow> distinct (map fst (panels s)) \<and> distinct (map snd (panels s))
     \<and> (\<forall>w \<in> snd ` set (panels s). w < panels_built s)"

lemma create_panel_inv: "pcol_inv s \<Longrightarrow> pcol_inv (create_panel i s)"
  by (auto simp: pcol_inv_def create_panel_def Let_def)

lemma distinct_map_filter: "distinct (map f xs) \<Longrightarrow> distinct (map f (filter P xs))"
  by (induction xs) auto

lemma destroy_panel_inv: "pcol_inv s \<Longrightarrow> pcol_inv (destroy_panel i s)"
  by (auto simp: pcol_inv_def destroy_panel_def distinct_map_filter)

text \<open>What creating and destroying lists of panels does to the entries.\<close>

abbreviation ensure :: "string list \<Rightarrow> pcol \<Rightarrow> pcol" where
  "ensure ids s \<equiv> fold (\<lambda>i s. if i \<in> fst ` set (panels s) then s else create_panel i s) ids s"

lemma create_panels:
  assumes "pcol_inv s"
  shows "pcol_inv (ensure ids s)" and "fst ` set (panels (ensure ids s)) = fst ` set (panels s) \<union> set ids"
    and "set (panels s) \<subseteq> set (panels (ensure ids s))"
proof -
  have "pcol_inv (ensure ids s) \<and> fst ` set (panels (ensure ids s)) = fst ` set (panels s) \<union> set ids
      \<and> set (panels s) \<subseteq> set (panels (ensure ids s))"
    using assms
  proof (induction ids arbitrary: s)
    case (Cons i ids)
    show ?case
    proof (cases "i \<in> fst ` set (panels s)")
      case True
      then show ?thesis using Cons by auto
    next
      case False
      moreover have "fst ` set (panels (create_panel i s)) = insert i (fst ` set (panels s))"
        "set (panels s) \<subseteq> set (panels (create_panel i s))"
        using False by (auto simp: create_panel_def Let_def)
      ultimately show ?thesis using Cons.IH [OF create_panel_inv [OF Cons.prems], of i] by auto
    qed
  qed simp
  then show "pcol_inv (ensure ids s)" and "fst ` set (panels (ensure ids s)) = fst ` set (panels s) \<union> set ids"
    and "set (panels s) \<subseteq> set (panels (ensure ids s))" by auto
qed

lemma destroy_panels:
  "panels (fold destroy_panel ids s) = filter (\<lambda>e. fst e \<notin> set ids) (panels s)"
  "pcol_inv s \<Longrightarrow> pcol_inv (fold destroy_panel ids s)"
proof -
  have d: "panels (destroy_panel i s) = filter (\<lambda>e. fst e \<noteq> i) (panels s)" for i s
    by (auto simp: destroy_panel_def intro!: filter_True [symmetric])
  show "panels (fold destroy_panel ids s) = filter (\<lambda>e. fst e \<notin> set ids) (panels s)"
  proof (induction ids arbitrary: s)
    case (Cons i ids)
    have "filter (\<lambda>e. fst e \<notin> set ids) (filter (\<lambda>e. fst e \<noteq> i) (panels s))
        = filter (\<lambda>e. fst e \<notin> set (i # ids)) (panels s)"
      unfolding filter_filter by (rule filter_cong) auto
    then show ?case using Cons by (simp add: d)
  qed simp
  show "pcol_inv s \<Longrightarrow> pcol_inv (fold destroy_panel ids s)"
    by (induction ids arbitrary: s) (simp_all add: destroy_panel_inv)
qed

definition wanted_ids :: "string \<Rightarrow> string set" where
  "wanted_ids l = (if parse_csv l = [] then {default_id} else set (parse_csv l))"

lemma apply_panel_ids_panels:
  assumes "pcol_inv s"
  shows "pcol_inv (apply_panel_ids l s)"
    and "fst ` set (panels (apply_panel_ids l s)) = wanted_ids l"
    and "(i, w) \<in> set (panels s) \<Longrightarrow> i \<in> wanted_ids l \<Longrightarrow> (i, w) \<in> set (panels (apply_panel_ids l s))"
proof -
  define ids where "ids = (if parse_csv l = [] then [default_id] else parse_csv l)"
  have w: "set ids = wanted_ids l" by (simp add: ids_def wanted_ids_def)
  note c = create_panels [OF assms, of ids]
  have e: "apply_panel_ids l s = fold destroy_panel (filter (\<lambda>i. i \<notin> set ids) (map fst (panels (ensure ids s)))) (ensure ids s)"
    by (simp only: apply_panel_ids_def Let_def ids_def)
  have p: "panels (apply_panel_ids l s) = filter (\<lambda>e. fst e \<in> set ids) (panels (ensure ids s))"
    unfolding e destroy_panels(1) by (rule filter_cong) auto
  show "pcol_inv (apply_panel_ids l s)" unfolding e by (intro destroy_panels(2) c(1))
  show "fst ` set (panels (apply_panel_ids l s)) = wanted_ids l"
    using c(2) w unfolding p by force
  show "(i, w) \<in> set (panels s) \<Longrightarrow> i \<in> wanted_ids l \<Longrightarrow> (i, w) \<in> set (panels (apply_panel_ids l s))"
    using c(3) w unfolding p by auto
qed

lemma apply_for_simps [simp]:
  "panels (apply_height_for i h s) = panels s" "panels (apply_position_for i v s) = panels s"
  "panels (apply_visible_for i v s) = panels s"
  "panels_built (apply_height_for i h s) = panels_built s" "panels_built (apply_position_for i v s) = panels_built s"
  "panels_built (apply_visible_for i v s) = panels_built s"
  by (auto simp: apply_height_for_def apply_position_for_def apply_visible_for_def split: option.split)

interpretation pcol: machine "\<lambda>s. s = pcol_init" panel_signal pcol_inv
proof unfold_locales
  fix s g
  show "s = pcol_init \<Longrightarrow> pcol_inv s" by (simp add: pcol_init_def pcol_inv_def)
  assume i: "pcol_inv s"
  then have "pcol_inv t" if "panels t = panels s" "panels_built t = panels_built s" for t
    using that by (simp add: pcol_inv_def)
  with i show "pcol_inv (panel_signal g s)"
    by (cases g) (simp_all add: apply_panel_ids_panels(1))
qed

text \<open>
  C28: the panels follow the list. In every state the shell can reach, a list of identifiers leaves
  exactly one panel for each valid identifier it names, or just the default panel when it names none;
  a panel that was there and stays in the list keeps its widget. (The comments of the
  source say that the panel \<open>default\<close> is always there; the code destroys it when a list names other
  panels but not \<open>default\<close>.)
\<close>

theorem panels_follow_ids:
  "let s = run panel_signal pcol_init gs; s' = apply_panel_ids l s
   in fst ` set (panels s') = wanted_ids l \<and> distinct (map fst (panels s')) \<and> distinct (map snd (panels s'))
      \<and> (\<forall>i w. i \<in> wanted_ids l \<longrightarrow> map_of (panels s) i = Some w \<longrightarrow> map_of (panels s') i = Some w)"
proof -
  define s where "s = run panel_signal pcol_init gs"
  have i: "pcol_inv s" unfolding s_def by (rule pcol.reach_inv) simp
  note a = apply_panel_ids_panels [OF i]
  have d: "distinct (map fst (panels (apply_panel_ids l s)))" "distinct (map snd (panels (apply_panel_ids l s)))"
    using a(1) by (simp_all add: pcol_inv_def)
  have "map_of (panels (apply_panel_ids l s)) i = Some w"
    if "i \<in> wanted_ids l" "map_of (panels s) i = Some w" for i w
    using a(3) [OF map_of_SomeD [OF that(2)] that(1)] d(1) by simp
  with a(2) d show ?thesis by (simp add: Let_def s_def [symmetric])
qed

theorem panels_follow_ids_witness:
  "fst ` set (panels (apply_panel_ids ''beta, alpha;BAD'' (run panel_signal pcol_init [Panel_ids ''alpha'']))) = {''alpha'', ''beta''}"
proof -
  have "parse_csv ''beta, alpha;BAD'' = [''beta'', ''alpha'']" by code_simp
  then have w: "wanted_ids ''beta, alpha;BAD'' = {''alpha'', ''beta''}"
    by (simp add: wanted_ids_def insert_commute)
  show ?thesis using panels_follow_ids [of "[Panel_ids ''alpha'']" "''beta, alpha;BAD''"] w
    by (simp add: Let_def)
qed

section \<open>Settings in the same broadcast\<close>

lemma acts_grow: "\<exists>new. panel_acts (panel_signal g s) = panel_acts s @ new" if "\<forall>l. g \<noteq> Panel_ids l"
  using that by (cases g) (auto simp: apply_height_for_def apply_position_for_def apply_visible_for_def split: option.split)

lemma not_ids_panels: "\<forall>l. g \<noteq> Panel_ids l \<Longrightarrow> panels (panel_signal g s) = panels s"
  by (cases g) simp_all

lemma run_not_ids:
  assumes "\<forall>g \<in> set gs. \<forall>l. g \<noteq> Panel_ids l"
  shows "panels (fold panel_signal gs s) = panels s"
    and "\<exists>new. panel_acts (fold panel_signal gs s) = panel_acts s @ new"
proof -
  have "panels (fold panel_signal gs s) = panels s \<and> (\<exists>new. panel_acts (fold panel_signal gs s) = panel_acts s @ new)"
    using assms
  proof (induction gs arbitrary: s)
    case (Cons g gs)
    obtain n where "panel_acts (panel_signal g s) = panel_acts s @ n" using acts_grow [of g s] Cons.prems by auto
    moreover obtain m where "panel_acts (fold panel_signal gs (panel_signal g s)) = panel_acts (panel_signal g s) @ m"
      "panels (fold panel_signal gs (panel_signal g s)) = panels (panel_signal g s)"
      using Cons by (metis list.set_intros(2))
    ultimately show ?case using not_ids_panels [of g s] Cons.prems by simp
  qed simp
  then show "panels (fold panel_signal gs s) = panels s"
    and "\<exists>new. panel_acts (fold panel_signal gs s) = panel_acts s @ new" by auto
qed

lemma per_id_not_ids: "g \<in> set (emit_per_id seen es) \<Longrightarrow> \<forall>l. g \<noteq> Panel_ids l"
  by (induction seen es rule: emit_per_id.induct) (auto simp: per_id_signal_def Let_def split: if_splits prod.splits)

lemma flat_not_panel: "fold panel_signal (snd (emit_flat b s)) t = t"
  by (simp add: emit_flat_def emit_height_def Let_def)

lemma per_id_sent: "e \<in> set es \<Longrightarrow> e \<notin> set seen \<Longrightarrow> set (per_id_signal e) \<subseteq> set (emit_per_id seen es)"
proof (induction seen es rule: emit_per_id.induct)
  case (2 seen e' es)
  then show ?case by (cases "e' = e") auto
qed simp

text \<open>
  C24: a new panel is configured in the cycle that creates it. When a broadcast changes the list of
  panels, every panel of the new list whose height the same broadcast gives is alive afterwards and
  has been given that height.
\<close>

theorem fresh_panel_configured:
  assumes "pcol_inv s" and "bc_ids b \<noteq> []" and "bc_ids b \<noteq> last_ids c" and "ident \<in> set (parse_csv (bc_ids b))"
    and "(ident, ''height'', v) \<in> set (bc_per_id b)" and "parse_panel_height v \<noteq> 0"
  shows "let s' = fold panel_signal (fst (snd (emit_changed b c))) s
    in \<exists>w. map_of (panels s') ident = Some w \<and> Apply_height w (parse_panel_height v) \<in> set (panel_acts s')"
proof -
  define per where "per = emit_per_id [] (bc_per_id b)"
  define t where "t = apply_panel_ids (bc_ids b) s"
  have ids: "snd (emit_ids b (fst (emit_flat b c))) = [Panel_ids (bc_ids b)]"
    using assms(2,3) by (simp add: emit_ids_def emit_flat_state)
  have f: "fold panel_signal (fst (snd (emit_changed b c))) s = fold panel_signal per t"
    by (simp add: emit_changed_parts flat_not_panel ids per_def t_def)
  have ti: "pcol_inv t" and tp: "fst ` set (panels t) = wanted_ids (bc_ids b)"
    unfolding t_def using apply_panel_ids_panels [OF assms(1)] by blast+
  have "ident \<in> wanted_ids (bc_ids b)" using assms(4) by (auto simp: wanted_ids_def)
  then obtain w where "(ident, w) \<in> set (panels t)" using tp by force
  then have w: "map_of (panels t) ident = Some w" using ti by (simp add: pcol_inv_def)
  have "Height_for ident (parse_panel_height v) \<in> set per"
    using per_id_sent [OF assms(5), of "[]"] assms(6) by (simp add: per_def per_id_signal_def)
  then obtain p q where pq: "per = p @ Height_for ident (parse_panel_height v) # q" by (meson split_list)
  have np: "\<forall>g \<in> set p. \<forall>l. g \<noteq> Panel_ids l" "\<forall>g \<in> set q. \<forall>l. g \<noteq> Panel_ids l"
    using per_id_not_ids [of _ "[]" "bc_per_id b"] pq by (auto simp: per_def [symmetric])
  let ?u = "fold panel_signal p t"
  let ?v = "apply_height_for ident (parse_panel_height v) ?u"
  have u: "panels ?u = panels t" using run_not_ids(1) [OF np(1)] .
  then have "panel_acts ?v = panel_acts ?u @ [Apply_height w (parse_panel_height v)]"
    using w by (simp add: apply_height_for_def find_or_default_def panel_for_id_def)
  then have "Apply_height w (parse_panel_height v) \<in> set (panel_acts (fold panel_signal q ?v))"
    using run_not_ids(2) [OF np(2), of ?v] by auto
  moreover have "map_of (panels (fold panel_signal q ?v)) ident = Some w"
    using run_not_ids(1) [OF np(2), of ?v] u w by simp
  ultimately show ?thesis by (simp add: f pq Let_def)
qed

definition two_panels :: bvals where
  "two_panels = \<lparr>bc_height = ''28'', bc_visible = [], bc_position = [], bc_clock = [], bc_sort = [], bc_color = [],
     bc_image = [], bc_ids = ''alpha,beta'',
     bc_per_id = [(''alpha'', ''position'', ''top''), (''beta'', ''height'', ''40'')]\<rparr>"

theorem fresh_panel_configured_witness:
  "\<exists>w. Apply_height w 40 \<in> set (panel_acts (fold panel_signal (fst (snd (emit_changed two_panels cfgctl_init))) pcol_init))"
proof -
  have i: "pcol_inv pcol_init" by (simp add: pcol_init_def pcol_inv_def)
  have m: "''beta'' \<in> set (parse_csv (bc_ids two_panels))" and h: "parse_panel_height ''40'' = 40" by code_simp+
  show ?thesis
    using fresh_panel_configured [OF i _ _ m, of cfgctl_init "''40''"] h
    by (auto simp: two_panels_def cfgctl_init_def Let_def)
qed

section \<open>The default panel\<close>

lemma ensure_default:
  assumes "default_id \<notin> set ids \<or> default_id \<in> fst ` set (panels s)"
  shows "default_panel (ensure ids s) = default_panel s"
  using assms
proof (induction ids arbitrary: s)
  case (Cons i ids)
  show ?case
  proof (cases "i \<in> fst ` set (panels s)")
    case True
    then show ?thesis using Cons by auto
  next
    case False
    then have "i \<noteq> default_id" using Cons.prems by auto
    then have "default_panel (create_panel i s) = default_panel s" by (simp add: create_panel_def Let_def)
    moreover have "fst ` set (panels s) \<subseteq> fst ` set (panels (create_panel i s))"
      by (auto simp: create_panel_def Let_def)
    ultimately show ?thesis using Cons.IH [of "create_panel i s"] Cons.prems False by auto
  qed
qed simp

lemma destroy_default: "default_panel (fold destroy_panel ids s) = default_panel s"
proof (induction ids arbitrary: s)
  case (Cons i ids)
  have "default_panel (destroy_panel i s) = default_panel s" by (simp add: destroy_panel_def)
  then show ?case using Cons by simp
qed simp

text \<open>
  The default panel is used after it was destroyed. When the default panel is alive and a list
  without it arrives, its widget is destroyed but the pointer to it is kept; a setting for an
  identifier without a panel, which may stand in the configuration for as long as one likes, is then
  applied to the destroyed widget.
\<close>

theorem default_panel_dangles:
  assumes "pcol_inv s" and "(default_id, w) \<in> set (panels s)" and "default_panel s = Some w"
    and "default_id \<notin> wanted_ids l" and "ident \<notin> wanted_ids l"
  shows "let s' = apply_panel_ids l s
    in w \<notin> snd ` set (panels s') \<and> last (panel_acts (apply_height_for ident h s')) = Apply_height w h"
proof -
  define ids where "ids = (if parse_csv l = [] then [default_id] else parse_csv l)"
  have wi: "set ids = wanted_ids l" by (simp add: ids_def wanted_ids_def)
  note c = create_panels [OF assms(1), of ids]
  let ?e = "ensure ids s"
  have e: "apply_panel_ids l s = fold destroy_panel (filter (\<lambda>i. i \<notin> set ids) (map fst (panels ?e))) ?e"
    by (simp only: apply_panel_ids_def Let_def ids_def)
  have p: "panels (apply_panel_ids l s) = filter (\<lambda>e. fst e \<in> set ids) (panels ?e)"
    unfolding e destroy_panels(1) by (rule filter_cong) auto
  have dw: "(default_id, w) \<in> set (panels ?e)" using c(3) assms(2) by auto
  have "inj_on snd (set (panels ?e))" using c(1) by (simp add: pcol_inv_def distinct_map)
  then have "i = default_id" if "(i, w) \<in> set (panels ?e)" for i
    using that dw inj_onD [of snd "set (panels ?e)" "(i, w)" "(default_id, w)"] by simp
  then have n: "w \<notin> snd ` set (panels (apply_panel_ids l s))"
    using assms(4) wi by (auto simp: p)
  have "default_panel (apply_panel_ids l s) = Some w"
    unfolding e destroy_default using ensure_default [of ids s] assms(3,4) wi by simp
  moreover have "map_of (panels (apply_panel_ids l s)) ident = None"
    using apply_panel_ids_panels(2) [OF assms(1), of l] assms(5) by (simp add: map_of_eq_None_iff)
  ultimately have "last (panel_acts (apply_height_for ident h (apply_panel_ids l s))) = Apply_height w h"
    by (simp add: apply_height_for_def find_or_default_def panel_for_id_def)
  with n show ?thesis by (simp add: Let_def)
qed

theorem default_panel_dangles_witness:
  "last (panel_acts (run panel_signal pcol_init [Panel_ids ''default'', Panel_ids ''alpha'', Height_for ''beta'' 40])) = Apply_height 0 40"
proof -
  let ?s = "run panel_signal pcol_init [Panel_ids ''default'']"
  have i: "pcol_inv ?s" by (rule pcol.reach_inv) simp
  have d: "panels ?s = [(''default'', 0)]" "default_panel ?s = Some 0" "parse_csv ''alpha'' = [''alpha'']"
    by code_simp+
  have w: "wanted_ids ''alpha'' = {''alpha''}" by (simp add: wanted_ids_def d(3))
  show ?thesis using default_panel_dangles [OF i _ d(2), of "''alpha''" "''beta''" 40] d(1) w
    by (simp add: Let_def)
qed

text \<open>The two controllers together, over the texts the broadcast ROM holds one after the other.\<close>

fun shell_run :: "'a genode_scheme \<Rightarrow> string list \<Rightarrow> cfgctl \<Rightarrow> pcol \<Rightarrow> cfgctl \<times> pcol" where
  "shell_run G [] c s = (c, s)"
| "shell_run G (bytes # bs) c s =
     (let (c', signals, note) = apply_config G bytes c in shell_run G bs c' (fold panel_signal signals s))"

text \<open>
  Without a list there is no panel. As long as the broadcasts hold an empty list of panels, which
  is the default of \<open>sponge_configd\<close>, the collection is never told to create its default panel: the
  shell in this mode has no panel at all.
\<close>

theorem no_panel_without_list:
  assumes "\<forall>bytes \<in> set bs. \<forall>root. parse_xml G bytes = Some root \<longrightarrow> bc_ids (read_broadcast root) = []"
  shows "panels (snd (shell_run G bs cfgctl_init pcol_init)) = []"
proof -
  have "panels s = [] \<Longrightarrow> panels (snd (shell_run G bs c s)) = []" for c s
    using assms
  proof (induction bs arbitrary: c s)
    case (Cons b bs)
    have "\<forall>g \<in> set (fst (snd (apply_config G b c))). \<forall>l. g \<noteq> Panel_ids l"
    proof -
      have f: "Panel_ids l \<notin> set (snd (emit_flat bv c))" for bv l
        by (auto simp: emit_flat_def emit_height_def Let_def)
      have p: "Panel_ids l \<notin> set (emit_per_id [] es)" for es l using per_id_not_ids by blast
      show ?thesis using Cons.prems(2) f p
        by (auto simp: apply_config_def emit_changed_parts emit_ids_def split: option.split)
    qed
    then have "panels (fold panel_signal (fst (snd (apply_config G b c))) s) = []"
      using run_not_ids(1) Cons.prems(1) by simp
    then show ?case using Cons by (simp add: case_prod_beta Let_def)
  qed simp
  then show ?thesis by (simp add: pcol_init_def)
qed

theorem no_panel_without_list_witness:
  "panels (snd (shell_run (bare_genode\<lparr>parse_xml := (\<lambda>s. Some (broadcast_xml fresh_cfg))\<rparr>) [''boot'', ''boot''] cfgctl_init pcol_init)) = []"
proof -
  have k: "find_key ''panel.ids'' = Some 9" by code_simp
  have v: "cfg_lookup fresh_cfg ''panel.ids'' = Some []"
    by (simp add: cfg_lookup_def k fresh_cfg_def fill_defaults_def cfg_init_def registry_def)
  have "cfg_key_value (broadcast_xml fresh_cfg) ''panel.ids'' = []"
    using broadcast_key [OF fresh_cfg_good v] by (simp add: value_of_view)
  then show ?thesis by (intro no_panel_without_list) (simp add: read_broadcast_def)
qed

end
