(* ===== verification/Tasklist.thy ===== *)
theory Tasklist
  imports Genode_Iface Machine
begin

text \<open>
  \<open>sponge-de/panel/tasklist_controller.cc\<close>: the list of windows the shell tracks, from the reports of
  the window manager and the layouter, and the rules and focus requests it publishes for the
  layouter. A look at the two ROMs is an argument of every operation, since each of them ends with
  one. Integers are words of 32 bits, read as signed where the code has \<open>int\<close>. Log lines are left out.
\<close>

section \<open>State\<close>

text \<open>
  \<open>to_int\<close>: the conversion of an attribute to \<open>int\<close>; \<open>parse_node\<close>: the \<open>Genode::Node\<close> constructor;
  \<open>print_int\<close>: how an \<open>int\<close> is printed.
\<close>

record tl_env = str_genode +
  to_int :: "string \<Rightarrow> u32 option"
  parse_node :: "string \<Rightarrow> xml"
  print_int :: "u32 \<Rightarrow> string"

record window_state =
  w_label :: string
  w_x :: u32
  w_y :: u32
  w_w :: u32
  w_h :: u32
  w_focused :: bool
  w_minimized :: bool
  w_has_alpha :: bool
  w_hidden :: bool
  w_resizeable :: bool
  w_maximized :: bool
  w_geometry_known :: bool

type_synonym rules_sig = "(string \<times> u32 \<times> u32 \<times> u32 \<times> u32 \<times> bool \<times> bool) list"

record task_info =
  t_label :: string
  t_x :: u32
  t_y :: u32
  t_w :: u32
  t_h :: u32
  t_focused :: bool
  t_minimized :: bool
  t_has_alpha :: bool

datatype tl_out = Rules xml | Focus_request xml | Entries "task_info list"

record tasklist =
  static_rules :: string
  focus_request_id :: u32
  tracked :: "window_state list"
  focused_label :: string
  last_emitted :: "task_info list"
  published_sig :: rules_sig
  candidate_sig :: rules_sig
  sig_stable :: bool
  origin_x :: u32
  origin_y :: u32
  area_w :: u32
  area_h :: u32
  rules_open :: bool
  focus_open :: bool
  has_widget :: bool
  tl_out :: "tl_out list"

definition tl_emit :: "tl_out \<Rightarrow> tasklist \<Rightarrow> tasklist" where
  "tl_emit o' s = s\<lparr>tl_out := tl_out s @ [o']\<rparr>"

abbreviation PARKED :: u32 where "PARKED \<equiv> - 32000"

section \<open>Reading the reports\<close>

definition attr_int :: "tl_env \<Rightarrow> xml \<Rightarrow> string \<Rightarrow> u32" where
  "attr_int G x k = (case attr x k of None \<Rightarrow> 0 | Some v \<Rightarrow> (case to_int G v of None \<Rightarrow> 0 | Some n \<Rightarrow> n))"

abbreviation attr_flag :: "tl_env \<Rightarrow> xml \<Rightarrow> string \<Rightarrow> bool" where
  "attr_flag G x k \<equiv> attr_bool (genode.truncate G) x k False"

record wm_entry =
  m_label :: string
  m_title :: string
  m_has_alpha :: bool
  m_hidden :: bool
  m_resizeable :: bool

definition read_wm_entry :: "tl_env \<Rightarrow> xml \<Rightarrow> wm_entry option" where
  "read_wm_entry G n =
     (if str_length G (map_option (gstr 256) (attr n ''label'')) = 0 then None
      else Some \<lparr>m_label = attr_str 256 n ''label'', m_title = attr_str 256 n ''title'',
             m_has_alpha = attr_flag G n ''has_alpha'', m_hidden = attr_flag G n ''hidden'',
             m_resizeable = attr_flag G n ''resizeable''\<rparr>)"

definition wm_entries :: "tl_env \<Rightarrow> rom \<Rightarrow> wm_entry list" where
  "wm_entries G wl =
     (case wl of Rom_node root \<Rightarrow> List.map_filter (read_wm_entry G) (kids_of_type root ''window'') | _ \<Rightarrow> [])"

definition match_title :: "string \<Rightarrow> wm_entry list \<Rightarrow> wm_entry option" where
  "match_title qt es = find (\<lambda>e. qt = m_label e @ '' '' @ m_title e \<or> qt = m_label e) es"

definition prev_of :: "string \<Rightarrow> window_state list \<Rightarrow> window_state option" where
  "prev_of label ts = find (\<lambda>p. w_label p = label) ts"

text \<open>A parked window keeps the geometry tracked before.\<close>

definition keep_geometry :: "window_state list \<Rightarrow> window_state \<Rightarrow> window_state" where
  "keep_geometry prev st =
     (if sint (w_x st) \<le> - 32000 \<and> sint (w_y st) \<le> - 32000 then
        (case prev_of (w_label st) prev of
           None \<Rightarrow> st\<lparr>w_minimized := True\<rparr>
         | Some p \<Rightarrow> st\<lparr>w_minimized := True, w_x := w_x p, w_y := w_y p, w_w := w_w p, w_h := w_h p\<rparr>)
      else st)"

definition fills_area :: "u32 \<Rightarrow> u32 \<Rightarrow> window_state \<Rightarrow> bool" where
  "fills_area aw ah st \<longleftrightarrow>
     \<not> w_minimized st \<and> 0 < sint aw \<and> 0 < sint ah \<and> aw - 64 \<le> w_w st \<and> ah - 64 \<le> w_h st"

definition infer_maximized :: "u32 \<Rightarrow> u32 \<Rightarrow> window_state list \<Rightarrow> window_state \<Rightarrow> window_state" where
  "infer_maximized aw ah prev st =
     (let st = (case prev_of (w_label st) prev of None \<Rightarrow> st | Some p \<Rightarrow> st\<lparr>w_maximized := w_maximized p\<rparr>)
      in if fills_area aw ah st then st\<lparr>w_maximized := True\<rparr> else st)"

definition read_window :: "tl_env \<Rightarrow> wm_entry list \<Rightarrow> u32 \<Rightarrow> u32 \<Rightarrow> window_state list \<Rightarrow> xml \<Rightarrow> window_state option" where
  "read_window G es aw ah prev w =
     (if str_length G (map_option (gstr 256) (attr w ''title'')) = 0 then None
      else case match_title (attr_str 256 w ''title'') es of
             None \<Rightarrow> None
           | Some e \<Rightarrow>
               Some (infer_maximized aw ah prev (keep_geometry prev
                 \<lparr>w_label = m_label e, w_x = attr_int G w ''xpos'', w_y = attr_int G w ''ypos'',
                  w_w = attr_u32 (genode.truncate G) w ''width'' 0,
                  w_h = attr_u32 (genode.truncate G) w ''height'' 0,
                  w_focused = attr_flag G w ''focused'', w_minimized = False,
                  w_has_alpha = m_has_alpha e, w_hidden = m_hidden e, w_resizeable = m_resizeable e,
                  w_maximized = False, w_geometry_known = True\<rparr>)))"

text \<open>One boundary of the layout: its origin and area are recorded, its windows appended.\<close>

definition read_boundary :: "tl_env \<Rightarrow> wm_entry list \<Rightarrow> xml \<Rightarrow> window_state list \<times> tasklist \<Rightarrow> window_state list \<times> tasklist" where
  "read_boundary G es b acc =
     (let s = (snd acc)\<lparr>origin_x := attr_int G b ''xpos'', origin_y := attr_int G b ''ypos'',
                area_w := attr_int G b ''width'', area_h := attr_int G b ''height''\<rparr>
      in (fst acc @ List.map_filter (read_window G es (area_w s) (area_h s) (tracked s)) (kids_of_type b ''window''), s))"

definition recompute_tracked :: "tl_env \<Rightarrow> rom \<Rightarrow> rom \<Rightarrow> tasklist \<Rightarrow> tasklist" where
  "recompute_tracked G wl lay s =
     (let es = wm_entries G wl;
          (new, s) = (case lay of
             Rom_node root \<Rightarrow> fold (read_boundary G es) (kids_of_type root ''boundary'') ([], s)
           | _ \<Rightarrow> ([], s))
      in s\<lparr>tracked := new\<rparr>)"

section \<open>The widget\<close>

definition task_info_of :: "window_state \<Rightarrow> task_info" where
  "task_info_of w = \<lparr>t_label = w_label w, t_x = w_x w, t_y = w_y w, t_w = w_w w, t_h = w_h w,
     t_focused = w_focused w, t_minimized = w_minimized w, t_has_alpha = w_has_alpha w\<rparr>"

definition build_task_infos :: "tasklist \<Rightarrow> task_info list" where
  "build_task_infos s = map task_info_of (tracked s)"

text \<open>The signature holds every field of the entries, so it changes exactly when they do.\<close>

definition refresh_widget :: "tasklist \<Rightarrow> tasklist" where
  "refresh_widget s =
     (if \<not> has_widget s \<or> build_task_infos s = last_emitted s then s
      else tl_emit (Entries (build_task_infos s)) (s\<lparr>last_emitted := build_task_infos s\<rparr>))"

section \<open>Rules\<close>

definition assign_for :: "tl_env \<Rightarrow> tasklist \<Rightarrow> window_state \<Rightarrow> xml" where
  "assign_for G s w =
     (let x = (if w_minimized w then PARKED else w_x w - origin_x s);
          y = (if w_minimized w then PARKED else w_y w - origin_y s)
      in leaf ''assign''
           [(''label'', w_label w), (''target'', ''screen''), (''xpos'', print_int G x), (''ypos'', print_int G y),
            (''width'', print_nat G (unat (w_w w))), (''height'', print_nat G (unat (w_h w))),
            (''maximized'', if w_maximized w then ''yes'' else ''no'')])"

definition cut_assign :: "xml \<Rightarrow> xml" where
  "cut_assign a = leaf ''assign'' (map (\<lambda>(k, v). (k, cstr (take 255 v))) (xattrs a))"

definition static_assigns :: "tl_env \<Rightarrow> tasklist \<Rightarrow> xml list" where
  "static_assigns G s =
     (if static_rules s = [] then []
      else let fragment = parse_node G (static_rules s)
           in if has_type fragment ''assign'' then [cut_assign fragment]
              else map cut_assign (kids_of_type fragment ''assign''))"

definition compose_rules :: "tl_env \<Rightarrow> tasklist \<Rightarrow> xml" where
  "compose_rules G s = node ''rules'' []
     (leaf ''screen'' [(''name'', ''screen'')]
      # map (assign_for G s) (tracked s)
      @ static_assigns G s
      @ [leaf ''press'' [(''key'', ''BTN_LEFT''), (''action'', ''drag'')],
         leaf ''release'' [(''key'', ''BTN_LEFT''), (''action'', ''drop'')]])"

definition publish_rules :: "tl_env \<Rightarrow> tasklist \<Rightarrow> tasklist" where
  "publish_rules G s = (if rules_open s then tl_emit (Rules (compose_rules G s)) s else s)"

definition rules_sig_of :: "tasklist \<Rightarrow> rules_sig" where
  "rules_sig_of s = map (\<lambda>w. (w_label w, w_x w, w_y w, w_w w, w_h w, w_minimized w, w_maximized w)) (tracked s)"

definition maybe_republish_rules :: "tl_env \<Rightarrow> tasklist \<Rightarrow> tasklist" where
  "maybe_republish_rules G s =
     (if \<not> rules_open s then s
      else
        let sig = rules_sig_of s in
        if sig = candidate_sig s then
          (let s = (if sig_stable s \<and> sig \<noteq> published_sig s
                    then publish_rules G (s\<lparr>published_sig := sig\<rparr>) else s)
           in s\<lparr>sig_stable := True\<rparr>)
        else s\<lparr>candidate_sig := sig, sig_stable := False\<rparr>)"

definition apply_updates :: "tl_env \<Rightarrow> rom \<Rightarrow> rom \<Rightarrow> tasklist \<Rightarrow> tasklist" where
  "apply_updates G wl lay s = maybe_republish_rules G (refresh_widget (recompute_tracked G wl lay s))"

section \<open>Operations\<close>

text \<open>The first tracked window with the label is changed.\<close>

fun update_first :: "string \<Rightarrow> (window_state \<Rightarrow> window_state) \<Rightarrow> window_state list \<Rightarrow> window_state list" where
  "update_first l f [] = []"
| "update_first l f (w # ws) = (if w_label w = l then f w # ws else w # update_first l f ws)"

definition publish_focus_request :: "tl_env \<Rightarrow> string \<Rightarrow> tasklist \<Rightarrow> tasklist" where
  "publish_focus_request G label s =
     (if \<not> focus_open s then s
      else let n = focus_request_id s + 1
           in tl_emit (Focus_request (leaf ''focus_request'' [(''id'', print_nat G (unat n)), (''label'', label)]))
                (s\<lparr>focus_request_id := n\<rparr>))"

definition on_task_clicked :: "tl_env \<Rightarrow> string \<Rightarrow> rom \<Rightarrow> rom \<Rightarrow> tasklist \<Rightarrow> tasklist" where
  "on_task_clicked G label wl lay s =
     (case prev_of label (tracked s) of
        None \<Rightarrow> s
      | Some st \<Rightarrow>
          (let s = (if w_minimized st then
                      publish_focus_request G label (publish_rules G
                        (s\<lparr>tracked := update_first label (\<lambda>w. w\<lparr>w_minimized := False, w_focused := True\<rparr>) (tracked s)\<rparr>))
                    else
                      publish_rules G
                        (s\<lparr>tracked := update_first label (\<lambda>w. w\<lparr>w_minimized := True, w_focused := False\<rparr>) (tracked s)\<rparr>))
           in apply_updates G wl lay s))"

definition on_toggle_maximized :: "tl_env \<Rightarrow> string \<Rightarrow> rom \<Rightarrow> rom \<Rightarrow> tasklist \<Rightarrow> tasklist" where
  "on_toggle_maximized G label wl lay s =
     (case prev_of label (tracked s) of
        None \<Rightarrow> s
      | Some st \<Rightarrow>
          apply_updates G wl lay (publish_rules G
            (s\<lparr>tracked := update_first label (\<lambda>w. w\<lparr>w_maximized := \<not> w_maximized w\<rparr>) (tracked s)\<rparr>)))"

text \<open>
  The window the focus goes to: from the first window with the focused label, or from before the
  first window, forward over all windows and around.
\<close>

definition focusable :: "window_state \<Rightarrow> bool" where
  "focusable w \<longleftrightarrow> \<not> w_minimized w \<and> w_geometry_known w"

definition focused_idx :: "window_state list \<Rightarrow> string \<Rightarrow> int" where
  "focused_idx ts l =
     (if l = [] then - 1
      else case find (\<lambda>i. w_label (ts ! i) = l) [0..<length ts] of None \<Rightarrow> - 1 | Some i \<Rightarrow> int i)"

definition next_focus :: "window_state list \<Rightarrow> string \<Rightarrow> string option" where
  "next_focus ts l =
     (let n = int (length ts); fi = focused_idx ts l
      in map_option (\<lambda>step. w_label (ts ! nat ((fi + step + n) mod n)))
           (find (\<lambda>step. focusable (ts ! nat ((fi + step + n) mod n))) (map int [1..<Suc (length ts)])))"

definition cycle_focus :: "tl_env \<Rightarrow> rom \<Rightarrow> rom \<Rightarrow> tasklist \<Rightarrow> tasklist" where
  "cycle_focus G wl lay s =
     (if tracked s = [] then s
      else case next_focus (tracked s) (focused_label s) of
             None \<Rightarrow> s
           | Some l \<Rightarrow>
               if l = [] then s
               else apply_updates G wl lay (publish_rules G (publish_focus_request G l
                      (s\<lparr>tracked := map (\<lambda>w. w\<lparr>w_focused := (w_label w = l)\<rparr>) (tracked s), focused_label := l\<rparr>))))"

definition set_all_minimized :: "tl_env \<Rightarrow> bool \<Rightarrow> rom \<Rightarrow> rom \<Rightarrow> tasklist \<Rightarrow> tasklist" where
  "set_all_minimized G m wl lay s =
     (if tracked s = [] then s
      else if list_all (\<lambda>w. w_minimized w = m) (tracked s) then s
      else apply_updates G wl lay (publish_rules G
             (s\<lparr>tracked := map (\<lambda>w. if w_minimized w \<noteq> m then w\<lparr>w_minimized := m, w_focused := False\<rparr> else w)
                            (tracked s)\<rparr>)))"

text \<open>The controller when its widget is attached: the sessions that could be opened, and the static rules.\<close>

definition tl_attach :: "tl_env \<Rightarrow> string \<Rightarrow> bool \<Rightarrow> bool \<Rightarrow> rom \<Rightarrow> rom \<Rightarrow> tasklist" where
  "tl_attach G rules_text ro fo wl lay =
     apply_updates G wl lay (publish_rules G
       \<lparr>static_rules = rules_text, focus_request_id = 0, tracked = [], focused_label = [], last_emitted = [],
        published_sig = [], candidate_sig = [], sig_stable = False, origin_x = 0, origin_y = 0, area_w = 0,
        area_h = 0, rules_open = ro, focus_open = fo, has_widget = True, tl_out = []\<rparr>)"

datatype tl_event =
    Tl_poll rom rom
  | Tl_click string rom rom
  | Tl_maximize string rom rom
  | Tl_cycle rom rom
  | Tl_all bool rom rom

fun tl_step :: "tl_env \<Rightarrow> tl_event \<Rightarrow> tasklist \<Rightarrow> tasklist" where
  "tl_step G (Tl_poll wl lay) s = apply_updates G wl lay s"
| "tl_step G (Tl_click l wl lay) s = on_task_clicked G l wl lay s"
| "tl_step G (Tl_maximize l wl lay) s = on_toggle_maximized G l wl lay s"
| "tl_step G (Tl_cycle wl lay) s = cycle_focus G wl lay s"
| "tl_step G (Tl_all m wl lay) s = set_all_minimized G m wl lay s"

end
