(* ===== verification/Tasklist_Props.thy ===== *)
theory Tasklist_Props
  imports Tasklist
begin

text \<open>
  What the task list keeps of the windows, when it publishes rules, and where the focus goes. The
  windows of a layout are first read without the tracked state (\<open>raw_windows\<close>) and then adjusted by
  it (\<open>adjust\<close>); only geometry and the maximized flag depend on what was tracked before.
\<close>

section \<open>Reading a layout\<close>

definition raw_window :: "tl_env \<Rightarrow> wm_entry list \<Rightarrow> xml \<Rightarrow> window_state option" where
  "raw_window G es w =
     (if str_length G (map_option (gstr 256) (attr w ''title'')) = 0 then None
      else map_option (\<lambda>e. \<lparr>w_label = m_label e, w_x = attr_int G w ''xpos'', w_y = attr_int G w ''ypos'',
                  w_w = attr_u32 (genode.truncate G) w ''width'' 0,
                  w_h = attr_u32 (genode.truncate G) w ''height'' 0,
                  w_focused = attr_flag G w ''focused'', w_minimized = False,
                  w_has_alpha = m_has_alpha e, w_hidden = m_hidden e, w_resizeable = m_resizeable e,
                  w_maximized = False, w_geometry_known = True\<rparr>) (match_title (attr_str 256 w ''title'') es))"

definition boundary_windows :: "tl_env \<Rightarrow> wm_entry list \<Rightarrow> xml \<Rightarrow> (u32 \<times> u32 \<times> window_state) list" where
  "boundary_windows G es b =
     map (\<lambda>st. (attr_int G b ''width'', attr_int G b ''height'', st))
       (List.map_filter (raw_window G es) (kids_of_type b ''window''))"

definition raw_windows :: "tl_env \<Rightarrow> rom \<Rightarrow> rom \<Rightarrow> (u32 \<times> u32 \<times> window_state) list" where
  "raw_windows G wl lay =
     (case lay of
        Rom_node root \<Rightarrow> concat (map (boundary_windows G (wm_entries G wl)) (kids_of_type root ''boundary''))
      | _ \<Rightarrow> [])"

definition adjust :: "window_state list \<Rightarrow> u32 \<times> u32 \<times> window_state \<Rightarrow> window_state" where
  "adjust prev r = (case r of (aw, ah, st) \<Rightarrow> infer_maximized aw ah prev (keep_geometry prev st))"

lemma read_window_raw: "read_window G es aw ah prev w = map_option (\<lambda>st. adjust prev (aw, ah, st)) (raw_window G es w)"
  by (simp add: read_window_def raw_window_def adjust_def split: option.split)

lemma map_filter_map_option:
  "List.map_filter (\<lambda>x. map_option f (g x)) xs = map f (List.map_filter g xs)"
  by (induction xs) (auto simp: List.map_filter_simps split: option.split)

lemma map_filter_read:
  "List.map_filter (read_window G es aw ah prev) ws
     = map (\<lambda>st. adjust prev (aw, ah, st)) (List.map_filter (raw_window G es) ws)"
  using map_filter_map_option [of "\<lambda>st. adjust prev (aw, ah, st)" "raw_window G es" ws]
  by (simp add: read_window_raw [abs_def])

lemma read_boundaries:
  "fst (fold (read_boundary G es) bs (acc, s)) = acc @ map (adjust (tracked s)) (concat (map (boundary_windows G es) bs))"
proof (induction bs arbitrary: acc s)
  case (Cons b bs)
  have "fst (read_boundary G es b (acc, s)) = acc @ map (adjust (tracked s)) (boundary_windows G es b)"
    "tracked (snd (read_boundary G es b (acc, s))) = tracked s"
    by (simp_all add: read_boundary_def Let_def map_filter_read boundary_windows_def)
  moreover obtain a t where "read_boundary G es b (acc, s) = (a, t)" by fastforce
  ultimately show ?case using Cons [where acc = a and s = t] by simp
qed simp

lemma recompute_tracked_eq:
  "tracked (recompute_tracked G wl lay s) = map (adjust (tracked s)) (raw_windows G wl lay)"
  using read_boundaries [where G = G and es = "wm_entries G wl" and acc = "[]" and s = s]
  by (auto simp: recompute_tracked_def raw_windows_def Let_def case_prod_beta split: rom.split)

text \<open>The other fields that change: origin and area are those of the last boundary.\<close>

definition last_boundary :: "tl_env \<Rightarrow> rom \<Rightarrow> string \<Rightarrow> u32 \<Rightarrow> u32" where
  "last_boundary G lay k d =
     (case lay of
        Rom_node root \<Rightarrow> (let bs = kids_of_type root ''boundary'' in if bs = [] then d else attr_int G (last bs) k)
      | _ \<Rightarrow> d)"

lemma last_boundary_again [simp]: "last_boundary G lay k (last_boundary G lay k d) = last_boundary G lay k d"
  by (simp add: last_boundary_def Let_def split: rom.split)

lemma read_boundaries_state:
  "snd (fold (read_boundary G es) bs (acc, s)) =
     (if bs = [] then s
      else s\<lparr>origin_x := attr_int G (last bs) ''xpos'', origin_y := attr_int G (last bs) ''ypos'',
             area_w := attr_int G (last bs) ''width'', area_h := attr_int G (last bs) ''height''\<rparr>)"
proof (induction bs arbitrary: acc s)
  case (Cons b bs)
  obtain a t where r: "read_boundary G es b (acc, s) = (a, t)" by fastforce
  then have "t = s\<lparr>origin_x := attr_int G b ''xpos'', origin_y := attr_int G b ''ypos'',
      area_w := attr_int G b ''width'', area_h := attr_int G b ''height''\<rparr>"
    by (auto simp: read_boundary_def Let_def)
  then show ?case using Cons [where acc = a and s = t] r by simp
qed simp

lemma recompute_explicit:
  "recompute_tracked G wl lay s = s\<lparr>tracked := map (adjust (tracked s)) (raw_windows G wl lay),
     origin_x := last_boundary G lay ''xpos'' (origin_x s), origin_y := last_boundary G lay ''ypos'' (origin_y s),
     area_w := last_boundary G lay ''width'' (area_w s), area_h := last_boundary G lay ''height'' (area_h s)\<rparr>"
proof -
  have "recompute_tracked G wl lay s = s\<lparr>tracked := tracked (recompute_tracked G wl lay s),
     origin_x := last_boundary G lay ''xpos'' (origin_x s), origin_y := last_boundary G lay ''ypos'' (origin_y s),
     area_w := last_boundary G lay ''width'' (area_w s), area_h := last_boundary G lay ''height'' (area_h s)\<rparr>"
    using read_boundaries_state [where G = G and es = "wm_entries G wl" and acc = "[]" and s = s]
    by (simp add: recompute_tracked_def last_boundary_def Let_def case_prod_beta split: rom.split)
  then show ?thesis by (simp add: recompute_tracked_eq)
qed

lemma adjust_simps [simp]:
  "w_label (adjust prev r) = w_label (snd (snd r))" "w_geometry_known (adjust prev r) = w_geometry_known (snd (snd r))"
  "w_minimized (adjust prev r) \<longleftrightarrow> w_minimized (snd (snd r)) \<or> (sint (w_x (snd (snd r))) \<le> - 32000 \<and> sint (w_y (snd (snd r))) \<le> - 32000)"
  by (auto simp: adjust_def infer_maximized_def keep_geometry_def Let_def split: prod.split option.split)

lemma prev_of_adjust:
  "prev_of l (map (adjust prev) rs) = map_option (adjust prev) (find (\<lambda>r. w_label (snd (snd r)) = l) rs)"
  by (induction rs) (simp_all add: prev_of_def)

lemma prev_of_distinct: "distinct (map w_label ts) \<Longrightarrow> w \<in> set ts \<Longrightarrow> prev_of (w_label w) ts = Some w"
proof (induction ts)
  case (Cons t ts)
  then show ?case by (cases "t = w") (auto simp: prev_of_def)
qed simp

text \<open>A second look at the same layout changes nothing, when labels are distinct.\<close>

lemma adjust_again:
  assumes "prev_of (w_label (snd (snd r))) ts = Some (adjust prev r)"
  shows "adjust ts r = adjust prev r"
proof -
  obtain aw ah st where r: "r = (aw, ah, st)" by (cases r) auto
  define k where "k = keep_geometry prev st"
  define a where "a = infer_maximized aw ah prev k"
  have p: "prev_of (w_label st) ts = Some a" using assms by (simp add: r adjust_def a_def k_def)
  have kl: "w_label k = w_label st" by (simp add: k_def keep_geometry_def split: option.split)
  have ag: "w_x a = w_x k" "w_y a = w_y k" "w_w a = w_w k" "w_h a = w_h k"
    by (simp_all add: a_def infer_maximized_def Let_def split: option.split)
  have k: "keep_geometry ts st = k"
    using p ag by (simp add: keep_geometry_def k_def split: option.splits)
  have am: "a = k\<lparr>w_maximized := w_maximized a\<rparr>"
    by (simp add: a_def infer_maximized_def Let_def split: option.split)
  have "fills_area aw ah (k\<lparr>w_maximized := m\<rparr>) = fills_area aw ah k" for m by (simp add: fills_area_def)
  moreover have "fills_area aw ah k \<Longrightarrow> w_maximized a"
    by (simp add: a_def infer_maximized_def Let_def fills_area_def split: option.split)
  ultimately have "infer_maximized aw ah ts k = k\<lparr>w_maximized := w_maximized a\<rparr>"
    using p kl by (auto simp: infer_maximized_def Let_def)
  then show ?thesis using am by (simp add: r adjust_def k a_def [symmetric] k_def [symmetric])
qed

lemma recompute_again:
  assumes "distinct (map (\<lambda>r. w_label (snd (snd r))) rs)"
  shows "map (adjust (map (adjust prev) rs)) rs = map (adjust prev) rs"
proof (rule map_cong [OF refl])
  fix r
  assume r: "r \<in> set rs"
  have "distinct (map w_label (map (adjust prev) rs))" using assms by (simp add: comp_def)
  from prev_of_distinct [OF this, of "adjust prev r"] r
  have "prev_of (w_label (snd (snd r))) (map (adjust prev) rs) = Some (adjust prev r)" by simp
  then show "adjust (map (adjust prev) rs) r = adjust prev r" by (rule adjust_again)
qed

section \<open>Publishing rules\<close>

definition labels_distinct :: "tl_env \<Rightarrow> rom \<Rightarrow> rom \<Rightarrow> bool" where
  "labels_distinct G wl lay \<longleftrightarrow> distinct (map (\<lambda>r. w_label (snd (snd r))) (raw_windows G wl lay))"

definition settled :: "tl_env \<Rightarrow> rom \<Rightarrow> rom \<Rightarrow> tasklist \<Rightarrow> bool" where
  "settled G wl lay s \<longleftrightarrow> recompute_tracked G wl lay s = s"

lemma recompute_settled: "labels_distinct G wl lay \<Longrightarrow> settled G wl lay (recompute_tracked G wl lay s)"
  by (simp add: settled_def labels_distinct_def recompute_explicit recompute_again)

text \<open>The operations after a look at the ROMs leave the tracked windows alone.\<close>

definition same_windows :: "tasklist \<Rightarrow> tasklist \<Rightarrow> bool" where
  "same_windows s s' \<longleftrightarrow> tracked s' = tracked s \<and> origin_x s' = origin_x s \<and> origin_y s' = origin_y s
     \<and> area_w s' = area_w s \<and> area_h s' = area_h s \<and> static_rules s' = static_rules s \<and> rules_open s' = rules_open s
     \<and> focus_open s' = focus_open s \<and> focused_label s' = focused_label s"

lemma same_windows_refl [simp]: "same_windows s s"
  by (simp add: same_windows_def)

lemma same_windows_refresh: "same_windows s (refresh_widget s)"
  by (simp add: same_windows_def refresh_widget_def tl_emit_def)

lemma same_windows_republish: "same_windows s (maybe_republish_rules G s)"
  by (simp add: same_windows_def maybe_republish_rules_def publish_rules_def tl_emit_def Let_def)

lemma settled_cong: "same_windows s s' \<Longrightarrow> settled G wl lay s \<Longrightarrow> settled G wl lay s'"
  by (cases s; cases s') (simp add: settled_def same_windows_def recompute_explicit)

definition settle :: "tl_env \<Rightarrow> tasklist \<Rightarrow> tasklist" where
  "settle G s = maybe_republish_rules G (refresh_widget s)"

lemma same_windows_settle: "same_windows s (settle G s)"
  using same_windows_refresh [of s] same_windows_republish [of "refresh_widget s" G]
  by (simp add: settle_def same_windows_def)

lemma apply_updates_settle: "apply_updates G wl lay s = settle G (recompute_tracked G wl lay s)"
  by (simp add: apply_updates_def settle_def)

text \<open>Polls of an unchanged layout: one look, and then the loop of the rules alone.\<close>

lemma polls_settle:
  assumes "labels_distinct G wl lay"
  shows "run (tl_step G) s (replicate (Suc n) (Tl_poll wl lay)) = (settle G ^^ Suc n) (recompute_tracked G wl lay s)"
proof -
  have r: "run (tl_step G) t (replicate n (Tl_poll wl lay)) = (settle G ^^ n) t" if "settled G wl lay t" for t n
    using that
  proof (induction n arbitrary: t)
    case (Suc n)
    have "apply_updates G wl lay t = settle G t" using Suc.prems by (simp add: apply_updates_settle settled_def)
    then show ?case using Suc settled_cong [OF same_windows_settle Suc.prems] by (simp add: funpow_swap1)
  qed simp
  show ?thesis using r [OF settled_cong [OF same_windows_settle recompute_settled [OF assms]]]
    by (simp add: apply_updates_settle funpow_swap1)
qed

definition rules_out :: "tasklist \<Rightarrow> xml list" where
  "rules_out s = List.map_filter (\<lambda>o'. case o' of Rules x \<Rightarrow> Some x | _ \<Rightarrow> None) (tl_out s)"

lemma rules_out_refresh: "rules_out (refresh_widget s) = rules_out s"
  by (simp add: rules_out_def refresh_widget_def tl_emit_def List.map_filter_def)

lemma sig_cong: "same_windows s s' \<Longrightarrow> rules_sig_of s' = rules_sig_of s"
  by (simp add: same_windows_def rules_sig_of_def)

lemma compose_cong: "same_windows s s' \<Longrightarrow> compose_rules G s' = compose_rules G s"
  by (simp add: same_windows_def compose_rules_def assign_for_def [abs_def] static_assigns_def)

text \<open>One round of the loop over an unchanged signature.\<close>

lemma settle_step:
  assumes "rules_open s"
  shows "candidate_sig (settle G s) = rules_sig_of s"
    and "sig_stable (settle G s) \<longleftrightarrow> candidate_sig s = rules_sig_of s"
    and "published_sig (settle G s) = (if candidate_sig s = rules_sig_of s \<and> sig_stable s then rules_sig_of s else published_sig s)"
    and "rules_out (settle G s) = rules_out s
      @ (if candidate_sig s = rules_sig_of s \<and> sig_stable s \<and> published_sig s \<noteq> rules_sig_of s then [compose_rules G s] else [])"
proof -
  let ?t = "refresh_widget s"
  have w: "same_windows s ?t" by (rule same_windows_refresh)
  have t: "rules_open ?t" "candidate_sig ?t = candidate_sig s" "sig_stable ?t = sig_stable s" "published_sig ?t = published_sig s"
    "rules_sig_of ?t = rules_sig_of s" "compose_rules G ?t = compose_rules G s" "rules_out ?t = rules_out s"
    using assms sig_cong [OF w] compose_cong [OF w] rules_out_refresh by (simp_all add: refresh_widget_def tl_emit_def)
  have c: "compose_rules G (?t\<lparr>published_sig := x\<rparr>) = compose_rules G s" for x
    using t(6) compose_cong [of ?t "?t\<lparr>published_sig := x\<rparr>"] by (simp add: same_windows_def)
  have r: "rules_out (y\<lparr>sig_stable := b\<rparr>) = rules_out y" "rules_out (y\<lparr>candidate_sig := a, sig_stable := b\<rparr>) = rules_out y"
    "rules_out (y\<lparr>published_sig := a\<rparr>) = rules_out y" "rules_out (tl_emit (Rules z) y) = rules_out y @ [z]" for y a b z
    by (simp_all add: rules_out_def tl_emit_def List.map_filter_def)
  show "candidate_sig (settle G s) = rules_sig_of s"
    and "sig_stable (settle G s) \<longleftrightarrow> candidate_sig s = rules_sig_of s"
    and "published_sig (settle G s) = (if candidate_sig s = rules_sig_of s \<and> sig_stable s then rules_sig_of s else published_sig s)"
    using t by (auto simp: settle_def maybe_republish_rules_def Let_def publish_rules_def tl_emit_def)
  show "rules_out (settle G s) = rules_out s
      @ (if candidate_sig s = rules_sig_of s \<and> sig_stable s \<and> published_sig s \<noteq> rules_sig_of s then [compose_rules G s] else [])"
    using t c r by (auto simp: settle_def maybe_republish_rules_def Let_def publish_rules_def)
qed

text \<open>From the third poll of an unchanged layout on, the rules are those of the tracked windows.\<close>

lemma polls_publish:
  assumes "labels_distinct G wl lay" and "rules_open s"
  defines "s3 \<equiv> run (tl_step G) s (replicate 3 (Tl_poll wl lay))"
  shows "published_sig s3 = rules_sig_of s3"
    and "rules_out (run (tl_step G) s (replicate (3 + n) (Tl_poll wl lay))) = rules_out s3"
    and "published_sig s \<noteq> rules_sig_of s3 \<longrightarrow> rules_out s3 \<noteq> [] \<and> last (rules_out s3) = compose_rules G s3"
proof -
  let ?r = "recompute_tracked G wl lay s"
  have open_n: "rules_open ((settle G ^^ k) t) \<longleftrightarrow> rules_open t" for k t
    by (induction k) (use same_windows_settle in \<open>auto simp: same_windows_def\<close>)
  have w: "same_windows t ((settle G ^^ k) t)" for k t
    by (induction k) (use same_windows_settle in \<open>auto simp: same_windows_def\<close>)
  have ro: "rules_open ?r" using assms(2) by (simp add: recompute_explicit)
  have ps: "published_sig ?r = published_sig s" by (simp add: recompute_explicit)
  define S where "S = rules_sig_of ?r"
  define C where "C = compose_rules G ?r"
  have sg: "rules_sig_of ((settle G ^^ k) ?r) = S" "compose_rules G ((settle G ^^ k) ?r) = C"
    "rules_open ((settle G ^^ k) ?r)" for k
    using sig_cong [OF w] compose_cong [OF w] open_n ro by (simp_all add: S_def C_def)
  define q where "q k = (settle G ^^ k) ?r" for k
  have q: "candidate_sig (q (Suc k)) = S" "sig_stable (q (Suc k)) \<longleftrightarrow> candidate_sig (q k) = S"
    "published_sig (q (Suc k)) = (if candidate_sig (q k) = S \<and> sig_stable (q k) then S else published_sig (q k))"
    "rules_out (q (Suc k)) = rules_out (q k)
      @ (if candidate_sig (q k) = S \<and> sig_stable (q k) \<and> published_sig (q k) \<noteq> S then [C] else [])" for k
    using settle_step [OF sg(3) [of k]] sg(1,2) [of k] by (simp_all add: q_def)
  have s3: "s3 = q 3" using polls_settle [OF assms(1), of s 2] by (simp add: s3_def q_def numeral_3_eq_3 numeral_2_eq_2)
  have st: "candidate_sig (q (Suc (Suc k))) = S" "sig_stable (q (Suc (Suc k)))" for k using q by simp_all
  have p3: "published_sig (q (3 + k)) = S" for k
    using q(3) [of "2 + k"] st [of k] by (simp add: numeral_3_eq_3 numeral_2_eq_2)
  have S3: "rules_sig_of s3 = S" using sg(1) [of 3] s3 by (simp add: q_def)
  show "published_sig s3 = rules_sig_of s3" using p3 [of 0] s3 S3 by simp
  have "rules_out (q (3 + k)) = rules_out (q 3)" for k
  proof (induction k)
    case (Suc k)
    then show ?case using q(4) [of "3 + k"] p3 [of k] by simp
  qed simp
  moreover have "run (tl_step G) s (replicate (3 + n) (Tl_poll wl lay)) = q (3 + n)"
    using polls_settle [OF assms(1), of s "2 + n"] by (simp add: q_def numeral_3_eq_3 numeral_2_eq_2)
  ultimately show "rules_out (run (tl_step G) s (replicate (3 + n) (Tl_poll wl lay))) = rules_out s3"
    using s3 by simp
  have q0: "published_sig (q 0) = published_sig s" using ps by (simp add: q_def)
  show "published_sig s \<noteq> rules_sig_of s3 \<longrightarrow> rules_out s3 \<noteq> [] \<and> last (rules_out s3) = compose_rules G s3"
  proof
    assume "published_sig s \<noteq> rules_sig_of s3"
    then have n: "published_sig (q 0) \<noteq> S" using q0 S3 by simp
    have "rules_out (q 3) \<noteq> [] \<and> last (rules_out (q 3)) = C"
      using n q(3) [of 0] q(3) [of 1] q(4) [of 0] q(4) [of 1] q(4) [of 2] st [of 0] q(1,2) [of 0]
      by (auto simp: numeral_3_eq_3 numeral_2_eq_2 split: if_splits)
    then show "rules_out s3 \<noteq> [] \<and> last (rules_out s3) = compose_rules G s3"
      using s3 sg(2) [of 3] by (simp add: q_def)
  qed
qed

end
