(* ===== verification/Tasklist_Focus.thy ===== *)
theory Tasklist_Focus
  imports Tasklist_Props
begin

text \<open>
  Where the keyboard moves the focus, and what minimizing, restoring and maximizing do to a window.
\<close>

section \<open>A small screen\<close>

text \<open>Three windows of one application each; the second one may be parked, the first may fill the area.\<close>

definition demo_tl :: tl_env where
  "demo_tl = \<lparr>key_known = (\<lambda>k. True), parse_xml = (\<lambda>s. None), parse_hid = (\<lambda>s. Raw s),
     to_u32 = (\<lambda>s. if s = ''800'' then Some 800 else if s = ''600'' then Some 600 else Some 100),
     to_bool = (\<lambda>s. Some (s = ''yes'')), ser_config = (\<lambda>x. None), print_nat = (\<lambda>n. []),
     report_fits = (\<lambda>b n. True), str_length = (\<lambda>s. case s of None \<Rightarrow> 0 | Some v \<Rightarrow> Suc (length v)),
     to_int = (\<lambda>s. if s = ''800'' then Some 800 else if s = ''600'' then Some 600
        else if s = ''-32000'' then Some (- 32000) else Some 40),
     parse_node = (\<lambda>s. Raw s), print_int = (\<lambda>n. if n = - 32000 then ''parked'' else if n = 40 then ''40'' else ''other'')\<rparr>"

definition demo_windows :: rom where
  "demo_windows = Rom_node (node ''window_list'' [] (map (\<lambda>l. leaf ''window'' [(''label'', l), (''title'', ''main'')])
     [''a'', ''b'', ''c'']))"

definition demo_window :: "string \<Rightarrow> string \<Rightarrow> string \<Rightarrow> xml" where
  "demo_window l pos width = leaf ''window'' [(''title'', l @ '' main''), (''xpos'', pos), (''ypos'', pos),
     (''width'', width), (''height'', if width = ''800'' then ''600'' else ''100'')]"

definition demo_layout :: "xml list \<Rightarrow> rom" where
  "demo_layout ws = Rom_node (node ''window_layout'' []
     [node ''boundary'' [(''name'', ''screen''), (''width'', ''800''), (''height'', ''600'')] ws])"

definition three_windows :: rom where
  "three_windows = demo_layout [demo_window ''a'' ''40'' ''100'', demo_window ''b'' ''-32000'' ''100'', demo_window ''c'' ''40'' ''100'']"

definition demo_start :: tasklist where
  "demo_start = tl_attach demo_tl [] True True demo_windows three_windows"

section \<open>The focus cycle\<close>

definition turn :: "nat \<Rightarrow> 'a list \<Rightarrow> 'a list" where
  "turn k xs = drop k xs @ take k xs"

lemma map_turn: "map f (turn k xs) = turn k (map f xs)"
  by (simp add: turn_def take_map drop_map)

lemma ring_walk:
  assumes "k \<le> length ts"
  shows "map (\<lambda>step. ts ! nat ((int k - 1 + step + int (length ts)) mod int (length ts))) (map int [1..<Suc (length ts)]) = turn k ts"
proof (rule nth_equalityI)
  show "length (map (\<lambda>step. ts ! nat ((int k - 1 + step + int (length ts)) mod int (length ts))) (map int [1..<Suc (length ts)]))
      = length (turn k ts)" using assms by (simp add: turn_def del: upt_Suc)
  fix i
  assume "i < length (map (\<lambda>step. ts ! nat ((int k - 1 + step + int (length ts)) mod int (length ts))) (map int [1..<Suc (length ts)]))"
  then have i: "i < length ts" by (simp del: upt_Suc)
  let ?n = "length ts"
  have e: "int k - 1 + int (1 + i) + int ?n = int (k + i + ?n)" by simp
  have "nat ((int k - 1 + int (1 + i) + int ?n) mod int ?n) = (k + i + ?n) mod ?n"
    unfolding e zmod_int [symmetric] by (rule nat_int)
  then have "nat ((int k - 1 + int (1 + i) + int ?n) mod int ?n) = (k + i) mod ?n" by simp
  moreover have "(k + i) mod ?n = (if k + i < ?n then k + i else k + i - ?n)"
  proof (cases "k + i < ?n")
    case False
    then have "(k + i) mod ?n = (k + i - ?n) mod ?n" by (intro le_mod_geq) simp
    also have "\<dots> = k + i - ?n" using i assms False by (intro mod_less) linarith
    finally show ?thesis using False by simp
  qed simp
  moreover have "turn k ts ! i = (if k + i < ?n then ts ! (k + i) else ts ! (k + i - ?n))"
    using i assms by (auto simp: turn_def nth_append add.commute)
  moreover have "map int [1..<Suc ?n] ! i = int (1 + i)" using i by (simp del: upt_Suc)
  ultimately show "map (\<lambda>step. ts ! nat ((int k - 1 + step + int ?n) mod int ?n)) (map int [1..<Suc ?n]) ! i = turn k ts ! i"
    using i by (simp del: upt_Suc)
qed

lemma find_map_eq: "map_option f (find (\<lambda>x. P (f x)) xs) = find P (map f xs)"
  by (induction xs) auto

text \<open>\<open>start_of\<close>: where the walk begins, after the first window with the label.\<close>

definition start_of :: "window_state list \<Rightarrow> string \<Rightarrow> nat" where
  "start_of ts l = (if l = [] then 0
     else case find (\<lambda>i. w_label (ts ! i) = l) [0..<length ts] of None \<Rightarrow> 0 | Some i \<Rightarrow> Suc i)"

lemma next_focus_turn:
  "next_focus ts l = map_option w_label (find focusable (turn (start_of ts l) ts))"
proof -
  have f: "focused_idx ts l = int (start_of ts l) - 1"
    by (simp add: focused_idx_def start_of_def split: option.split)
  have "start_of ts l \<le> length ts"
    by (auto simp: start_of_def find_Some_iff split: option.split)
  note rw = ring_walk [OF this]
  let ?g = "\<lambda>step. ts ! nat ((int (start_of ts l) - 1 + step + int (length ts)) mod int (length ts))"
  have "next_focus ts l = map_option w_label (map_option ?g (find (\<lambda>x. focusable (?g x)) (map int [1..<Suc (length ts)])))"
    by (simp add: next_focus_def Let_def f option.map_comp comp_def del: upt_Suc)
  also have "\<dots> = map_option w_label (find focusable (turn (start_of ts l) ts))"
  proof -
    have "map_option ?g (find (\<lambda>x. focusable (?g x)) xs) = find focusable (map ?g xs)" for xs
      by (rule find_map_eq)
    then show ?thesis by (simp only: rw)
  qed
  finally show ?thesis .
qed

lemma start_of_label:
  assumes "distinct (map w_label ts)" and "ts = pre @ w # post" and "w_label w \<noteq> []"
  shows "start_of ts (w_label w) = Suc (length pre)"
proof -
  have "find (\<lambda>i. w_label (ts ! i) = w_label w) [0..<length ts] = Some (length pre)"
  proof (rule find_only)
    show "length pre \<in> set [0..<length ts]" using assms(2) by simp
    show "w_label (ts ! length pre) = w_label w" using assms(2) by simp
    fix i
    assume "i \<in> set [0..<length ts]" and l: "w_label (ts ! i) = w_label w"
    then have i: "i < length ts" by simp
    have p: "length pre < length ts" "w_label (ts ! length pre) = w_label w" using assms(2) by simp_all
    then show "i = length pre" using nth_eq_iff_index_eq [OF assms(1), of i "length pre"] i l by simp
  qed
  then show ?thesis using assms(3) by (simp add: start_of_def)
qed

lemma find_hd_filter: "find P xs = (case filter P xs of [] \<Rightarrow> None | x # _ \<Rightarrow> Some x)"
  by (induction xs) auto

lemma filter_nth_split:
  "j < length (filter P xs) \<Longrightarrow> \<exists>pre post. xs = pre @ filter P xs ! j # post
     \<and> filter P pre = take j (filter P xs) \<and> filter P post = drop (Suc j) (filter P xs)"
proof (induction xs arbitrary: j)
  case (Cons x xs)
  show ?case
  proof (cases "P x \<and> j = 0")
    case True
    then show ?thesis by (intro exI [of _ "[]"] exI [of _ xs]) simp
  next
    case False
    define i where "i = (if P x then j - 1 else j)"
    have "i < length (filter P xs)" using Cons.prems False by (auto simp: i_def split: if_splits)
    then obtain pre post where pp: "xs = pre @ filter P xs ! i # post" "filter P pre = take i (filter P xs)"
      "filter P post = drop (Suc i) (filter P xs)" using Cons.IH by meson
    have "P x \<Longrightarrow> j = Suc i" "\<not> P x \<Longrightarrow> j = i" using False by (auto simp: i_def)
    then have f: "filter P (x # xs) ! j = filter P xs ! i" "filter P (x # pre) = take j (filter P (x # xs))"
      "filter P post = drop (Suc j) (filter P (x # xs))"
      using pp(2,3) by (cases "P x"; simp)+
    have "x # xs = (x # pre) @ filter P (x # xs) ! j # post" using pp(1) f(1) by simp
    with f(2,3) show ?thesis by blast
  qed
qed simp

text \<open>The visible labels in order; from one of them the focus goes to the next.\<close>

definition visible_labels :: "window_state list \<Rightarrow> string list" where
  "visible_labels ts = map w_label (filter focusable ts)"

lemma next_visible:
  assumes "distinct (map w_label ts)" and "[] \<notin> set (visible_labels ts)" and "j < length (visible_labels ts)"
  shows "next_focus ts (visible_labels ts ! j) = Some (visible_labels ts ! (Suc j mod length (visible_labels ts)))"
proof -
  let ?v = "visible_labels ts" and ?f = "filter focusable ts"
  have jf: "j < length ?f" using assms(3) by (simp add: visible_labels_def)
  define w where "w = ?f ! j"
  have wl: "?v ! j = w_label w" using jf by (simp add: visible_labels_def w_def)
  obtain pre post where ts: "ts = pre @ w # post" and pf: "filter focusable pre = take j ?f" "filter focusable post = drop (Suc j) ?f"
    using filter_nth_split [OF jf] unfolding w_def by blast
  have fw: "focusable w" using jf nth_mem [OF jf] by (simp add: w_def)
  have "w_label w \<noteq> []" using assms(2) wl nth_mem [OF assms(3)] by auto
  then have "turn (start_of ts (w_label w)) ts = post @ pre @ [w]"
    using start_of_label [OF assms(1) ts] ts by (simp add: turn_def)
  then have n: "next_focus ts (?v ! j) = map_option w_label (case drop (Suc j) ?f @ take j ?f @ [w] of [] \<Rightarrow> None | x # _ \<Rightarrow> Some x)"
    using fw pf by (simp add: next_focus_turn wl find_hd_filter)
  show ?thesis
  proof (cases "Suc j < length ?f")
    case True
    then have "drop (Suc j) ?f = ?f ! Suc j # drop (Suc (Suc j)) ?f" by (simp add: Cons_nth_drop_Suc)
    then show ?thesis using n True by (simp add: visible_labels_def)
  next
    case False
    then have j: "Suc j = length ?f" using jf by simp
    have "?f \<noteq> []" using jf by auto
    then have h: "hd (take j ?f @ [w]) = ?f ! 0"
      using j by (cases j) (simp_all add: w_def hd_append hd_conv_nth take_Suc_conv_app_nth)
    have "take j ?f @ [w] \<noteq> []" by simp
    then obtain y ys where y: "take j ?f @ [w] = y # ys" by (cases "take j ?f @ [w]") auto
    then have "y = ?f ! 0" using h by simp
    then show ?thesis using n j y \<open>?f \<noteq> []\<close> by (simp add: visible_labels_def)
  qed
qed

lemma first_visible:
  assumes "visible_labels ts \<noteq> []" and "[] \<notin> set (visible_labels ts)"
  shows "\<exists>j < length (visible_labels ts). next_focus ts l = Some (visible_labels ts ! j)"
proof -
  have "set (turn k ts) = set ts" for k
    by (simp add: turn_def) (metis Un_commute append_take_drop_id set_append)
  then have f: "filter focusable (turn k ts) \<noteq> []" for k
    using assms(1) by (auto simp: visible_labels_def filter_empty_conv)
  then obtain w ws where w: "filter focusable (turn (start_of ts l) ts) = w # ws"
    by (cases "filter focusable (turn (start_of ts l) ts)") auto
  then have "w \<in> set (filter focusable (turn (start_of ts l) ts))" by simp
  then have "w \<in> set (filter focusable ts)" using \<open>\<And>k. set (turn k ts) = set ts\<close> by simp
  then have "w_label w \<in> set (visible_labels ts)" by (auto simp: visible_labels_def)
  then obtain j where "j < length (visible_labels ts)" "visible_labels ts ! j = w_label w"
    by (metis in_set_conv_nth)
  then show ?thesis using w by (auto simp: next_focus_turn find_hd_filter)
qed

text \<open>Iterating the step walks around the visible windows.\<close>

lemma iterate_focus:
  assumes "distinct (map w_label ts)" and "[] \<notin> set (visible_labels ts)" and "j < length (visible_labels ts)"
  shows "((\<lambda>l. the (next_focus ts l)) ^^ n) (visible_labels ts ! j)
    = visible_labels ts ! ((j + n) mod length (visible_labels ts))"
proof (induction n)
  case 0
  then show ?case using assms(3) by simp
next
  case (Suc n)
  let ?m = "length (visible_labels ts)"
  have "(j + n) mod ?m < ?m" using assms(3) by (intro mod_less_divisor) auto
  from next_visible [OF assms(1,2) this] show ?case using Suc by (simp add: mod_Suc_eq)
qed

text \<open>Labels, parking and visibility of the tracked windows depend on the reports alone.\<close>

definition core :: "window_state \<Rightarrow> string \<times> bool \<times> bool" where
  "core w = (w_label w, w_minimized w, w_geometry_known w)"

lemma core_recompute:
  "map core (tracked (recompute_tracked G wl lay s)) = map core (tracked (recompute_tracked G wl lay s'))"
  by (simp add: recompute_tracked_eq core_def)

lemma focus_core:
  assumes "map core ts = map core ts'"
  shows "next_focus ts l = next_focus ts' l" and "visible_labels ts = visible_labels ts'" and "map w_label ts = map w_label ts'"
proof -
  have len: "length ts = length ts'" using assms by (metis length_map)
  have c: "w_label (ts ! i) = w_label (ts' ! i)" "focusable (ts ! i) = focusable (ts' ! i)" if "i < length ts" for i
  proof -
    have "core (ts ! i) = core (ts' ! i)" using that len assms by (metis nth_map)
    then show "w_label (ts ! i) = w_label (ts' ! i)" "focusable (ts ! i) = focusable (ts' ! i)"
      by (simp_all add: core_def focusable_def)
  qed
  show l: "map w_label ts = map w_label ts'" using len c by (intro nth_equalityI) simp_all
  have fl: "map (\<lambda>w. (w_label w, focusable w)) ts = map (\<lambda>w. (w_label w, focusable w)) ts'"
    using len c by (intro nth_equalityI) simp_all
  have v: "visible_labels xs = map fst (filter snd (map (\<lambda>w. (w_label w, focusable w)) xs))" for xs
    by (induction xs) (simp_all add: visible_labels_def)
  show "visible_labels ts = visible_labels ts'" by (simp only: v fl)
  have "start_of ts l = start_of ts' l"
  proof -
    have "find (\<lambda>i. w_label (ts ! i) = l) [0..<length ts] = find (\<lambda>i. w_label (ts' ! i) = l) [0..<length ts']"
      unfolding len [symmetric] using c(1) by (intro find_cong refl) auto
    then show ?thesis by (simp add: start_of_def)
  qed
  moreover have "map_option w_label (find focusable xs) = map_option fst (find snd (map (\<lambda>w. (w_label w, focusable w)) xs))" for xs
    by (induction xs) simp_all
  moreover have "map (\<lambda>w. (w_label w, focusable w)) (turn k ts) = map (\<lambda>w. (w_label w, focusable w)) (turn k ts')" for k
    by (simp only: map_turn fl)
  ultimately show "next_focus ts l = next_focus ts' l" by (simp add: next_focus_turn)
qed

lemma cycle_step:
  assumes "map core (tracked s) = map core (tracked (recompute_tracked G wl lay s0))"
    and "visible_labels (tracked s) \<noteq> []" and "[] \<notin> set (visible_labels (tracked s))"
  shows "focused_label (cycle_focus G wl lay s) = the (next_focus (tracked s) (focused_label s))"
    and "map core (tracked (cycle_focus G wl lay s)) = map core (tracked s)"
proof -
  obtain j where j: "j < length (visible_labels (tracked s))"
    "next_focus (tracked s) (focused_label s) = Some (visible_labels (tracked s) ! j)"
    using first_visible [OF assms(2,3)] by blast
  define l where "l = visible_labels (tracked s) ! j"
  have ln: "l \<noteq> []" using assms(3) nth_mem [OF j(1)] by (auto simp: l_def)
  have tn: "tracked s \<noteq> []" using assms(2) by (auto simp: visible_labels_def)
  define t where "t = publish_rules G (publish_focus_request G l
      (s\<lparr>tracked := map (\<lambda>w. w\<lparr>w_focused := (w_label w = l)\<rparr>) (tracked s), focused_label := l\<rparr>))"
  have c: "cycle_focus G wl lay s = settle G (recompute_tracked G wl lay t)"
    using tn ln j(2) by (simp add: cycle_focus_def t_def l_def [symmetric] apply_updates_settle)
  have "focused_label t = l" by (simp add: t_def publish_rules_def publish_focus_request_def tl_emit_def Let_def)
  then show "focused_label (cycle_focus G wl lay s) = the (next_focus (tracked s) (focused_label s))"
    using same_windows_settle [of "recompute_tracked G wl lay t" G] j(2)
    by (simp add: c same_windows_def recompute_explicit l_def)
  show "map core (tracked (cycle_focus G wl lay s)) = map core (tracked s)"
    using same_windows_settle [of "recompute_tracked G wl lay t" G] assms(1) core_recompute [of G wl lay t s0]
    by (simp add: c same_windows_def)
qed

text \<open>
  C11: cycling the focus reaches every visible window. When the layout stays as it is and labels
  the windows it shows differently, each with a label, then calling \<open>cycle_focus\<close> at most as many times
  as there are visible windows brings the focus to any given one of them, wherever it was before;
  parked windows are never focused. (With two windows of one label this is false, see
  \<open>repeated_label_blocks_focus\<close>; and the focus key does not reach this function, see
  \<open>focus_key_dead\<close> in Shell\_Actions.)
\<close>

theorem focus_reaches_every_window:
  assumes "s = apply_updates G wl lay s0" and "distinct (map w_label (tracked s))"
    and "[] \<notin> set (visible_labels (tracked s))" and "v \<in> set (visible_labels (tracked s))"
  shows "(\<exists>k. 1 \<le> k \<and> k \<le> length (visible_labels (tracked s))
    \<and> focused_label (run (tl_step G) s (replicate k (Tl_cycle wl lay))) = v)
    \<and> focused_label (run (tl_step G) s (replicate (Suc n) (Tl_cycle wl lay))) \<in> set (visible_labels (tracked s))"
proof -
  let ?v = "visible_labels (tracked s)"
  define f where "f = (\<lambda>l. the (next_focus (tracked s) l))"
  have ne: "?v \<noteq> []" using assms(4) by auto
  have c0: "map core (tracked s) = map core (tracked (recompute_tracked G wl lay s0))"
    using same_windows_settle [of "recompute_tracked G wl lay s0" G] by (simp add: assms(1) apply_updates_settle same_windows_def)
  have r: "focused_label (run (tl_step G) t (replicate k (Tl_cycle wl lay))) = (f ^^ k) (focused_label t)"
    if "map core (tracked t) = map core (tracked s)" for t k
    using that
  proof (induction k arbitrary: t)
    case (Suc k)
    note fc = focus_core [OF Suc.prems]
    have a: "map core (tracked t) = map core (tracked (recompute_tracked G wl lay s0))" using Suc.prems c0 by simp
    have b: "visible_labels (tracked t) \<noteq> []" "[] \<notin> set (visible_labels (tracked t))" using fc(2) ne assms(3) by simp_all
    note cs = cycle_step [OF a b]
    have "map core (tracked (cycle_focus G wl lay t)) = map core (tracked s)" using cs(2) Suc.prems by simp
    from Suc.IH [OF this] have "focused_label (run (tl_step G) t (replicate (Suc k) (Tl_cycle wl lay)))
        = (f ^^ k) (focused_label (cycle_focus G wl lay t))" by simp
    also have "focused_label (cycle_focus G wl lay t) = f (focused_label t)" using cs(1) fc(1) by (simp add: f_def)
    finally show ?case by (simp add: funpow_swap1)
  qed simp
  obtain j where j: "j < length ?v" "f (focused_label s) = ?v ! j"
    using first_visible [OF ne assms(3), of "focused_label s"] by (auto simp: f_def)
  have it: "(f ^^ Suc n) (focused_label s) = ?v ! ((j + n) mod length ?v)" for n
    using iterate_focus [OF assms(2,3) j(1), of n] j(2) by (simp add: f_def [symmetric] funpow_swap1)
  obtain i where i: "i < length ?v" "?v ! i = v" using assms(4) by (metis in_set_conv_nth)
  define d where "d = (if j \<le> i then i - j else length ?v + i - j)"
  have n: "d < length ?v" "(j + d) mod length ?v = i" using i(1) j(1) by (auto simp: d_def)
  then have "focused_label (run (tl_step G) s (replicate (Suc d) (Tl_cycle wl lay))) = v"
    unfolding r [OF refl] it by (simp add: n(2) i(2))
  with n(1) have k: "\<exists>k. 1 \<le> k \<and> k \<le> length ?v \<and> focused_label (run (tl_step G) s (replicate k (Tl_cycle wl lay))) = v"
    by (intro exI [of _ "Suc d"]) simp
  have "?v ! ((j + n) mod length ?v) \<in> set ?v" for n
    using j(1) by (intro nth_mem mod_less_divisor) auto
  then have "focused_label (run (tl_step G) s (replicate (Suc n) (Tl_cycle wl lay))) \<in> set ?v"
    unfolding r [OF refl] it .
  with k show ?thesis by blast
qed

theorem focus_reaches_every_window_witness:
  "\<exists>k. 1 \<le> k \<and> k \<le> 2
    \<and> focused_label (run (tl_step demo_tl) demo_start (replicate k (Tl_cycle demo_windows three_windows))) = ''c''"
proof -
  have v: "visible_labels (tracked demo_start) = [''a'', ''c'']" "map w_label (tracked demo_start) = [''a'', ''b'', ''c'']"
    by code_simp+
  have s: "demo_start = apply_updates demo_tl demo_windows three_windows
      (publish_rules demo_tl \<lparr>static_rules = [], focus_request_id = 0, tracked = [], focused_label = [], last_emitted = [],
        published_sig = [], candidate_sig = [], sig_stable = False, origin_x = 0, origin_y = 0, area_w = 0,
        area_h = 0, rules_open = True, focus_open = True, has_widget = True, tl_out = []\<rparr>)"
    by (simp add: demo_start_def tl_attach_def)
  show ?thesis
    using conjunct1 [OF focus_reaches_every_window [OF s, of "''c''"]] v by (simp add: numeral_2_eq_2)
qed

text \<open>
  Windows of one application with the same label block the focus key. When the label after the
  focused one is the same and that window is visible, the key never leaves the label, although other
  windows are visible.
\<close>

lemma repeated_label_blocks_focus:
  assumes "ts = pre @ w # w' # post" and "w_label w' = w_label w" and "w_label w \<noteq> []" and "focusable w'"
    and "\<forall>x \<in> set pre. w_label x \<noteq> w_label w"
  shows "next_focus ts (w_label w) = Some (w_label w)"
proof -
  have "find (\<lambda>i. w_label (ts ! i) = w_label w) [0..<length ts] = Some (length pre)"
    unfolding find_Some_iff using assms by (intro exI [of _ "length pre"]) (auto simp: nth_append)
  then have "start_of ts (w_label w) = Suc (length pre)" using assms(3) by (simp add: start_of_def)
  then have "turn (start_of ts (w_label w)) ts = w' # post @ pre @ [w]" using assms(1) by (simp add: turn_def)
  then show ?thesis using assms(2,4) by (simp add: next_focus_turn)
qed

section \<open>Rules\<close>

text \<open>
  C12: the rules follow the layout. When the two reports stay as they are and label each window
  differently, then from the third poll on the signature last published is that of the tracked
  windows, whatever was published before, and nothing more is published; if it was not the one published
  before, the last rules published are those of the tracked windows. (If it was, the last rules may be
  others: a click on a task or on the maximizer publishes rules without recording their signature.)
\<close>

theorem rules_settle:
  assumes "labels_distinct G wl lay" and "rules_open s"
  defines "s3 \<equiv> run (tl_step G) s (replicate 3 (Tl_poll wl lay))"
  shows "published_sig s3 = rules_sig_of s3
    \<and> rules_out (run (tl_step G) s (replicate (3 + n) (Tl_poll wl lay))) = rules_out s3
    \<and> (published_sig s \<noteq> rules_sig_of s3 \<longrightarrow> rules_out s3 \<noteq> [] \<and> last (rules_out s3) = compose_rules G s3)"
  using polls_publish [OF assms(1,2)] unfolding s3_def by simp_all

lemma labels_demo: "labels_distinct demo_tl demo_windows three_windows"
  by code_simp

theorem rules_settle_witness:
  "published_sig (run (tl_step demo_tl) demo_start (replicate 3 (Tl_poll demo_windows three_windows)))
    = [(''a'', 40, 40, 100, 100, False, False), (''b'', - 32000, - 32000, 100, 100, True, False), (''c'', 40, 40, 100, 100, False, False)]"
proof -
  have "rules_open demo_start" by code_simp
  from conjunct1 [OF rules_settle [OF labels_demo this]] show ?thesis
    by (simp only:) code_simp
qed

section \<open>Parking and restoring\<close>

definition parked_at :: "window_state \<Rightarrow> bool" where
  "parked_at st \<longleftrightarrow> sint (w_x st) \<le> - 32000 \<and> sint (w_y st) \<le> - 32000"

text \<open>\<open>shown\<close>: what a layout says of the first window with a label.\<close>

definition shown :: "tl_env \<Rightarrow> rom \<Rightarrow> rom \<Rightarrow> string \<Rightarrow> (u32 \<times> u32 \<times> window_state) option" where
  "shown G wl lay l = find (\<lambda>r. w_label (snd (snd r)) = l) (raw_windows G wl lay)"

lemma prev_of_apply:
  "prev_of l (tracked (apply_updates G wl lay s)) = map_option (adjust (tracked s)) (shown G wl lay l)"
  using same_windows_settle [of "recompute_tracked G wl lay s" G]
  by (simp add: apply_updates_settle same_windows_def recompute_tracked_eq prev_of_adjust shown_def)

definition geometry :: "window_state \<Rightarrow> u32 \<times> u32 \<times> u32 \<times> u32" where
  "geometry w = (w_x w, w_y w, w_w w, w_h w)"

lemma geometry_adjust:
  "geometry (adjust ts (aw, ah, st)) = (if parked_at st then (case prev_of (w_label st) ts of None \<Rightarrow> geometry st | Some p \<Rightarrow> geometry p) else geometry st)"
  by (auto simp: adjust_def infer_maximized_def keep_geometry_def Let_def geometry_def parked_at_def split: option.split)

lemma shown_raw:
  assumes "shown G wl lay l = Some (aw, ah, st)"
  shows "\<not> w_minimized st" and "w_label st = l"
proof -
  have f: "find P xs = Some x \<Longrightarrow> x \<in> set xs \<and> P x" for P xs and x :: "u32 \<times> u32 \<times> window_state"
    by (induction xs) (auto split: if_splits)
  have "(aw, ah, st) \<in> set (raw_windows G wl lay)" and l: "w_label st = l"
    using f [OF assms [unfolded shown_def]] by simp_all
  then show "\<not> w_minimized st"
    by (auto simp: raw_windows_def boundary_windows_def raw_window_def List.map_filter_def split: rom.splits if_splits)
  show "w_label st = l" by (rule l)
qed

lemma parked_minimized:
  "shown G wl lay l = Some (aw, ah, st) \<Longrightarrow> w_minimized (adjust ts (aw, ah, st)) \<longleftrightarrow> parked_at st"
  using shown_raw [of G wl lay l aw ah st] by (simp add: parked_at_def)

lemma update_first_split:
  "prev_of l ts = Some w \<Longrightarrow> f w \<in> set (update_first l f ts)"
  by (induction ts) (auto simp: prev_of_def split: if_splits)

text \<open>While the layout parks a window, its geometry stays the one tracked before.\<close>

definition parks :: "tl_env \<Rightarrow> rom \<Rightarrow> string \<Rightarrow> rom \<Rightarrow> bool" where
  "parks G wl l lay \<longleftrightarrow> (case shown G wl lay l of None \<Rightarrow> False | Some (aw, ah, st) \<Rightarrow> parked_at st)"

lemma parked_polls:
  assumes "list_all (parks G wl l) lays" and "prev_of l (tracked s) = Some w"
  shows "\<exists>w'. prev_of l (tracked (run (tl_step G) s (map (Tl_poll wl) lays))) = Some w' \<and> geometry w' = geometry w
    \<and> (lays \<noteq> [] \<longrightarrow> w_minimized w')"
  using assms
proof (induction lays arbitrary: s w)
  case (Cons lay lays)
  obtain aw ah st where s: "shown G wl lay l = Some (aw, ah, st)" "parked_at st"
    using Cons.prems(1) by (auto simp: parks_def split: option.splits)
  let ?w = "adjust (tracked s) (aw, ah, st)"
  have p: "prev_of l (tracked (apply_updates G wl lay s)) = Some ?w" by (simp add: prev_of_apply s)
  have g: "geometry ?w = geometry w" "w_minimized ?w"
    using s shown_raw(2) [OF s(1)] Cons.prems(2) parked_minimized [OF s(1)] by (simp_all add: geometry_adjust)
  show ?case
  proof (cases lays)
    case Nil
    then show ?thesis using p g by simp
  next
    case (Cons a b)
    then show ?thesis using Cons.IH [OF _ p] Cons.prems(1) g by simp
  qed
qed simp

text \<open>The assignment that puts a window at a geometry of the screen.\<close>

definition assign_at :: "tl_env \<Rightarrow> tasklist \<Rightarrow> string \<Rightarrow> u32 \<times> u32 \<times> u32 \<times> u32 \<Rightarrow> bool \<Rightarrow> xml" where
  "assign_at G s l g m = (case g of (x, y, w, h) \<Rightarrow>
     leaf ''assign''
       [(''label'', l), (''target'', ''screen''), (''xpos'', print_int G (x - origin_x s)), (''ypos'', print_int G (y - origin_y s)),
        (''width'', print_nat G (unat w)), (''height'', print_nat G (unat h)), (''maximized'', if m then ''yes'' else ''no'')])"

lemma assign_at_visible: "\<not> w_minimized w \<Longrightarrow> assign_for G s w = assign_at G s (w_label w) (geometry w) (w_maximized w)"
  by (simp add: assign_for_def assign_at_def geometry_def Let_def)

definition assigns_in :: "tl_out \<Rightarrow> xml \<Rightarrow> bool" where
  "assigns_in o' a \<longleftrightarrow> (case o' of Rules x \<Rightarrow> a \<in> set (xkids x) | _ \<Rightarrow> False)"

lemma prev_of_label: "prev_of l ts = Some w \<Longrightarrow> w_label w = l"
  by (induction ts) (auto simp: prev_of_def split: if_splits)

lemma settle_out_grows: "\<exists>zs. tl_out (settle G s) = tl_out s @ zs"
  by (simp add: settle_def maybe_republish_rules_def refresh_widget_def publish_rules_def tl_emit_def Let_def)

lemma apply_open: "rules_open (apply_updates G wl lay s) = rules_open s" "focus_open (apply_updates G wl lay s) = focus_open s"
  using same_windows_settle [of "recompute_tracked G wl lay s" G]
  by (simp_all add: apply_updates_settle same_windows_def recompute_explicit)

lemma polls_open:
  "rules_open (run (tl_step G) s (map (Tl_poll wl) lays)) = rules_open s"
  "focus_open (run (tl_step G) s (map (Tl_poll wl) lays)) = focus_open s"
  by (induction lays arbitrary: s) (simp_all add: apply_open)

text \<open>
  C31: a window comes back where it was. A click on a window that the layout shows parks it; however
  many looks at layouts that park it follow, the next click publishes rules that put it at the place
  and size it had before the first click, and asks for the focus.
\<close>

theorem restore_returns_geometry:
  assumes "s = apply_updates G wl lay s0" and "rules_open s" and "focus_open s"
    and "shown G wl lay l = Some (aw, ah, st)" and "\<not> parked_at st"
    and "list_all (parks G wl l) lays" and "lays \<noteq> []"
  defines "s2 \<equiv> run (tl_step G) s (Tl_click l wl lay # map (Tl_poll wl) lays)"
  shows "\<exists>o1 m zs. tl_out (tl_step G (Tl_click l wl lay') s2)
      = tl_out s2 @ o1 # Focus_request (leaf ''focus_request''
          [(''id'', print_nat G (unat (focus_request_id s2 + 1))), (''label'', l)]) # zs
    \<and> assigns_in o1 (assign_at G s2 l (geometry st) m)"
proof -
  define s1 where "s1 = tl_step G (Tl_click l wl lay) s"
  have ps: "prev_of l (tracked s) = Some (adjust (tracked s0) (aw, ah, st))"
    using assms(4) by (simp add: assms(1) prev_of_apply)
  have nm: "\<not> w_minimized (adjust (tracked s0) (aw, ah, st))"
    using parked_minimized [OF assms(4)] assms(5) by simp
  define t where "t = publish_rules G
      (s\<lparr>tracked := update_first l (\<lambda>w. w\<lparr>w_minimized := True, w_focused := False\<rparr>) (tracked s)\<rparr>)"
  have s1: "s1 = apply_updates G wl lay t"
    unfolding s1_def tl_step.simps on_task_clicked_def ps t_def option.case(2) by (simp only: nm if_False Let_def)
  have p1: "prev_of l (tracked s1) = Some (adjust (tracked t) (aw, ah, st))"
    using assms(4) by (simp add: s1 prev_of_apply)
  have g1: "geometry (adjust (tracked t) (aw, ah, st)) = geometry st" using assms(5) by (simp add: geometry_adjust)
  obtain w where w: "prev_of l (tracked s2) = Some w" "geometry w = geometry st" "w_minimized w"
    using parked_polls [OF assms(6) p1] assms(7) g1 by (auto simp: s2_def s1_def)
  have "rules_open s1 \<and> focus_open s1" using assms(2,3) by (simp add: s1 apply_open t_def publish_rules_def tl_emit_def)
  moreover have "s2 = run (tl_step G) s1 (map (Tl_poll wl) lays)" by (simp add: s2_def s1_def)
  ultimately have op: "rules_open s2" "focus_open s2" by (simp_all only: polls_open)
  let ?v = "w\<lparr>w_minimized := False, w_focused := True\<rparr>"
  let ?u = "s2\<lparr>tracked := update_first l (\<lambda>w. w\<lparr>w_minimized := False, w_focused := True\<rparr>) (tracked s2)\<rparr>"
  let ?r = "publish_focus_request G l (publish_rules G ?u)"
  have f: "tl_step G (Tl_click l wl lay') s2 = settle G (recompute_tracked G wl lay' ?r)"
    using w by (simp add: on_task_clicked_def apply_updates_settle)
  have o': "tl_out (recompute_tracked G wl lay' ?r) = tl_out s2 @ [Rules (compose_rules G ?u), Focus_request (leaf ''focus_request''
          [(''id'', print_nat G (unat (focus_request_id s2 + 1))), (''label'', l)])]"
    using op by (simp add: recompute_explicit publish_rules_def publish_focus_request_def tl_emit_def Let_def)
  have "?v \<in> set (tracked ?u)"
    using update_first_split [OF w(1), of "\<lambda>w. w\<lparr>w_minimized := False, w_focused := True\<rparr>"] by simp
  then have "assign_for G ?u ?v \<in> set (xkids (compose_rules G ?u))"
    by (simp add: compose_rules_def)
  moreover have "assign_for G ?u ?v = assign_at G s2 l (geometry st) (w_maximized w)"
    using w(2) prev_of_label [OF w(1)] by (simp add: assign_at_visible geometry_def assign_at_def)
  ultimately have a: "assigns_in (Rules (compose_rules G ?u)) (assign_at G s2 l (geometry st) (w_maximized w))"
    by (simp add: assigns_in_def)
  obtain zs where "tl_out (settle G (recompute_tracked G wl lay' ?r)) = tl_out (recompute_tracked G wl lay' ?r) @ zs"
    using settle_out_grows by blast
  with o' f a show ?thesis by auto
qed

text \<open>
  The witness parks the first window of the small screen for three polls.
\<close>

definition parked_first :: rom where
  "parked_first = demo_layout [demo_window ''a'' ''-32000'' ''100'', demo_window ''b'' ''-32000'' ''100'', demo_window ''c'' ''40'' ''100'']"

definition demo_parked :: tasklist where
  "demo_parked = run (tl_step demo_tl) demo_start
     (Tl_click ''a'' demo_windows three_windows # map (Tl_poll demo_windows) (replicate 3 parked_first))"

theorem restore_returns_geometry_witness:
  "\<exists>o1 m zs. tl_out (tl_step demo_tl (Tl_click ''a'' demo_windows parked_first) demo_parked)
      = tl_out demo_parked @ o1 # Focus_request (leaf ''focus_request'' [(''id'', []), (''label'', ''a'')]) # zs
    \<and> assigns_in o1 (assign_at demo_tl demo_parked ''a'' (40, 40, 100, 100) m)"
proof -
  let ?t = "publish_rules demo_tl \<lparr>static_rules = [], focus_request_id = 0, tracked = [], focused_label = [], last_emitted = [],
        published_sig = [], candidate_sig = [], sig_stable = False, origin_x = 0, origin_y = 0, area_w = 0,
        area_h = 0, rules_open = True, focus_open = True, has_widget = True, tl_out = []\<rparr>"
  have s: "demo_start = apply_updates demo_tl demo_windows three_windows ?t" by (simp add: demo_start_def tl_attach_def)
  have o': "rules_open demo_start" "focus_open demo_start" by code_simp+
  have g: "map_option (\<lambda>r. (parked_at (snd (snd r)), geometry (snd (snd r)))) (shown demo_tl demo_windows three_windows ''a'')
      = Some (False, 40, 40, 100, 100)" by code_simp
  then obtain aw ah st where st: "shown demo_tl demo_windows three_windows ''a'' = Some (aw, ah, st)"
    "\<not> parked_at st" "geometry st = (40, 40, 100, 100)" by auto
  have p: "list_all (parks demo_tl demo_windows ''a'') (replicate 3 parked_first)" by code_simp
  have n: "print_nat demo_tl x = []" for x by (simp add: demo_tl_def)
  have "replicate 3 parked_first \<noteq> []" by simp
  from restore_returns_geometry [OF s o' st(1,2) p this, of parked_first]
  show ?thesis unfolding demo_parked_def [symmetric] n st(3) .
qed

lemma keep_unparked: "\<not> parked_at st \<Longrightarrow> keep_geometry ts st = st"
  unfolding keep_geometry_def parked_at_def by (simp only: if_False)

lemma filled_maximized:
  assumes "fills_area aw ah st" and "\<not> parked_at st"
  shows "w_maximized (adjust ts (aw, ah, st))"
proof -
  have "fills_area aw ah (st\<lparr>w_maximized := m\<rparr>) = fills_area aw ah st" for m by (simp add: fills_area_def)
  moreover have "keep_geometry ts st = st" using assms(2) by (rule keep_unparked)
  ultimately show ?thesis using assms(1) by (simp add: adjust_def infer_maximized_def Let_def split: option.split)
qed

lemma maximized_sticks:
  assumes "prev_of (w_label st) ts = Some p" and "w_maximized p"
  shows "w_maximized (adjust ts (aw, ah, st))"
proof -
  have "w_label (keep_geometry ts st) = w_label st" by (simp add: keep_geometry_def split: option.split)
  then show ?thesis using assms by (simp add: adjust_def infer_maximized_def Let_def)
qed

lemma maximized_polls:
  assumes "shown G wl lay l = Some (aw, ah, st)" and "prev_of l (tracked s) = Some w" and "w_maximized w"
  shows "\<exists>ts. prev_of l (tracked (run (tl_step G) s (replicate (Suc n) (Tl_poll wl lay)))) = Some (adjust ts (aw, ah, st))
    \<and> w_maximized (adjust ts (aw, ah, st))"
  using assms(2,3)
proof (induction n arbitrary: s w)
  have l: "w_label st = l" by (rule shown_raw(2) [OF assms(1)])
  have p: "prev_of l (tracked (apply_updates G wl lay s)) = Some (adjust (tracked s) (aw, ah, st))" for s
    by (simp add: prev_of_apply assms(1))
  have m: "w_maximized (adjust (tracked s) (aw, ah, st))" if "prev_of l (tracked s) = Some w" "w_maximized w" for s w
    using maximized_sticks [of st "tracked s" w aw ah] that l by simp
  { case 0
    then show ?case using p m [OF 0] by auto }
  { case (Suc n)
    from Suc.IH [OF p m [OF Suc.prems]] show ?case by simp }
qed

lemma sig_prev:
  "find (\<lambda>e. fst e = l) (rules_sig_of s)
   = map_option (\<lambda>w. (w_label w, w_x w, w_y w, w_w w, w_h w, w_minimized w, w_maximized w)) (prev_of l (tracked s))"
  unfolding rules_sig_of_def prev_of_def by (simp add: find_map_eq [symmetric])

lemma prev_of_toggled:
  "prev_of k (update_first l (\<lambda>w. w\<lparr>w_maximized := b w\<rparr>) ts)
   = map_option (\<lambda>w. if k = l then w\<lparr>w_maximized := b w\<rparr> else w) (prev_of k ts)"
  by (induction ts) (auto simp: prev_of_def option.map_ident)

text \<open>A toggle on a window that fills the area is gone after the look at the layout.\<close>

lemma toggle_forgotten:
  assumes "labels_distinct G wl lay" and "shown G wl lay l = Some (aw, ah, st)"
    and "\<not> parked_at st" and "fills_area aw ah st" and "r \<in> set (raw_windows G wl lay)"
  shows "adjust (update_first l (\<lambda>w. w\<lparr>w_maximized := b w\<rparr>) ts) r = adjust ts r"
proof -
  obtain a h x where r: "r = (a, h, x)" by (cases r)
  have k: "keep_geometry (update_first l (\<lambda>w. w\<lparr>w_maximized := b w\<rparr>) ts) x = keep_geometry ts x"
    by (simp add: keep_geometry_def prev_of_toggled split: option.split)
  show ?thesis
  proof (cases "w_label x = l")
    case False
    moreover have "w_label (keep_geometry ts x) = w_label x" by (simp add: keep_geometry_def split: option.split)
    moreover have "prev_of (w_label x) (update_first l (\<lambda>w. w\<lparr>w_maximized := b w\<rparr>) ts) = prev_of (w_label x) ts"
      using False by (simp add: prev_of_toggled option.map_ident)
    ultimately have "infer_maximized a h (update_first l (\<lambda>w. w\<lparr>w_maximized := b w\<rparr>) ts) (keep_geometry ts x)
        = infer_maximized a h ts (keep_geometry ts x)" by (simp add: infer_maximized_def)
    then show ?thesis by (simp add: r adjust_def k)
  next
    case True
    have "r = (aw, ah, st)"
    proof -
      have "find (\<lambda>r. w_label (snd (snd r)) = l) (raw_windows G wl lay) = Some r"
      proof (rule find_only [OF assms(5)])
        show "w_label (snd (snd r)) = l" using r True by simp
        fix y
        assume "y \<in> set (raw_windows G wl lay)" "w_label (snd (snd y)) = l"
        then show "y = r"
          using inj_onD [OF conjunct2 [OF assms(1) [unfolded labels_distinct_def distinct_map]], of y r] assms(5) r True
          by simp
      qed
      then show ?thesis using assms(2) by (simp add: shown_def)
    qed
    then have r': "a = aw" "h = ah" "x = st" using r by simp_all
    have "adjust ts' r = st\<lparr>w_maximized := True\<rparr>" for ts'
    proof -
      have "fills_area aw ah (st\<lparr>w_maximized := m\<rparr>)" for m using assms(4) by (simp add: fills_area_def)
      moreover have "keep_geometry ts' st = st" using assms(3) by (rule keep_unparked)
      ultimately show ?thesis using assms(4)
        by (simp add: r r' adjust_def infer_maximized_def Let_def split: option.split)
    qed
    then show ?thesis by simp
  qed
qed

text \<open>
  A window that fills the screen cannot be made small. After the rules have settled on a layout
  that shows a window filling its area, the key that toggles the maximized state publishes rules that
  un-maximize it, but the look at the layout that ends the operation marks it maximized again; when
  the layouter follows the rules and gives it another width, the third poll publishes rules with the
  window maximized.
\<close>

theorem unmaximize_is_undone:
  assumes "labels_distinct G wl lay" and "labels_distinct G wl lay'" and "rules_open s0"
    and "shown G wl lay l = Some (aw, ah, st)" and "\<not> parked_at st" and "fills_area aw ah st"
    and "shown G wl lay' l = Some (aw', ah', st')" and "\<not> parked_at st'" and "w_w st' \<noteq> w_w st"
  defines "s \<equiv> run (tl_step G) s0 (replicate 3 (Tl_poll wl lay))"
  defines "s' \<equiv> run (tl_step G) s (Tl_maximize l wl lay # replicate 3 (Tl_poll wl lay'))"
  shows "\<exists>a x zs. tl_out (tl_step G (Tl_maximize l wl lay) s) = tl_out s @ a # zs \<and> assigns_in a (assign_at G s l (geometry st) False)
    \<and> rules_out s' \<noteq> [] \<and> last (rules_out s') = x \<and> assigns_in (Rules x) (assign_at G s' l (geometry st') True)"
proof -
  have open3: "rules_open s" using polls_open(1) [where lays = "replicate 3 lay" and s = s0] assms(3) by (simp add: s_def)
  have "s = (settle G ^^ Suc 2) (recompute_tracked G wl lay s0)"
    using polls_settle [OF assms(1), of s0 2] by (simp add: s_def numeral_3_eq_3)
  moreover have "settled G wl lay ((settle G ^^ k) (recompute_tracked G wl lay s0))" for k
    by (induction k) (simp_all add: recompute_settled [OF assms(1)] settled_cong [OF same_windows_settle])
  ultimately have set: "settled G wl lay s" by (simp only:)
  have ps: "published_sig s = rules_sig_of s" unfolding s_def by (rule polls_publish(1) [OF assms(1,3)])
  let ?w = "adjust (tracked s) (aw, ah, st)"
  have tr: "tracked s = map (adjust (tracked s)) (raw_windows G wl lay)"
    using set recompute_tracked_eq [of G wl lay s] by (simp add: settled_def)
  have w: "prev_of l (tracked s) = Some ?w"
    using assms(4) unfolding shown_def by (subst tr) (simp add: prev_of_adjust)
  have g: "geometry ?w = geometry st" "\<not> w_minimized ?w" "w_maximized ?w" "w_label ?w = l"
    using assms(5) parked_minimized [OF assms(4)] filled_maximized [OF assms(6,5)] prev_of_label [OF w]
    by (simp_all only: geometry_adjust if_False not_False_eq_True)
  define u where "u = s\<lparr>tracked := update_first l (\<lambda>w. w\<lparr>w_maximized := \<not> w_maximized w\<rparr>) (tracked s)\<rparr>"
  define r where "r = recompute_tracked G wl lay (publish_rules G u)"
  have s1: "tl_step G (Tl_maximize l wl lay) s = settle G r"
    using w by (simp add: on_toggle_maximized_def apply_updates_settle u_def r_def)
  have ro: "tl_out r = tl_out s @ [Rules (compose_rules G u)]" "rules_open r" "published_sig r = published_sig s"
    using open3 by (simp_all add: r_def recompute_explicit publish_rules_def tl_emit_def u_def)
  have "?w\<lparr>w_maximized := False\<rparr> \<in> set (tracked u)"
    using update_first_split [OF w, of "\<lambda>w. w\<lparr>w_maximized := \<not> w_maximized w\<rparr>"] g(3) by (simp add: u_def)
  then have "assign_for G u (?w\<lparr>w_maximized := False\<rparr>) \<in> set (xkids (compose_rules G u))"
    by (simp add: compose_rules_def)
  moreover have "assign_for G u (?w\<lparr>w_maximized := False\<rparr>) = assign_at G s l (geometry st) False"
    using g by (simp add: assign_at_visible geometry_def assign_at_def u_def)
  ultimately have first: "assigns_in (Rules (compose_rules G u)) (assign_at G s l (geometry st) False)"
    by (simp add: assigns_in_def)
  have "tracked r = tracked s"
  proof -
    have "tracked r = map (adjust (tracked u)) (raw_windows G wl lay)"
      by (simp add: r_def recompute_tracked_eq publish_rules_def tl_emit_def)
    also have "\<dots> = map (adjust (tracked s)) (raw_windows G wl lay)"
      using toggle_forgotten [OF assms(1,4,5,6)] by (intro map_cong refl) (simp add: u_def)
    finally show ?thesis using tr by simp
  qed
  then have sr: "rules_sig_of r = rules_sig_of s" by (simp add: rules_sig_of_def)
  have p1: "published_sig (settle G r) = rules_sig_of s" "rules_open (settle G r)"
    using settle_step(3) [OF ro(2)] sr ps ro(2,3) same_windows_settle [of r G] by (simp_all add: same_windows_def)
  have "prev_of l (tracked (settle G r)) = Some ?w"
    using w \<open>tracked r = tracked s\<close> same_windows_settle [of r G] by (simp add: same_windows_def)
  from maximized_polls [OF assms(7) this g(3), of 2]
  obtain ts where ts: "prev_of l (tracked s') = Some (adjust ts (aw', ah', st'))" "w_maximized (adjust ts (aw', ah', st'))"
    by (auto simp: s'_def s1 numeral_3_eq_3 numeral_2_eq_2 simp del: tl_step.simps)
  let ?v = "adjust ts (aw', ah', st')"
  have gv: "geometry ?v = geometry st'" "\<not> w_minimized ?v" "w_label ?v = l"
    using assms(8) parked_minimized [OF assms(7)] prev_of_label [OF ts(1)] by (simp_all only: geometry_adjust if_False not_False_eq_True)
  have "rules_sig_of s \<noteq> rules_sig_of s'"
  proof
    assume e: "rules_sig_of s = rules_sig_of s'"
    have "w_w ?w = w_w ?v" using sig_prev [of l s] sig_prev [of l s'] unfolding e w ts(1) by simp
    then show False using g(1) gv(1) assms(9) by (simp add: geometry_def)
  qed
  moreover have "s' = run (tl_step G) (settle G r) (replicate 3 (Tl_poll wl lay'))"
    by (simp add: s'_def s1 del: tl_step.simps)
  ultimately have l3: "rules_out s' \<noteq> []" "last (rules_out s') = compose_rules G s'"
    using polls_publish(3) [OF assms(2) p1(2)] p1(1) by simp_all
  have "?v \<in> set (tracked s')" using ts(1) unfolding prev_of_def by (auto simp: find_Some_iff)
  then have "assign_for G s' ?v \<in> set (xkids (compose_rules G s'))" by (simp add: compose_rules_def)
  moreover have "assign_for G s' ?v = assign_at G s' l (geometry st') True"
    using gv ts(2) by (simp add: assign_at_visible)
  ultimately have second: "assigns_in (Rules (compose_rules G s')) (assign_at G s' l (geometry st') True)"
    by (simp add: assigns_in_def)
  obtain zs where "tl_out (settle G r) = tl_out r @ zs" using settle_out_grows by blast
  then have "tl_out (tl_step G (Tl_maximize l wl lay) s) = tl_out s @ Rules (compose_rules G u) # zs" by (simp add: s1 ro del: tl_step.simps)
  then show ?thesis using first second l3 by blast
qed

definition filled_screen :: rom where
  "filled_screen = demo_layout [demo_window ''a'' ''40'' ''800'', demo_window ''b'' ''-32000'' ''100'']"

definition shrunk_screen :: rom where
  "shrunk_screen = demo_layout [demo_window ''a'' ''40'' ''100'', demo_window ''b'' ''-32000'' ''100'']"

definition demo_shrunk :: tasklist where
  "demo_shrunk = run (tl_step demo_tl) (run (tl_step demo_tl) demo_start (replicate 3 (Tl_poll demo_windows filled_screen)))
     (Tl_maximize ''a'' demo_windows filled_screen # replicate 3 (Tl_poll demo_windows shrunk_screen))"

theorem unmaximize_is_undone_witness:
  "assigns_in (Rules (last (rules_out demo_shrunk))) (assign_at demo_tl demo_shrunk ''a'' (40, 40, 100, 100) True)"
proof -
  have d: "labels_distinct demo_tl demo_windows filled_screen" "labels_distinct demo_tl demo_windows shrunk_screen"
    "rules_open demo_start" by code_simp+
  have v: "map_option (\<lambda>r. (fst r, fst (snd r), geometry (snd (snd r)), fills_area (fst r) (fst (snd r)) (snd (snd r)),
        parked_at (snd (snd r)))) (shown demo_tl demo_windows filled_screen ''a'') = Some (800, 600, (40, 40, 800, 600), True, False)"
    "map_option (\<lambda>r. (geometry (snd (snd r)), parked_at (snd (snd r)))) (shown demo_tl demo_windows shrunk_screen ''a'')
      = Some ((40, 40, 100, 100), False)" by code_simp+
  obtain st where st: "shown demo_tl demo_windows filled_screen ''a'' = Some (800, 600, st)" "\<not> parked_at st"
    "fills_area 800 600 st" "geometry st = (40, 40, 800, 600)" using v(1) by auto
  obtain aw ah st' where st': "shown demo_tl demo_windows shrunk_screen ''a'' = Some (aw, ah, st')" "\<not> parked_at st'"
    "geometry st' = (40, 40, 100, 100)" using v(2) by auto
  have "w_w st' \<noteq> w_w st" using st(4) st'(3) by (simp add: geometry_def)
  from unmaximize_is_undone [OF d st(1-3) st'(1,2) this] st'(3)
  show ?thesis unfolding demo_shrunk_def [symmetric] by auto
qed

end
