(* ===== verification/Theme_Loader.thy ===== *)
theory Theme_Loader
  imports Text_Scan
begin

text \<open>
  \<open>sponge-de/theme/theme_loader.{h,cc}\<close>: the parser of theme files. The loop over the lines works on
  positions of the text, as in the code; a line is taken apart as a string. Warnings are recorded by
  the number of the line they name. \<open>unsigned\<close> and \<open>uint32_t\<close> are words of 32 bits.
\<close>

section \<open>Data\<close>

datatype panel_position = Pos_top | Pos_bottom | Pos_left | Pos_right

record theme =
  th_panel_bg :: u32
  th_panel_text :: u32
  th_accent :: u32
  th_separator :: u32
  th_window_bg :: u32
  th_window_border :: u32
  th_title_text :: u32
  th_error_bg :: u32
  th_error_text :: u32
  th_success_bg :: u32
  th_success_text :: u32
  th_warning_bg :: u32
  th_warning_text :: u32
  th_default_family :: string
  th_default_size :: u32
  th_title_family :: string
  th_title_size :: u32
  th_panel_position :: panel_position
  th_panel_height :: u32
  th_padding :: u32
  th_margin :: u32
  th_launcher_width :: u32
  th_border_radius :: u32
  th_border_width :: u32
  th_shadow_radius :: u32
  th_format_version :: u32

definition default_theme :: theme where
  "default_theme = \<lparr>th_panel_bg = 0x1e1e2e, th_panel_text = 0xcdd6f4, th_accent = 0x89b4fa,
     th_separator = 0x45475a, th_window_bg = 0x313244, th_window_border = 0x45475a,
     th_title_text = 0xcdd6f4, th_error_bg = 0xf38ba8, th_error_text = 0xf38ba8,
     th_success_bg = 0xa6e3a1, th_success_text = 0xa6e3a1, th_warning_bg = 0xf9e2af,
     th_warning_text = 0xf9e2af, th_default_family = ''DejaVu Sans'', th_default_size = 11,
     th_title_family = ''DejaVu Sans'', th_title_size = 12, th_panel_position = Pos_top,
     th_panel_height = 28, th_padding = 8, th_margin = 4, th_launcher_width = 48,
     th_border_radius = 6, th_border_width = 1, th_shadow_radius = 8, th_format_version = 1\<rparr>"

record theme_loader =
  ld_theme :: theme
  ld_section :: string
  ld_ok :: bool
  ld_warnings :: "nat list"

definition ld_warn :: "nat \<Rightarrow> theme_loader \<Rightarrow> theme_loader" where
  "ld_warn no s = s\<lparr>ld_warnings := ld_warnings s @ [no]\<rparr>"

definition ld_fail :: "nat \<Rightarrow> theme_loader \<Rightarrow> theme_loader" where
  "ld_fail no s = (ld_warn no s)\<lparr>ld_ok := False\<rparr>"

section \<open>Values\<close>

text \<open>\<open>copy_with_nul\<close> into a buffer, read back as a C string.\<close>

definition copy_with_nul :: "nat \<Rightarrow> string \<Rightarrow> string" where
  "copy_with_nul cap src = cstr (take (cap - 1) src)"

definition hex_value :: "char \<Rightarrow> nat option" where
  "hex_value c =
     (if is_digit c then Some (of_char c - 48)
      else if CHR ''a'' \<le> c \<and> c \<le> CHR ''f'' then Some (10 + (of_char c - 97))
      else if CHR ''A'' \<le> c \<and> c \<le> CHR ''F'' then Some (10 + (of_char c - 65))
      else None)"

fun parse_hex :: "u32 \<Rightarrow> string \<Rightarrow> u32 option" where
  "parse_hex raw [] = Some raw"
| "parse_hex raw (c # cs) =
     (case hex_value c of None \<Rightarrow> None | Some d \<Rightarrow> parse_hex (or (push_bit 4 raw) (of_nat d)) cs)"

definition color_names :: "(string \<times> u32) list" where
  "color_names = [(''black'', 0x000000), (''white'', 0xffffff), (''red'', 0xff0000), (''green'', 0x00ff00),
     (''blue'', 0x0000ff), (''yellow'', 0xffff00), (''cyan'', 0x00ffff), (''magenta'', 0xff00ff),
     (''gray'', 0x808080)]"

definition parse_color :: "string \<Rightarrow> u32 option" where
  "parse_color v =
     (if v \<noteq> [] \<and> hd v = CHR ''#'' then (if length v \<noteq> 7 then None else parse_hex 0 (tl v))
      else map_of color_names (copy_with_nul 32 v))"

fun uint_digits :: "u32 \<Rightarrow> string \<Rightarrow> u32 option" where
  "uint_digits n [] = Some n"
| "uint_digits n (c # cs) = (if is_digit c then uint_digits (n * 10 + of_nat (digit_val c)) cs else None)"

definition parse_theme_uint :: "string \<Rightarrow> u32 option" where
  "parse_theme_uint v = (if v = [] then None else uint_digits 0 v)"

definition unquote :: "string \<Rightarrow> string" where
  "unquote v = (if 2 \<le> length v \<and> hd v = DQ \<and> last v = DQ then butlast (tl v) else v)"

definition parse_theme_string :: "string \<Rightarrow> string" where
  "parse_theme_string v = gstr 64 (copy_with_nul 65 (unquote (trim blank v)))"

definition parse_position :: "string \<Rightarrow> panel_position option" where
  "parse_position v =
     map_of [(''top'', Pos_top), (''bottom'', Pos_bottom), (''left'', Pos_left), (''right'', Pos_right)]
       (copy_with_nul 16 v)"

section \<open>Keys\<close>

text \<open>A field that is set from a value: the fields of each section and how they are written.\<close>

definition color_fields :: "(string \<times> (u32 \<Rightarrow> theme \<Rightarrow> theme)) list" where
  "color_fields =
     [(''panel_bg'', \<lambda>c t. t\<lparr>th_panel_bg := c\<rparr>), (''panel_text'', \<lambda>c t. t\<lparr>th_panel_text := c\<rparr>),
      (''accent'', \<lambda>c t. t\<lparr>th_accent := c\<rparr>), (''separator'', \<lambda>c t. t\<lparr>th_separator := c\<rparr>),
      (''window_bg'', \<lambda>c t. t\<lparr>th_window_bg := c\<rparr>), (''window_border'', \<lambda>c t. t\<lparr>th_window_border := c\<rparr>),
      (''title_text'', \<lambda>c t. t\<lparr>th_title_text := c\<rparr>), (''error_bg'', \<lambda>c t. t\<lparr>th_error_bg := c\<rparr>),
      (''error_text'', \<lambda>c t. t\<lparr>th_error_text := c\<rparr>), (''success_bg'', \<lambda>c t. t\<lparr>th_success_bg := c\<rparr>),
      (''success_text'', \<lambda>c t. t\<lparr>th_success_text := c\<rparr>), (''warning_bg'', \<lambda>c t. t\<lparr>th_warning_bg := c\<rparr>),
      (''warning_text'', \<lambda>c t. t\<lparr>th_warning_text := c\<rparr>)]"

definition uint_fields :: "string \<Rightarrow> (string \<times> (u32 \<Rightarrow> theme \<Rightarrow> theme)) list" where
  "uint_fields sec =
     (if sec = ''fonts'' then
        [(''default_size'', \<lambda>n t. t\<lparr>th_default_size := n\<rparr>), (''title_size'', \<lambda>n t. t\<lparr>th_title_size := n\<rparr>)]
      else if sec = ''layout'' then
        [(''panel_height'', \<lambda>n t. t\<lparr>th_panel_height := n\<rparr>), (''padding'', \<lambda>n t. t\<lparr>th_padding := n\<rparr>),
         (''margin'', \<lambda>n t. t\<lparr>th_margin := n\<rparr>), (''launcher_width'', \<lambda>n t. t\<lparr>th_launcher_width := n\<rparr>)]
      else if sec = ''window'' then
        [(''border_radius'', \<lambda>n t. t\<lparr>th_border_radius := n\<rparr>), (''border_width'', \<lambda>n t. t\<lparr>th_border_width := n\<rparr>),
         (''shadow_radius'', \<lambda>n t. t\<lparr>th_shadow_radius := n\<rparr>)]
      else [])"

text \<open>\<open>assign_field no f v s\<close>: write a parsed value with \<open>f\<close>, or complain about line \<open>no\<close>.\<close>

definition assign_field :: "nat \<Rightarrow> ('a \<Rightarrow> theme \<Rightarrow> theme) \<Rightarrow> 'a option \<Rightarrow> theme_loader \<Rightarrow> theme_loader" where
  "assign_field no f v s =
     (case v of None \<Rightarrow> ld_fail no s | Some x \<Rightarrow> s\<lparr>ld_theme := f x (ld_theme s)\<rparr>)"

definition apply_version :: "nat \<Rightarrow> string \<Rightarrow> theme_loader \<Rightarrow> theme_loader" where
  "apply_version no value s =
     (case parse_theme_uint value of
        None \<Rightarrow> ld_fail no s
      | Some v \<Rightarrow> (if v \<noteq> 1 then ld_fail no s else s\<lparr>ld_theme := (ld_theme s)\<lparr>th_format_version := v\<rparr>\<rparr>))"

definition apply_key :: "string \<Rightarrow> string \<Rightarrow> nat \<Rightarrow> theme_loader \<Rightarrow> theme_loader" where
  "apply_key key value no s =
     (let k = copy_with_nul 64 key; sec = ld_section s
      in if sec = ''meta'' then (if k = ''version'' then apply_version no value s else ld_warn no s)
         else if sec = ''colors'' then
           (case map_of color_fields k of
              None \<Rightarrow> ld_warn no s
            | Some f \<Rightarrow> assign_field no f (parse_color value) s)
         else if sec = ''fonts'' \<and> k = ''default_family'' then
           s\<lparr>ld_theme := (ld_theme s)\<lparr>th_default_family := parse_theme_string value\<rparr>\<rparr>
         else if sec = ''layout'' \<and> k = ''panel_position'' then
           assign_field no (\<lambda>p t. t\<lparr>th_panel_position := p\<rparr>) (parse_position value) s
         else
           (case map_of (uint_fields sec) k of
              None \<Rightarrow> ld_warn no s
            | Some f \<Rightarrow> assign_field no f (parse_theme_uint value) s))"

section \<open>Lines\<close>

definition theme_line :: "nat \<Rightarrow> string \<Rightarrow> theme_loader \<Rightarrow> theme_loader" where
  "theme_line no txt s =
     (let l = trim blank txt
      in if l = [] then s
         else if hd l = CHR ''#'' then s
         else if hd l = CHR ''['' \<and> last l = CHR '']'' then
           (let sec = trim blank (butlast (tl l))
            in if sec = [] \<or> 32 \<le> length sec then ld_fail no s
               else s\<lparr>ld_section := gstr 32 (copy_with_nul 33 sec)\<rparr>)
         else if CHR ''='' \<notin> set l then ld_fail no s
         else
           (let key = trim blank (takeWhile (\<lambda>c. c \<noteq> CHR ''='') l);
                value = trim blank (tl (dropWhile (\<lambda>c. c \<noteq> CHR ''='') l))
            in if key = [] then ld_fail no s else apply_key key value no s))"

partial_function (option) load_loop :: "string \<Rightarrow> nat \<Rightarrow> nat \<Rightarrow> theme_loader \<Rightarrow> theme_loader option" where
  "load_loop d no pos s =
     (if pos < length d then
        let stop = skip_while (\<lambda>c. c \<noteq> NL) d pos;
            pos' = (if stop < length d \<and> d ! stop = NL then stop + 1 else stop)
        in load_loop d (no + 1) pos' (theme_line no (slice d pos stop) s)
      else Some s)"

definition ld_start :: theme_loader where
  "ld_start = \<lparr>ld_theme = default_theme, ld_section = [], ld_ok = True, ld_warnings = []\<rparr>"

definition load_theme :: "string \<Rightarrow> theme_loader option" where
  "load_theme d = load_loop (strip_nuls d) 1 0 ld_start"

text \<open>\<open>theme/theme_qt.h\<close>: \<open>asprintf\<close> of a color for a style sheet.\<close>

definition hex_char :: "nat \<Rightarrow> char" where
  "hex_char n = char_of (if n < 10 then 48 + n else 87 + n)"

fun hex_digits :: "nat \<Rightarrow> string" where
  "hex_digits n = (if n < 16 then [hex_char n] else hex_digits (n div 16) @ [hex_char (n mod 16)])"

declare hex_digits.simps [simp del]

definition to_css :: "u32 \<Rightarrow> string" where
  "to_css c = (let ds = hex_digits (unat c) in CHR ''#'' # replicate (6 - length ds) CHR ''0'' @ ds)"

end
