(* ===== verification/Theme_Props.thy ===== *)
theory Theme_Props
  imports Theme_Loader "HOL-Library.Sublist"
begin

text \<open>
  What the theme parser makes of a text: the loop ends after one pass per line, every theme it
  produces is well formed, a written theme is read back, and what happens to lines it does not like.
\<close>

section \<open>The loop\<close>

lemma lines_of_Nil [simp]: "lines_of [] = []"
  by (simp add: lines_of_def)

lemma lines_of_unfold:
  assumes "s \<noteq> []"
  shows "lines_of s = takeWhile (\<lambda>c. c \<noteq> NL) s #
     (case dropWhile (\<lambda>c. c \<noteq> NL) s of [] \<Rightarrow> [] | _ # r \<Rightarrow> lines_of r)"
proof (cases "dropWhile (\<lambda>c. c \<noteq> NL) s")
  case Nil
  then have t: "takeWhile (\<lambda>c. c \<noteq> NL) s = s" by (metis append_Nil2 takeWhile_dropWhile_id)
  have "split_on NL s = [takeWhile (\<lambda>c. c \<noteq> NL) s]" using split_on_unfold [of NL s] Nil by simp
  then have "split_on NL s = [s]" unfolding t .
  then show ?thesis unfolding Nil t lines_of_def using assms by simp
next
  case (Cons c r)
  then have "split_on NL s = takeWhile (\<lambda>c. c \<noteq> NL) s # split_on NL r" using split_on_unfold [of NL s] by simp
  then show ?thesis using Cons by (simp add: lines_of_def Let_def)
qed

lemma lines_of_cons [simp]: "NL \<notin> set l \<Longrightarrow> lines_of (l @ NL # r) = l # lines_of r"
proof -
  assume "NL \<notin> set l"
  then have p: "\<And>x. x \<in> set l \<Longrightarrow> x \<noteq> NL" by auto
  have "takeWhile (\<lambda>c. c \<noteq> NL) (l @ NL # r) = l" "dropWhile (\<lambda>c. c \<noteq> NL) (l @ NL # r) = NL # r"
    using takeWhile_append2 [of l "\<lambda>c. c \<noteq> NL" "NL # r"] dropWhile_append2 [of l "\<lambda>c. c \<noteq> NL" "NL # r"] p by auto
  then show ?thesis by (subst lines_of_unfold) simp_all
qed

definition numbered :: "nat \<Rightarrow> string \<Rightarrow> (nat \<times> string) list" where
  "numbered no d = enumerate no (lines_of d)"

definition load_lines :: "(nat \<times> string) list \<Rightarrow> theme_loader \<Rightarrow> theme_loader" where
  "load_lines ls s = fold (\<lambda>(no, l). theme_line no l) ls s"

lemma load_lines_simps [simp]:
  "load_lines [] s = s"
  "load_lines (x # xs) s = load_lines xs (theme_line (fst x) (snd x) s)"
  "load_lines (xs @ ys) s = load_lines ys (load_lines xs s)"
  by (simp_all add: load_lines_def case_prod_beta)

lemma load_loop_lines: "load_loop d no pos s = Some (load_lines (numbered no (drop pos d)) s)"
proof (induction "length d - pos" arbitrary: no pos s rule: less_induct)
  case less
  show ?case
  proof (cases "pos < length d")
    case False
    then show ?thesis by (subst load_loop.simps) (simp add: numbered_def)
  next
    case True
    let ?p = "\<lambda>c. c \<noteq> NL"
    define stop where "stop = skip_while ?p d pos"
    define pos' where "pos' = (if stop < length d \<and> d ! stop = NL then stop + 1 else stop)"
    have tw: "takeWhile ?p (drop pos d) = slice d pos stop"
      by (simp add: slice_def stop_def skip_while_def takeWhile_eq_take [symmetric])
    have dw: "dropWhile ?p (drop pos d) = drop stop d"
      by (simp add: stop_def skip_while_def dropWhile_eq_drop add.commute)
    have le: "stop \<le> length d" using True by (simp add: stop_def skip_while_le)
    have nl: "d ! stop = NL" if "stop < length d"
    proof -
      have "dropWhile ?p (drop pos d) \<noteq> []" using that dw by simp
      then have "\<not> ?p (hd (dropWhile ?p (drop pos d)))" by (rule hd_dropWhile)
      then show ?thesis using that dw by (simp add: hd_drop_conv_nth)
    qed
    have ge: "pos \<le> stop" by (simp add: stop_def)
    have adv: "length d - pos' < length d - pos"
    proof (cases "stop < length d")
      case True
      then show ?thesis using nl ge by (simp add: pos'_def)
    next
      case False
      then show ?thesis using le \<open>pos < length d\<close> by (simp add: pos'_def)
    qed
    have ls: "lines_of (drop pos d) = slice d pos stop # lines_of (drop pos' d)"
    proof (cases "stop < length d")
      case True
      then have "drop stop d = NL # drop pos' d" using nl by (simp add: pos'_def Cons_nth_drop_Suc [symmetric])
      then show ?thesis using \<open>pos < length d\<close> by (subst lines_of_unfold) (simp_all add: tw dw)
    next
      case False
      then show ?thesis using le \<open>pos < length d\<close> by (subst lines_of_unfold) (simp_all add: tw dw pos'_def)
    qed
    have "load_loop d no pos s = load_loop d (no + 1) pos' (theme_line no (slice d pos stop) s)"
      using True by (subst load_loop.simps) (simp add: Let_def stop_def pos'_def)
    then show ?thesis using less [OF adv, of "no + 1"] ls by (simp add: numbered_def)
  qed
qed

text \<open>
  C29: the parser returns for every text, whatever its bytes, after exactly one pass per line of
  the text without its NUL padding, with the lines numbered from one.
\<close>

theorem load_theme_returns:
  "load_theme d = Some (load_lines (enumerate 1 (lines_of (strip_nuls d))) ld_start)"
  by (simp add: load_theme_def load_loop_lines numbered_def)

lemma load_theme_eq: "load_theme d = Some (load_lines (numbered 1 (strip_nuls d)) ld_start)"
  by (simp add: load_theme_def load_loop_lines)

section \<open>What a theme can be\<close>

definition family_ok :: "string \<Rightarrow> bool" where
  "family_ok f \<longleftrightarrow> length f < 64 \<and> NUL \<notin> set f"

definition theme_ok :: "theme \<Rightarrow> bool" where
  "theme_ok t \<longleftrightarrow> list_all (\<lambda>c. unat c < 2 ^ 24)
     [th_panel_bg t, th_panel_text t, th_accent t, th_separator t, th_window_bg t, th_window_border t,
      th_title_text t, th_error_bg t, th_error_text t, th_success_bg t, th_success_text t,
      th_warning_bg t, th_warning_text t]
     \<and> family_ok (th_default_family t) \<and> th_title_family t = ''DejaVu Sans'' \<and> th_format_version t = 1"

lemma hex_value_less: "hex_value c = Some d \<Longrightarrow> d < 16"
  by (auto simp: hex_value_def is_digit_def less_eq_char_def split: if_splits)

text \<open>Shifting in a digit is arithmetic: the value of the digits.\<close>

lemma shift_digit:
  assumes "unat (r :: u32) < 2 ^ 28" and "d < 16"
  shows "unat (or (push_bit 4 r) (of_nat d)) = unat r * 16 + d"
proof -
  have "or (push_bit 4 r) (of_nat d :: u32) = push_bit 4 r + of_nat d"
  proof (rule disjunctive_add [symmetric])
    fix n
    have "(of_nat d :: u32) = take_bit 4 (of_nat d)"
      using assms(2) by (simp add: take_bit_eq_mod unat_of_nat word_unat_eq_iff unat_mod)
    then show "\<not> bit (push_bit 4 r) n \<or> \<not> bit (of_nat d :: u32) n"
      by (metis bit_push_bit_iff bit_take_bit_iff linorder_not_le)
  qed
  moreover have "unat (push_bit 4 r) = unat r * 16"
    using assms(1) by (simp add: push_bit_eq_mult unat_word_ariths)
  moreover have "unat (of_nat d :: u32) = d" using assms(2) by (simp add: unat_of_nat)
  ultimately show ?thesis using assms by (simp add: unat_word_ariths)
qed

lemma parse_hex_bound:
  "parse_hex r ds = Some c \<Longrightarrow> unat r < 16 ^ k \<Longrightarrow> k + length ds \<le> 7 \<Longrightarrow> unat c < 16 ^ (k + length ds)"
proof (induction ds arbitrary: r k)
  case (Cons x ds)
  obtain d where d: "hex_value x = Some d" "parse_hex (or (push_bit 4 r) (of_nat d)) ds = Some c"
    using Cons.prems(1) by (auto split: option.splits)
  have "(16 :: nat) ^ k \<le> 16 ^ 7" using Cons.prems(3) by (intro power_increasing) simp_all
  then have r: "unat r < 2 ^ 28" using Cons.prems(2) by simp
  have d16: "d < 16" by (rule hex_value_less [OF d(1)])
  have "unat (or (push_bit 4 r) (of_nat d :: u32)) < 16 ^ Suc k"
    unfolding shift_digit [OF r d16] using Cons.prems(2) d16 by simp
  from Cons.IH [OF d(2) this] Cons.prems(3) show ?case by simp
qed simp

lemma parse_color_bound: "parse_color v = Some c \<Longrightarrow> unat c < 2 ^ 24"
proof -
  assume p: "parse_color v = Some c"
  show ?thesis
  proof (cases "v \<noteq> [] \<and> hd v = CHR ''#''")
    case True
    then have "parse_hex 0 (tl v) = Some c" "length (tl v) = 6"
      using p by (auto simp: parse_color_def split: if_splits)
    then show ?thesis using parse_hex_bound [of 0 "tl v" c 0] by simp
  next
    case False
    then have "map_of color_names (copy_with_nul 32 v) = Some c" using p by (auto simp: parse_color_def)
    from map_of_SomeD [OF this] show ?thesis by (auto simp: color_names_def)
  qed
qed

lemma parse_string_ok: "family_ok (parse_theme_string v)"
proof -
  have "NUL \<notin> set (takeWhile (\<lambda>c. c \<noteq> NUL) xs)" for xs using set_takeWhileD by fastforce
  then have "NUL \<notin> set (copy_with_nul 65 xs)" for xs by (simp add: copy_with_nul_def cstr_def)
  then show ?thesis unfolding family_ok_def parse_theme_string_def
    by (auto simp: gstr_def dest: in_set_takeD)
qed

lemma color_field_ok: "(k, f) \<in> set color_fields \<Longrightarrow> unat c < 2 ^ 24 \<Longrightarrow> theme_ok t \<Longrightarrow> theme_ok (f c t)"
  by (auto simp: color_fields_def theme_ok_def)

lemma uint_field_ok: "(k, f) \<in> set (uint_fields sec) \<Longrightarrow> theme_ok t \<Longrightarrow> theme_ok (f c t)"
  by (auto simp: uint_fields_def theme_ok_def split: if_splits)

lemma ld_simps [simp]:
  "ld_theme (ld_fail no s) = ld_theme s" "ld_section (ld_fail no s) = ld_section s"
  "ld_theme (ld_warn no s) = ld_theme s" "ld_section (ld_warn no s) = ld_section s"
  "ld_ok (ld_fail no s) \<longleftrightarrow> False" "ld_ok (ld_warn no s) = ld_ok s"
  "ld_warnings (ld_fail no s) = ld_warnings s @ [no]" "ld_warnings (ld_warn no s) = ld_warnings s @ [no]"
  by (simp_all add: ld_fail_def ld_warn_def)

lemma apply_key_ok: "theme_ok (ld_theme s) \<Longrightarrow> theme_ok (ld_theme (apply_key k v no s))"
proof -
  assume t: "theme_ok (ld_theme s)"
  have c: "theme_ok (f c (ld_theme s))" if "map_of color_fields n = Some f" "parse_color v = Some c" for n f c
    using color_field_ok [OF map_of_SomeD [OF that(1)] parse_color_bound [OF that(2)] t] .
  have u: "theme_ok (f c (ld_theme s))" if "map_of (uint_fields sec) n = Some f" for sec n f c
    using uint_field_ok [OF map_of_SomeD [OF that] t] .
  have "theme_ok (ld_theme (apply_version no v s))"
    using t by (auto simp: apply_version_def theme_ok_def split: option.split)
  moreover have "theme_ok ((ld_theme s)\<lparr>th_default_family := parse_theme_string v\<rparr>)"
    using t parse_string_ok by (simp add: theme_ok_def)
  moreover have "theme_ok ((ld_theme s)\<lparr>th_panel_position := p\<rparr>)" for p using t by (simp add: theme_ok_def)
  ultimately show ?thesis using t c u
    by (simp add: apply_key_def Let_def assign_field_def split: option.split)
qed

lemma theme_line_ok: "theme_ok (ld_theme s) \<Longrightarrow> theme_ok (ld_theme (theme_line no l s))"
  by (simp add: theme_line_def Let_def apply_key_ok)

lemma default_theme_ok: "theme_ok default_theme"
  by (simp add: theme_ok_def default_theme_def family_ok_def)

lemma load_lines_ok: "theme_ok (ld_theme s) \<Longrightarrow> theme_ok (ld_theme (load_lines ls s))"
  by (induction ls arbitrary: s) (simp_all add: theme_line_ok)

text \<open>
  C30: whatever bytes a theme file holds, the theme that comes out is well formed: every color
  has 24 bits, the family fits its string, the format version is one.
\<close>

theorem loaded_theme_ok:
  "case load_theme d of None \<Rightarrow> False | Some s \<Rightarrow> theme_ok (ld_theme s)"
  by (simp add: load_theme_eq load_lines_ok ld_start_def default_theme_ok)

section \<open>Writing a theme\<close>

text \<open>The text of a theme in the form of the files under \<open>sponge-de/themes\<close>.\<close>

definition setting :: "string \<Rightarrow> string \<Rightarrow> string" where
  "setting k v = k @ '' = '' @ v"

definition position_name :: "panel_position \<Rightarrow> string" where
  "position_name p = (case p of Pos_top \<Rightarrow> ''top'' | Pos_bottom \<Rightarrow> ''bottom'' | Pos_left \<Rightarrow> ''left'' | Pos_right \<Rightarrow> ''right'')"

definition uint_setting :: "string \<Rightarrow> u32 \<Rightarrow> string" where
  "uint_setting k n = setting k (decimal (unat n))"

definition theme_lines :: "theme \<Rightarrow> string list" where
  "theme_lines t =
     [''[meta]'', ''version = 1'', [], ''[colors]'',
      setting ''panel_bg'' (to_css (th_panel_bg t)), setting ''panel_text'' (to_css (th_panel_text t)),
      setting ''accent'' (to_css (th_accent t)), setting ''separator'' (to_css (th_separator t)),
      setting ''window_bg'' (to_css (th_window_bg t)), setting ''window_border'' (to_css (th_window_border t)),
      setting ''title_text'' (to_css (th_title_text t)), setting ''error_bg'' (to_css (th_error_bg t)),
      setting ''error_text'' (to_css (th_error_text t)), setting ''success_bg'' (to_css (th_success_bg t)),
      setting ''success_text'' (to_css (th_success_text t)), setting ''warning_bg'' (to_css (th_warning_bg t)),
      setting ''warning_text'' (to_css (th_warning_text t)), [], ''[fonts]'',
      setting ''default_family'' (DQ # th_default_family t @ [DQ]), uint_setting ''default_size'' (th_default_size t),
      uint_setting ''title_size'' (th_title_size t), [], ''[layout]'',
      setting ''panel_position'' (position_name (th_panel_position t)), uint_setting ''panel_height'' (th_panel_height t),
      uint_setting ''padding'' (th_padding t), uint_setting ''margin'' (th_margin t),
      uint_setting ''launcher_width'' (th_launcher_width t), [], ''[window]'',
      uint_setting ''border_radius'' (th_border_radius t), uint_setting ''border_width'' (th_border_width t),
      uint_setting ''shadow_radius'' (th_shadow_radius t)]"

definition theme_text :: "theme \<Rightarrow> string" where
  "theme_text t = concat (map (\<lambda>l. l @ [NL]) (theme_lines t))"

section \<open>Reading it back\<close>

lemma hex_value_char: "n < 16 \<Longrightarrow> hex_value (hex_char n) = Some n"
proof -
  assume "n < 16"
  then have "n \<in> set [0..<16]" by simp
  moreover have "list_all (\<lambda>n. hex_value (hex_char n) = Some n) [0..<16]" by code_simp
  ultimately show ?thesis by (simp only: list_all_iff)
qed

lemma parse_hex_append:
  "parse_hex r (xs @ ys) = (case parse_hex r xs of None \<Rightarrow> None | Some r' \<Rightarrow> parse_hex r' ys)"
  by (induction xs arbitrary: r) (auto split: option.split)

lemma parse_hex_digits: "n < 2 ^ 28 \<Longrightarrow> parse_hex 0 (hex_digits n) = Some (of_nat n)"
proof (induction n rule: hex_digits.induct)
  case (1 n)
  show ?case
  proof (cases "n < 16")
    case True
    then show ?thesis by (subst hex_digits.simps) (simp add: hex_value_char)
  next
    case False
    let ?q = "of_nat (n div 16) :: u32"
    have q: "unat ?q = n div 16" using 1(2) by (simp add: unat_of_nat)
    have "unat (or (push_bit 4 ?q) (of_nat (n mod 16))) = n div 16 * 16 + n mod 16"
      using 1(2) shift_digit [of ?q "n mod 16"] by (simp add: q)
    then have "unat (or (push_bit 4 ?q) (of_nat (n mod 16))) = n" by simp
    then have "or (push_bit 4 ?q) (of_nat (n mod 16)) = of_nat n" by (metis of_nat_unat ucast_id)
    moreover have "parse_hex 0 (hex_digits (n div 16)) = Some ?q" using 1 False by simp
    ultimately show ?thesis using False
      by (subst hex_digits.simps) (simp add: parse_hex_append hex_value_char)
  qed
qed

lemma parse_hex_zeros: "parse_hex 0 (replicate k (CHR ''0'') @ ds) = parse_hex 0 ds"
proof (induction k)
  case (Suc k)
  moreover have "hex_value (CHR ''0'') = Some 0" by code_simp
  ultimately show ?case by simp
qed simp

lemma length_hex_digits: "n < 16 ^ k \<Longrightarrow> 0 < k \<Longrightarrow> length (hex_digits n) \<le> k"
proof (induction n arbitrary: k rule: hex_digits.induct)
  case (1 n)
  show ?case
  proof (cases "n < 16")
    case True
    then show ?thesis using 1(3) by (subst hex_digits.simps) simp
  next
    case False
    have "k \<noteq> 1" using 1(2) False by auto
    then obtain j where j: "k = Suc j" "0 < j" using 1(3) by (cases k) auto
    then have "n div 16 < 16 ^ j" using 1(2) by (simp add: less_mult_imp_div_less mult.commute)
    from 1(1) [OF False this j(2)] show ?thesis using False j(1) by (subst hex_digits.simps) simp
  qed
qed

lemma parse_to_css: "unat c < 2 ^ 24 \<Longrightarrow> parse_color (to_css c) = Some c"
proof -
  assume c: "unat c < 2 ^ 24"
  then have "length (hex_digits (unat c)) \<le> 6" by (intro length_hex_digits) simp_all
  then show ?thesis using c parse_hex_digits [of "unat c"]
    by (simp add: parse_color_def to_css_def Let_def parse_hex_zeros)
qed

lemma digit_char_val: "n < 10 \<Longrightarrow> is_digit (digit_char n) \<and> digit_val (digit_char n) = n"
proof -
  assume "n < 10"
  then have "n \<in> set [0..<10]" by simp
  moreover have "list_all (\<lambda>n. is_digit (digit_char n) \<and> digit_val (digit_char n) = n) [0..<10]" by code_simp
  ultimately show ?thesis by (simp only: list_all_iff)
qed

lemma uint_digits_append:
  "uint_digits m (xs @ ys) = (case uint_digits m xs of None \<Rightarrow> None | Some r \<Rightarrow> uint_digits r ys)"
  by (induction xs arbitrary: m) auto

text \<open>A decimal number is read modulo \<open>2 ^ 32\<close>.\<close>

lemma parse_decimal: "parse_theme_uint (decimal n) = Some (of_nat n)"
proof -
  have "uint_digits 0 (decimal n) = Some (of_nat n)"
  proof (induction n rule: decimal.induct)
    case (1 n)
    show ?case
    proof (cases "n < 10")
      case True
      then show ?thesis by (subst decimal.simps) (simp add: digit_char_val)
    next
      case False
      have "(of_nat (n div 10) * 10 + of_nat (n mod 10) :: u32) = of_nat (n div 10 * 10 + n mod 10)"
        by (simp only: of_nat_add of_nat_mult) simp
      also have "\<dots> = of_nat n" by simp
      finally show ?thesis using 1 False
        by (subst decimal.simps) (simp add: uint_digits_append digit_char_val)
    qed
  qed
  then show ?thesis by (simp add: parse_theme_uint_def)
qed

section \<open>Lines\<close>

definition tight :: "string \<Rightarrow> bool" where
  "tight s \<longleftrightarrow> s \<noteq> [] \<and> \<not> blank (hd s) \<and> \<not> blank (last s)"

lemma trim_tight: "tight s \<Longrightarrow> trim blank s = s"
proof -
  assume t: "tight s"
  then have "dropWhile blank s = s" by (cases s) (simp_all add: tight_def)
  moreover have "dropWhile blank (rev s) = rev s" using t by (cases s rule: rev_cases) (simp_all add: tight_def)
  ultimately show ?thesis by (simp add: trim_def)
qed

lemma trim_around: "tight s \<Longrightarrow> trim blank (SP # s) = s" "tight s \<Longrightarrow> trim blank (s @ [SP]) = s"
proof -
  assume t: "tight s"
  have b: "blank SP" by (simp add: blank_def)
  show "trim blank (SP # s) = s" using trim_tight [OF t] b by (simp add: trim_def)
  have "dropWhile blank (s @ [SP]) = s @ [SP]" using t by (cases s) (simp_all add: tight_def)
  moreover have "dropWhile blank (rev s) = rev s" using t by (cases s rule: rev_cases) (simp_all add: tight_def)
  ultimately show "trim blank (s @ [SP]) = s" using b by (simp add: trim_def)
qed

definition key_name :: "string \<Rightarrow> bool" where
  "key_name k \<longleftrightarrow> tight k \<and> CHR ''='' \<notin> set k \<and> hd k \<noteq> CHR ''#'' \<and> hd k \<noteq> CHR ''['' \<and> length k < 64 \<and> NUL \<notin> set k"

lemma parse_setting:
  assumes "key_name k" and "tight v"
  shows "theme_line no (setting k v) s = apply_key k v no s"
proof -
  have k: "tight k" "k \<noteq> []" "CHR ''='' \<notin> set k" using assms(1) by (simp_all add: key_name_def tight_def)
  have l: "setting k v = (k @ [SP]) @ CHR ''='' # SP # v" by (simp add: setting_def)
  have "tight (setting k v)" using assms(2) k(1) by (simp add: setting_def tight_def)
  note trimmed = trim_tight [OF this]
  have n: "\<And>x. x \<in> set (k @ [SP]) \<Longrightarrow> x \<noteq> CHR ''=''" using k(3) by auto
  have tw: "takeWhile (\<lambda>c. c \<noteq> CHR ''='') (setting k v) = k @ [SP]"
    unfolding l using takeWhile_append2 [of "k @ [SP]" "\<lambda>c. c \<noteq> CHR ''=''"] n by simp
  have dw: "dropWhile (\<lambda>c. c \<noteq> CHR ''='') (setting k v) = CHR ''='' # SP # v"
    unfolding l using dropWhile_append2 [of "k @ [SP]" "\<lambda>c. c \<noteq> CHR ''=''"] n by simp
  have "hd (setting k v) = hd k" "setting k v \<noteq> []" "CHR ''='' \<in> set (setting k v)"
    using k(2) by (simp_all add: setting_def)
  then show ?thesis unfolding theme_line_def Let_def trimmed tw dw
    using assms(1) k(2) trim_around(1) [OF assms(2)] trim_around(2) [OF k(1)] by (simp add: key_name_def)
qed

lemma tight_css: "tight (to_css c)"
proof -
  have "\<not> blank (hex_char n)" if "n < 16" for n
  proof -
    have "list_all (\<lambda>n. \<not> blank (hex_char n)) [0..<16]" by code_simp
    then show ?thesis using that by (simp add: list_all_iff)
  qed
  then have "\<not> blank (last (hex_digits n)) \<and> hex_digits n \<noteq> []" for n
    by (subst (1 2) hex_digits.simps) simp
  moreover have "\<not> blank (CHR ''#'')" by (simp add: blank_def)
  ultimately show ?thesis by (simp add: tight_def to_css_def Let_def)
qed

lemma tight_decimal: "tight (decimal n)"
proof -
  have b: "\<not> blank (digit_char n)" if "n < 10" for n
  proof -
    have "list_all (\<lambda>n. \<not> blank (digit_char n)) [0..<10]" by code_simp
    then show ?thesis using that by (simp add: list_all_iff)
  qed
  have "\<not> blank (hd (decimal n))"
  proof (induction n rule: decimal.induct)
    case (1 n)
    then show ?case using b by (subst decimal.simps) (auto simp: hd_append)
  qed
  moreover have "\<not> blank (last (decimal n))" using b by (subst decimal.simps) simp
  ultimately show ?thesis by (simp add: tight_def)
qed

section \<open>The round trip\<close>

lemma copy_name: "key_name k \<Longrightarrow> copy_with_nul 64 k = k"
  by (simp add: copy_with_nul_def key_name_def)

lemma parse_color_setting:
  "key_name k \<Longrightarrow> ld_section s = ''colors'' \<Longrightarrow> unat c < 2 ^ 24
    \<Longrightarrow> theme_line no (setting k (to_css c)) s = (case map_of color_fields k of
          None \<Rightarrow> ld_warn no s | Some f \<Rightarrow> s\<lparr>ld_theme := f c (ld_theme s)\<rparr>)"
  by (simp add: parse_setting tight_css apply_key_def copy_name assign_field_def parse_to_css split: option.split)

lemma parse_uint_setting:
  assumes "key_name k" and "ld_section s \<noteq> ''meta''" and "ld_section s \<noteq> ''colors''"
    and "\<not> (ld_section s = ''fonts'' \<and> k = ''default_family'')" and "\<not> (ld_section s = ''layout'' \<and> k = ''panel_position'')"
  shows "theme_line no (uint_setting k n) s = (case map_of (uint_fields (ld_section s)) k of
          None \<Rightarrow> ld_warn no s | Some f \<Rightarrow> s\<lparr>ld_theme := f n (ld_theme s)\<rparr>)"
proof -
  have v: "parse_theme_uint (decimal (unat n)) = Some n" by (simp add: parse_decimal)
  show ?thesis
    unfolding uint_setting_def parse_setting [OF assms(1) tight_decimal] apply_key_def Let_def copy_name [OF assms(1)] v
      assign_field_def option.case(2)
    by (simp only: assms(2-5) if_False)
qed

lemma parse_family_setting:
  assumes "ld_section s = ''fonts''" and "family_ok f"
  shows "theme_line no (setting ''default_family'' (DQ # f @ [DQ])) s = s\<lparr>ld_theme := (ld_theme s)\<lparr>th_default_family := f\<rparr>\<rparr>"
proof -
  have k: "key_name ''default_family''" by code_simp
  have q: "tight (DQ # f @ [DQ])" by (simp add: tight_def blank_def)
  have "parse_theme_string (DQ # f @ [DQ]) = f"
    using assms(2) by (simp add: parse_theme_string_def trim_tight [OF q] unquote_def butlast_append copy_with_nul_def family_ok_def)
  then show ?thesis using assms(1) by (simp add: parse_setting [OF k q] apply_key_def copy_name [OF k])
qed

lemma parse_position_setting:
  assumes "ld_section s = ''layout''"
  shows "theme_line no (setting ''panel_position'' (position_name p)) s = s\<lparr>ld_theme := (ld_theme s)\<lparr>th_panel_position := p\<rparr>\<rparr>"
proof -
  have k: "key_name ''panel_position''" by code_simp
  have "tight (position_name p) \<and> parse_position (position_name p) = Some p" by (cases p) (simp_all, code_simp+)
  then show ?thesis using assms by (simp add: parse_setting [OF k] apply_key_def copy_name [OF k] assign_field_def)
qed

lemma parse_header:
  assumes "tight sec" and "length sec < 32" and "NUL \<notin> set sec"
  shows "theme_line no (CHR ''['' # sec @ '']'') s = s\<lparr>ld_section := sec\<rparr>"
proof -
  have "tight (CHR ''['' # sec @ '']'')" by (simp add: tight_def blank_def)
  note t = trim_tight [OF this]
  show ?thesis unfolding theme_line_def Let_def t using assms
    by (simp add: trim_tight copy_with_nul_def tight_def)
qed

lemma parse_fixed_lines:
  "theme_line no ''[meta]'' s = s\<lparr>ld_section := ''meta''\<rparr>" "theme_line no ''[colors]'' s = s\<lparr>ld_section := ''colors''\<rparr>"
  "theme_line no ''[fonts]'' s = s\<lparr>ld_section := ''fonts''\<rparr>" "theme_line no ''[layout]'' s = s\<lparr>ld_section := ''layout''\<rparr>"
  "theme_line no ''[window]'' s = s\<lparr>ld_section := ''window''\<rparr>" "theme_line no [] s = s"
  using parse_header [of "''meta''" no s] parse_header [of "''colors''" no s] parse_header [of "''fonts''" no s]
    parse_header [of "''layout''" no s] parse_header [of "''window''" no s]
  by (simp_all add: tight_def blank_def theme_line_def trim_def)

lemma parse_version_line:
  assumes "ld_section s = ''meta''"
  shows "theme_line no ''version = 1'' s = s\<lparr>ld_theme := (ld_theme s)\<lparr>th_format_version := 1\<rparr>\<rparr>"
proof -
  have k: "key_name ''version''" by code_simp
  have v: "tight ''1''" "parse_theme_uint ''1'' = Some 1" by code_simp+
  have "setting ''version'' ''1'' = ''version = 1''" by (simp add: setting_def)
  then show ?thesis using parse_setting [OF k v(1), of no s] assms v(2)
    by (simp add: apply_key_def apply_version_def copy_name [OF k])
qed

lemma names_ok: "list_all key_name
  [''panel_bg'', ''panel_text'', ''accent'', ''separator'', ''window_bg'', ''window_border'', ''title_text'', ''error_bg'',
   ''error_text'', ''success_bg'', ''success_text'', ''warning_bg'', ''warning_text'', ''default_size'', ''title_size'',
   ''panel_height'', ''padding'', ''margin'', ''launcher_width'', ''border_radius'', ''border_width'', ''shadow_radius'']"
  by code_simp

lemma lines_of_concat: "(\<And>l. l \<in> set ls \<Longrightarrow> NL \<notin> set l) \<Longrightarrow> lines_of (concat (map (\<lambda>l. l @ [NL]) ls)) = ls"
  by (induction ls) auto

lemma strip_padding: "s \<noteq> [] \<Longrightarrow> last s \<noteq> NUL \<Longrightarrow> strip_nuls (s @ replicate n NUL) = s"
proof (induction n)
  case 0
  then show ?case by (cases s rule: rev_cases) (simp_all add: strip_nuls_def)
next
  case (Suc n)
  then show ?case by (simp add: strip_nuls_def replicate_append_same [symmetric] del: replicate_Suc)
     (simp add: replicate_append_same)
qed

lemma no_newlines:
  assumes "NL \<notin> set (th_default_family t)" and "l \<in> set (theme_lines t)"
  shows "NL \<notin> set l"
proof -
  have h: "NL \<notin> set (hex_digits n)" for n
  proof (induction n rule: hex_digits.induct)
    case (1 n)
    have c: "list_all (\<lambda>n. NL \<noteq> hex_char n) [0..<16]" by code_simp
    have "NL \<noteq> hex_char m" if "m < 16" for m using c that by (simp add: list_all_iff)
    then show ?case using 1 by (subst hex_digits.simps) simp
  qed
  have d: "NL \<notin> set (decimal n)" for n
  proof (induction n rule: decimal.induct)
    case (1 n)
    have c: "list_all (\<lambda>n. NL \<noteq> digit_char n) [0..<10]" by code_simp
    have "NL \<noteq> digit_char m" if "m < 10" for m using c that by (simp add: list_all_iff)
    then show ?case using 1 by (subst decimal.simps) simp
  qed
  have "NL \<notin> set (position_name p)" for p by (cases p) (simp_all add: position_name_def)
  then show ?thesis using assms h d by (auto simp: theme_lines_def setting_def uint_setting_def to_css_def Let_def)
qed

text \<open>The sections of a written theme.\<close>

lemma color_section:
  assumes "theme_ok t" and "ld_section s = ''colors''"
  shows "load_lines (enumerate no [setting ''panel_bg'' (to_css (th_panel_bg t)), setting ''panel_text'' (to_css (th_panel_text t)),
      setting ''accent'' (to_css (th_accent t)), setting ''separator'' (to_css (th_separator t)),
      setting ''window_bg'' (to_css (th_window_bg t)), setting ''window_border'' (to_css (th_window_border t)),
      setting ''title_text'' (to_css (th_title_text t)), setting ''error_bg'' (to_css (th_error_bg t)),
      setting ''error_text'' (to_css (th_error_text t)), setting ''success_bg'' (to_css (th_success_bg t)),
      setting ''success_text'' (to_css (th_success_text t)), setting ''warning_bg'' (to_css (th_warning_bg t)),
      setting ''warning_text'' (to_css (th_warning_text t))]) s
    = s\<lparr>ld_theme := (ld_theme s)\<lparr>th_panel_bg := th_panel_bg t, th_panel_text := th_panel_text t, th_accent := th_accent t,
        th_separator := th_separator t, th_window_bg := th_window_bg t, th_window_border := th_window_border t,
        th_title_text := th_title_text t, th_error_bg := th_error_bg t, th_error_text := th_error_text t,
        th_success_bg := th_success_bg t, th_success_text := th_success_text t, th_warning_bg := th_warning_bg t,
        th_warning_text := th_warning_text t\<rparr>\<rparr>"
  using names_ok assms
  by (simp add: parse_color_setting theme_ok_def color_fields_def)

lemma uint_sections:
  "ld_section s = ''fonts'' \<Longrightarrow> load_lines (enumerate no [uint_setting ''default_size'' (th_default_size t),
      uint_setting ''title_size'' (th_title_size t)]) s
    = s\<lparr>ld_theme := (ld_theme s)\<lparr>th_default_size := th_default_size t, th_title_size := th_title_size t\<rparr>\<rparr>"
  "ld_section s = ''layout'' \<Longrightarrow> load_lines (enumerate no [uint_setting ''panel_height'' (th_panel_height t),
      uint_setting ''padding'' (th_padding t), uint_setting ''margin'' (th_margin t),
      uint_setting ''launcher_width'' (th_launcher_width t)]) s
    = s\<lparr>ld_theme := (ld_theme s)\<lparr>th_panel_height := th_panel_height t, th_padding := th_padding t, th_margin := th_margin t,
        th_launcher_width := th_launcher_width t\<rparr>\<rparr>"
  "ld_section s = ''window'' \<Longrightarrow> load_lines (enumerate no [uint_setting ''border_radius'' (th_border_radius t),
      uint_setting ''border_width'' (th_border_width t), uint_setting ''shadow_radius'' (th_shadow_radius t)]) s
    = s\<lparr>ld_theme := (ld_theme s)\<lparr>th_border_radius := th_border_radius t, th_border_width := th_border_width t,
        th_shadow_radius := th_shadow_radius t\<rparr>\<rparr>"
  using names_ok by (simp_all add: parse_uint_setting uint_fields_def)

lemma load_lines_enumerate:
  "load_lines (enumerate no (xs @ ys)) s = load_lines (enumerate (no + length xs) ys) (load_lines (enumerate no xs) s)"
  by (simp add: enumerate_append_eq)

lemma ends_in_newline:
  assumes "ls \<noteq> []"
  shows "concat (map (\<lambda>l. l @ [NL]) ls) \<noteq> []" and "last (concat (map (\<lambda>l. l @ [NL]) ls)) \<noteq> NUL"
  using assms by (induction ls rule: rev_induct) simp_all

lemma load_theme_text:
  assumes "theme_ok t" and "NL \<notin> set (th_default_family t)"
  shows "load_theme (theme_text t @ replicate n NUL)
    = Some \<lparr>ld_theme = t, ld_section = ''window'', ld_ok = True, ld_warnings = []\<rparr>"
proof -
  have "theme_lines t \<noteq> []" by (simp add: theme_lines_def)
  then have "theme_text t \<noteq> []" "last (theme_text t) \<noteq> NUL" unfolding theme_text_def by (rule ends_in_newline)+
  then have strip: "strip_nuls (theme_text t @ replicate n NUL) = theme_text t" by (rule strip_padding)
  have ls: "lines_of (theme_text t) = theme_lines t"
    unfolding theme_text_def by (rule lines_of_concat) (rule no_newlines [OF assms(2)])
  have f: "family_ok (th_default_family t)" "th_title_family t = ''DejaVu Sans''" "th_format_version t = 1"
    using assms(1) by (simp_all add: theme_ok_def)
  have "theme_lines t = [''[meta]'', ''version = 1'', [], ''[colors]''] @
     [setting ''panel_bg'' (to_css (th_panel_bg t)), setting ''panel_text'' (to_css (th_panel_text t)),
      setting ''accent'' (to_css (th_accent t)), setting ''separator'' (to_css (th_separator t)),
      setting ''window_bg'' (to_css (th_window_bg t)), setting ''window_border'' (to_css (th_window_border t)),
      setting ''title_text'' (to_css (th_title_text t)), setting ''error_bg'' (to_css (th_error_bg t)),
      setting ''error_text'' (to_css (th_error_text t)), setting ''success_bg'' (to_css (th_success_bg t)),
      setting ''success_text'' (to_css (th_success_text t)), setting ''warning_bg'' (to_css (th_warning_bg t)),
      setting ''warning_text'' (to_css (th_warning_text t))] @
     [[], ''[fonts]'', setting ''default_family'' (DQ # th_default_family t @ [DQ])] @
     [uint_setting ''default_size'' (th_default_size t), uint_setting ''title_size'' (th_title_size t)] @
     [[], ''[layout]'', setting ''panel_position'' (position_name (th_panel_position t))] @
     [uint_setting ''panel_height'' (th_panel_height t), uint_setting ''padding'' (th_padding t),
      uint_setting ''margin'' (th_margin t), uint_setting ''launcher_width'' (th_launcher_width t)] @
     [[], ''[window]''] @
     [uint_setting ''border_radius'' (th_border_radius t), uint_setting ''border_width'' (th_border_width t),
      uint_setting ''shadow_radius'' (th_shadow_radius t)]"
    by (simp add: theme_lines_def)
  note secs = this
  have fixed: "load_lines (enumerate no [''[meta]'', ''version = 1'', [], ''[colors]'']) s
      = s\<lparr>ld_section := ''colors'', ld_theme := (ld_theme s)\<lparr>th_format_version := 1\<rparr>\<rparr>"
    "load_lines (enumerate no [[], ''[fonts]'', setting ''default_family'' (DQ # th_default_family t @ [DQ])]) s
      = s\<lparr>ld_section := ''fonts'', ld_theme := (ld_theme s)\<lparr>th_default_family := th_default_family t\<rparr>\<rparr>"
    "load_lines (enumerate no [[], ''[layout]'', setting ''panel_position'' (position_name (th_panel_position t))]) s
      = s\<lparr>ld_section := ''layout'', ld_theme := (ld_theme s)\<lparr>th_panel_position := th_panel_position t\<rparr>\<rparr>"
    "load_lines (enumerate no [[], ''[window]'']) s = s\<lparr>ld_section := ''window''\<rparr>" for no s
    using f(1) by (simp_all add: parse_fixed_lines parse_version_line parse_family_setting parse_position_setting)
  have "load_theme (theme_text t @ replicate n NUL) = Some (load_lines (enumerate 1 (theme_lines t)) ld_start)"
    unfolding load_theme_eq strip numbered_def ls ..
  also have "load_lines (enumerate 1 (theme_lines t)) ld_start
      = \<lparr>ld_theme = t, ld_section = ''window'', ld_ok = True, ld_warnings = []\<rparr>"
    unfolding secs load_lines_enumerate fixed
    using f by (simp add: color_section [OF assms(1)] uint_sections ld_start_def default_theme_def del: enumerate_simps)
  finally show ?thesis .
qed

text \<open>
  C10: a written theme is read back. For every well-formed theme whose family holds no newline, the
  text in the form of the theme files, with any padding of NUL bytes after it, loads without a
  warning to exactly that theme.
\<close>

theorem theme_roundtrip:
  assumes "theme_ok t" and "NL \<notin> set (th_default_family t)"
  shows "load_theme (theme_text t @ replicate n NUL)
    = Some \<lparr>ld_theme = t, ld_section = ''window'', ld_ok = True, ld_warnings = []\<rparr>"
  by (rule load_theme_text [OF assms])

theorem theme_roundtrip_witness:
  "load_theme (theme_text (default_theme\<lparr>th_accent := 0xabcdef, th_default_family := ''A = [b]'', th_padding := 4000000000\<rparr>)
      @ replicate 3 NUL)
   = Some \<lparr>ld_theme = default_theme\<lparr>th_accent := 0xabcdef, th_default_family := ''A = [b]'', th_padding := 4000000000\<rparr>,
       ld_section = ''window'', ld_ok = True, ld_warnings = []\<rparr>"
  by (rule theme_roundtrip) (simp_all add: theme_ok_def default_theme_def family_ok_def)

section \<open>Lines it does not like\<close>

text \<open>What a key does depends on the section alone: it fails, warns, or changes the theme.\<close>

lemma apply_key_cases:
  obtains (fail) "\<And>no s. ld_section s = sec \<Longrightarrow> apply_key k v no s = ld_fail no s"
  | (warn) "\<And>no s. ld_section s = sec \<Longrightarrow> apply_key k v no s = ld_warn no s"
  | (change) f where "\<And>no s. ld_section s = sec \<Longrightarrow> apply_key k v no s = s\<lparr>ld_theme := f (ld_theme s)\<rparr>"
proof -
  let ?k = "copy_with_nul 64 k"
  have field: thesis if "\<And>no s. ld_section s = sec \<Longrightarrow> apply_key k v no s
      = (case m of None \<Rightarrow> ld_warn no s | Some f \<Rightarrow> assign_field no f x s)"
    for m and x :: "'x option"
  proof (cases m)
    case None
    show ?thesis by (rule warn) (simp add: that None)
  next
    case f: (Some f)
    show ?thesis
    proof (cases x)
      case None
      show ?thesis by (rule fail) (simp add: that f None assign_field_def)
    next
      case (Some y)
      show ?thesis by (rule change [of "f y"]) (simp add: that f Some assign_field_def)
    qed
  qed
  consider (meta) "sec = ''meta''" | (colors) "sec = ''colors''"
    | (family) "sec = ''fonts''" "?k = ''default_family''" | (position) "sec = ''layout''" "?k = ''panel_position''"
    | (other) "sec \<noteq> ''meta''" "sec \<noteq> ''colors''" "\<not> (sec = ''fonts'' \<and> ?k = ''default_family'')"
      "\<not> (sec = ''layout'' \<and> ?k = ''panel_position'')" by blast
  then show thesis
  proof cases
    case meta
    show thesis
    proof (cases "?k = ''version''")
      case False
      show ?thesis by (rule warn) (simp add: apply_key_def meta False)
    next
      case k: True
      show ?thesis
      proof (cases "parse_theme_uint v = Some 1")
        case True
        show ?thesis by (rule change [of "\<lambda>t. t\<lparr>th_format_version := 1\<rparr>"]) (simp add: apply_key_def apply_version_def meta k True)
      next
        case False
        then have "apply_version no v s = ld_fail no s" for no s by (auto simp: apply_version_def split: option.split)
        then show ?thesis by (intro fail) (simp add: apply_key_def meta k)
      qed
    qed
  next
    case colors
    show thesis by (rule field [where m = "map_of color_fields ?k" and x = "parse_color v"]) (simp add: apply_key_def colors)
  next
    case family
    show thesis by (rule change [of "\<lambda>t. t\<lparr>th_default_family := parse_theme_string v\<rparr>"]) (simp add: apply_key_def family)
  next
    case position
    show thesis by (rule field [where m = "Some (\<lambda>p t. t\<lparr>th_panel_position := p\<rparr>)" and x = "parse_position v"])
      (simp add: apply_key_def position)
  next
    case other
    show thesis
      by (rule field [where m = "map_of (uint_fields sec) ?k" and x = "parse_theme_uint v"])
         (simp only: apply_key_def Let_def other if_False)
  qed
qed

lemma apply_key_cong:
  assumes "ld_theme s = ld_theme s'" and "ld_section s = ld_section s'"
  shows "ld_theme (apply_key k v no s) = ld_theme (apply_key k v no' s')"
    and "ld_section (apply_key k v no s) = ld_section (apply_key k v no' s')"
  using assms by (cases rule: apply_key_cases [of "ld_section s'" k v]; simp)+

lemma theme_line_cong:
  assumes "ld_theme s = ld_theme s'" and "ld_section s = ld_section s'"
  shows "ld_theme (theme_line no l s) = ld_theme (theme_line no' l s')" and "ld_section (theme_line no l s) = ld_section (theme_line no' l s')"
  unfolding theme_line_def Let_def using assms apply_key_cong [OF assms] by simp_all

lemma load_lines_cong:
  assumes "ld_theme s = ld_theme s'" and "ld_section s = ld_section s'"
  shows "ld_theme (load_lines ls s) = ld_theme (load_lines ls s')"
  using assms
proof (induction ls arbitrary: s s')
  case (Cons x ls)
  from Cons.IH [OF theme_line_cong [OF Cons.prems]] show ?case by simp
qed simp

text \<open>A complaint is never taken back.\<close>

lemma theme_line_ok_mono: "ld_ok (theme_line no l s) \<Longrightarrow> ld_ok s"
proof -
  have "ld_ok (apply_key k v no s) \<Longrightarrow> ld_ok s" for k v
    by (cases rule: apply_key_cases [of "ld_section s" k v]; simp)
  then show "ld_ok (theme_line no l s) \<Longrightarrow> ld_ok s" by (auto simp: theme_line_def Let_def split: if_splits)
qed

lemma load_lines_ok_mono: "ld_ok (load_lines ls s) \<Longrightarrow> ld_ok s"
  by (induction ls arbitrary: s) (auto dest: theme_line_ok_mono)

lemma strip_append: "p \<noteq> [] \<Longrightarrow> last p \<noteq> NUL \<Longrightarrow> strip_nuls (p @ d) = p @ strip_nuls d"
proof -
  assume "p \<noteq> []" "last p \<noteq> NUL"
  then obtain q c where p: "p = q @ [c]" "c \<noteq> NUL" by (cases p rule: rev_cases) auto
  show ?thesis
  proof (cases "\<forall>x \<in> set d. x = NUL")
    case True
    then show ?thesis using p by (simp add: strip_nuls_def dropWhile_append)
  next
    case False
    then show ?thesis unfolding strip_nuls_def rev_append dropWhile_append by auto
  qed
qed

text \<open>
  A theme of an unsupported format is not ignored, although the warning says so. A version
  other than one is complained about and the parser reports failure, but the theme it produces is the
  same as with the right version, whatever the rest of the text.
\<close>

theorem unsupported_version_not_ignored:
  assumes "v < 2 ^ 32" and "v \<noteq> 1"
  shows "\<exists>s s'. load_theme (''[meta]'' @ NL # setting ''version'' (decimal v) @ NL # d) = Some s
    \<and> load_theme (''[meta]'' @ NL # setting ''version'' ''1'' @ NL # d) = Some s'
    \<and> \<not> ld_ok s \<and> ld_theme s = ld_theme s'"
proof -
  have k: "key_name ''version''" by code_simp
  have nd: "NL \<notin> set (decimal n)" for n
  proof (induction n rule: decimal.induct)
    case (1 n)
    have c: "list_all (\<lambda>n. NL \<noteq> digit_char n) [0..<10]" by code_simp
    have "NL \<noteq> digit_char m" if "m < 10" for m using c that by (simp add: list_all_iff)
    then show ?case using 1 by (subst decimal.simps) simp
  qed
  have load: "load_theme (''[meta]'' @ NL # setting ''version'' x @ NL # d)
      = Some (load_lines (numbered 3 (strip_nuls d)) (apply_version 2 x (ld_start\<lparr>ld_section := ''meta''\<rparr>)))"
    if "NL \<notin> set x" "tight x" for x
  proof -
    have "strip_nuls ((''[meta]'' @ NL # setting ''version'' x @ [NL]) @ d) = (''[meta]'' @ NL # setting ''version'' x @ [NL]) @ strip_nuls d"
      by (rule strip_append) simp_all
    then have st: "strip_nuls (''[meta]'' @ NL # setting ''version'' x @ NL # d) = ''[meta]'' @ NL # setting ''version'' x @ NL # strip_nuls d"
      by simp
    have "NL \<notin> set (setting ''version'' x)" "NL \<notin> set ''[meta]''" using that(1) by (simp_all add: setting_def)
    then have "lines_of (''[meta]'' @ NL # setting ''version'' x @ NL # strip_nuls d) = ''[meta]'' # setting ''version'' x # lines_of (strip_nuls d)"
      using lines_of_cons [of "''[meta]''"] lines_of_cons by simp
    then have n: "numbered 1 (strip_nuls (''[meta]'' @ NL # setting ''version'' x @ NL # d))
        = (1, ''[meta]'') # (2, setting ''version'' x) # numbered 3 (strip_nuls d)"
      unfolding numbered_def st by (simp add: numeral_3_eq_3 numeral_2_eq_2)
    have "apply_key ''version'' x 2 (ld_start\<lparr>ld_section := ''meta''\<rparr>) = apply_version 2 x (ld_start\<lparr>ld_section := ''meta''\<rparr>)"
      by (simp add: apply_key_def copy_name [OF k])
    then show ?thesis unfolding load_theme_eq n by (simp only: load_lines_simps fst_conv snd_conv parse_fixed_lines parse_setting [OF k that(2)])
  qed
  have "unat (of_nat v :: u32) = v" using assms(1) by (simp add: unat_of_nat)
  then have "(of_nat v :: u32) \<noteq> 1" using assms(2) by auto
  then have f: "apply_version 2 (decimal v) s = ld_fail 2 s" for s by (simp add: apply_version_def parse_decimal)
  have one: "parse_theme_uint ''1'' = Some 1" "tight ''1''" by code_simp+
  let ?m = "ld_start\<lparr>ld_section := ''meta''\<rparr>"
  have o': "ld_theme (apply_version 2 ''1'' ?m) = ld_theme (ld_fail 2 ?m)" "ld_section (apply_version 2 ''1'' ?m) = ld_section (ld_fail 2 ?m)"
    by (simp_all add: apply_version_def one ld_start_def default_theme_def)
  have "\<not> ld_ok (load_lines ls (ld_fail 2 ?m))" for ls using load_lines_ok_mono [of ls "ld_fail 2 ?m"] by auto
  moreover have "load_theme (''[meta]'' @ NL # setting ''version'' (decimal v) @ NL # d)
      = Some (load_lines (numbered 3 (strip_nuls d)) (ld_fail 2 ?m))"
    unfolding load [OF nd tight_decimal] f ..
  moreover have "NL \<notin> set ''1''" by simp
  ultimately show ?thesis
    using load [of "''1''", OF _ one(2)] load_lines_cong [OF o', of "numbered 3 (strip_nuls d)"] by metis
qed

theorem unsupported_version_not_ignored_witness:
  "\<exists>s. load_theme (''[meta]'' @ NL # ''version = 2'' @ NL # ''[colors]'' @ NL # ''accent = red'') = Some s
    \<and> \<not> ld_ok s \<and> th_accent (ld_theme s) = 0xff0000"
proof -
  let ?d = "''[colors]'' @ NL # ''accent = red''"
  have d: "decimal 2 = ''2''" by code_simp
  obtain s s' where s: "load_theme (''[meta]'' @ NL # setting ''version'' (decimal 2) @ NL # ?d) = Some s"
    "load_theme (''[meta]'' @ NL # setting ''version'' ''1'' @ NL # ?d) = Some s'" "\<not> ld_ok s" "ld_theme s = ld_theme s'"
    using unsupported_version_not_ignored [of 2 ?d] by auto
  have "map_option (\<lambda>s. th_accent (ld_theme s)) (load_theme (''[meta]'' @ NL # setting ''version'' ''1'' @ NL # ?d)) = Some 0xff0000"
    unfolding load_theme_eq by code_simp
  then show ?thesis using s by (simp add: d setting_def)
qed

text \<open>An unknown key is warned about, but the parser reports that all is well.\<close>

lemma unknown_key_accepted:
  "load_theme (''[layout]'' @ NL # ''icon_size = 24'') = Some (ld_start\<lparr>ld_section := ''layout'', ld_warnings := [2]\<rparr>)"
  unfolding load_theme_eq by code_simp

text \<open>A number that does not fit is taken modulo \<open>2 ^ 32\<close> without a warning.\<close>

lemma number_wraps:
  "key_name k \<Longrightarrow> parse_theme_uint (decimal (2 ^ 32 + n)) = Some (of_nat n)"
  by (simp add: parse_decimal)

section \<open>The shipped default\<close>

text \<open>\<open>sponge-de/themes/default.theme\<close>, line by line.\<close>

definition default_file_lines :: "string list" where
  "default_file_lines =
     [''# Sponge OS default theme'',
      ''# Mocha-inspired dark palette'',
      ''# See docs/10-theme-format.md for the format specification.'',
      [],
      ''[meta]'',
      ''version = 1'',
      [],
      ''[colors]'',
      ''panel_bg       = #1e1e2e'',
      ''panel_text     = #cdd6f4'',
      ''accent         = #89b4fa'',
      ''separator      = #45475a'',
      ''window_bg      = #313244'',
      ''window_border  = #45475a'',
      ''title_text     = #cdd6f4'',
      ''error_bg       = #f38ba8'',
      ''error_text     = #f38ba8'',
      ''success_bg     = #a6e3a1'',
      ''success_text   = #a6e3a1'',
      ''warning_bg     = #f9e2af'',
      ''warning_text   = #f9e2af'',
      [],
      ''[fonts]'',
      ''default_family = DejaVu Sans'',
      ''default_size   = 11'',
      ''title_size     = 12'',
      [],
      ''[layout]'',
      ''panel_position = top'',
      ''panel_height   = 28'',
      ''padding        = 8'',
      ''margin         = 4'',
      ''launcher_width = 48'',
      [],
      ''[window]'',
      ''border_radius = 6'',
      ''border_width  = 1'',
      ''shadow_radius = 8'']"

definition default_file :: string where
  "default_file = concat (map (\<lambda>l. l @ [NL]) default_file_lines)"

text \<open>
  The shipped default theme is the built-in one. Loading \<open>default.theme\<close>, with any padding,
  gives without a warning the theme the shell uses when it has no file.
\<close>

theorem default_file_is_built_in:
  "load_theme (default_file @ replicate n NUL)
    = Some \<lparr>ld_theme = default_theme, ld_section = ''window'', ld_ok = True, ld_warnings = []\<rparr>"
proof -
  have "default_file_lines \<noteq> []" by (simp add: default_file_lines_def)
  then have "default_file \<noteq> []" "last default_file \<noteq> NUL" unfolding default_file_def by (rule ends_in_newline)+
  then have strip: "strip_nuls (default_file @ replicate n NUL) = default_file" by (rule strip_padding)
  have "list_all (\<lambda>l. NL \<notin> set l) default_file_lines" by code_simp
  then have "\<And>l. l \<in> set default_file_lines \<Longrightarrow> NL \<notin> set l" by (simp add: list_all_iff)
  then have l: "lines_of default_file = default_file_lines" unfolding default_file_def by (rule lines_of_concat)
  have "load_lines (enumerate 1 default_file_lines) ld_start
      = \<lparr>ld_theme = default_theme, ld_section = ''window'', ld_ok = True, ld_warnings = []\<rparr>" by code_simp
  then show ?thesis unfolding load_theme_eq numbered_def strip l by simp
qed

end
