(* ===== verification/Theme_Controller.thy ===== *)
theory Theme_Controller
  imports Theme_Props De_Common
begin

text \<open>
  \<open>sponge-de/theme/theme_controller.{h,cc}\<close>: the shell's reader of the theme ROM. The widgets are
  present or not; restyling one is an output. The properties of the application object are a map. A
  signal of the ROM only queues a call that the event loop makes later. A \<open>QString\<close> is the bytes it
  was made from. Log lines and the timer are left out.
\<close>

section \<open>State\<close>

datatype theme_widget = W_panel | W_main | W_launcher | W_tasklist

datatype theme_out =
    App_font string u32
  | Restyle theme_widget theme
  | Applied_report string
  | Theme_post string string string nat

record theme_ctl =
  tc_theme :: theme
  tc_attached :: "theme_widget \<Rightarrow> bool"
  tc_poster :: bool
  tc_live :: bool
  tc_live_applied :: bool
  tc_last_applied :: string
  tc_props :: "string \<Rightarrow> string option"
  tc_queue :: "(string \<times> string) list"
  tc_outputs :: "theme_out list"

definition tc_emit :: "theme_out list \<Rightarrow> theme_ctl \<Rightarrow> theme_ctl" where
  "tc_emit os s = s\<lparr>tc_outputs := tc_outputs s @ os\<rparr>"

definition config_asks_for_themed :: "'a genode_scheme \<Rightarrow> string option \<Rightarrow> bool" where
  "config_asks_for_themed G = source_gate G ''theme'' ''themed''"

section \<open>Reading\<close>

text \<open>
  The name and the text of the report; the text is read from the string of 8192 bytes by its
  \<open>length()\<close>, which counts the terminator.
\<close>

definition read_theme :: "'a str_genode_scheme \<Rightarrow> rom \<Rightarrow> (string \<times> string) option" where
  "read_theme G r =
     (case r of
        Rom_node x \<Rightarrow>
          (if \<not> has_type x ''theme'' then None
           else let name = cstr (attr_str 64 x ''name'');
                    c = gstr 8192 (content x);
                    ini = take (str_length G (Some c)) (c @ [NUL])
                in if name = [] then None else Some (name, ini))
      | _ \<Rightarrow> None)"

section \<open>Applying\<close>

text \<open>The colors the application object shows, in the order they are published.\<close>

definition palette :: "theme \<Rightarrow> (string \<times> u32) list" where
  "palette t = [(''theme_panel_bg'', th_panel_bg t), (''theme_panel_text'', th_panel_text t), (''theme_accent'', th_accent t),
     (''theme_separator'', th_separator t), (''theme_window_bg'', th_window_bg t), (''theme_title_text'', th_title_text t)]"

definition publish_color :: "string \<times> u32 \<Rightarrow> (string \<Rightarrow> string option) \<Rightarrow> string \<Rightarrow> string option" where
  "publish_color kc props =
     (let css = to_css (snd kc)
      in if (case props (fst kc) of None \<Rightarrow> [] | Some v \<Rightarrow> v) \<noteq> css then props(fst kc \<mapsto> css) else props)"

definition publish_palette :: "theme \<Rightarrow> theme_ctl \<Rightarrow> theme_ctl" where
  "publish_palette t s = s\<lparr>tc_props := fold publish_color (palette t) (tc_props s)\<rparr>"

definition restyles :: "theme_ctl \<Rightarrow> theme_out list" where
  "restyles s = map (\<lambda>w. Restyle w (tc_theme s)) (filter (tc_attached s) [W_panel, W_main, W_launcher, W_tasklist])"

definition apply_theme :: "string \<Rightarrow> string \<Rightarrow> theme_ctl \<Rightarrow> theme_ctl" where
  "apply_theme name ini s =
     (if name = [] \<or> name = tc_last_applied s then s
      else
        let s = s\<lparr>tc_theme := ld_theme (the (load_theme ini)), tc_last_applied := name\<rparr>;
            s = tc_emit [App_font (th_default_family (tc_theme s)) (th_default_size (tc_theme s))] s;
            s = publish_palette (tc_theme s) s;
            s = tc_emit (restyles s) s;
            s = tc_emit [Applied_report name] (s\<lparr>tc_live_applied := True\<rparr>)
        in if tc_poster s then tc_emit [Theme_post ''theme applied'' name ''info'' 5000] s else s)"

section \<open>Handlers\<close>

definition theme_on_rom :: "'a str_genode_scheme \<Rightarrow> rom \<Rightarrow> theme_ctl \<Rightarrow> theme_ctl" where
  "theme_on_rom G r s = (case read_theme G r of None \<Rightarrow> s | Some call \<Rightarrow> s\<lparr>tc_queue := tc_queue s @ [call]\<rparr>)"

definition theme_poll :: "'a str_genode_scheme \<Rightarrow> rom \<Rightarrow> theme_ctl \<Rightarrow> theme_ctl" where
  "theme_poll G r s = (case read_theme G r of None \<Rightarrow> s | Some (name, ini) \<Rightarrow> apply_theme name ini s)"

text \<open>The fallback: \<open>module\<close> is what \<open>default.theme\<close> yields, \<open>None\<close> when it is invalid or refused.\<close>

definition fallback_default_theme :: "string option \<Rightarrow> theme_ctl \<Rightarrow> theme_ctl" where
  "fallback_default_theme module s =
     (let s = (case module of
                 None \<Rightarrow> s
               | Some bytes \<Rightarrow> s\<lparr>tc_theme := ld_theme (the (load_theme bytes)), tc_last_applied := ''default''\<rparr>);
          props = fold (\<lambda>(k, c) p. p(k \<mapsto> to_css c)) (palette (tc_theme s)) (tc_props s)
      in tc_emit [Applied_report ''default''] (s\<lparr>tc_props := props\<rparr>))"

definition theme_ctl_new :: theme_ctl where
  "theme_ctl_new = \<lparr>tc_theme = default_theme, tc_attached = (\<lambda>w. False), tc_poster = False, tc_live = False,
     tc_live_applied = False, tc_last_applied = [], tc_props = (\<lambda>k. None), tc_queue = [], tc_outputs = []\<rparr>"

definition theme_ctl_construct :: "'a str_genode_scheme \<Rightarrow> string option \<Rightarrow> rom \<Rightarrow> string option \<Rightarrow> theme_ctl" where
  "theme_ctl_construct G config r module =
     (if config_asks_for_themed G config then theme_on_rom G r (theme_ctl_new\<lparr>tc_live := True\<rparr>)
      else fallback_default_theme module theme_ctl_new)"

datatype theme_event =
    Te_signal rom
  | Te_timer rom
  | Te_queued
  | Te_attach theme_widget
  | Te_attach_poster

text \<open>The timer runs in live mode only; the event loop makes the oldest queued call.\<close>

fun theme_step :: "'a str_genode_scheme \<Rightarrow> theme_event \<Rightarrow> theme_ctl \<Rightarrow> theme_ctl" where
  "theme_step G (Te_signal r) s = (if tc_live s then theme_on_rom G r s else s)"
| "theme_step G (Te_timer r) s = (if tc_live s then theme_poll G r s else s)"
| "theme_step G Te_queued s =
     (case tc_queue s of [] \<Rightarrow> s | (name, ini) # q \<Rightarrow> apply_theme name ini (s\<lparr>tc_queue := q\<rparr>))"
| "theme_step G (Te_attach w) s = s\<lparr>tc_attached := (tc_attached s)(w := True)\<rparr>"
| "theme_step G Te_attach_poster s = s\<lparr>tc_poster := True\<rparr>"

section \<open>What is shown\<close>

text \<open>The application shows the colors of the theme.\<close>

definition shows_palette :: "theme_ctl \<Rightarrow> bool" where
  "shows_palette s \<longleftrightarrow> list_all (\<lambda>(k, c). tc_props s k = Some (to_css c)) (palette (tc_theme s))"

lemma publish_color_sets: "publish_color (k, c) p k = Some (to_css c)"
proof -
  have "to_css c \<noteq> []" by (simp add: to_css_def Let_def)
  then show ?thesis by (cases "p k") (auto simp: publish_color_def Let_def)
qed

lemma publish_color_other: "k \<noteq> fst kc \<Longrightarrow> publish_color kc p k = p k"
  by (simp add: publish_color_def Let_def)

lemma fold_publish_other: "k \<notin> fst ` set kcs \<Longrightarrow> fold publish_color kcs p k = p k"
  by (induction kcs arbitrary: p) (simp_all add: publish_color_other)

lemma fold_publish_sets:
  "distinct (map fst kcs) \<Longrightarrow> list_all (\<lambda>(k, c). fold publish_color kcs p k = Some (to_css c)) kcs"
proof (induction kcs arbitrary: p)
  case (Cons kc kcs)
  obtain k c where kc: "kc = (k, c)" by fastforce
  have "fold publish_color kcs (publish_color kc p) k = Some (to_css c)"
    using Cons.prems by (simp add: fold_publish_other kc publish_color_sets)
  then show ?case using Cons by (simp add: kc)
qed simp

lemma shows_publish: "tc_theme s = t \<Longrightarrow> shows_palette (publish_palette t s)"
proof -
  have "distinct (map fst (palette t))" by (simp add: palette_def)
  from fold_publish_sets [OF this] show "tc_theme s = t \<Longrightarrow> shows_palette (publish_palette t s)"
    by (simp add: shows_palette_def publish_palette_def)
qed

text \<open>The names reported as applied.\<close>

definition applied_names :: "theme_ctl \<Rightarrow> string list" where
  "applied_names s = List.map_filter (\<lambda>o'. case o' of Applied_report n \<Rightarrow> Some n | _ \<Rightarrow> None) (tc_outputs s)"

lemma apply_theme_fields:
  fixes ini :: string
  assumes "name \<noteq> []" and "name \<noteq> tc_last_applied s"
  defines "t \<equiv> ld_theme (the (load_theme ini))"
  shows "tc_theme (apply_theme name ini s) = t" and "tc_last_applied (apply_theme name ini s) = name"
    and "tc_live_applied (apply_theme name ini s)" and "shows_palette (apply_theme name ini s)"
    and "applied_names (apply_theme name ini s) = applied_names s @ [name]"
    and "tc_queue (apply_theme name ini s) = tc_queue s"
    and "tc_live (apply_theme name ini s) = tc_live s"
    and "tc_outputs (apply_theme name ini s) = tc_outputs s @ App_font (th_default_family t) (th_default_size t)
      # map (\<lambda>w. Restyle w t) (filter (tc_attached s) [W_panel, W_main, W_launcher, W_tasklist])
      @ Applied_report name # (if tc_poster s then [Theme_post ''theme applied'' name ''info'' 5000] else [])"
proof -
  let ?u = "s\<lparr>tc_theme := t, tc_last_applied := name, tc_outputs := tc_outputs s @ [App_font (th_default_family t) (th_default_size t)]\<rparr>"
  have a: "apply_theme name ini s = (publish_palette t ?u)\<lparr>tc_live_applied := True,
      tc_outputs := tc_outputs s @ App_font (th_default_family t) (th_default_size t)
      # map (\<lambda>w. Restyle w t) (filter (tc_attached s) [W_panel, W_main, W_launcher, W_tasklist])
      @ Applied_report name # (if tc_poster s then [Theme_post ''theme applied'' name ''info'' 5000] else [])\<rparr>"
    using assms(1,2) by (simp add: apply_theme_def tc_emit_def Let_def publish_palette_def restyles_def t_def)
  have "shows_palette (publish_palette t ?u)" by (rule shows_publish) simp
  then show "shows_palette (apply_theme name ini s)" by (simp add: a shows_palette_def publish_palette_def)
  show "tc_theme (apply_theme name ini s) = t" "tc_last_applied (apply_theme name ini s) = name"
    "tc_live_applied (apply_theme name ini s)" "tc_queue (apply_theme name ini s) = tc_queue s"
    "tc_live (apply_theme name ini s) = tc_live s"
    "tc_outputs (apply_theme name ini s) = tc_outputs s @ App_font (th_default_family t) (th_default_size t)
      # map (\<lambda>w. Restyle w t) (filter (tc_attached s) [W_panel, W_main, W_launcher, W_tasklist])
      @ Applied_report name # (if tc_poster s then [Theme_post ''theme applied'' name ''info'' 5000] else [])"
    by (simp_all add: a publish_palette_def)
  show "applied_names (apply_theme name ini s) = applied_names s @ [name]"
    by (simp add: a applied_names_def publish_palette_def List.map_filter_def)
qed

lemma apply_theme_same: "name = [] \<or> name = tc_last_applied s \<Longrightarrow> apply_theme name ini s = s"
  by (simp add: apply_theme_def)

section \<open>The invariant\<close>

definition tc_inv :: "theme_ctl \<Rightarrow> bool" where
  "tc_inv s \<longleftrightarrow> theme_ok (tc_theme s) \<and> distinct_adj (applied_names s) \<and> [] \<notin> set (applied_names s)
     \<and> (applied_names s \<noteq> [] \<longrightarrow> shows_palette s)
     \<and> (if tc_live s
        then tc_last_applied s = (if applied_names s = [] then [] else last (applied_names s))
           \<and> (tc_live_applied s \<longleftrightarrow> applied_names s \<noteq> []) \<and> (applied_names s = [] \<longrightarrow> tc_theme s = default_theme)
        else applied_names s = [''default''] \<and> tc_queue s = [] \<and> \<not> tc_live_applied s)"

text \<open>The invariant depends on these fields alone.\<close>

lemma tc_inv_cong:
  "tc_theme s = tc_theme s' \<Longrightarrow> tc_outputs s = tc_outputs s' \<Longrightarrow> tc_props s = tc_props s' \<Longrightarrow> tc_live s = tc_live s'
    \<Longrightarrow> tc_last_applied s = tc_last_applied s' \<Longrightarrow> tc_live_applied s = tc_live_applied s'
    \<Longrightarrow> (tc_live s' \<or> tc_queue s = tc_queue s') \<Longrightarrow> tc_inv s = tc_inv s'"
  unfolding tc_inv_def applied_names_def shows_palette_def by auto

lemma loaded_ok: "theme_ok (ld_theme (the (load_theme ini)))"
  by (simp add: load_theme_eq load_lines_ok ld_start_def default_theme_ok)

lemma tc_inv_apply:
  assumes "tc_inv s" and "tc_live s"
  shows "tc_inv (apply_theme name ini s)"
proof (cases "name = [] \<or> name = tc_last_applied s")
  case True
  then show ?thesis using assms(1) by (simp add: apply_theme_same)
next
  case False
  then have n: "name \<noteq> []" "name \<noteq> tc_last_applied s" by simp_all
  note f = apply_theme_fields [OF n, of ini]
  have "distinct_adj (applied_names s @ [name])"
    using assms n by (auto simp: tc_inv_def distinct_adj_append_iff split: if_splits)
  then show ?thesis unfolding tc_inv_def f
    using assms n loaded_ok f(3,4) by (auto simp: tc_inv_def)
qed

lemma tc_inv_on_rom: "tc_live s \<Longrightarrow> tc_inv s \<Longrightarrow> tc_inv (theme_on_rom G r s)"
proof -
  assume "tc_live s" "tc_inv s"
  then have "tc_inv (s\<lparr>tc_queue := q\<rparr>)" for q using tc_inv_cong [of "s\<lparr>tc_queue := q\<rparr>" s] by simp
  then show ?thesis using \<open>tc_inv s\<close> by (simp add: theme_on_rom_def split: option.split)
qed

lemma tc_inv_construct: "tc_inv (theme_ctl_construct G config r module)"
proof -
  have "tc_inv (theme_ctl_new\<lparr>tc_live := True\<rparr>)"
    by (simp add: tc_inv_def theme_ctl_new_def applied_names_def List.map_filter_def default_theme_ok)
  then have live: "tc_inv (theme_on_rom G r (theme_ctl_new\<lparr>tc_live := True\<rparr>))"
    by (rule tc_inv_on_rom [rotated]) (simp add: theme_ctl_new_def)
  define s where "s = (case module of None \<Rightarrow> theme_ctl_new | Some bytes \<Rightarrow>
      theme_ctl_new\<lparr>tc_theme := ld_theme (the (load_theme bytes)), tc_last_applied := ''default''\<rparr>)"
  have s: "theme_ok (tc_theme s)" "tc_outputs s = []" "tc_queue s = []" "\<not> tc_live s" "\<not> tc_live_applied s"
    by (simp_all add: s_def theme_ctl_new_def default_theme_ok loaded_ok split: option.split)
  have f: "fallback_default_theme module theme_ctl_new
      = tc_emit [Applied_report ''default''] (s\<lparr>tc_props := fold (\<lambda>(k, c) p. p(k \<mapsto> to_css c)) (palette (tc_theme s)) (tc_props s)\<rparr>)"
    by (simp add: fallback_default_theme_def s_def Let_def)
  have "tc_inv (fallback_default_theme module theme_ctl_new)"
    using s unfolding f by (simp add: tc_inv_def applied_names_def tc_emit_def List.map_filter_def shows_palette_def palette_def)
  with live show ?thesis by (simp add: theme_ctl_construct_def)
qed

lemma tc_inv_step: "tc_inv s \<Longrightarrow> tc_inv (theme_step G e s)"
proof (cases e)
  case (Te_signal r)
  assume i: "tc_inv s"
  then show ?thesis using Te_signal by (simp add: tc_inv_on_rom)
next
  case (Te_timer r)
  assume "tc_inv s"
  then show ?thesis using Te_timer by (auto simp: theme_poll_def tc_inv_apply split: option.split)
next
  case Te_queued
  assume i: "tc_inv s"
  show ?thesis
  proof (cases "tc_queue s")
    case Nil
    then show ?thesis using Te_queued i by simp
  next
    case (Cons c q)
    then have l: "tc_live s" using i by (cases "tc_live s") (simp_all add: tc_inv_def)
    have "tc_inv (s\<lparr>tc_queue := q\<rparr>)" using i l tc_inv_cong [of "s\<lparr>tc_queue := q\<rparr>" s] by simp
    then show ?thesis using Te_queued Cons l by (cases c) (simp add: tc_inv_apply)
  qed
next
  case (Te_attach w)
  assume "tc_inv s"
  then show ?thesis using Te_attach tc_inv_cong [of "s\<lparr>tc_attached := (tc_attached s)(w := True)\<rparr>" s] by simp
next
  case Te_attach_poster
  assume "tc_inv s"
  then show ?thesis using Te_attach_poster tc_inv_cong [of "s\<lparr>tc_poster := True\<rparr>" s] by simp
qed

text \<open>The controller is a machine of the library.\<close>

interpretation theme_shell: machine "\<lambda>s. \<exists>config r module. s = theme_ctl_construct G config r module" "theme_step G" tc_inv
  for G :: "'a str_genode_scheme"
  by unfold_locales (auto simp: tc_inv_construct intro: tc_inv_step)

text \<open>
  C32: the shell shows what it reports. However signals, timers, queued calls and new widgets
  interleave, the theme is well formed, the name reported as applied never repeats the one before, and
  once a theme was reported the application shows the colors of the theme in force; in live mode the
  built-in theme stays until the first report.
\<close>

theorem theme_state_consistent:
  fixes G :: "'a str_genode_scheme" and es :: "theme_event list" and config module :: "string option" and r :: rom
  defines "s \<equiv> run (theme_step G) (theme_ctl_construct G config r module) es"
  shows "theme_ok (tc_theme s) \<and> distinct_adj (applied_names s)
    \<and> (if applied_names s = [] then tc_theme s = default_theme else shows_palette s)"
proof -
  have "tc_inv s" unfolding s_def by (rule theme_shell.reach_inv) blast
  then show ?thesis by (auto simp: tc_inv_def split: if_splits)
qed

text \<open>A theme file edited under its name is not applied again.\<close>

lemma same_name_not_reread:
  assumes "read_theme G r = Some (name, ini)" and "tc_last_applied s = name"
  shows "theme_poll G r s = s"
  using assms by (simp add: theme_poll_def apply_theme_same)

text \<open>The signal and the timer reach the same theme; whichever comes second changes nothing.\<close>

lemma signal_and_timer:
  assumes "read_theme G r = Some (name, ini)" and "tc_live s" and "tc_queue s = []" and "name \<noteq> tc_last_applied s"
  shows "run (theme_step G) s [Te_signal r, Te_timer r, Te_queued] = run (theme_step G) s [Te_timer r]"
    and "run (theme_step G) s [Te_signal r, Te_queued, Te_timer r] = run (theme_step G) s [Te_timer r]"
proof -
  have n: "name \<noteq> []" using assms(1) by (auto simp: read_theme_def Let_def split: rom.splits if_splits)
  let ?a = "apply_theme name ini (s\<lparr>tc_queue := [(name, ini)]\<rparr>)"
  have q: "apply_theme name ini (s\<lparr>tc_queue := q\<rparr>) = (apply_theme name ini s)\<lparr>tc_queue := q\<rparr>" for q
    by (simp add: apply_theme_def tc_emit_def Let_def publish_palette_def restyles_def)
  have qs: "tc_queue (apply_theme name ini s) = []" using apply_theme_fields(6) [OF n assms(4)] assms(3) by simp
  then have z: "(apply_theme name ini s)\<lparr>tc_queue := []\<rparr> = apply_theme name ini s" by simp
  have l: "tc_last_applied (apply_theme name ini s) = name" "tc_live (apply_theme name ini s)"
    using apply_theme_fields(2,7) [OF n assms(4)] assms(2) by simp_all
  show "run (theme_step G) s [Te_signal r, Te_timer r, Te_queued] = run (theme_step G) s [Te_timer r]"
    using assms(1-3) l z by (simp add: theme_on_rom_def theme_poll_def q apply_theme_same)
  have "run (theme_step G) s [Te_signal r, Te_queued, Te_timer r] = theme_step G (Te_timer r) (apply_theme name ini s)"
    using assms(1-3) by (simp add: theme_on_rom_def q z del: theme_step.simps(2))
  also have "\<dots> = apply_theme name ini s" using assms(1) l by (simp add: theme_poll_def apply_theme_same)
  also have "\<dots> = run (theme_step G) s [Te_timer r]" using assms(1,2) by (simp add: theme_poll_def)
  finally show "run (theme_step G) s [Te_signal r, Te_queued, Te_timer r] = run (theme_step G) s [Te_timer r]" .
qed

end
