(* ===== verification/Theme_System.thy ===== *)
theory Theme_System
  imports Themed Theme_Controller
begin

text \<open>
  A theme from the configuration to the screen: \<open>sponge_configd\<close> accepts the name, \<open>sponge_themed\<close>
  publishes the module, and the shell parses and applies it.
\<close>

section \<open>The report and its reader\<close>

lemma strip_nul_end: "strip_nuls (s @ [NUL]) = strip_nuls s"
  by (simp add: strip_nuls_def)

lemma load_terminated: "load_theme (s @ [NUL]) = load_theme s"
  by (simp add: load_theme_def strip_nul_end)

lemma load_stripped: "load_theme (strip_nuls s) = load_theme s"
proof -
  have "dropWhile p (dropWhile p xs) = dropWhile p xs" for p and xs :: string by (induction xs) simp_all
  then show ?thesis by (simp add: load_theme_def strip_nuls_def)
qed

text \<open>What the shell reads from a report of the theme daemon.\<close>

lemma read_report:
  assumes "counts_nul G" and "v \<noteq> []" and "length v < 64" and "NUL \<notin> set v" and "length c < 8192"
  shows "read_theme G (Rom_node (theme_report v c)) = Some (v, c @ [NUL])"
  using assms by (simp add: read_theme_def theme_report_def attr_str_def counts_nul_def)

text \<open>
  C9: choosing a theme changes what is on the screen. When the configuration daemon accepts a
  write of \<open>theme.active\<close>, the module of that name has content of less than 8192 bytes, and neither
  the theme daemon, which is not asleep, nor the shell are at that theme already, then the one broadcast makes the theme
  daemon publish one report, and the shell's next look at it puts the theme parsed from the bytes of
  the module in force, restyles every attached widget with it, and reports the name.
\<close>

theorem chosen_theme_reaches_screen:
  assumes "lengths.good s" and "writable s ''theme.active''" and "length v < 64" and "v \<noteq> []" and "NUL \<notin> set v"
    and "value_valid G (key_def_of ''theme.active'') v = None"
    and "\<not> cfg_blocked (do_set G ''theme.active'' v io roms s)"
    and "mods (gstr 96 (v @ ''.theme'')) = Module_bytes bytes" and "strip_nuls bytes \<noteq> []" and "length (strip_nuls bytes) < 8192"
    and "published_name t \<noteq> v" and "counts_nul H" and "tc_live d" and "tc_last_applied d \<noteq> v"
    and "\<not> themed_asleep t"
  shows "\<exists>pre x post rep. cfg_out (do_set G ''theme.active'' v io roms s) = cfg_out s @ pre @ Broadcast x # post
    \<and> (\<forall>o' y. o' \<in> set (pre @ post) \<longrightarrow> o' \<noteq> Broadcast y)
    \<and> theme_out (themed_handle_config mods (Rom_node x) t) = theme_out t @ [rep]
    \<and> (let d' = theme_step H (Te_timer (Rom_node rep)) d; th = ld_theme (the (load_theme bytes))
       in tc_theme d' = th \<and> shows_palette d' \<and> applied_names d' = applied_names d @ [v]
        \<and> (\<forall>w. tc_attached d w \<longrightarrow> Restyle w th \<in> set (tc_outputs d')))"
proof -
  have b: "''theme.active'' \<notin> bake_keys" and v: "length v < 128" using assms(3) by simp_all
  obtain pre x post where o: "cfg_out (do_set G ''theme.active'' v io roms s) = cfg_out s @ pre @ Broadcast x # post"
    "\<And>o'. o' \<in> set (pre @ post) \<Longrightarrow> \<forall>y. o' \<noteq> Broadcast y"
    "\<And>k w. length k < 64 \<Longrightarrow> ((cfg_lookup s)(''theme.active'' \<mapsto> v)) k = Some w
       \<Longrightarrow> first_key x k = Some (key_node k w)"
    using accepted_set_broadcast [OF assms(1) b assms(2) v assms(6,7)] by blast
  have fk: "first_key x ''theme.active'' = Some (key_node ''theme.active'' v)" by (rule o(3)) simp_all
  let ?c = "strip_nuls bytes" and ?th = "ld_theme (the (load_theme bytes))"
  let ?rep = "theme_report v ?c"
  have "theme_content mods v = Some ?c" using assms(8,9) by (simp add: theme_content_def)
  then have t: "theme_out (themed_handle_config mods (Rom_node x) t) = theme_out t @ [?rep]"
    using handle_config_view [where roms = mods and t = t, OF fk assms(3,15)] assms(8,11) by simp
  have r: "read_theme H (Rom_node ?rep) = Some (v, ?c @ [NUL])"
    by (rule read_report [OF assms(12,4,3,5,10)])
  have d: "theme_step H (Te_timer (Rom_node ?rep)) d = apply_theme v (?c @ [NUL]) d"
    using assms(13) by (simp add: theme_poll_def r)
  have nv: "v \<noteq> tc_last_applied d" using assms(14) by simp
  note f = apply_theme_fields [OF assms(4) nv, of "?c @ [NUL]", unfolded load_terminated load_stripped]
  have "Restyle w ?th \<in> set (tc_outputs (apply_theme v (?c @ [NUL]) d))" if "tc_attached d w" for w
    unfolding f(8) using that by (cases w) simp_all
  then have w: "\<forall>w. tc_attached d w \<longrightarrow> Restyle w ?th \<in> set (tc_outputs (apply_theme v (?c @ [NUL]) d))" by blast
  have "\<forall>o' y. o' \<in> set (pre @ post) \<longrightarrow> o' \<noteq> Broadcast y" using o(2) by blast
  then show ?thesis using o(1) t w f(1,4,5) d unfolding Let_def by metis
qed

text \<open>A theme module, with the padding of a dataspace, for the concrete run.\<close>

definition night_rom :: "string \<Rightarrow> rom_module" where
  "night_rom n = (if n = ''night.theme'' then Module_bytes (theme_text (default_theme\<lparr>th_panel_bg := 0x101010\<rparr>) @ [NUL, NUL])
     else Module_failed)"

definition shell_genode :: str_genode where
  "shell_genode = genode.extend bare_genode \<lparr>str_length = (\<lambda>s. case s of None \<Rightarrow> 0 | Some v \<Rightarrow> Suc (length v))\<rparr>"

lemma night_ok: "theme_ok (default_theme\<lparr>th_panel_bg := 0x101010\<rparr>)" "NL \<notin> set (th_default_family (default_theme\<lparr>th_panel_bg := 0x101010\<rparr>))"
  by (simp_all add: theme_ok_def default_theme_def family_ok_def)

lemma night_text:
  "load_theme (theme_text (default_theme\<lparr>th_panel_bg := 0x101010\<rparr>) @ [NUL, NUL])
     = Some \<lparr>ld_theme = default_theme\<lparr>th_panel_bg := 0x101010\<rparr>, ld_section = ''window'', ld_ok = True, ld_warnings = []\<rparr>"
  "strip_nuls (theme_text (default_theme\<lparr>th_panel_bg := 0x101010\<rparr>) @ [NUL, NUL])
     = theme_text (default_theme\<lparr>th_panel_bg := 0x101010\<rparr>)"
  "theme_text (default_theme\<lparr>th_panel_bg := 0x101010\<rparr>) \<noteq> []"
proof -
  let ?t = "default_theme\<lparr>th_panel_bg := 0x101010\<rparr>"
  show "load_theme (theme_text ?t @ [NUL, NUL])
     = Some \<lparr>ld_theme = ?t, ld_section = ''window'', ld_ok = True, ld_warnings = []\<rparr>"
    using load_theme_text [OF night_ok, of 2] by (simp add: numeral_2_eq_2)
  have "theme_lines ?t \<noteq> []" by (simp add: theme_lines_def)
  then have n: "theme_text ?t \<noteq> []" "last (theme_text ?t) \<noteq> NUL" unfolding theme_text_def by (rule ends_in_newline)+
  then show "strip_nuls (theme_text ?t @ [NUL, NUL]) = theme_text ?t" "theme_text ?t \<noteq> []"
    using strip_padding [OF n, of 2] by (simp_all add: numeral_2_eq_2)
qed

text \<open>A written theme always fits the shell's string.\<close>

lemma length_to_css: "unat c < 2 ^ 24 \<Longrightarrow> length (to_css c) = 7"
proof -
  assume "unat c < 2 ^ 24"
  then have "length (hex_digits (unat c)) \<le> 6" by (intro length_hex_digits) simp_all
  then show ?thesis by (simp add: to_css_def Let_def)
qed

lemma length_theme_text:
  assumes "theme_ok t"
  shows "length (theme_text t) < 8192"
proof -
  have u: "length (uint_setting k n) \<le> length k + 13" for k n
    using length_decimal_u32 [of n] by (simp add: uint_setting_def setting_def)
  have p: "length (position_name (th_panel_position t)) \<le> 6"
    by (cases "th_panel_position t") (simp_all add: position_name_def)
  have b: "length l \<le> 100" if "l \<in> set (theme_lines t)" for l
  proof -
    have "list_all (\<lambda>l. length l \<le> 100) (theme_lines t)"
      unfolding theme_lines_def list.pred_inject
      using assms p by (auto simp: theme_ok_def family_ok_def length_to_css setting_def intro!: order_trans [OF u])
    then show ?thesis using that by (simp add: list_all_iff)
  qed
  have "length (concat (map (\<lambda>l. l @ [NL]) ls)) \<le> 101 * length ls" if "\<forall>l \<in> set ls. length l \<le> 100" for ls
    using that by (induction ls) auto
  then have "length (theme_text t) \<le> 101 * length (theme_lines t)" unfolding theme_text_def using b by blast
  also have "length (theme_lines t) = 34" by (simp add: theme_lines_def)
  finally show ?thesis by simp
qed

lemmas night_length = length_theme_text [OF night_ok(1)]

theorem chosen_theme_reaches_screen_witness:
  "\<exists>x rep. Broadcast x \<in> set (cfg_out (do_set bare_genode ''theme.active'' ''night'' (ce_save quiet_env) None fresh_cfg))
    \<and> theme_out (themed_handle_config night_rom (Rom_node x) \<lparr>published_name = ''default'', theme_out = [], themed_asleep = False\<rparr>) = [rep]
    \<and> th_panel_bg (tc_theme (theme_step shell_genode (Te_timer (Rom_node rep)) (theme_ctl_new\<lparr>tc_live := True\<rparr>))) = 0x101010"
proof -
  have k: "find_key ''theme.active'' = Some 13" by code_simp
  have i: "instantiated fresh_cfg = []" "store_enabled fresh_cfg = False" "cfg_blocked fresh_cfg = False"
    by (simp_all add: fresh_cfg_def fill_defaults_def cfg_init_def)
  have w: "writable fresh_cfg ''theme.active''" by (simp add: writable_def k i)
  have v: "value_valid bare_genode (key_def_of ''theme.active'') ''night'' = None"
    by (simp add: key_def_of_def k value_valid_def registry_def)
  obtain s1 where "do_set bare_genode ''theme.active'' ''night'' (ce_save quiet_env) None fresh_cfg
      = publish_set ''theme.active'' ''night'' (ce_save quiet_env) s1"
    and "store_enabled s1 = store_enabled fresh_cfg" and "cfg_blocked s1 = cfg_blocked fresh_cfg"
    using set_accepted [OF fresh_cfg_good _ w _ v, of "ce_save quiet_env" None] by auto
  then have nb: "\<not> cfg_blocked (do_set bare_genode ''theme.active'' ''night'' (ce_save quiet_env) None fresh_cfg)"
    using i by (simp add: publish_set_def unless_blocked_def save_store_def report_defs)
  let ?bytes = "theme_text (default_theme\<lparr>th_panel_bg := 0x101010\<rparr>) @ [NUL, NUL]"
  have m: "night_rom (gstr 96 (''night'' @ ''.theme'')) = Module_bytes ?bytes" by (simp add: night_rom_def)
  have h: "counts_nul shell_genode" by (simp add: counts_nul_def shell_genode_def genode.defs bare_genode_def)
  have side: "length ''night'' < 64" "''night'' \<noteq> []" "NUL \<notin> set ''night''" by simp_all
  have strip: "strip_nuls ?bytes \<noteq> []" "length (strip_nuls ?bytes) < 8192"
    unfolding night_text(2) by (rule night_text(3), rule night_length)
  let ?t = "\<lparr>published_name = ''default'', theme_out = [], themed_asleep = False\<rparr>" and ?d = "theme_ctl_new\<lparr>tc_live := True\<rparr>"
  have new: "published_name ?t \<noteq> ''night''" "tc_live ?d" "tc_last_applied ?d \<noteq> ''night''" "\<not> themed_asleep ?t"
    by (simp_all add: theme_ctl_new_def)
  obtain pre x post rep where o: "cfg_out (do_set bare_genode ''theme.active'' ''night'' (ce_save quiet_env) None fresh_cfg)
      = cfg_out fresh_cfg @ pre @ Broadcast x # post"
    and t: "theme_out (themed_handle_config night_rom (Rom_node x) ?t) = theme_out ?t @ [rep]"
    and d: "tc_theme (theme_step shell_genode (Te_timer (Rom_node rep)) ?d) = ld_theme (the (load_theme ?bytes))"
    using chosen_theme_reaches_screen [where v = "''night''" and mods = night_rom and bytes = ?bytes and t = ?t and d = ?d
        and G = bare_genode and H = shell_genode and s = fresh_cfg and io = "ce_save quiet_env" and roms = None,
        OF fresh_cfg_good w side v nb m strip new(1) h new(2,3,4)]
    unfolding Let_def by blast
  have "th_panel_bg (tc_theme (theme_step shell_genode (Te_timer (Rom_node rep)) (theme_ctl_new\<lparr>tc_live := True\<rparr>))) = 0x101010"
    unfolding d night_text(1) by simp
  then show ?thesis using o t by (intro exI [of _ x] exI [of _ rep]) simp
qed

end
