(* ===== verification/Launcher.thy ===== *)
theory Launcher
  imports De_Common
begin

text \<open>
  \<open>sponge-de/launcher/launcher_controller.{h,cc}\<close>: the list of applications of the shell and the
  click that starts one. An attached ROM keeps what it delivered at the last \<open>update()\<close>, or when it was
  opened. A call the event loop was asked to make later is counted (\<open>la_timers\<close>). The view is absent,
  hidden or visible. A \<open>QString\<close> is the bytes it was made from; log lines and the timer are left out.
\<close>

section \<open>State\<close>

record app =
  app_name :: string
  app_category :: string
  app_binary :: string
  app_description :: string
  app_running :: bool

abbreviation MAX_APPS :: nat where "MAX_APPS \<equiv> 32"
abbreviation LAUNCH_POLL_MAX :: nat where "LAUNCH_POLL_MAX \<equiv> 60"
abbreviation LAUNCH_CHANNEL_RETRY_MS :: u64 where "LAUNCH_CHANNEL_RETRY_MS \<equiv> 5000"

datatype launcher_out =
    Launcher_report xml
  | State_report xml
  | Launch_request xml
  | Launch_problem string string
  | Apps_changed
  | Repopulate
  | Launcher_post string string string nat

record launcher =
  la_wired :: bool
  la_state_enabled :: bool
  la_state_open :: bool
  la_apps :: "app list"
  la_config_writes :: u32
  la_live_seen :: bool
  la_prev_names :: "string set"
  la_sig :: string
  la_request_open :: bool
  la_result_open :: bool
  la_result :: rom
  la_failed :: bool
  la_attempt_ms :: u64
  la_pending :: string
  la_count :: nat
  la_timers :: nat
  la_view :: "bool option"
  la_notify :: bool
  la_out :: "launcher_out list"

definition la_emit :: "launcher_out list \<Rightarrow> launcher \<Rightarrow> launcher" where
  "la_emit os s = s\<lparr>la_out := la_out s @ os\<rparr>"

definition config_asks_for_pkgd :: "'a genode_scheme \<Rightarrow> string option \<Rightarrow> bool" where
  "config_asks_for_pkgd G = source_gate G ''launcher'' ''pkgd''"

definition config_asks_for_state_report :: "'a genode_scheme \<Rightarrow> string option \<Rightarrow> bool" where
  "config_asks_for_state_report G = source_gate G ''launcher_state'' ''report''"

section \<open>The list of applications\<close>

definition app_node :: "app \<Rightarrow> xml" where
  "app_node a = leaf ''app'' [(''name'', app_name a), (''category'', app_category a), (''binary'', app_binary a),
     (''running'', if app_running a then ''yes'' else ''no'')]"

definition publish_report :: "'a genode_scheme \<Rightarrow> launcher \<Rightarrow> launcher" where
  "publish_report G s = la_emit [Launcher_report
     (node ''launcher'' [(''count'', print_nat G (length (la_apps s)))] (map app_node (la_apps s)))] s"

definition read_app :: "xml \<Rightarrow> app option" where
  "read_app p =
     (let category = attr_str 64 p ''category'' in
      if category = [] then None
      else Some \<lparr>app_name = attr_str 64 p ''name'', app_category = category, app_binary = attr_str 64 p ''binary'',
             app_description = attr_str 256 p ''description'',
             app_running = ((case attr p ''running'' of None \<Rightarrow> ''no'' | Some v \<Rightarrow> gstr 8 v) = ''yes'')\<rparr>)"

definition parse_app :: "xml \<Rightarrow> app list \<Rightarrow> app list" where
  "parse_app p parsed =
     (if MAX_APPS \<le> length parsed then parsed
      else case read_app p of None \<Rightarrow> parsed | Some a \<Rightarrow> parsed @ [a])"

definition parse_apps :: "xml \<Rightarrow> app list" where
  "parse_apps root =
     (case kids_of_type root ''packages'' of
        [] \<Rightarrow> []
      | pkgs # _ \<Rightarrow> fold parse_app (kids_of_type pkgs ''package'') [])"

definition app_sig :: "app \<Rightarrow> string" where
  "app_sig a = app_name a @ ''|'' @ app_category a @ ''|'' @ (if app_running a then ''1'' else ''0'') @ '';''"

definition signature_of :: "app list \<Rightarrow> string" where
  "signature_of as = concat (map app_sig as)"

text \<open>The applications that were not there before are announced.\<close>

definition notify_new :: "app list \<Rightarrow> launcher \<Rightarrow> launcher" where
  "notify_new parsed s =
     (if \<not> la_notify s then s
      else (la_emit (map (\<lambda>a. Launcher_post ''package installed'' (app_name a) ''info'' 5000)
             (filter (\<lambda>a. app_name a \<notin> la_prev_names s) parsed)) s)
           \<lparr>la_prev_names := app_name ` set parsed\<rparr>)"

definition try_parse :: "xml \<Rightarrow> launcher \<Rightarrow> bool \<times> launcher" where
  "try_parse root s =
     (if \<not> has_type root ''installed'' then (False, s)
      else
        let parsed = parse_apps root; sig = signature_of parsed in
        if sig = la_sig s then (False, s)
        else (True, la_emit [Apps_changed] (notify_new parsed
               (s\<lparr>la_apps := parsed, la_sig := sig, la_live_seen := True\<rparr>))))"

definition read_and_parse :: "genode \<Rightarrow> rom \<Rightarrow> launcher \<Rightarrow> bool \<times> launcher" where
  "read_and_parse G r s =
     (case r of
        Rom_invalid \<Rightarrow> (False, s)
      | Rom_malformed \<Rightarrow> (False, s)
      | Rom_node root \<Rightarrow> try_parse root (s\<lparr>la_config_writes := attr_u32 G root ''config_writes'' 0\<rparr>))"

definition launcher_poll :: "genode \<Rightarrow> rom \<Rightarrow> launcher \<Rightarrow> launcher" where
  "launcher_poll G r s =
     (if \<not> la_wired s then s
      else let (changed, s) = read_and_parse G r s in if changed then publish_report G s else s)"

section \<open>Starting a package\<close>

text \<open>
  What opening the two sessions yields: whether the request channel opens, and the content of the
  result ROM, \<open>None\<close> when it is refused.
\<close>

type_synonym channels = "bool \<times> rom option"

definition open_channels :: "channels \<Rightarrow> launcher \<Rightarrow> launcher" where
  "open_channels ch s =
     (let s = (if la_request_open s then s else s\<lparr>la_request_open := fst ch\<rparr>)
      in if \<not> la_request_open s then s
         else if la_result_open s then s
         else case snd ch of None \<Rightarrow> s | Some r \<Rightarrow> s\<lparr>la_result_open := True, la_result := r\<rparr>)"

definition open_launch_channels :: "u64 \<Rightarrow> channels \<Rightarrow> launcher \<Rightarrow> bool \<times> launcher" where
  "open_launch_channels now ch s =
     (if la_request_open s \<and> la_result_open s then (True, s)
      else if la_failed s \<and> 0 < sint (LAUNCH_CHANNEL_RETRY_MS - (now - la_attempt_ms s)) then (False, s)
      else
        let s = open_channels ch (s\<lparr>la_attempt_ms := now\<rparr>) in
        if \<not> la_request_open s \<or> \<not> la_result_open s
        then (False, la_emit [Launch_problem [] ''package manager unreachable''] (s\<lparr>la_failed := True\<rparr>))
        else (True, s\<lparr>la_failed := False\<rparr>))"

definition launch_request :: "string \<Rightarrow> xml" where
  "launch_request pkg = leaf ''request'' [(''op'', ''launch''), (''pkg'', pkg)]"

definition request_launch :: "string \<Rightarrow> u64 \<Rightarrow> channels \<Rightarrow> launcher \<Rightarrow> launcher" where
  "request_launch name now ch s =
     (case open_launch_channels now ch s of
        (False, s) \<Rightarrow> s
      | (True, s) \<Rightarrow> la_emit [Launch_request (launch_request name)]
          (s\<lparr>la_pending := name, la_count := 0, la_timers := la_timers s + 1\<rparr>))"

definition is_launch_answer :: "string \<Rightarrow> rom \<Rightarrow> bool" where
  "is_launch_answer pkg r \<longleftrightarrow>
     (case r of
        Rom_node x \<Rightarrow> has_type x ''result'' \<and> attr_str 32 x ''op'' = ''launch'' \<and> attr_str 128 x ''pkg'' = gstr 128 pkg
      | _ \<Rightarrow> False)"

definition answer_field :: "rom \<Rightarrow> string \<Rightarrow> string" where
  "answer_field r k =
     (case r of Rom_node x \<Rightarrow> (case attr x k of None \<Rightarrow> ''?'' | Some v \<Rightarrow> gstr 32 v) | _ \<Rightarrow> ''?'')"

definition NO_LAUNCH_ANSWER :: string where
  "NO_LAUNCH_ANSWER = ''no answer from the package manager''"

text \<open>What the user is told about an answer; nothing about a plain success.\<close>

definition launch_outcome :: "string \<Rightarrow> rom \<Rightarrow> launcher_out list" where
  "launch_outcome pkg r =
     (let st = (case r of Rom_node x \<Rightarrow> attr_str 32 x ''status'' | _ \<Rightarrow> []) in
      if st = ''ok'' then []
      else [Launch_problem pkg
        (if st = ''not-installed'' then ''not installed''
         else if st = ''binary-missing'' then ''no runnable binary in the package''
         else if st = ''already-running'' then ''already running''
         else if st = ''insufficient-resources'' then
           ''not enough free memory or capabilities (needs '' @ answer_field r ''need_ram'' @ '' RAM / ''
           @ answer_field r ''need_caps'' @ '' caps, '' @ answer_field r ''avail_ram'' @ '' RAM / ''
           @ answer_field r ''avail_caps'' @ '' caps free)''
         else st)])"

text \<open>A look without an answer: give up at the sixtieth, or ask for another call.\<close>

definition launch_retry :: "launcher \<Rightarrow> launcher" where
  "launch_retry s =
     (let s = s\<lparr>la_count := la_count s + 1\<rparr>
      in if LAUNCH_POLL_MAX \<le> la_count s
         then (la_emit [Launch_problem (la_pending s) NO_LAUNCH_ANSWER] s)\<lparr>la_pending := []\<rparr>
         else s\<lparr>la_timers := la_timers s + 1\<rparr>)"

definition poll_launch_result :: "rom \<Rightarrow> launcher \<Rightarrow> launcher" where
  "poll_launch_result now s =
     (if la_pending s = [] then s
      else if \<not> la_result_open s \<or> la_result s = Rom_invalid then launch_retry s
      else
        let s = s\<lparr>la_result := now\<rparr> in
        if is_launch_answer (la_pending s) now
        then (la_emit (launch_outcome (la_pending s) now) s)\<lparr>la_pending := [], la_count := 0\<rparr>
        else launch_retry s)"

section \<open>The popup\<close>

definition publish_state :: "bool \<Rightarrow> bool \<Rightarrow> launcher \<Rightarrow> launcher" where
  "publish_state opens open s =
     (if \<not> la_state_enabled s then s
      else let s = s\<lparr>la_state_open := la_state_open s \<or> opens\<rparr>
           in if \<not> la_state_open s then s
              else la_emit [State_report (leaf ''launcher_state'' [(''open'', if open then ''yes'' else ''no'')])] s)"

definition close_popup :: "bool \<Rightarrow> launcher \<Rightarrow> launcher" where
  "close_popup opens s = (if la_view s = Some True then publish_state opens False (s\<lparr>la_view := Some False\<rparr>) else s)"

definition toggle_launcher :: "bool \<Rightarrow> launcher \<Rightarrow> launcher" where
  "toggle_launcher opens s =
     (case la_view s of
        None \<Rightarrow> s
      | Some True \<Rightarrow> publish_state opens False (s\<lparr>la_view := Some False\<rparr>)
      | Some False \<Rightarrow> publish_state opens True (la_emit [Repopulate] (s\<lparr>la_view := Some True\<rparr>)))"

definition attach_view :: "bool \<Rightarrow> bool \<Rightarrow> launcher \<Rightarrow> launcher" where
  "attach_view opens visible s = publish_state opens False (s\<lparr>la_view := Some visible\<rparr>)"

definition launcher_construct :: "genode \<Rightarrow> string option \<Rightarrow> launcher" where
  "launcher_construct G config =
     (let s = publish_report G \<lparr>la_wired = False, la_state_enabled = False, la_state_open = False, la_apps = [],
        la_config_writes = - 1, la_live_seen = False, la_prev_names = {}, la_sig = [], la_request_open = False,
        la_result_open = False, la_result = Rom_invalid, la_failed = False, la_attempt_ms = 0, la_pending = [],
        la_count = 0, la_timers = 0, la_view = None, la_notify = False, la_out = []\<rparr>
      in s\<lparr>la_state_enabled := config_asks_for_state_report G config, la_wired := config_asks_for_pkgd G config\<rparr>)"

datatype launcher_event =
    La_poll rom
  | La_click string u64 channels
  | La_tick rom
  | La_toggle bool
  | La_close bool
  | La_view bool bool
  | La_notifier

fun launcher_step :: "genode \<Rightarrow> launcher_event \<Rightarrow> launcher \<Rightarrow> launcher" where
  "launcher_step G (La_poll r) s = launcher_poll G r s"
| "launcher_step G (La_click name now ch) s = request_launch name now ch s"
| "launcher_step G (La_tick r) s =
     (if la_timers s = 0 then s else poll_launch_result r (s\<lparr>la_timers := la_timers s - 1\<rparr>))"
| "launcher_step G (La_toggle opens) s = toggle_launcher opens s"
| "launcher_step G (La_close opens) s = close_popup opens s"
| "launcher_step G (La_view opens visible) s = attach_view opens visible s"
| "launcher_step G La_notifier s = s\<lparr>la_notify := True\<rparr>"

end
