(* ===== verification/Launcher_Props.thy ===== *)
theory Launcher_Props
  imports Launcher
begin

text \<open>
  What becomes of a click on an application, and what the signature of the list tells apart.
\<close>

section \<open>Waiting for the answer\<close>

definition waiting :: "string \<Rightarrow> nat \<Rightarrow> launcher \<Rightarrow> bool" where
  "waiting pkg n s \<longleftrightarrow> la_pending s = pkg \<and> pkg \<noteq> [] \<and> la_count s = n \<and> n < LAUNCH_POLL_MAX \<and> la_timers s = 1
     \<and> la_result_open s"

text \<open>The answers that are looked at: none once the attached ROM is invalid, since it is then never updated.\<close>

definition looked :: "rom \<Rightarrow> nat \<Rightarrow> rom list \<Rightarrow> rom list" where
  "looked r k cs = (if r = Rom_invalid then [] else takeWhile (\<lambda>c. c \<noteq> Rom_invalid) (take k cs))"

lemma ticks_idle: "la_timers s = 0 \<Longrightarrow> run (launcher_step G) s (map La_tick cs) = s"
  by (induction cs) simp_all

lemma retry_last:
  "waiting pkg n s \<Longrightarrow> n + 1 = LAUNCH_POLL_MAX
    \<Longrightarrow> launch_retry (s\<lparr>la_timers := 0\<rparr>) = s\<lparr>la_timers := 0, la_count := n + 1, la_pending := [],
          la_out := la_out s @ [Launch_problem pkg NO_LAUNCH_ANSWER]\<rparr>"
  by (simp add: launch_retry_def waiting_def la_emit_def Let_def)

lemma retry_again:
  "waiting pkg n s \<Longrightarrow> n + 1 < LAUNCH_POLL_MAX \<Longrightarrow> launch_retry (s\<lparr>la_timers := 0\<rparr>) = s\<lparr>la_timers := 1, la_count := n + 1\<rparr>"
  by (simp add: launch_retry_def waiting_def Let_def)

text \<open>A look that finds no answer: the sixtieth ends the wait, any other goes on.\<close>

lemma retry_run:
  assumes w: "waiting pkg n s" and "LAUNCH_POLL_MAX - n \<le> Suc (length cs)"
    and IH: "waiting pkg (n + 1) (s\<lparr>la_timers := 1, la_count := n + 1\<rparr>) \<Longrightarrow> LAUNCH_POLL_MAX - (n + 1) \<le> length cs \<Longrightarrow> Q
      (run (launcher_step G) (s\<lparr>la_timers := 1, la_count := n + 1\<rparr>) (map La_tick cs))"
    and stop: "n + 1 = LAUNCH_POLL_MAX \<Longrightarrow> Q (s\<lparr>la_timers := 0, la_count := n + 1, la_pending := [],
          la_out := la_out s @ [Launch_problem pkg NO_LAUNCH_ANSWER]\<rparr>)"
  shows "Q (run (launcher_step G) (launch_retry (s\<lparr>la_timers := 0\<rparr>)) (map La_tick cs))"
proof (cases "n + 1 = LAUNCH_POLL_MAX")
  case True
  then show ?thesis using stop by (simp add: retry_last [OF w] ticks_idle)
next
  case False
  then have n: "n + 1 < LAUNCH_POLL_MAX" using w by (simp add: waiting_def)
  have "waiting pkg (n + 1) (s\<lparr>la_timers := 1, la_count := n + 1\<rparr>)" using w n by (simp add: waiting_def)
  then show ?thesis using IH assms(2) by (simp add: retry_again [OF w n])
qed

lemma ticks_answer:
  fixes G :: genode
  assumes "waiting pkg n s" and "LAUNCH_POLL_MAX - n \<le> length cs"
  defines "s' \<equiv> run (launcher_step G) s (map La_tick cs)"
  shows "la_pending s' = [] \<and> la_timers s' = 0
    \<and> la_out s' = la_out s @ (case find (is_launch_answer pkg) (looked (la_result s) (LAUNCH_POLL_MAX - n) cs) of
        None \<Rightarrow> [Launch_problem pkg NO_LAUNCH_ANSWER] | Some r \<Rightarrow> launch_outcome pkg r)"
  using assms(1,2) unfolding s'_def
proof (induction cs arbitrary: s n)
  case Nil
  then show ?case by (simp add: waiting_def)
next
  case (Cons c cs)
  note w = Cons.prems(1)
  have p: "la_pending s = pkg" "pkg \<noteq> []" "la_timers s = 1" "la_result_open s" using w by (simp_all add: waiting_def)
  obtain k where k: "LAUNCH_POLL_MAX - n = Suc k" "LAUNCH_POLL_MAX - (n + 1) = k" using w by (cases "LAUNCH_POLL_MAX - n") (auto simp: waiting_def)
  have len: "LAUNCH_POLL_MAX - n \<le> Suc (length cs)" using Cons.prems(2) by simp
  show ?case
  proof (cases "la_result s = Rom_invalid")
    case True
    have "run (launcher_step G) s (map La_tick (c # cs)) = run (launcher_step G) (launch_retry (s\<lparr>la_timers := 0\<rparr>)) (map La_tick cs)"
      using p True by (simp add: poll_launch_result_def)
    then show ?thesis using Cons.IH True
      by (simp add: looked_def) (rule retry_run [OF w len], simp_all add: looked_def)
  next
    case False
    let ?u = "s\<lparr>la_result := c\<rparr>"
    have wu: "waiting pkg n ?u" using w by (simp add: waiting_def)
    show ?thesis
    proof (cases "is_launch_answer pkg c")
      case True
      then have c: "c \<noteq> Rom_invalid" by (auto simp: is_launch_answer_def)
      have "launcher_step G (La_tick c) s = (la_emit (launch_outcome pkg c) (?u\<lparr>la_timers := 0\<rparr>))\<lparr>la_pending := [], la_count := 0\<rparr>"
        using p False True by (simp add: poll_launch_result_def la_emit_def Let_def)
      then show ?thesis using False True c k by (simp add: ticks_idle la_emit_def looked_def)
    next
      case noans: False
      have "run (launcher_step G) s (map La_tick (c # cs)) = run (launcher_step G) (launch_retry (?u\<lparr>la_timers := 0\<rparr>)) (map La_tick cs)"
      proof -
        have "launcher_step G (La_tick c) s = launch_retry (s\<lparr>la_timers := 0, la_result := c\<rparr>)"
          using p False noans by (simp add: poll_launch_result_def Let_def)
        moreover have swap: "s\<lparr>la_timers := 0, la_result := c\<rparr> = ?u\<lparr>la_timers := 0\<rparr>" by simp
        ultimately show ?thesis by (simp only: list.map run_simps swap)
      qed
      moreover have "find (is_launch_answer pkg) (looked (la_result s) (LAUNCH_POLL_MAX - n) (c # cs))
          = find (is_launch_answer pkg) (looked c (LAUNCH_POLL_MAX - (n + 1)) cs)"
        using False noans k by (simp add: looked_def)
      moreover have "la_pending x = [] \<and> la_timers x = 0 \<and> la_out x = la_out s @
          (case find (is_launch_answer pkg) (looked c (LAUNCH_POLL_MAX - (n + 1)) cs) of
             None \<Rightarrow> [Launch_problem pkg NO_LAUNCH_ANSWER] | Some r \<Rightarrow> launch_outcome pkg r)"
        if "x = run (launcher_step G) (launch_retry (?u\<lparr>la_timers := 0\<rparr>)) (map La_tick cs)" for x
        unfolding that by (rule retry_run [OF wu len], use Cons.IH in \<open>simp_all add: looked_def\<close>)
      ultimately show ?thesis by simp
    qed
  qed
qed

text \<open>
  Every click is answered once. When the channels open, then whatever the package manager
  publishes, the wait ends after at most sixty looks and no call is left scheduled; the user is told
  nothing if the first answer for the package looked at reports success, what it reports if it is
  another one, and that there was none otherwise. If the result ROM is not valid when it is opened,
  no answer is ever looked at.
\<close>

theorem click_answered_once:
  fixes G :: genode
  assumes "pkg \<noteq> []" and "la_timers s = 0" and "open_launch_channels now ch s = (True, t)"
    and "LAUNCH_POLL_MAX \<le> length cs"
  defines "s' \<equiv> run (launcher_step G) s (La_click pkg now ch # map La_tick cs)"
  shows "la_pending s' = [] \<and> la_timers s' = 0
    \<and> la_out s' = la_out t @ Launch_request (launch_request pkg)
      # (case find (is_launch_answer pkg) (looked (la_result t) LAUNCH_POLL_MAX cs) of
           None \<Rightarrow> [Launch_problem pkg NO_LAUNCH_ANSWER] | Some r \<Rightarrow> launch_outcome pkg r)"
proof -
  let ?u = "t\<lparr>la_pending := pkg, la_count := 0, la_timers := 1, la_out := la_out t @ [Launch_request (launch_request pkg)]\<rparr>"
  have "la_timers t = la_timers s \<and> la_result_open t"
    using assms(3) by (auto simp: open_launch_channels_def open_channels_def la_emit_def Let_def split: if_splits option.splits)
  then have "launcher_step G (La_click pkg now ch) s = ?u" "waiting pkg 0 ?u"
    using assms(1-3) by (simp_all add: request_launch_def la_emit_def waiting_def)
  then have s': "s' = run (launcher_step G) ?u (map La_tick cs)" and w: "waiting pkg 0 ?u" by (simp_all add: s'_def)
  from ticks_answer [OF w, of cs G] assms(4)
  show ?thesis unfolding s' by simp
qed

definition small_genode :: genode where
  "small_genode = \<lparr>key_known = (\<lambda>k. True), parse_xml = (\<lambda>s. None), parse_hid = (\<lambda>s. Raw s), to_u32 = (\<lambda>s. None),
     to_bool = (\<lambda>s. None), ser_config = (\<lambda>x. None), print_nat = (\<lambda>n. []), report_fits = (\<lambda>b n. True)\<rparr>"

definition busy_answer :: rom where
  "busy_answer = Rom_node (leaf ''result'' [(''status'', ''already-running''), (''op'', ''launch''), (''pkg'', ''edit'')])"

theorem click_answered_once_witness:
  "la_out (run (launcher_step small_genode) (launcher_construct small_genode None)
     (La_click ''edit'' 0 (True, Some Rom_malformed) # map La_tick (Rom_malformed # replicate 59 busy_answer)))
   = [Launcher_report (node ''launcher'' [(''count'', [])] []), Launch_request (launch_request ''edit''),
      Launch_problem ''edit'' ''already running'']"
proof -
  let ?s = "launcher_construct small_genode None"
  have s: "la_timers ?s = 0" "la_out ?s = [Launcher_report (node ''launcher'' [(''count'', [])] [])]" by code_simp+
  obtain t where t: "open_launch_channels 0 (True, Some Rom_malformed) ?s = (True, t)" "la_out t = la_out ?s" "la_result t = Rom_malformed"
    by (simp add: open_launch_channels_def open_channels_def launcher_construct_def publish_report_def la_emit_def Let_def)
  have "find (is_launch_answer ''edit'') (looked Rom_malformed LAUNCH_POLL_MAX (Rom_malformed # replicate 59 busy_answer)) = Some busy_answer"
    "launch_outcome ''edit'' busy_answer = [Launch_problem ''edit'' ''already running'']" by code_simp+
  then show ?thesis
    using click_answered_once [OF _ s(1) t(1), of "''edit''" "Rom_malformed # replicate 59 busy_answer" small_genode] t(2,3) s(2)
    by simp
qed

text \<open>Inside the window after a failed attempt a click leaves no trace at all.\<close>

lemma dropped_click_silent:
  "la_failed s \<Longrightarrow> \<not> la_result_open s \<Longrightarrow> 0 < sint (LAUNCH_CHANNEL_RETRY_MS - (now - la_attempt_ms s))
    \<Longrightarrow> request_launch pkg now ch s = s"
  by (simp add: request_launch_def open_launch_channels_def)

section \<open>The signature\<close>

definition app_key :: "app \<Rightarrow> string \<times> string \<times> bool" where
  "app_key a = (app_name a, app_category a, app_running a)"

definition plain_app :: "app \<Rightarrow> bool" where
  "plain_app a \<longleftrightarrow> CHR ''|'' \<notin> set (app_name a) \<and> CHR ''|'' \<notin> set (app_category a)"

lemma bar_split:
  assumes "CHR ''|'' \<notin> set x" and "CHR ''|'' \<notin> set y" and "x @ CHR ''|'' # r = y @ CHR ''|'' # q"
  shows "x = y \<and> r = q"
proof -
  have t: "takeWhile (\<lambda>c. c \<noteq> CHR ''|'') (z @ CHR ''|'' # w) = z" if "CHR ''|'' \<notin> set z" for z w
    using that by (induction z) auto
  show ?thesis using t [OF assms(1), of r] t [OF assms(2), of q] assms(3) by simp
qed

lemma signature_faithful:
  "signature_of as = signature_of bs \<Longrightarrow> list_all plain_app as \<Longrightarrow> list_all plain_app bs
    \<Longrightarrow> map app_key as = map app_key bs"
proof (induction as arbitrary: bs)
  case Nil
  then show ?case by (cases bs) (simp_all add: signature_of_def app_sig_def)
next
  case (Cons a as)
  then obtain b bs' where b: "bs = b # bs'" by (cases bs) (simp_all add: signature_of_def app_sig_def)
  let ?r = "\<lambda>a as. app_category a @ CHR ''|'' # (if app_running a then CHR ''1'' else CHR ''0'') # CHR '';'' # signature_of as"
  have s: "signature_of (a # as) = app_name a @ CHR ''|'' # ?r a as" for a as
    by (simp add: signature_of_def app_sig_def)
  have p: "plain_app a" "plain_app b" "list_all plain_app as" "list_all plain_app bs'" using Cons.prems b by simp_all
  have "app_name a = app_name b \<and> ?r a as = ?r b bs'"
    using Cons.prems(1) p unfolding b s by (intro bar_split) (simp_all add: plain_app_def)
  moreover from this have "app_category a = app_category b \<and> (if app_running a then CHR ''1'' else CHR ''0'') # CHR '';'' # signature_of as
      = (if app_running b then CHR ''1'' else CHR ''0'') # CHR '';'' # signature_of bs'"
    using p by (intro bar_split) (simp_all add: plain_app_def)
  ultimately show ?case using Cons.IH [of bs'] p b by (auto simp: app_key_def split: if_splits)
qed

text \<open>A package whose binary or description alone changed is not taken over.\<close>

lemma new_binary_ignored:
  assumes "la_sig s = signature_of (parse_apps x)"
  shows "la_apps (launcher_poll G (Rom_node x) s) = la_apps s"
  using assms by (simp add: launcher_poll_def read_and_parse_def try_parse_def Let_def split: prod.split)

end
