(* ===== verification/Launcher_System.thy ===== *)
theory Launcher_System
  imports Pkgd_Props Launcher_Props
begin

text \<open>
  The shell's launcher together with \<open>sponge_pkgd\<close>: the list of applications follows the installed
  packages, and a click reaches the launch operation and comes back.
\<close>

section \<open>The list follows the installed packages\<close>

lemma fold_parse_app:
  "length acc \<le> MAX_APPS \<Longrightarrow> fold parse_app ps acc = take MAX_APPS (acc @ List.map_filter read_app ps)"
proof (induction ps arbitrary: acc)
  case (Cons p ps)
  show ?case
  proof (cases "MAX_APPS \<le> length acc \<or> read_app p = None")
    case True
    then show ?thesis using Cons by (auto simp: parse_app_def List.map_filter_simps)
  next
    case False
    then obtain a where a: "read_app p = Some a" "length acc < MAX_APPS" by auto
    then show ?thesis using Cons.IH [of "acc @ [a]"] by (simp add: parse_app_def List.map_filter_simps)
  qed
qed (simp add: List.map_filter_simps)

text \<open>The application a package stands for.\<close>

definition menu_entry :: "pkgd \<Rightarrow> package \<Rightarrow> app option" where
  "menu_entry s p =
     (if has_launcher p \<and> launcher_category p \<noteq> [] then
        Some \<lparr>app_name = pname p, app_category = launcher_category p, app_binary = gstr 64 (pbinary p),
              app_description = gstr 256 (pdescription p), app_running = (pname p \<in> set (running s))\<rparr>
      else None)"

definition menu_of :: "pkgd \<Rightarrow> app list" where
  "menu_of s = take MAX_APPS (List.map_filter (menu_entry s) (sorted_installed s))"

definition short_names :: "pkgd \<Rightarrow> bool" where
  "short_names s \<longleftrightarrow> (\<forall>p \<in> set (installed s). length (pname p) < 64 \<and> length (launcher_category p) < 64)"

lemma read_package_node:
  assumes "length (pname p) < 64" and "length (launcher_category p) < 64"
  shows "read_app (package_node s p) = menu_entry s p"
  using assms by (auto simp: read_app_def package_node_def menu_entry_def attr_str_def gstr_def Let_def)

definition installed_node :: "genode \<Rightarrow> pkgd \<Rightarrow> xml" where
  "installed_node G s = node ''installed''
       [(''count'', print_nat G (length (installed s))),
        (''config_writes'', print_nat G (unat (config_writes s)))] [packages_node s]"

lemma parse_installed:
  assumes "short_names s"
  shows "parse_apps (installed_node G s) = menu_of s"
proof -
  have e: "List.map_filter read_app (map (package_node s) ps) = List.map_filter (menu_entry s) ps"
    if "set ps \<subseteq> set (installed s)" for ps
    using that assms by (induction ps) (simp_all add: List.map_filter_simps read_package_node short_names_def split: option.split)
  have k: "kids_of_type (installed_node G s) ''packages'' = [packages_node s]"
    by (simp add: installed_node_def kids_of_type_def packages_node_def)
  have "kids_of_type (packages_node s) ''package'' = map (package_node s) (sorted_installed s)"
    by (simp add: packages_node_def kids_of_type_def filter_id_conv package_node_def)
  then show ?thesis unfolding parse_apps_def k list.case
    using fold_parse_app [of "[]" "map (package_node s) (sorted_installed s)"] e [of "sorted_installed s"]
    by (simp add: set_sorted_installed menu_of_def)
qed

text \<open>In every state of the launcher the signature is that of its list.\<close>

definition la_inv :: "launcher \<Rightarrow> bool" where
  "la_inv s \<longleftrightarrow> la_sig s = signature_of (la_apps s) \<and> length (la_apps s) \<le> MAX_APPS"

lemma length_parse_apps: "length (parse_apps x) \<le> MAX_APPS"
  using fold_parse_app [of "[]"] by (simp add: parse_apps_def split: list.split)

lemma la_inv_frame:
  "la_apps (request_launch name now ch s) = la_apps s \<and> la_sig (request_launch name now ch s) = la_sig s"
  "la_apps (poll_launch_result r s) = la_apps s \<and> la_sig (poll_launch_result r s) = la_sig s"
  "la_apps (publish_state o' b s) = la_apps s \<and> la_sig (publish_state o' b s) = la_sig s"
  by (auto simp: request_launch_def open_launch_channels_def open_channels_def la_emit_def poll_launch_result_def
      launch_retry_def publish_state_def Let_def split: prod.split bool.split option.split)

lemma la_inv_poll: "la_inv s \<Longrightarrow> la_inv (launcher_poll G r s)"
  by (auto simp: la_inv_def launcher_poll_def read_and_parse_def try_parse_def notify_new_def publish_report_def
      la_emit_def length_parse_apps Let_def split: rom.split)

lemma la_inv_step: "la_inv s \<Longrightarrow> la_inv (launcher_step G e s)"
  using la_inv_frame la_inv_poll
  by (cases e) (auto simp: la_inv_def toggle_launcher_def close_popup_def attach_view_def la_emit_def split: option.split bool.split)

interpretation launcher_shell: machine "\<lambda>s. \<exists>config. s = launcher_construct G config" "launcher_step G" la_inv for G
  by unfold_locales
     (auto simp: la_inv_step, simp add: la_inv_def launcher_construct_def publish_report_def la_emit_def signature_of_def)

text \<open>
  C20: the list of applications follows the installed packages. Whatever happened before, after a
  look at the report that \<open>sponge_pkgd\<close> publishes the list shows, in the order of the report, the
  first 32 installed packages with a launcher category, each with its category and whether it runs,
  as long as no name or category contains the separator of the signature.
\<close>

theorem menu_follows_installed:
  assumes "short_names s" and "list_all plain_app (menu_of s)"
    and "la = run (launcher_step G) (launcher_construct G config) es" and "list_all plain_app (la_apps la)" and "la_wired la"
  shows "map app_key (la_apps (launcher_step G (La_poll (Rom_node (installed_node H s))) la)) = map app_key (menu_of s)
    \<and> pk_out (generate_installed_report H s) = pk_out s @ [Installed_report (installed_node H s)]"
proof -
  let ?x = "installed_node H s"
  have "la_inv la" unfolding assms(3) by (rule launcher_shell.reach_inv) blast
  then have sig: "la_sig la = signature_of (la_apps la)" by (simp add: la_inv_def)
  have ty: "has_type ?x ''installed''" by (simp add: installed_node_def)
  have pa: "parse_apps ?x = menu_of s" by (rule parse_installed [OF assms(1)])
  have "map app_key (la_apps (launcher_step G (La_poll (Rom_node ?x)) la)) = map app_key (menu_of s)"
  proof (cases "signature_of (menu_of s) = la_sig la")
    case True
    then have "map app_key (menu_of s) = map app_key (la_apps la)"
      using signature_faithful [OF _ assms(2,4)] sig by simp
    then show ?thesis using True ty pa
      by (simp add: launcher_poll_def read_and_parse_def try_parse_def Let_def)
  next
    case False
    then show ?thesis using ty pa assms(5)
      by (simp add: launcher_poll_def read_and_parse_def try_parse_def notify_new_def publish_report_def la_emit_def Let_def)
  qed
  moreover have "pk_out (generate_installed_report H s) = pk_out s @ [Installed_report ?x]"
    by (simp add: generate_installed_report_def installed_node_def pk_emit_def)
  ultimately show ?thesis by blast
qed

section \<open>A click reaches the package daemon and comes back\<close>

lemma launch_answer_shape:
  "\<exists>pre x. pk_out (do_launch G io pkg s) = pk_out s @ pre @ [Answer (channel s) x]
     \<and> has_type x ''result'' \<and> attr x ''op'' = Some ''launch'' \<and> attr x ''pkg'' = Some pkg"
proof -
  let ?P = "\<lambda>t. \<exists>pre x. pk_out t = pk_out s @ pre @ [Answer (channel s) x]
     \<and> has_type x ''result'' \<and> attr x ''op'' = Some ''launch'' \<and> attr x ''pkg'' = Some pkg"
  have l: "?P (report_launch_ok pkg oc s)" for oc by (simp add: report_launch_ok_def record_defs)
  have c: "?P (report_conflict ''launch'' pkg a b s)" for a b by (simp add: report_conflict_def record_defs Let_def)
  have i: "?P (report_insufficient G ''launch'' pkg a b d e s)" for a b d e
    by (simp add: report_insufficient_def record_defs Let_def)
  have p: "?P (start_package G io pkg s)"
  proof -
    let ?s = "s\<lparr>running := add_name pkg (running s)\<rparr>"
    obtain r d j where "pk_out (publish_sets G io ?s) = pk_out s @ [Runtime r, Driver_runtime d, Installed_report j]"
      using publish_sets_out [of G io ?s] by auto
    moreover have "channel (publish_sets G io ?s) = channel s" using publish_sets_frame(2) [of ?s G io] by (simp add: quietly_def)
    ultimately show ?thesis by (simp add: start_package_def report_launch_ok_def record_defs)
  qed
  show ?thesis unfolding do_launch_def using l c i p
    by (auto split: option.split prod.split bool.split)
qed

lemma launch_request_attrs:
  assumes "length pkg < 128"
  shows "has_type (launch_request pkg) ''request''" and "attr_str 32 (launch_request pkg) ''op'' = ''launch''"
    and "attr_str 128 (launch_request pkg) ''pkg'' = pkg"
  using assms by (simp_all add: launch_request_def attr_str_def)

lemma launch_request_handled:
  assumes "Launcher \<in> opened s" and "pkg \<noteq> []" and "length pkg < 128"
    and "pkg_request_sig (launch_request pkg) \<noteq> pk_last_sig s"
  shows "pkg_handle_request G Launcher (Rom_node (launch_request pkg)) io s
    = do_launch G io pkg (s\<lparr>channel := Launcher, pk_last_sig := pkg_request_sig (launch_request pkg)\<rparr>)"
  using assms launch_request_attrs [OF assms(3)]
  by (simp add: pkg_handle_request_def pkg_handle_request_impl_def pkg_dispatch_def Let_def)

lemma launchable_frame: "launchable G io (s\<lparr>channel := ch, pk_last_sig := q\<rparr>) pkg \<longleftrightarrow> launchable G io s pkg"
  by (simp add: launchable_def group_free_def binary_available_def budget_allows_def armed_def)

lemma pk_inv_frame: "pk_inv G (s\<lparr>channel := ch, pk_last_sig := q\<rparr>) \<longleftrightarrow> pk_inv G s"
  by (simp add: pk_inv_def auto_names_def)

lemma status_ok: "attr_str 32 x ''status'' = ''ok'' \<longleftrightarrow> attr x ''status'' = Some ''ok''"
proof -
  have "s = ''ok''" if "take 31 s = ''ok''" for s :: string
  proof -
    have "min (length s) 31 = 2" using arg_cong [OF that, of length] by simp
    then have "length s < 31" by (simp add: min_def split: if_splits)
    then show ?thesis using that by simp
  qed
  then show ?thesis by (auto simp: attr_str_def gstr_def split: option.split)
qed

text \<open>A look at the answer among older documents.\<close>

lemma found_answer:
  assumes "list_all (\<lambda>r. r \<noteq> Rom_invalid \<and> \<not> is_launch_answer pkg r) old" and "length old < LAUNCH_POLL_MAX"
    and "is_launch_answer pkg r" and "r0 \<noteq> Rom_invalid"
  shows "find (is_launch_answer pkg) (looked r0 LAUNCH_POLL_MAX (old @ r # later)) = Some r"
proof -
  have r: "r \<noteq> Rom_invalid" using assms(3) by (auto simp: is_launch_answer_def)
  obtain k where k: "LAUNCH_POLL_MAX - length old = Suc k" using assms(2) by (cases "LAUNCH_POLL_MAX - length old") auto
  have "takeWhile (\<lambda>c. c \<noteq> Rom_invalid) (old @ x) = old @ takeWhile (\<lambda>c. c \<noteq> Rom_invalid) x" for x
    using assms(1) by (induction old) simp_all
  then have "looked r0 LAUNCH_POLL_MAX (old @ r # later) = old @ r # takeWhile (\<lambda>c. c \<noteq> Rom_invalid) (take k later)"
    using assms(2,4) r k by (simp add: looked_def)
  moreover have "find (is_launch_answer pkg) (old @ r # x) = Some r" for x
    using assms(1,3) by (induction old) simp_all
  ultimately show ?thesis by simp
qed

text \<open>
  C8: a click starts the package or says why not. In any reachable state of the package daemon,
  when it handles the launcher's request as a new one, its last output answers the launcher; and when
  the shell, whose channels open on a valid result ROM, finds that answer among its looks, then the
  package runs and the user is told nothing exactly when it may be started, and otherwise the set of
  running packages is unchanged and the user is told one reason.
\<close>

theorem click_starts_or_explains:
  assumes "pk_start G s0" and "s = run (pk_step G) s0 es" and "[] \<notin> set (names s)"
    and "Launcher \<in> opened s" and "pkg \<noteq> []" and "length pkg < 128"
    and "pkg_request_sig (launch_request pkg) \<noteq> pk_last_sig s"
    and "t = pkg_handle_request G Launcher (Rom_node (launch_request pkg)) io s"
    and "la_timers la = 0" and "open_launch_channels now ch la = (True, la1)" and "la_result la1 \<noteq> Rom_invalid"
    and "list_all (\<lambda>r. r \<noteq> Rom_invalid \<and> \<not> is_launch_answer pkg r) old" and "length old < LAUNCH_POLL_MAX"
    and "LAUNCH_POLL_MAX \<le> length old + Suc (length later)"
  shows "\<exists>x. last (pk_out t) = Answer Launcher x \<and>
    (let la' = run (launcher_step H) la (La_click pkg now ch # map La_tick (old @ Rom_node x # later)) in
     if launchable G io s pkg
     then running t = running s @ [pkg] \<and> la_out la' = la_out la1 @ [Launch_request (launch_request pkg)]
     else running t = running s
       \<and> (\<exists>why. la_out la' = la_out la1 @ [Launch_request (launch_request pkg), Launch_problem pkg why]))"
proof -
  let ?s = "s\<lparr>channel := Launcher, pk_last_sig := pkg_request_sig (launch_request pkg)\<rparr>"
  have t: "t = do_launch G io pkg ?s" using launch_request_handled [OF assms(4-7)] assms(8) by simp
  have inv: "pk_inv G ?s" unfolding pk_inv_frame using pkd.reach_inv [OF assms(1), of es] assms(2) by simp
  have "[] \<notin> set (names ?s)" using assms(3) by simp
  note cases = launch_cases [OF inv this t, unfolded launchable_frame]
  obtain pre x where x: "pk_out t = pk_out s @ pre @ [Answer Launcher x]"
    "has_type x ''result''" "attr x ''op'' = Some ''launch''" "attr x ''pkg'' = Some pkg"
    using launch_answer_shape [of G io pkg ?s] t by auto
  then have l: "last (pk_out t) = Answer Launcher x" by simp
  have ans: "is_launch_answer pkg (Rom_node x)" using x assms(6) by (simp add: is_launch_answer_def attr_str_def)
  have n: "LAUNCH_POLL_MAX \<le> length (old @ Rom_node x # later)" using assms(14) by simp
  let ?la' = "run (launcher_step H) la (La_click pkg now ch # map La_tick (old @ Rom_node x # later))"
  have "la_out ?la' = la_out la1 @ Launch_request (launch_request pkg) # launch_outcome pkg (Rom_node x)"
  proof -
    define u where "u = la1\<lparr>la_pending := pkg, la_count := 0, la_timers := 1, la_out := la_out la1 @ [Launch_request (launch_request pkg)]\<rparr>"
    have "la_timers la1 = la_timers la \<and> la_result_open la1"
      using assms(10) by (auto simp: open_launch_channels_def open_channels_def la_emit_def Let_def split: if_splits option.splits)
    then have "launcher_step H (La_click pkg now ch) la = u" "waiting pkg 0 u"
      using assms(5,9,10) by (simp_all add: request_launch_def la_emit_def waiting_def u_def)
    moreover have "la_result u = la_result la1" by (simp add: u_def)
    ultimately show ?thesis
      using ticks_answer [of pkg 0 u "old @ Rom_node x # later" H] n found_answer [OF assms(12,13) ans assms(11), of later]
      by (simp add: u_def)
  qed
  moreover have "launch_outcome pkg (Rom_node x) = (if attr x ''status'' = Some ''ok'' then [] else
      [Launch_problem pkg (case launch_outcome pkg (Rom_node x) of [Launch_problem p w] \<Rightarrow> w | _ \<Rightarrow> [])])"
    by (simp add: launch_outcome_def Let_def status_ok)
  ultimately have o': "la_out ?la' = la_out la1 @ Launch_request (launch_request pkg) # (if attr x ''status'' = Some ''ok'' then []
      else [Launch_problem pkg (case launch_outcome pkg (Rom_node x) of [Launch_problem p w] \<Rightarrow> w | _ \<Rightarrow> [])])" by simp
  show ?thesis
  proof (cases "launchable G io s pkg")
    case True
    then have "running t = running s @ [pkg]" "attr x ''status'' = Some ''ok''" using cases x(1) by auto
    then show ?thesis using True l o' by (intro exI [of _ x]) (simp add: Let_def)
  next
    case False
    then have "running t = running s" "attr x ''status'' \<noteq> Some ''ok''" using cases x(1) by auto
    then show ?thesis using False l o' by (intro exI [of _ x]) (simp add: Let_def)
  qed
qed

lemma do_launch_keeps: "opened (do_launch G io pkg s) = opened s \<and> pk_last_sig (do_launch G io pkg s) = pk_last_sig s"
proof -
  let ?P = "\<lambda>t. opened t = opened s \<and> pk_last_sig t = pk_last_sig s"
  have r: "?P t" if "same_core s t" for t using that by (simp add: same_core_def)
  have "same_core (s\<lparr>running := add_name pkg (running s)\<rparr>) (start_package G io pkg s)"
    unfolding start_package_def by (rule same_core_trans [OF publish_sets_frame(1) answers_core(5)])
  then have "?P (start_package G io pkg s)" by (simp add: same_core_def)
  moreover have "?P (report_launch_ok pkg oc s)" "?P (report_conflict op pkg a b s)" "?P (report_insufficient G op pkg i j k l s)"
    for oc op a b i j k l by (rule r, rule answers_core)+
  ultimately show ?thesis unfolding do_launch_def by (simp split: option.split prod.split bool.split)
qed

text \<open>
  A refused launch is not tried again. The request of the launcher carries no number, so the
  next click on the same package, when no other request came between, is taken for a duplicate:
  whatever the resources are by then, the daemon repeats its last answer and starts nothing.
\<close>

theorem relaunch_repeats_refusal:
  assumes "Launcher \<in> opened s" and "pkg \<noteq> []" and "length pkg < 128"
    and "pkg_request_sig (launch_request pkg) \<noteq> pk_last_sig s"
    and "t = pkg_handle_request G Launcher (Rom_node (launch_request pkg)) io s"
  shows "\<exists>x. last (pk_out t) = Answer Launcher x \<and>
    (let t' = pkg_handle_request G Launcher (Rom_node (launch_request pkg)) io' t
     in running t' = running t \<and> pk_out t' = pk_out t @ [Answer Launcher x])"
proof -
  let ?req = "launch_request pkg"
  let ?s = "s\<lparr>channel := Launcher, pk_last_sig := pkg_request_sig ?req\<rparr>"
  have t: "t = do_launch G io pkg ?s" using launch_request_handled [OF assms(1-4)] assms(5) by simp
  obtain pre x where x: "pk_out t = pre @ [Answer (channel t) x]" "\<forall>ch. pk_out (replay_last_result G (t\<lparr>channel := ch\<rparr>)) = pk_out t @ [Answer ch x]"
    using do_launch_answered [of G io pkg ?s] unfolding t [symmetric] answered_def ends_with_def replays_def by blast
  obtain pre' y where "pk_out t = pre' @ [Answer Launcher y]" using launch_answer_shape [of G io pkg ?s] t by auto
  then have ch: "channel t = Launcher" using x(1) by simp
  have core: "opened t = opened ?s" "pk_last_sig t = pk_last_sig ?s"
    using do_launch_keeps [of G io pkg ?s] t by simp_all
  have t': "pkg_handle_request G Launcher (Rom_node ?req) io' t = replay_last_result G (t\<lparr>channel := Launcher\<rparr>)"
    using core assms(1) launch_request_attrs(1) [OF assms(3)]
    by (simp add: pkg_handle_request_def pkg_handle_request_impl_def Let_def)
  have "running (replay_last_result G (t\<lparr>channel := Launcher\<rparr>)) = running t"
    using replay_frame(1) [of "t\<lparr>channel := Launcher\<rparr>" G] by (simp add: same_core_def)
  then show ?thesis using x ch t' by (simp add: Let_def)
qed

section \<open>A boot with the channel of the shell\<close>

definition shell_env :: pk_env where
  "shell_env = demo_env\<lparr>pe_config := Rom_node (node ''config'' [] [leaf ''launcher_request'' []])\<rparr>"

lemma shell_start: "pk_start demo_genode (pk_construct demo_genode shell_env)"
  by (auto simp: pk_start_def)

lemma shell_construct:
  "Launcher \<in> opened (pk_construct demo_genode shell_env) \<and> installed (pk_construct demo_genode shell_env) = []
    \<and> pk_last_sig (pk_construct demo_genode shell_env) = []"
proof -
  let ?s0 = "read_prefix (pe_config shell_env) (pkgd_init (pe_meta shell_env))"
  let ?s1 = "init_pk_store (pe_config shell_env) (?s0\<lparr>repo := load_index (pe_index shell_env) (repo ?s0)\<rparr>)"
  have no: "has_sub_node (pe_config shell_env) x \<longleftrightarrow> x = ''launcher_request''" for x
    by (auto simp: has_sub_node_def shell_env_def kids_of_type_def)
  have s1: "demo_fresh ?s1" "installed ?s1 = []"
    by (simp_all add: demo_fresh_def init_pk_store_def no) (simp_all add: read_prefix_def shell_env_def demo_env_def pkgd_init_def
        load_index_def demo_index_def kids_of_type_def attr_str_def demo_repo_def)
  have s2: "boot_seed shell_env (load_roots demo_genode (pe_load shell_env) ?s1) = ?s1"
    "load_roots demo_genode (pe_load shell_env) ?s1 = ?s1"
    using s1 no by (simp_all add: demo_fresh_def load_roots_def boot_seed_def seed_roots_def)
  have c: "pk_construct demo_genode shell_env = boot_tail demo_genode shell_env ?s1"
    using s1 s2 by (simp add: demo_fresh_def pk_construct_def bootstrap_def unless_stuck_def Let_def)
  have f: "init_driver_admission (pe_config shell_env) (init_admission (pe_config shell_env)
      (load_binaries (pe_config shell_env) b s)) = s" for b s
    using no by (simp add: init_driver_admission_def init_admission_def load_binaries_def)
  let ?p = "publish_sets demo_genode (pe_io shell_env) (sync_running ?s1)"
  have p: "demo_fresh ?p" using s1(1) by (intro demo_fresh_publish demo_fresh_sync)
  have i: "installed ?p = []"
    using publish_sets_frame(1) [of "sync_running ?s1" demo_genode "pe_io shell_env"] s1(2) by (simp add: same_core_def sync_running_def)
  have r: "roots ?s1 = []" using s1 unfolding demo_fresh_def by blast
  have o: "opened ?p = {Primary}" "\<not> pk_blocked ?p" "pk_last_sig ?p = []" using p unfolding demo_fresh_def by blast+
  have q: "pe_request shell_env = Rom_invalid" by (simp add: shell_env_def demo_env_def)
  have h: "pkg_handle_request demo_genode Primary (pe_request shell_env) (pe_io shell_env) ?p = ?p\<lparr>channel := Primary\<rparr>"
    unfolding pkg_handle_request_def q Let_def o by simp
  have "boot_tail demo_genode shell_env ?s1 = init_channels (pe_config shell_env) (?p\<lparr>channel := Primary\<rparr>)"
    unfolding boot_tail_def Let_def f using r o h by (simp add: unless_stuck_def)
  then show ?thesis using c o i no by (simp add: init_channels_def)
qed

definition offered :: package where
  "offered = (demo_package ''edit'')\<lparr>has_launcher := True, launcher_category := ''tools''\<rparr>"

definition offering :: pkgd where
  "offering = (pkgd_init demo_meta)\<lparr>installed := [offered], running := [''edit'']\<rparr>"

definition wired_genode :: genode where
  "wired_genode = small_genode\<lparr>parse_xml := (\<lambda>s. Some (node ''config'' [] [leaf ''launcher'' [(''source'', ''pkgd'')]]))\<rparr>"

theorem menu_follows_installed_witness:
  "map app_key (la_apps (launcher_step wired_genode (La_poll (Rom_node (installed_node demo_genode offering)))
     (launcher_construct wired_genode (Some ''<'')))) = [(''edit'', ''tools'', True)]"
proof -
  let ?la = "launcher_construct wired_genode (Some ''<'')"
  have so: "sorted_installed offering = [offered]" by code_simp
  have m: "menu_of offering = [\<lparr>app_name = ''edit'', app_category = ''tools'', app_binary = ''edit'', app_description = ''demo'', app_running = True\<rparr>]"
    by (simp add: menu_of_def so List.map_filter_simps menu_entry_def) (simp add: offered_def offering_def demo_package_def)
  have "la_wired ?la"
    by (simp add: launcher_construct_def config_asks_for_pkgd_def source_gate_def wired_genode_def kids_of_type_def source_is_def attr_str_def Let_def)
  moreover have "la_apps ?la = []" by (simp add: launcher_construct_def publish_report_def la_emit_def Let_def)
  moreover have "short_names offering" by (simp add: short_names_def offering_def offered_def demo_package_def)
  moreover have "list_all plain_app (menu_of offering)" by (simp add: m plain_app_def)
  ultimately show ?thesis
    using menu_follows_installed [where s = offering and la = ?la and es = "[]" and G = wired_genode and H = demo_genode and config = "Some ''<''"]
    by (simp add: m app_key_def)
qed

theorem relaunch_repeats_refusal_witness:
  "let t = pkg_handle_request demo_genode Launcher (Rom_node (launch_request ''edit'')) demo_io (pk_construct demo_genode shell_env)
   in running (pkg_handle_request demo_genode Launcher (Rom_node (launch_request ''edit'')) demo_io t) = running t"
proof -
  let ?s = "pk_construct demo_genode shell_env"
  have "pkg_request_sig (launch_request ''edit'') \<noteq> pk_last_sig ?s"
    using shell_construct by (simp add: pkg_request_sig_def launch_request_def attr_str_def)
  then show ?thesis
    using relaunch_repeats_refusal [where s = ?s and pkg = "''edit''" and G = demo_genode and io = demo_io and io' = demo_io] shell_construct
    by (auto simp: Let_def)
qed

theorem click_starts_or_explains_witness:
  "let s = pk_construct demo_genode shell_env;
       t = pkg_handle_request demo_genode Launcher (Rom_node (launch_request ''edit'')) demo_io s
   in running t = running s \<and> (\<exists>x. last (pk_out t) = Answer Launcher x \<and>
       (\<exists>why. last (la_out (run (launcher_step small_genode) (launcher_construct small_genode None)
          (La_click ''edit'' 0 (True, Some Rom_malformed) # map La_tick (Rom_malformed # Rom_node x # replicate 58 Rom_malformed))))
        = Launch_problem ''edit'' why))"
proof -
  let ?s = "pk_construct demo_genode shell_env" and ?la = "launcher_construct small_genode None"
  let ?t = "pkg_handle_request demo_genode Launcher (Rom_node (launch_request ''edit'')) demo_io ?s"
  have sig: "pkg_request_sig (launch_request ''edit'') \<noteq> pk_last_sig ?s"
    using shell_construct by (simp add: pkg_request_sig_def launch_request_def attr_str_def)
  have no: "\<not> launchable demo_genode demo_io ?s ''edit''"
    using launchable_installed shell_construct by fastforce
  have la: "la_timers ?la = 0" by code_simp
  obtain la1 where la1: "open_launch_channels 0 (True, Some Rom_malformed) ?la = (True, la1)" "la_result la1 = Rom_malformed"
    by (simp add: open_launch_channels_def open_channels_def launcher_construct_def publish_report_def la_emit_def Let_def)
  have "list_all (\<lambda>r. r \<noteq> Rom_invalid \<and> \<not> is_launch_answer ''edit'' r) [Rom_malformed]" by (simp add: is_launch_answer_def)
  then show ?thesis
    using click_starts_or_explains [where H = small_genode, OF shell_start _ _ _ _ _ sig refl la la1(1), of "[]" "[Rom_malformed]" "replicate 58 Rom_malformed" demo_io]
      shell_construct no la1(2) by (auto simp: Let_def)
qed

end
