(* ===== verification/Shortcuts.thy ===== *)
theory Shortcuts
  imports De_Common Config_View
begin

text \<open>
  \<open>sponge-de/config/shortcut_controller.{h,cc}\<close>: the keyboard shortcuts of the shell. The value of
  \<open>shortcuts.bindings\<close> in the broadcast of \<open>sponge_configd\<close> is turned into a configuration of the
  event filter; what the filter reports back is turned into calls of the launcher, the task list and
  the dismisser. A \<open>QString\<close> is the bytes it was made from; a call that was asked for later is kept in
  a list (\<open>queued\<close>) or, for the timer of three seconds, a flag. Log lines are left out.
\<close>

section \<open>State\<close>

datatype shortcut_out =
    Filter_config string
  | Hit_report string string
  | Any_hit "string option"
  | Invoke string
  | Bindings_changed string

record shortcuts =
  sc_live :: bool
  filter_open :: bool
  last_bindings :: string
  reemit_pending :: bool
  hit_open :: "string set"
  any_hit_open :: bool
  sub_open :: "string set"
  last_serial :: "string \<Rightarrow> u32"
  sc_launcher :: bool
  sc_tasklist :: bool
  sc_dismisser :: bool
  queued :: "string list"
  overrun :: bool
  sc_out :: "shortcut_out list"

definition sc_emit :: "shortcut_out list \<Rightarrow> shortcuts \<Rightarrow> shortcuts" where
  "sc_emit os s = s\<lparr>sc_out := sc_out s @ os\<rparr>"

section \<open>From the bindings to the event filter\<close>

definition action_table :: "string list" where
  "action_table = [''launcher'', ''focus_next'', ''dismiss'']"

definition de_synonyms :: "(string \<times> string) list" where
  "de_synonyms =
    [(''Super'', ''KEY_LEFTMETA''), (''Meta'', ''KEY_LEFTMETA''), (''MetaL'', ''KEY_LEFTMETA''),
     (''MetaR'', ''KEY_RIGHTMETA''), (''Esc'', ''KEY_ESC''), (''Escape'', ''KEY_ESC''),
     (''Tab'', ''KEY_TAB''), (''Return'', ''KEY_ENTER''), (''Enter'', ''KEY_ENTER''),
     (''Backspace'', ''KEY_BACKSPACE''), (''Alt'', ''KEY_LEFTALT''), (''AltL'', ''KEY_LEFTALT''),
     (''AltR'', ''KEY_RIGHTALT''), (''Ctrl'', ''KEY_LEFTCTRL''), (''CtrlL'', ''KEY_LEFTCTRL''),
     (''Shift'', ''KEY_LEFTSHIFT''), (''Space'', ''KEY_SPACE''), (''Minus'', ''KEY_MINUS''),
     (''Plus'', ''KEY_EQUAL''), (''Backquote'', ''KEY_GRAVE''), (''Slash'', ''KEY_SLASH''),
     (''Comma'', ''KEY_COMMA''), (''Dot'', ''KEY_DOT''), (''Apostrophe'', ''KEY_APOSTROPHE''),
     (''Semicolon'', ''KEY_SEMICOLON'')]"

definition resolve_synonym :: "string \<Rightarrow> string" where
  "resolve_synonym tok = (case map_of de_synonyms tok of None \<Rightarrow> tok | Some c \<Rightarrow> c)"

definition shortcuts_asks_for_controller :: "'a genode_scheme \<Rightarrow> string option \<Rightarrow> bool" where
  "shortcuts_asks_for_controller G = source_gate G ''shortcuts'' ''controller''"

definition extract_shortcuts_bindings :: "'a genode_scheme \<Rightarrow> string \<Rightarrow> string" where
  "extract_shortcuts_bindings G payload =
     (case parse_xml G payload of
        None \<Rightarrow> []
      | Some root \<Rightarrow> (case first_key root ''shortcuts.bindings'' of None \<Rightarrow> [] | Some k \<Rightarrow> attr_str 1024 k ''value''))"

text \<open>
  The keys of one binding. The loop over the sequence stops at the first name that is empty, too long
  or unknown, and what it has written by then stays.
\<close>

definition key_element :: "string \<Rightarrow> string" where
  "key_element k = jq ''<key name=`'' @ resolve_synonym k @ jq ''`/>''"

definition key_usable :: "'a genode_scheme \<Rightarrow> string \<Rightarrow> bool" where
  "key_usable G k \<longleftrightarrow> k \<noteq> [] \<and> length k < 32 \<and> key_known G (gstr 22 (resolve_synonym k))"

fun key_elements :: "'a genode_scheme \<Rightarrow> string list \<Rightarrow> string" where
  "key_elements G [] = []"
| "key_elements G (k # ks) = (if key_usable G k then key_element k @ key_elements G ks else [])"

definition shortcut_element :: "string \<Rightarrow> string \<Rightarrow> string" where
  "shortcut_element act body = jq ''<shortcut name=`'' @ act @ jq ''`>'' @ body @ ''</shortcut>''"

definition shortcut_line :: "'a genode_scheme \<Rightarrow> string \<Rightarrow> string" where
  "shortcut_line G raw =
     (let line = trim blank raw in
      if line = [] then []
      else if length (filter (\<lambda>c. c = TAB) line) \<noteq> 1 then []
      else
        let act = takeWhile (\<lambda>c. c \<noteq> TAB) line;
            sq = tl (dropWhile (\<lambda>c. c \<noteq> TAB) line)
        in if length act = 0 \<or> 32 \<le> length act then []
           else if act \<notin> set action_table then []
           else shortcut_element act (key_elements G (key_names sq)))"

definition build_shortcuts_xml :: "'a genode_scheme \<Rightarrow> string \<Rightarrow> string" where
  "build_shortcuts_xml G v = concat (map (shortcut_line G) (lines_of v))"

definition filter_head :: string where
  "filter_head = jq ''<config force=`yes`><output><report><input name=`ps2`/><input name=`usb`/>''"

definition filter_tail :: string where
  "filter_tail = jq ''</report></output><policy label=`ps2` input=`ps2`/><policy label=`usb` input=`usb`/></config>''"

definition merged_config :: "'a genode_scheme \<Rightarrow> string \<Rightarrow> string" where
  "merged_config G v = filter_head @ build_shortcuts_xml G v @ filter_tail"

text \<open>
  The text is copied into a static buffer of \<open>OUT_SIZE\<close> bytes, with a NUL after it, and padded with
  newlines. When the text fills the buffer the NUL is written behind it (\<open>overrun\<close>).
\<close>

abbreviation OUT_SIZE :: nat where "OUT_SIZE \<equiv> 8192"

definition padded :: "string \<Rightarrow> string" where
  "padded text = take OUT_SIZE text @ replicate (OUT_SIZE - length text) NL"

definition emit_event_filter_config :: "string \<Rightarrow> shortcuts \<Rightarrow> shortcuts" where
  "emit_event_filter_config merged s =
     (if \<not> filter_open s then s
      else sc_emit [Filter_config (padded merged)] (s\<lparr>overrun := overrun s \<or> OUT_SIZE \<le> length merged\<rparr>))"

section \<open>Reports and subscriptions\<close>

text \<open>\<open>opens l\<close>: whether the session with the label \<open>l\<close> can be opened at the moment.\<close>

definition open_hit_reporter :: "(string \<Rightarrow> bool) \<Rightarrow> string \<Rightarrow> shortcuts \<Rightarrow> shortcuts" where
  "open_hit_reporter opens act s =
     (if act \<in> hit_open s \<or> \<not> opens (''shortcut_hit_'' @ act) then s
      else sc_emit [Hit_report act ''ready''] (s\<lparr>hit_open := insert act (hit_open s)\<rparr>))"

definition open_shortcut_hit_reporter :: "(string \<Rightarrow> bool) \<Rightarrow> shortcuts \<Rightarrow> shortcuts" where
  "open_shortcut_hit_reporter opens s =
     (if any_hit_open s \<or> \<not> opens ''shortcut_hit'' then s
      else sc_emit [Any_hit None] (s\<lparr>any_hit_open := True\<rparr>))"

definition open_hit_subscriber :: "(string \<Rightarrow> bool) \<Rightarrow> string \<Rightarrow> shortcuts \<Rightarrow> shortcuts" where
  "open_hit_subscriber opens act s =
     (if act \<in> sub_open s \<or> \<not> opens (''shortcut_'' @ act) then s else s\<lparr>sub_open := insert act (sub_open s)\<rparr>)"

definition publish_shortcut_hit :: "string \<Rightarrow> shortcuts \<Rightarrow> shortcuts" where
  "publish_shortcut_hit act s =
     (if \<not> any_hit_open s then s
      else if act \<notin> set action_table then s
      else sc_emit [Any_hit (Some act)] s)"

definition publish_hit :: "string \<Rightarrow> shortcuts \<Rightarrow> shortcuts" where
  "publish_hit act s =
     publish_shortcut_hit act (if act \<in> hit_open s then sc_emit [Hit_report act ''yes''] s else s)"

section \<open>From the event filter to the actions\<close>

text \<open>The first \<open>shortcut\<close> node with the name, in document order, and its serial number.\<close>

fun walk_rec :: "genode \<Rightarrow> string \<Rightarrow> xml \<Rightarrow> u32 option"
  and walk_kids :: "genode \<Rightarrow> string \<Rightarrow> xml list \<Rightarrow> u32 option" where
  "walk_rec G target (Raw t) = None"
| "walk_rec G target (Elem t as ks c) =
     (if t = ''shortcut'' \<and> attr_str 64 (Elem t as ks c) ''name'' = target
      then Some (attr_u32 G (Elem t as ks c) ''serial'' 0) else walk_kids G target ks)"
| "walk_kids G target [] = None"
| "walk_kids G target (k # ks) =
     (case walk_rec G target k of Some n \<Rightarrow> Some n | None \<Rightarrow> walk_kids G target ks)"

text \<open>What a look finds that was not seen at the last one.\<close>

definition rom_serial :: "genode \<Rightarrow> string \<Rightarrow> rom \<Rightarrow> u32 option" where
  "rom_serial G act r = (case r of Rom_node x \<Rightarrow> walk_rec G act x | _ \<Rightarrow> None)"

definition fresh_hit :: "genode \<Rightarrow> string \<Rightarrow> rom \<Rightarrow> shortcuts \<Rightarrow> u32 option" where
  "fresh_hit G act r s =
     (if act \<notin> sub_open s then None
      else case rom_serial G act r of
        None \<Rightarrow> None
      | Some n \<Rightarrow> (if n = last_serial s act then None else Some n))"

definition target_attached :: "string \<Rightarrow> shortcuts \<Rightarrow> bool" where
  "target_attached act s =
     (if act = ''launcher'' then sc_launcher s
      else if act = ''focus_next'' then sc_tasklist s
      else if act = ''dismiss'' then sc_dismisser s
      else False)"

definition fire_hit :: "string \<Rightarrow> u32 \<Rightarrow> shortcuts \<Rightarrow> shortcuts" where
  "fire_hit act n s =
     (let s = publish_hit act (s\<lparr>last_serial := (last_serial s)(act := n)\<rparr>)
      in if target_attached act s then sc_emit [Invoke act] s else s)"

definition dispatch_hit :: "genode \<Rightarrow> string \<Rightarrow> rom \<Rightarrow> shortcuts \<Rightarrow> shortcuts" where
  "dispatch_hit G act r s = (case fresh_hit G act r s of None \<Rightarrow> s | Some n \<Rightarrow> fire_hit act n s)"

section \<open>The controller\<close>

definition apply_bindings :: "'a genode_scheme \<Rightarrow> (string \<Rightarrow> bool) \<Rightarrow> string \<Rightarrow> shortcuts \<Rightarrow> shortcuts" where
  "apply_bindings G opens payload s =
     (let bindings = extract_shortcuts_bindings G payload in
      if bindings = last_bindings s then s
      else
        let s = emit_event_filter_config (merged_config G bindings) (s\<lparr>last_bindings := bindings\<rparr>);
            s = s\<lparr>reemit_pending := True\<rparr>;
            s = fold (open_hit_reporter opens) action_table s;
            s = open_shortcut_hit_reporter opens s;
            s = fold (open_hit_subscriber opens) action_table s
        in sc_emit [Bindings_changed bindings] s)"

text \<open>The timer of three seconds.\<close>

definition reemit :: "'a genode_scheme \<Rightarrow> shortcuts \<Rightarrow> shortcuts" where
  "reemit G s =
     (if \<not> reemit_pending s then s
      else let s = s\<lparr>reemit_pending := False\<rparr> in emit_event_filter_config (merged_config G (last_bindings s)) s)"

text \<open>The bytes of the \<open>configd\<close> ROM, \<open>None\<close> when it is not valid.\<close>

definition sc_on_rom :: "string option \<Rightarrow> shortcuts \<Rightarrow> shortcuts" where
  "sc_on_rom r s =
     (if \<not> sc_live s then s
      else case r of
        None \<Rightarrow> s
      | Some payload \<Rightarrow> (if payload = [] then s else s\<lparr>queued := queued s @ [payload]\<rparr>))"

definition sc_poll :: "genode \<Rightarrow> (string \<Rightarrow> bool) \<Rightarrow> string option \<Rightarrow> (string \<Rightarrow> rom) \<Rightarrow> shortcuts \<Rightarrow> shortcuts" where
  "sc_poll G opens r hits s =
     (if \<not> sc_live s then s
      else
        let s = (case r of None \<Rightarrow> s | Some payload \<Rightarrow> (if payload = [] then s else apply_bindings G opens payload s))
        in fold (\<lambda>act. dispatch_hit G act (hits act)) action_table s)"

text \<open>\<open>rom\<close>: what the \<open>configd\<close> ROM holds when the session can be opened.\<close>

definition shortcuts_construct :: "'a genode_scheme \<Rightarrow> string option \<Rightarrow> string option option \<Rightarrow> shortcuts" where
  "shortcuts_construct G config rom =
     (let s = \<lparr>sc_live = False, filter_open = False, last_bindings = [], reemit_pending = False, hit_open = {},
        any_hit_open = False, sub_open = {}, last_serial = (\<lambda>a. 0), sc_launcher = False, sc_tasklist = False,
        sc_dismisser = False, queued = [], overrun = False, sc_out = []\<rparr>
      in if \<not> shortcuts_asks_for_controller G config then s
         else let s = s\<lparr>filter_open := True\<rparr> in
           case rom of None \<Rightarrow> s | Some r \<Rightarrow> sc_on_rom r (s\<lparr>sc_live := True\<rparr>))"

datatype shortcut_event =
    Sc_rom "string option"
  | Sc_queued "string \<Rightarrow> bool"
  | Sc_timer
  | Sc_poll "string \<Rightarrow> bool" "string option" "string \<Rightarrow> rom"
  | Sc_hit string rom
  | Sc_attach bool bool bool

fun shortcut_step :: "genode \<Rightarrow> shortcut_event \<Rightarrow> shortcuts \<Rightarrow> shortcuts" where
  "shortcut_step G (Sc_rom r) s = sc_on_rom r s"
| "shortcut_step G (Sc_queued opens) s =
     (case queued s of [] \<Rightarrow> s | p # ps \<Rightarrow> apply_bindings G opens p (s\<lparr>queued := ps\<rparr>))"
| "shortcut_step G Sc_timer s = reemit G s"
| "shortcut_step G (Sc_poll opens r hits) s = sc_poll G opens r hits s"
| "shortcut_step G (Sc_hit act r) s = dispatch_hit G act r s"
| "shortcut_step G (Sc_attach l t d) s = s\<lparr>sc_launcher := l, sc_tasklist := t, sc_dismisser := d\<rparr>"

end
