(* ===== verification/Shortcuts_Props.thy ===== *)
theory Shortcuts_Props
  imports Shortcuts Configd_Registry_Props
begin

text \<open>
  The configuration the shell writes for the event filter fits its buffer and follows the bindings;
  an accepted value reaches the filter line by line; a press of a shortcut is acted on once.
\<close>

section \<open>The size of the filter's configuration\<close>

text \<open>What is relied on of the framework: the names of keys and buttons have their prefixes.\<close>

definition input_names :: "'a genode_scheme \<Rightarrow> bool" where
  "input_names G \<longleftrightarrow> (\<forall>n. key_known G n \<longrightarrow> take 4 n \<in> {''KEY_'', ''BTN_''})"

lemma length_jq [simp]: "length (jq s) = length s"
  by (simp add: jq_def)

lemma synonym_length: "map_of de_synonyms k = Some c \<Longrightarrow> 4 * (length c + 14) \<le> 26 * (length k + 1)"
proof -
  have "\<forall>(k, c) \<in> set de_synonyms. 4 * (length c + 14) \<le> 26 * (length k + 1)" by code_simp
  then show "map_of de_synonyms k = Some c \<Longrightarrow> ?thesis" by (auto dest: map_of_SomeD)
qed

lemma key_element_length:
  assumes "input_names G" and "key_usable G k"
  shows "4 * length (key_element k) \<le> 26 * (length k + 1)"
proof (cases "map_of de_synonyms k")
  case None
  then have r: "resolve_synonym k = k" by (simp add: resolve_synonym_def)
  then have "take 4 (gstr 22 k) \<in> {''KEY_'', ''BTN_''}" using assms by (auto simp: key_usable_def input_names_def)
  then have "take 4 (gstr 22 k) = ''KEY_'' \<or> take 4 (gstr 22 k) = ''BTN_''" by simp
  then have "length (take 4 (gstr 22 k)) = 4" by (elim disjE) (drule arg_cong [where f = length], simp del: length_take)+
  then have "4 \<le> length k" by (simp add: gstr_def)
  then show ?thesis using r by (simp add: key_element_def)
next
  case (Some c)
  then show ?thesis using synonym_length [OF Some] by (simp add: key_element_def resolve_synonym_def)
qed

lemma key_elements_length:
  "input_names G \<Longrightarrow> 4 * length (key_elements G ks) \<le> 26 * (\<Sum>k\<leftarrow>ks. length k + 1)"
proof (induction ks)
  case (Cons k ks)
  then have "4 * length (key_elements G ks) \<le> 26 * (\<Sum>k\<leftarrow>ks. length k + 1)" by blast
  moreover have "key_usable G k \<Longrightarrow> 4 * length (key_element k) \<le> 26 * (length k + 1)"
    using key_element_length Cons.prems by blast
  ultimately show ?case by (cases "key_usable G k") (simp_all add: algebra_simps)
qed simp

lemma split_on_length: "(\<Sum>t\<leftarrow>split_on c s. length t + 1) = length s + 1"
  by (induction s) (auto split: list.split)

lemma pieces_length:
  "(\<Sum>t\<leftarrow>(if last (split_on c s) = [] then butlast (split_on c s) else split_on c s). length t + 1) \<le> length s + 1"
proof -
  have "split_on c s = butlast (split_on c s) @ [last (split_on c s)]" by simp
  then have "(\<Sum>t\<leftarrow>split_on c s. length t + 1) = (\<Sum>t\<leftarrow>butlast (split_on c s). length t + 1) + (length (last (split_on c s)) + 1)"
    by (metis (no_types, lifting) map_append sum_list_append list.simps(8,9) sum_list.Cons sum_list.Nil add.right_neutral)
  then show ?thesis using split_on_length [of c s] by simp
qed

lemma trim_length: "length (trim p s) \<le> length s"
proof -
  have "length (trim p s) \<le> length (rev (dropWhile p s))" unfolding trim_def by (metis length_dropWhile_le length_rev)
  also have "\<dots> \<le> length s" by (simp add: length_dropWhile_le)
  finally show ?thesis .
qed

text \<open>A line is empty or stands for one action and its keys.\<close>

lemma shortcut_line_cases:
  obtains "shortcut_line G raw = []"
  | act sq where "trim blank raw = act @ TAB # sq" and "TAB \<notin> set act" and "act \<in> set action_table"
      and "shortcut_line G raw = shortcut_element act (key_elements G (key_names sq))"
proof (cases "shortcut_line G raw = []")
  case False
  then have "length (filter (\<lambda>c. c = TAB) (trim blank raw)) = 1" by (auto simp: shortcut_line_def Let_def split: if_splits)
  then obtain a b where ab: "trim blank raw = a @ TAB # b" "TAB \<notin> set a" using one_tab by blast
  have "takeWhile (\<lambda>c. c \<noteq> TAB) (a @ TAB # b) = a" "dropWhile (\<lambda>c. c \<noteq> TAB) (a @ TAB # b) = TAB # b"
    using ab(2) by (induction a) auto
  then have "a \<in> set action_table \<and> shortcut_line G raw = shortcut_element a (key_elements G (key_names b))"
    using False unfolding shortcut_line_def ab(1) Let_def by (auto split: if_splits)
  then show thesis using that(2) ab by blast
qed blast

lemma shortcut_line_length:
  assumes "input_names G"
  shows "4 * length (shortcut_line G raw) \<le> 26 * (length raw + 1)"
proof (cases rule: shortcut_line_cases [of G raw])
  case (2 act sq)
  have "7 \<le> length act" using 2(3) by (auto simp: action_table_def)
  moreover have "4 * length (key_elements G (key_names sq)) \<le> 26 * (length sq + 1)"
    using key_elements_length [OF assms, of "key_names sq"] pieces_length [of "CHR ''-''" sq]
    by (simp add: key_names_def Let_def)
  moreover have "length act + length sq + 1 \<le> length raw" using trim_length [of blank raw] 2(1) by simp
  ultimately show ?thesis using 2(4) by (simp add: shortcut_element_def)
qed simp

lemma build_length:
  assumes "input_names G"
  shows "4 * length (build_shortcuts_xml G v) \<le> 26 * (length v + 1)"
proof -
  have "4 * length (concat (map (shortcut_line G) ls)) \<le> 26 * (\<Sum>l\<leftarrow>ls. length l + 1)" for ls
  proof (induction ls)
    case (Cons l ls)
    then show ?case using shortcut_line_length [OF assms, of l] by simp
  qed simp
  from this [of "lines_of v"] show ?thesis
    using pieces_length [of NL v] by (simp add: build_shortcuts_xml_def lines_of_def Let_def)
qed

lemma merged_length:
  assumes "input_names G" and "length v < 1024"
  shows "length (merged_config G v) < OUT_SIZE"
  using build_length [OF assms(1), of v] assms(2) by (simp add: merged_config_def filter_head_def filter_tail_def)

lemma padded_fits: "length t < OUT_SIZE \<Longrightarrow> padded t = t @ replicate (OUT_SIZE - length t) NL"
  by (simp add: padded_def)

section \<open>The filter's configuration follows the bindings\<close>

definition filters :: "shortcuts \<Rightarrow> string list" where
  "filters s = List.map_filter (\<lambda>out. case out of Filter_config d \<Rightarrow> Some d | _ \<Rightarrow> None) (sc_out s)"

definition sc_inv :: "'a genode_scheme \<Rightarrow> shortcuts \<Rightarrow> bool" where
  "sc_inv G s \<longleftrightarrow> \<not> overrun s \<and> length (last_bindings s) < 1024
     \<and> (\<forall>d \<in> set (filters s). \<exists>v. length v < 1024 \<and> d = padded (merged_config G v))
     \<and> (filters s = [] \<longrightarrow> last_bindings s = [] \<or> \<not> filter_open s) \<and> (\<not> filter_open s \<longrightarrow> filters s = [])
     \<and> (filters s \<noteq> [] \<longrightarrow> last (filters s) = padded (merged_config G (last_bindings s)))"

lemma filters_emit:
  "filters (sc_emit os s) = filters s @ List.map_filter (\<lambda>out. case out of Filter_config d \<Rightarrow> Some d | _ \<Rightarrow> None) os"
  by (simp add: filters_def sc_emit_def List.map_filter_def)

text \<open>Operations that leave alone what the invariant speaks of.\<close>

definition same_filter :: "shortcuts \<Rightarrow> shortcuts \<Rightarrow> bool" where
  "same_filter s t \<longleftrightarrow> overrun t = overrun s \<and> last_bindings t = last_bindings s \<and> filters t = filters s
     \<and> filter_open t = filter_open s \<and> sc_live t = sc_live s"

lemma same_filter_refl [simp]: "same_filter s s"
  by (simp add: same_filter_def)

lemma same_filter_trans [trans]: "same_filter s t \<Longrightarrow> same_filter t u \<Longrightarrow> same_filter s u"
  by (simp add: same_filter_def)

lemma same_filter_fold: "(\<And>x s. same_filter s (f x s)) \<Longrightarrow> same_filter s (fold f xs s)"
  by (induction xs arbitrary: s) (auto intro: same_filter_trans)

lemma same_filter_inv: "same_filter s t \<Longrightarrow> sc_inv G s \<Longrightarrow> sc_inv G t"
  by (simp add: same_filter_def sc_inv_def)

lemma same_filter_ops:
  "same_filter s (open_hit_reporter opens act s)" "same_filter s (open_shortcut_hit_reporter opens s)"
  "same_filter s (open_hit_subscriber opens act s)" "same_filter s (publish_hit act s)"
  by (auto simp: same_filter_def open_hit_reporter_def open_shortcut_hit_reporter_def open_hit_subscriber_def
      publish_hit_def publish_shortcut_hit_def filters_def sc_emit_def List.map_filter_def)

lemma same_filter_dispatch: "same_filter s (dispatch_hit G act r s)"
proof -
  have "same_filter s (fire_hit act n s)" for n
  proof -
    have "same_filter s (s\<lparr>last_serial := (last_serial s)(act := n)\<rparr>)" by (simp add: same_filter_def filters_def)
    also have "same_filter \<dots> (publish_hit act \<dots>)" by (rule same_filter_ops)
    finally show ?thesis by (simp add: fire_hit_def Let_def) (simp add: same_filter_def filters_def sc_emit_def List.map_filter_def)
  qed
  then show ?thesis by (simp add: dispatch_hit_def split: option.split)
qed

lemma emit_filter_inv:
  assumes "input_names G" and "length v < 1024" and "sc_inv G s"
  shows "sc_inv G (emit_event_filter_config (merged_config G v) (s\<lparr>last_bindings := v\<rparr>))"
proof (cases "filter_open s")
  case True
  then show ?thesis using assms merged_length [OF assms(1,2)]
    by (auto simp: emit_event_filter_config_def sc_inv_def filters_def sc_emit_def List.map_filter_def)
next
  case False
  then show ?thesis using assms by (simp add: emit_event_filter_config_def sc_inv_def filters_def)
qed

lemma apply_bindings_inv:
  assumes "input_names G" and "sc_inv G s"
  shows "sc_inv G (apply_bindings G opens payload s)"
proof -
  let ?v = "extract_shortcuts_bindings G payload"
  let ?u = "emit_event_filter_config (merged_config G ?v) (s\<lparr>last_bindings := ?v\<rparr>)"
  have len: "length ?v < 1024"
    using length_attr_str [of 1024 _ "''value''"]
    by (auto simp: extract_shortcuts_bindings_def less_Suc_eq_le numeral_eq_Suc split: option.split)
  have u: "sc_inv G ?u" by (rule emit_filter_inv [OF assms(1) len assms(2)])
  have p: "same_filter ?u (?u\<lparr>reemit_pending := True\<rparr>)" by (simp add: same_filter_def filters_def)
  have q: "same_filter t (sc_emit [Bindings_changed ?v] (fold (open_hit_subscriber opens) action_table
      (open_shortcut_hit_reporter opens (fold (open_hit_reporter opens) action_table t))))" for t
  proof -
    have "same_filter t (fold (open_hit_reporter opens) action_table t)" by (rule same_filter_fold) (rule same_filter_ops)
    also have "same_filter \<dots> (open_shortcut_hit_reporter opens \<dots>)" by (rule same_filter_ops)
    also have "same_filter \<dots> (fold (open_hit_subscriber opens) action_table \<dots>)" by (rule same_filter_fold) (rule same_filter_ops)
    also have "same_filter \<dots> (sc_emit [Bindings_changed ?v] \<dots>)"
      by (simp add: same_filter_def filters_emit) (simp add: sc_emit_def List.map_filter_simps)
    finally show ?thesis .
  qed
  show ?thesis
  proof (cases "?v = last_bindings s")
    case True
    then show ?thesis using assms(2) by (simp add: apply_bindings_def)
  next
    case False
    then show ?thesis using same_filter_inv [OF same_filter_trans [OF p q] u] by (simp only: apply_bindings_def Let_def if_False)
  qed
qed

lemma reemit_inv: "input_names G \<Longrightarrow> sc_inv G s \<Longrightarrow> sc_inv G (reemit G s)"
  using emit_filter_inv [of G "last_bindings s" "s\<lparr>reemit_pending := False\<rparr>"]
  by (simp add: reemit_def sc_inv_def filters_def)

lemma sc_poll_inv:
  assumes "input_names G" and "sc_inv G s"
  shows "sc_inv G (sc_poll G opens r hits s)"
proof -
  have d: "sc_inv G (fold (\<lambda>act. dispatch_hit G act (hits act)) action_table t)" if "sc_inv G t" for t
    by (rule same_filter_inv [OF same_filter_fold that]) (rule same_filter_dispatch)
  show ?thesis using assms apply_bindings_inv [OF assms] by (auto simp: sc_poll_def Let_def intro!: d split: option.split)
qed

lemma sc_step_inv: "input_names G \<Longrightarrow> sc_inv G s \<Longrightarrow> sc_inv G (shortcut_step G e s)"
proof (cases e)
  case (Sc_queued opens)
  moreover assume "input_names G" "sc_inv G s"
  moreover from this have "sc_inv G (s\<lparr>queued := ps\<rparr>)" for ps by (simp add: sc_inv_def filters_def)
  ultimately show ?thesis by (auto intro!: apply_bindings_inv split: list.split)
next
  case (Sc_hit act r)
  moreover assume "sc_inv G s"
  ultimately show ?thesis using same_filter_inv [OF same_filter_dispatch] by simp
qed (simp_all add: reemit_inv sc_poll_inv, auto simp: sc_on_rom_def sc_inv_def filters_def split: option.split)

lemma sc_start_inv: "sc_inv G (shortcuts_construct G config rom)"
  by (auto simp: shortcuts_construct_def sc_on_rom_def sc_inv_def filters_def List.map_filter_simps Let_def split: option.split)

text \<open>A shell whose framework names its keys as documented.\<close>

definition sc_start :: "genode \<Rightarrow> shortcuts \<Rightarrow> bool" where
  "sc_start G s \<longleftrightarrow> input_names G \<and> (\<exists>config rom. s = shortcuts_construct G config rom)"

interpretation shortcut_keys: machine "sc_start G" "shortcut_step G" "\<lambda>s. input_names G \<and> sc_inv G s" for G
  by unfold_locales (auto simp: sc_start_def sc_start_inv sc_step_inv)

text \<open>
  The configuration for the event filter always fits. Whatever is broadcast, no write goes behind
  the static buffer, and every configuration that is published is complete: the whole text for some
  bindings, made up to 8192 bytes with newlines.
\<close>

theorem filter_config_fits:
  assumes "sc_start G s0" and "s = run (shortcut_step G) s0 es"
  shows "\<not> overrun s \<and> (\<forall>d. Filter_config d \<in> set (sc_out s) \<longrightarrow>
    (\<exists>v. d = merged_config G v @ replicate (OUT_SIZE - length (merged_config G v)) NL
       \<and> length (merged_config G v) < OUT_SIZE))"
proof -
  have i: "input_names G" "sc_inv G s" using shortcut_keys.reach_inv [OF assms(1), of es] assms(2) by simp_all
  have "\<exists>v. d = merged_config G v @ replicate (OUT_SIZE - length (merged_config G v)) NL \<and> length (merged_config G v) < OUT_SIZE"
    if "Filter_config d \<in> set (sc_out s)" for d
  proof -
    have "d \<in> set (filters s)" using that by (force simp: filters_def List.map_filter_def)
    then obtain v where v: "length v < 1024" "d = padded (merged_config G v)" using i(2) by (auto simp: sc_inv_def)
    then show ?thesis using merged_length [OF i(1) v(1)] padded_fits by blast
  qed
  then show ?thesis using i(2) by (simp add: sc_inv_def)
qed

text \<open>
  The event filter follows the bindings. In every reachable state the configuration that was
  published last is the one for the bindings in force; none was published only while there are no
  bindings or no session for it.
\<close>

theorem filter_follows_bindings:
  assumes "sc_start G s0" and "s = run (shortcut_step G) s0 es"
  shows "(filters s = [] \<and> (last_bindings s = [] \<or> \<not> filter_open s))
    \<or> (filters s \<noteq> [] \<and> last (filters s) = padded (merged_config G (last_bindings s)))"
  using shortcut_keys.reach_inv [OF assms(1), of es] assms(2) by (auto simp: sc_inv_def)

section \<open>A press is acted on once\<close>

text \<open>The look at the reports of one action that an event makes.\<close>

fun looks_at :: "string \<Rightarrow> shortcut_event \<Rightarrow> rom list" where
  "looks_at act (Sc_hit a r) = (if a = act then [r] else [])"
| "looks_at act (Sc_poll opens r hits) = [hits act]"
| "looks_at act e = []"

definition serials_seen :: "genode \<Rightarrow> string \<Rightarrow> shortcut_event list \<Rightarrow> u32 list" where
  "serials_seen G act es = List.map_filter (rom_serial G act) (concat (map (looks_at act) es))"

definition invocations :: "string \<Rightarrow> shortcuts \<Rightarrow> nat" where
  "invocations act s = length (filter (\<lambda>out. out = Invoke act) (sc_out s))"

text \<open>A subscription that is open, with its target attached.\<close>

definition armed_for :: "string \<Rightarrow> shortcuts \<Rightarrow> bool" where
  "armed_for act s \<longleftrightarrow> sc_live s \<and> act \<in> sub_open s \<and> target_attached act s"

text \<open>Operations that neither look at the reports of the action nor call it.\<close>

definition same_hits :: "string \<Rightarrow> shortcuts \<Rightarrow> shortcuts \<Rightarrow> bool" where
  "same_hits act s t \<longleftrightarrow> sc_live t = sc_live s \<and> (act \<in> sub_open s \<longrightarrow> act \<in> sub_open t)
     \<and> target_attached act t = target_attached act s \<and> last_serial t act = last_serial s act
     \<and> invocations act t = invocations act s"

lemma same_hits_refl [simp]: "same_hits act s s"
  by (simp add: same_hits_def)

lemma same_hits_trans [trans]: "same_hits act s t \<Longrightarrow> same_hits act t u \<Longrightarrow> same_hits act s u"
  by (simp add: same_hits_def)

lemma same_hits_fold: "(\<And>x s. same_hits act s (f x s)) \<Longrightarrow> same_hits act s (fold f xs s)"
  by (induction xs arbitrary: s) (auto intro: same_hits_trans)

lemmas sc_op_defs = open_hit_reporter_def open_shortcut_hit_reporter_def open_hit_subscriber_def
  publish_hit_def publish_shortcut_hit_def emit_event_filter_config_def sc_emit_def

lemma same_hits_ops:
  "same_hits act s (open_hit_reporter opens a s)" "same_hits act s (open_shortcut_hit_reporter opens s)"
  "same_hits act s (open_hit_subscriber opens a s)" "same_hits act s (publish_hit a s)"
  "same_hits act s (emit_event_filter_config m s)"
  by (auto simp: same_hits_def sc_op_defs invocations_def target_attached_def)

lemma same_hits_bindings: "same_hits act s (apply_bindings G opens payload s)"
proof -
  let ?v = "extract_shortcuts_bindings G payload"
  have r: "same_hits act t (t\<lparr>reemit_pending := True\<rparr>)" "same_hits act t (t\<lparr>last_bindings := ?v\<rparr>)"
    "same_hits act t (sc_emit [Bindings_changed ?v] t)" for t
    by (simp_all add: same_hits_def invocations_def target_attached_def sc_emit_def)
  have "same_hits act s (s\<lparr>last_bindings := ?v\<rparr>)" by (rule r)
  also have "same_hits act \<dots> (emit_event_filter_config (merged_config G ?v) \<dots>)" by (rule same_hits_ops)
  also have "same_hits act \<dots> (\<dots>\<lparr>reemit_pending := True\<rparr>)" by (rule r)
  also have "same_hits act \<dots> (fold (open_hit_reporter opens) action_table \<dots>)" by (rule same_hits_fold) (rule same_hits_ops)
  also have "same_hits act \<dots> (open_shortcut_hit_reporter opens \<dots>)" by (rule same_hits_ops)
  also have "same_hits act \<dots> (fold (open_hit_subscriber opens) action_table \<dots>)" by (rule same_hits_fold) (rule same_hits_ops)
  also have "same_hits act \<dots> (sc_emit [Bindings_changed ?v] \<dots>)" by (rule r)
  finally show ?thesis by (simp add: apply_bindings_def Let_def)
qed

lemma fire_other:
  assumes "a \<noteq> act"
  shows "same_hits act s (fire_hit a n s)"
proof -
  let ?u = "s\<lparr>last_serial := (last_serial s)(a := n)\<rparr>"
  have "same_hits act s ?u" using assms by (simp add: same_hits_def target_attached_def invocations_def)
  also have "same_hits act \<dots> (publish_hit a \<dots>)" by (rule same_hits_ops)
  finally have p: "same_hits act s (publish_hit a ?u)" .
  moreover have "same_hits act t (sc_emit [Invoke a] t)" for t
    using assms by (simp add: same_hits_def target_attached_def invocations_def sc_emit_def)
  ultimately show ?thesis unfolding fire_hit_def Let_def using same_hits_trans by (cases "target_attached a (publish_hit a ?u)") simp_all
qed

lemma fire_own:
  assumes "armed_for act s"
  shows "armed_for act (fire_hit act n s) \<and> last_serial (fire_hit act n s) act = n
    \<and> invocations act (fire_hit act n s) = invocations act s + 1"
proof -
  let ?u = "s\<lparr>last_serial := (last_serial s)(act := n)\<rparr>"
  have u: "armed_for act ?u" "last_serial ?u act = n" "invocations act ?u = invocations act s"
    using assms by (simp_all add: armed_for_def invocations_def) (simp add: target_attached_def split: if_splits)
  have p: "same_hits act ?u (publish_hit act ?u)" by (rule same_hits_ops)
  have e: "armed_for act (sc_emit [Invoke act] t) = armed_for act t" "last_serial (sc_emit [Invoke act] t) = last_serial t"
    "invocations act (sc_emit [Invoke act] t) = invocations act t + 1" for t
    by (simp_all add: armed_for_def target_attached_def invocations_def sc_emit_def)
  have "armed_for act (publish_hit act ?u)" "last_serial (publish_hit act ?u) act = n"
    "invocations act (publish_hit act ?u) = invocations act s"
    using p u unfolding same_hits_def armed_for_def by (metis, metis, metis)
  moreover from this have "target_attached act (publish_hit act ?u)" by (simp only: armed_for_def)
  ultimately show ?thesis unfolding fire_hit_def Let_def by (simp add: e)
qed

lemma dispatch_other: "a \<noteq> act \<Longrightarrow> same_hits act s (dispatch_hit G a r s)"
  using fire_other by (simp add: dispatch_hit_def split: option.split)

lemma dispatch_own:
  assumes "armed_for act s"
  shows "armed_for act (dispatch_hit G act r s)
    \<and> last_serial (dispatch_hit G act r s) act = (case rom_serial G act r of None \<Rightarrow> last_serial s act | Some n \<Rightarrow> n)
    \<and> invocations act (dispatch_hit G act r s) = invocations act s
        + (case rom_serial G act r of None \<Rightarrow> 0 | Some n \<Rightarrow> if n = last_serial s act then 0 else 1)"
proof -
  have "act \<in> sub_open s" using assms by (simp add: armed_for_def)
  then show ?thesis using assms fire_own [OF assms]
    by (cases "rom_serial G act r") (simp_all add: dispatch_hit_def fresh_hit_def)
qed

text \<open>One look, and then any sequence of events.\<close>

definition looked_hits :: "genode \<Rightarrow> string \<Rightarrow> rom list \<Rightarrow> shortcuts \<Rightarrow> shortcuts \<Rightarrow> bool" where
  "looked_hits G act rs s t \<longleftrightarrow> armed_for act t
     \<and> invocations act t + 1 = invocations act s + length (remdups_adj (last_serial s act # List.map_filter (rom_serial G act) rs))
     \<and> last_serial t act = last (last_serial s act # List.map_filter (rom_serial G act) rs)"

lemma same_looked: "armed_for act s \<Longrightarrow> same_hits act s t \<Longrightarrow> looked_hits G act [] s t"
  by (simp add: looked_hits_def same_hits_def armed_for_def List.map_filter_simps)

lemma dispatch_looked: "armed_for act s \<Longrightarrow> looked_hits G act [r] s (dispatch_hit G act r s)"
  using dispatch_own [of act s G r]
  by (cases "rom_serial G act r") (auto simp: looked_hits_def List.map_filter_simps)

lemma remdups_adj_join:
  "length (remdups_adj (x # ys @ zs)) + 1 = length (remdups_adj (x # ys)) + length (remdups_adj (last (x # ys) # zs))"
proof (induction ys arbitrary: x)
  case (Cons y ys)
  then show ?case by (cases "x = y") simp_all
qed simp

lemma looked_trans:
  assumes "looked_hits G act rs s t" and "looked_hits G act rs' t u"
  shows "looked_hits G act (rs @ rs') s u"
proof -
  have m: "List.map_filter f (xs @ ys) = List.map_filter f xs @ List.map_filter f ys" for f :: "rom \<Rightarrow> u32 option" and xs ys
    by (simp add: List.map_filter_def)
  let ?a = "List.map_filter (rom_serial G act) rs" and ?b = "List.map_filter (rom_serial G act) rs'"
  have "last (last_serial s act # ?a @ ?b) = last (last (last_serial s act # ?a) # ?b)"
    by (cases ?b rule: rev_cases) simp_all
  then show ?thesis using assms remdups_adj_join [of "last_serial s act" ?a ?b] unfolding looked_hits_def m by simp
qed

lemma step_looked:
  assumes "armed_for act s" and "act \<in> set action_table" and "\<forall>l t d. e \<noteq> Sc_attach l t d"
  shows "looked_hits G act (looks_at act e) s (shortcut_step G e s)"
proof (cases e)
  case (Sc_rom r)
  have "same_hits act s (sc_on_rom r s)"
    by (auto simp: sc_on_rom_def same_hits_def target_attached_def invocations_def split: option.split)
  then show ?thesis using Sc_rom same_looked [OF assms(1)] by simp
next
  case (Sc_queued opens)
  have "same_hits act s (s\<lparr>queued := ps\<rparr>)" for ps by (simp add: same_hits_def target_attached_def invocations_def)
  then have "same_hits act s (shortcut_step G e s)"
    using Sc_queued by (auto intro: same_hits_trans [OF _ same_hits_bindings] split: list.split)
  then show ?thesis using Sc_queued same_looked [OF assms(1)] by simp
next
  case Sc_timer
  have "same_hits act s (s\<lparr>reemit_pending := False\<rparr>)" by (simp add: same_hits_def target_attached_def invocations_def)
  then have "same_hits act s (reemit G s)" using same_hits_trans same_hits_ops(5) by (simp add: reemit_def Let_def)
  then show ?thesis using Sc_timer same_looked [OF assms(1)] by simp
next
  case (Sc_hit a r)
  then show ?thesis using dispatch_looked [OF assms(1)] same_looked [OF assms(1) dispatch_other] by simp
next
  case (Sc_poll opens r hits)
  let ?s = "case r of None \<Rightarrow> s | Some payload \<Rightarrow> (if payload = [] then s else apply_bindings G opens payload s)"
  let ?D = "\<lambda>a. dispatch_hit G a (hits a)"
  have "same_hits act s ?s" by (simp add: same_hits_bindings split: option.split)
  then have 0: "looked_hits G act [] s ?s" by (rule same_looked [OF assms(1)])
  have step: "looked_hits G act (rs @ (if a = act then [hits act] else [])) s (?D a t)" if "looked_hits G act rs s t" for a rs t
  proof -
    have "armed_for act t" using that by (simp add: looked_hits_def)
    then have "looked_hits G act (if a = act then [hits act] else []) t (?D a t)"
      using dispatch_looked same_looked [OF _ dispatch_other] by simp
    then show ?thesis by (rule looked_trans [OF that])
  qed
  have "sc_live s" using assms(1) by (simp add: armed_for_def)
  then have e: "shortcut_step G e s = ?D ''dismiss'' (?D ''focus_next'' (?D ''launcher'' ?s))"
    using Sc_poll by (simp add: sc_poll_def action_table_def Let_def)
  have "looks_at act e = [] @ (if ''launcher'' = act then [hits act] else []) @ (if ''focus_next'' = act then [hits act] else [])
      @ (if ''dismiss'' = act then [hits act] else [])"
    using Sc_poll assms(2) by (auto simp: action_table_def)
  then show ?thesis unfolding e using step [OF step [OF step [OF 0]], of "''launcher''" "''focus_next''" "''dismiss''"]
    by (simp only: append_Nil append_assoc)
qed (use assms(3) in blast)

lemma hits_counted:
  assumes "armed_for act s" and "act \<in> set action_table" and "\<forall>l t d. Sc_attach l t d \<notin> set es"
  shows "invocations act (run (shortcut_step G) s es)
    = invocations act s + length (remdups_adj (last_serial s act # serials_seen G act es)) - 1"
proof -
  have "looked_hits G act (concat (map (looks_at act) es)) s (run (shortcut_step G) s es)"
    using assms(1,3)
  proof (induction es arbitrary: s)
    case Nil
    then show ?case using same_looked [OF Nil(1), of s G] by simp
  next
    case (Cons e es)
    have "looked_hits G act (looks_at act e) s (shortcut_step G e s)"
      using Cons.prems by (intro step_looked [OF _ assms(2)]) auto
    moreover from this have "looked_hits G act (concat (map (looks_at act) es)) (shortcut_step G e s) (run (shortcut_step G) s (e # es))"
      using Cons by (simp add: looked_hits_def)
    ultimately show ?case using looked_trans by simp
  qed
  then have "invocations act (run (shortcut_step G) s es) + 1
      = invocations act s + length (remdups_adj (last_serial s act # serials_seen G act es))"
    by (simp only: looked_hits_def serials_seen_def)
  then show ?thesis by linarith
qed

text \<open>
  A press is acted on once. While a subscription is open and its target attached, whatever
  broadcasts, signals and polls come in between, its action is called once for every change of the
  serial number that the looks at its report find, and never for a report seen before; the signal and
  the poll that both look at the same report do not count twice.
\<close>

theorem press_acted_on_once:
  assumes "armed_for act s" and "act \<in> set action_table" and "\<forall>l t d. Sc_attach l t d \<notin> set es"
  shows "invocations act (run (shortcut_step G) s es)
    = invocations act s + length (remdups_adj (last_serial s act # serials_seen G act es)) - 1"
  using assms by (rule hits_counted)

text \<open>
  The check and the act are two steps, and nothing keeps the signal handler and the poll, on two
  threads, from both checking first: then one press is acted on twice.
\<close>

lemma racing_looks_fire_twice:
  "armed_for act s \<Longrightarrow> fresh_hit G act r s = Some n
    \<Longrightarrow> invocations act (fire_hit act n (fire_hit act n s)) = invocations act s + 2"
  using fire_own [of act s n] fire_own [of act "fire_hit act n s" n] by simp

section \<open>An accepted value reaches the filter\<close>

text \<open>The daemon and the shell have tables of their own; they agree on what the daemon accepts.\<close>

lemma synonyms_agree:
  assumes "input_names G" and "key_known G (gstr 22 (resolve_key k))"
  shows "resolve_synonym k = resolve_key k"
proof (cases "map_of synonyms k")
  case (Some c)
  moreover have "\<forall>(a, c) \<in> set synonyms. map_of de_synonyms a = Some c" by code_simp
  moreover have "(k, c) \<in> set synonyms" using Some by (rule map_of_SomeD)
  ultimately have "map_of de_synonyms k = Some c" by blast
  then show ?thesis using Some by (simp add: resolve_key_def resolve_synonym_def)
next
  case None
  then have r: "resolve_key k = k" by (simp add: resolve_key_def)
  show ?thesis
  proof (cases "map_of de_synonyms k")
    case (Some c)
    have "\<forall>(a, c) \<in> set de_synonyms. map_of synonyms a \<noteq> None \<or> take 4 (gstr 22 a) \<notin> {''KEY_'', ''BTN_''}" by code_simp
    then have "take 4 (gstr 22 k) \<notin> {''KEY_'', ''BTN_''}" using map_of_SomeD [OF Some] None by fast
    then show ?thesis using assms unfolding r input_names_def by blast
  qed (simp add: r resolve_synonym_def)
qed

definition binding_of :: "string \<Rightarrow> string \<times> string list" where
  "binding_of l = (takeWhile (\<lambda>c. c \<noteq> TAB) (trim blank l), key_names (tl (dropWhile (\<lambda>c. c \<noteq> TAB) (trim blank l))))"

definition full_shortcut :: "string \<Rightarrow> string" where
  "full_shortcut l = shortcut_element (fst (binding_of l)) (concat (map key_element (snd (binding_of l))))"

lemma key_elements_all: "list_all (key_usable G) ks \<Longrightarrow> key_elements G ks = concat (map key_element ks)"
  by (induction ks) simp_all

lemma accepted_line:
  assumes "input_names G" and "binding_ok G l"
  shows "shortcut_line G l = full_shortcut l"
proof -
  obtain act sq where t: "trim blank l = act @ TAB # sq" "TAB \<notin> set act" "TAB \<notin> set sq" "act \<in> set actions"
    and k: "\<forall>k \<in> set (key_names sq). k \<noteq> [] \<and> length k < 32 \<and> key_known G (gstr 22 (resolve_key k))"
    using assms(2) unfolding binding_ok_def by blast
  have tw: "takeWhile (\<lambda>c. c \<noteq> TAB) (act @ TAB # sq) = act" "dropWhile (\<lambda>c. c \<noteq> TAB) (act @ TAB # sq) = TAB # sq"
    using t(2) by (induction act) auto
  have one: "length (filter (\<lambda>c. c = TAB) (trim blank l)) = 1" using one_tab t(1-3) by blast
  have "list_all (key_usable G) (key_names sq)"
    using k synonyms_agree [OF assms(1)] by (simp add: list_all_iff key_usable_def)
  moreover have "act \<noteq> [] \<and> length act < 32" "act \<in> set action_table" using t(4) by (auto simp: actions_def action_table_def)
  ultimately show ?thesis
    using one unfolding shortcut_line_def full_shortcut_def binding_of_def t(1) tw Let_def by (simp add: key_elements_all)
qed

lemma accepted_bindings:
  assumes "input_names G" and "shortcuts_valid G v = None"
  shows "build_shortcuts_xml G v = concat (map full_shortcut (lines_of v))"
proof -
  have "map (shortcut_line G) (lines_of v) = map full_shortcut (lines_of v)"
    using assms accepted_line by (intro map_cong) (auto simp: shortcuts_valid_iff)
  then show ?thesis unfolding build_shortcuts_xml_def by (rule arg_cong)
qed

lemma open_hit_reporters_frame:
  "\<exists>os. sc_out (fold (open_hit_reporter opens) as t) = sc_out t @ os"
  "last_bindings (fold (open_hit_reporter opens) as t) = last_bindings t"
proof (induction as arbitrary: t)
  case (Cons a as)
  { case 1
    have "\<exists>o1. sc_out (open_hit_reporter opens a t) = sc_out t @ o1" by (auto simp: sc_op_defs)
    then obtain o1 where "sc_out (open_hit_reporter opens a t) = sc_out t @ o1" ..
    moreover obtain o2 where "sc_out (fold (open_hit_reporter opens) as (open_hit_reporter opens a t)) = sc_out (open_hit_reporter opens a t) @ o2"
      using Cons.IH(1) by blast
    ultimately show ?case by simp }
  { case 2 show ?case using Cons.IH(2) [of "open_hit_reporter opens a t"] by (simp add: sc_op_defs) }
qed simp_all

lemma open_hit_subscribers_frame:
  "sc_out (fold (open_hit_subscriber opens) as t) = sc_out t"
  "last_bindings (fold (open_hit_subscriber opens) as t) = last_bindings t"
  by (induction as arbitrary: t) (simp_all add: open_hit_subscriber_def)

text \<open>New bindings are recorded, and the first thing that comes out is the configuration for them.\<close>

lemma apply_bindings_first:
  assumes "extract_shortcuts_bindings G payload = v" and "v \<noteq> last_bindings s" and "filter_open s"
  shows "last_bindings (apply_bindings G opens payload s) = v
    \<and> (\<exists>os. sc_out (apply_bindings G opens payload s) = sc_out s @ Filter_config (padded (merged_config G v)) # os)"
proof -
  note grow = open_hit_reporters_frame open_hit_subscribers_frame
  have grow': "\<exists>os. sc_out (open_shortcut_hit_reporter opens t) = sc_out t @ os"
    "last_bindings (open_shortcut_hit_reporter opens t) = last_bindings t" for t
    by (auto simp: sc_op_defs)
  let ?u = "(emit_event_filter_config (merged_config G v) (s\<lparr>last_bindings := v\<rparr>))\<lparr>reemit_pending := True\<rparr>"
  have u: "sc_out ?u = sc_out s @ [Filter_config (padded (merged_config G v))]" "last_bindings ?u = v"
    using assms(3) by (simp_all add: emit_event_filter_config_def sc_emit_def)
  let ?t = "fold (open_hit_reporter opens) action_table ?u"
  obtain o1 where o1: "sc_out ?t = sc_out ?u @ o1" using grow(1) by blast
  obtain o2 where o2: "sc_out (open_shortcut_hit_reporter opens ?t) = sc_out ?t @ o2" using grow'(1) by blast
  have a: "apply_bindings G opens payload s = sc_emit [Bindings_changed v]
      (fold (open_hit_subscriber opens) action_table (open_shortcut_hit_reporter opens ?t))"
    using assms(2) by (simp add: apply_bindings_def assms(1) Let_def)
  show ?thesis unfolding a by (simp add: sc_emit_def grow grow' u o1 o2)
qed

text \<open>
  C15: an accepted value reaches the event filter line by line. When \<open>sponge_configd\<close> accepts bindings
  that are not in force yet and its store does not keep it waiting, the broadcast that follows makes
  the shell publish first of all a configuration that has, in order, one shortcut with all its keys
  for every line of the value, although the two have different tables of key names.
\<close>

theorem bindings_reach_filter:
  assumes "lengths.good st" and "writable st ''shortcuts.bindings''" and "length v < 128"
    and "value_valid G (key_def_of ''shortcuts.bindings'') v = None"
    and "\<not> cfg_blocked (do_set G ''shortcuts.bindings'' v io roms st)"
    and "input_names G" and "filter_open s" and "v \<noteq> last_bindings s"
  shows "\<exists>pre x post. cfg_out (do_set G ''shortcuts.bindings'' v io roms st) = cfg_out st @ pre @ Broadcast x # post
    \<and> (\<forall>bytes. parse_xml G bytes = Some x \<longrightarrow>
         last_bindings (apply_bindings G opens bytes s) = v
         \<and> (\<exists>os. sc_out (apply_bindings G opens bytes s) = sc_out s
              @ Filter_config (padded (filter_head @ concat (map full_shortcut (lines_of v)) @ filter_tail)) # os))"
proof -
  have k: "find_key ''shortcuts.bindings'' = Some 12" by code_simp
  have d: "key_def_of ''shortcuts.bindings'' = registry ! 12" by (simp add: key_def_of_def k)
  have "kind (registry ! 12) = Kind_Shortcuts" by code_simp
  then have v: "shortcuts_valid G v = None"
    using assms(4) by (cases "v = []") (simp_all add: d value_valid_def split: if_splits)
  have k: "''shortcuts.bindings'' \<notin> bake_keys" by simp
  obtain pre x post where o: "cfg_out (do_set G ''shortcuts.bindings'' v io roms st) = cfg_out st @ pre @ Broadcast x # post"
    "\<And>o'. o' \<in> set (pre @ post) \<Longrightarrow> \<forall>y. o' \<noteq> Broadcast y"
    and view: "\<And>k w. length k < 64 \<Longrightarrow> ((cfg_lookup st)(''shortcuts.bindings'' \<mapsto> v)) k = Some w \<Longrightarrow> first_key x k = Some (key_node k w)"
    using accepted_set_broadcast [OF assms(1) k assms(2,3,4,5)] by blast
  have x: "first_key x ''shortcuts.bindings'' = Some (key_node ''shortcuts.bindings'' v)" by (rule view) simp_all
  have "last_bindings (apply_bindings G opens bytes s) = v
      \<and> (\<exists>os. sc_out (apply_bindings G opens bytes s) = sc_out s
           @ Filter_config (padded (filter_head @ concat (map full_shortcut (lines_of v)) @ filter_tail)) # os)"
    if "parse_xml G bytes = Some x" for bytes
  proof -
    have "extract_shortcuts_bindings G bytes = v"
      using that x assms(3) by (simp add: extract_shortcuts_bindings_def attr_str_def)
    from apply_bindings_first [OF this assms(8,7)]
    show ?thesis by (simp add: merged_config_def accepted_bindings [OF assms(6) v])
  qed
  with o(1) show ?thesis by blast
qed

section \<open>What goes wrong\<close>

text \<open>
  A broadcast that cannot be parsed unbinds every shortcut. It is taken for one without bindings:
  a configuration without any shortcut is published, and stays in force until the next broadcast
  that can be read.
\<close>

theorem unreadable_broadcast_unbinds:
  assumes "parse_xml G payload = None" and "last_bindings s \<noteq> []" and "filter_open s"
  shows "last_bindings (apply_bindings G opens payload s) = []
    \<and> (\<exists>os. sc_out (apply_bindings G opens payload s) = sc_out s @ Filter_config (padded (filter_head @ filter_tail)) # os)"
proof -
  have "extract_shortcuts_bindings G payload = []" using assms(1) by (simp add: extract_shortcuts_bindings_def)
  moreover have "merged_config G [] = filter_head @ filter_tail"
    by (simp add: merged_config_def build_shortcuts_xml_def lines_of_def)
  ultimately show ?thesis using apply_bindings_first [of G payload "[]" s opens] assms(2,3) by simp
qed

text \<open>
  A binding with an unknown key is not left out: a shortcut of the keys before it is published, with no
  key at all if it is the first.
\<close>

lemma broken_binding_cut:
  assumes "list_all (key_usable G) ks" and "\<not> key_usable G k"
  shows "key_elements G (ks @ k # rest) = concat (map key_element ks)"
  using assms by (induction ks) simp_all

section \<open>Concrete runs\<close>

text \<open>A framework with the broadcast of three bindings, and a shell that is asked to follow it.\<close>

definition demo_bindings :: string where
  "demo_bindings = ''launcher'' @ TAB # ''Super'' @ NL # ''focus_next'' @ TAB # ''Alt-Tab'' @ NL # ''dismiss'' @ TAB # ''Escape''"

definition keyed_genode :: genode where
  "keyed_genode = bare_genode\<lparr>key_known := (\<lambda>k. take 4 k = ''KEY_''),
     parse_xml := (\<lambda>t. if t = ''<c'' then Some (node ''config'' [] [leaf ''shortcuts'' [(''source'', ''controller'')]])
       else if t = ''<b'' then Some (node ''config'' [] [key_node ''shortcuts.bindings'' demo_bindings]) else None)\<rparr>"

definition wired_shortcuts :: shortcuts where
  "wired_shortcuts = shortcuts_construct keyed_genode (Some ''<c'') (Some (Some ''<b''))"

definition follow :: "shortcut_event list" where
  "follow = [Sc_queued (\<lambda>l. True), Sc_attach True True True]"

lemma keyed_start: "sc_start keyed_genode wired_shortcuts"
  by (auto simp: sc_start_def input_names_def wired_shortcuts_def keyed_genode_def)

lemma wired_shortcuts_eq:
  "sc_live wired_shortcuts" "filter_open wired_shortcuts" "queued wired_shortcuts = [''<b'']" "sc_out wired_shortcuts = []"
  "last_bindings wired_shortcuts = []" "hit_open wired_shortcuts = {}" "sub_open wired_shortcuts = {}" "last_serial wired_shortcuts = (\<lambda>a. 0)"
  by (simp_all add: wired_shortcuts_def shortcuts_construct_def shortcuts_asks_for_controller_def source_gate_def keyed_genode_def
      kids_of_type_def source_is_def attr_str_def sc_on_rom_def)

lemma demo_extract: "extract_shortcuts_bindings keyed_genode ''<b'' = demo_bindings"
  by (simp add: extract_shortcuts_bindings_def keyed_genode_def first_key_def kids_of_type_def attr_str_def key_node_def demo_bindings_def)

theorem filter_config_fits_witness:
  "\<not> overrun (run (shortcut_step keyed_genode) wired_shortcuts follow)"
  using filter_config_fits [OF keyed_start refl, of follow] by blast

theorem filter_follows_bindings_witness:
  "last (filters (run (shortcut_step keyed_genode) wired_shortcuts follow)) = padded (merged_config keyed_genode demo_bindings)"
proof -
  let ?s = "run (shortcut_step keyed_genode) wired_shortcuts follow"
  have b: "last_bindings (apply_bindings keyed_genode (\<lambda>l. True) ''<b'' (wired_shortcuts\<lparr>queued := []\<rparr>)) = demo_bindings
    \<and> (\<exists>os. sc_out (apply_bindings keyed_genode (\<lambda>l. True) ''<b'' (wired_shortcuts\<lparr>queued := []\<rparr>))
        = Filter_config (padded (merged_config keyed_genode demo_bindings)) # os)"
    using apply_bindings_first [OF demo_extract, of "wired_shortcuts\<lparr>queued := []\<rparr>" "\<lambda>l. True"]
    by (simp add: wired_shortcuts_eq demo_bindings_def)
  have s: "?s = (apply_bindings keyed_genode (\<lambda>l. True) ''<b'' (wired_shortcuts\<lparr>queued := []\<rparr>))
      \<lparr>sc_launcher := True, sc_tasklist := True, sc_dismisser := True\<rparr>"
    by (simp add: follow_def wired_shortcuts_eq)
  have "filters ?s \<noteq> []" "last_bindings ?s = demo_bindings"
    using b unfolding s by (auto simp: filters_def List.map_filter_simps)
  then show ?thesis using filter_follows_bindings [OF keyed_start refl, of follow] by simp
qed

definition pressed :: "nat \<Rightarrow> rom" where
  "pressed n = Rom_node (leaf ''shortcut'' [(''name'', ''launcher''), (''serial'', replicate n CHR ''1'')])"

definition counting_genode :: genode where
  "counting_genode = keyed_genode\<lparr>to_u32 := (\<lambda>t. Some (of_nat (length t)))\<rparr>"

definition armed_shortcuts :: shortcuts where
  "armed_shortcuts = wired_shortcuts\<lparr>sub_open := {''launcher''}, sc_launcher := True\<rparr>"

theorem press_acted_on_once_witness:
  "invocations ''launcher'' (run (shortcut_step counting_genode) armed_shortcuts
     [Sc_hit ''launcher'' (pressed 1), Sc_poll (\<lambda>l. True) None (\<lambda>a. pressed 1), Sc_hit ''launcher'' (pressed 2)]) = 2"
proof -
  let ?es = "[Sc_hit ''launcher'' (pressed 1), Sc_poll (\<lambda>l. True) None (\<lambda>a. pressed 1), Sc_hit ''launcher'' (pressed 2)]"
  have a: "armed_for ''launcher'' armed_shortcuts" "last_serial armed_shortcuts ''launcher'' = 0" "invocations ''launcher'' armed_shortcuts = 0"
    by (simp_all add: armed_for_def armed_shortcuts_def wired_shortcuts_eq target_attached_def invocations_def)
  have "rom_serial counting_genode ''launcher'' (pressed n) = Some (of_nat n)" for n
    by (simp add: rom_serial_def pressed_def attr_str_def attr_u32_def counting_genode_def)
  then have s: "serials_seen counting_genode ''launcher'' ?es = [1, 1, 2]"
    by (simp add: serials_seen_def List.map_filter_simps)
  show ?thesis
    using press_acted_on_once [OF a(1), of ?es counting_genode] a(2,3) unfolding s by (simp add: action_table_def)
qed

theorem unreadable_broadcast_unbinds_witness:
  "last_bindings (apply_bindings keyed_genode (\<lambda>l. True) ''?'' (wired_shortcuts\<lparr>last_bindings := demo_bindings\<rparr>)) = []"
proof -
  have "parse_xml keyed_genode ''?'' = None" by (simp add: keyed_genode_def)
  then show ?thesis
    using unreadable_broadcast_unbinds [of keyed_genode "''?''" "wired_shortcuts\<lparr>last_bindings := demo_bindings\<rparr>" "\<lambda>l. True"]
    by (simp add: wired_shortcuts_eq demo_bindings_def)
qed

definition tab_dismisses :: string where
  "tab_dismisses = ''dismiss'' @ TAB # ''Tab''"

definition after_bind :: cfgd where
  "after_bind = set_value 12 tab_dismisses fresh_cfg"

definition binding_genode :: genode where
  "binding_genode = bare_genode\<lparr>key_known := (\<lambda>k. take 4 k = ''KEY_''), parse_xml := (\<lambda>s. Some (broadcast_xml after_bind))\<rparr>"

theorem bindings_reach_filter_witness:
  "last_bindings (apply_bindings binding_genode (\<lambda>l. True) ''x'' wired_shortcuts) = tab_dismisses
   \<and> cfg_out (do_set binding_genode ''shortcuts.bindings'' tab_dismisses (ce_save quiet_env) None fresh_cfg)
       = cfg_out fresh_cfg @ [Broadcast (broadcast_xml after_bind), Result Vct (leaf ''result''
           [(''status'', ''ok''), (''op'', ''set''), (''key'', ''shortcuts.bindings''), (''value'', tab_dismisses)])]"
proof -
  let ?d = "do_set binding_genode ''shortcuts.bindings'' tab_dismisses (ce_save quiet_env) None fresh_cfg"
  have k: "find_key ''shortcuts.bindings'' = Some 12" by code_simp
  have i: "instantiated fresh_cfg = []" "store_enabled fresh_cfg = False" "cfg_blocked fresh_cfg = False" "active_channel fresh_cfg = Vct"
    by (simp_all add: fresh_cfg_def fill_defaults_def cfg_init_def)
  have w: "writable fresh_cfg ''shortcuts.bindings''" by (simp add: writable_def k i)
  have n: "input_names binding_genode" by (simp add: input_names_def binding_genode_def)
  have kd: "kind (registry ! 12) = Kind_Shortcuts" by code_simp
  have "shortcuts_valid binding_genode tab_dismisses = None"
    by (simp add: tab_dismisses_def shortcuts_valid_def lines_of_def binding_valid_def trim_def blank_def actions_def
        key_names_def key_name_valid_def resolve_key_def synonyms_def binding_genode_def)
  then have v: "value_valid binding_genode (registry ! 12) tab_dismisses = None"
    by (simp add: value_valid_def kd tab_dismisses_def)
  then have v': "value_valid binding_genode (key_def_of ''shortcuts.bindings'') tab_dismisses = None"
    by (simp add: key_def_of_def k)
  have l: "length tab_dismisses < 128" by (simp add: tab_dismisses_def)
  have d: "?d = publish_set ''shortcuts.bindings'' tab_dismisses (ce_save quiet_env) after_bind"
    using v by (simp add: do_set_unfold resolve_slot_def write_slot_def Let_def k i after_bind_def)
  have a: "store_enabled after_bind = False" "cfg_blocked after_bind = False"
    "cfg_out after_bind = cfg_out fresh_cfg" "active_channel after_bind = Vct"
    using i by (simp_all add: after_bind_def set_value_def)
  have nb: "\<not> cfg_blocked ?d"
    using a by (simp add: d publish_set_def unless_blocked_def save_store_def report_defs)
  have o: "cfg_out ?d = cfg_out fresh_cfg @ [Broadcast (broadcast_xml after_bind), Result Vct (leaf ''result''
           [(''status'', ''ok''), (''op'', ''set''), (''key'', ''shortcuts.bindings''), (''value'', tab_dismisses)])]"
    using a l by (simp add: d publish_set_out)
  have f: "filter_open wired_shortcuts" "tab_dismisses \<noteq> last_bindings wired_shortcuts"
    by (simp_all add: wired_shortcuts_eq tab_dismisses_def)
  obtain pre x post where x: "cfg_out ?d = cfg_out fresh_cfg @ pre @ Broadcast x # post"
    and s: "parse_xml binding_genode ''x'' = Some x \<longrightarrow>
      last_bindings (apply_bindings binding_genode (\<lambda>l. True) ''x'' wired_shortcuts) = tab_dismisses"
    using bindings_reach_filter [OF fresh_cfg_good w l v' nb n f] by blast
  have "x = broadcast_xml after_bind"
    using x unfolding o by (auto simp: Cons_eq_append_conv append_eq_Cons_conv)
  then show ?thesis using s o by (simp add: binding_genode_def)
qed

end
