(* ===== verification/Shell_Settings.thy ===== *)
theory Shell_Settings
  imports Shortcuts Vct_Client
begin

text \<open>
  \<open>sponge-de/config/settings_controller.{h,cc}\<close>: the shell's own writes to the configuration, on a
  channel of its own, with the client that \<open>vct\<close> uses too; and the settings dialog. What the result
  ROM of the channel holds at the polls of a request is \<open>answers G 0\<close>. Log lines are left out, the
  waits and requests of the client are kept.
\<close>

datatype settings_out =
    Client_io vct_out
  | Request_succeeded string string
  | Request_failed string string
  | Dialog_shown
  | Dialog_raised

text \<open>The dialog: absent, open, or closed and waiting to be deleted by the event loop.\<close>

datatype dialog = No_dialog | Open_dialog | Closed_dialog

record settings =
  st_client :: bool
  st_dialog :: dialog
  st_out :: "settings_out list"

definition settings_new :: settings where
  "settings_new = \<lparr>st_client = False, st_dialog = No_dialog, st_out = []\<rparr>"

definition st_emit :: "settings_out list \<Rightarrow> settings \<Rightarrow> settings" where
  "st_emit os s = s\<lparr>st_out := st_out s @ os\<rparr>"

definition de_config_set :: "vct_env \<Rightarrow> string \<Rightarrow> string \<Rightarrow> xml option \<times> vct_out list" where
  "de_config_set G key v =
     send_and_poll G 0 ''de_config_request'' [(''op'', ''set''), (''key'', key), (''value'', v)]
       (config_match ''set'' key (Some v))"

text \<open>What the answer says.\<close>

definition set_outcome :: "string \<Rightarrow> string \<Rightarrow> xml option \<Rightarrow> settings_out" where
  "set_outcome key v r =
     (case r of
        None \<Rightarrow> Request_failed key ''configd did not answer (timeout)''
      | Some x \<Rightarrow>
          (if attr_str 32 x ''status'' = ''ok'' then Request_succeeded key v
           else Request_failed key (attr_str 256 x ''error'')))"

text \<open>
  \<open>opens\<close>: whether the three sessions of the client can be opened. When they cannot, the constructor
  of the client throws out of the slot, and the result is \<open>None\<close>; the branch for a client that is
  still not there after its construction is never taken.
\<close>

definition request_set :: "vct_env \<Rightarrow> bool \<Rightarrow> string \<Rightarrow> string \<Rightarrow> settings \<Rightarrow> settings option" where
  "request_set G opens key v s =
     (if \<not> st_client s \<and> \<not> opens then None
      else
        let (r, os) = de_config_set G key v
        in Some (st_emit (map Client_io os @ [set_outcome key v r]) (s\<lparr>st_client := True\<rparr>)))"

definition open_settings_dialog :: "settings \<Rightarrow> settings" where
  "open_settings_dialog s =
     (if st_dialog s \<noteq> No_dialog then st_emit [Dialog_raised] s
      else st_emit [Dialog_shown, Dialog_raised] (s\<lparr>st_dialog := Open_dialog\<rparr>))"

definition close_settings_dialog :: "settings \<Rightarrow> settings" where
  "close_settings_dialog s = (if st_dialog s = No_dialog then s else s\<lparr>st_dialog := Closed_dialog\<rparr>)"

text \<open>The event loop deletes a closed dialog, and the pointer to it is cleared.\<close>

definition dialog_destroyed :: "settings \<Rightarrow> settings" where
  "dialog_destroyed s = (if st_dialog s = Closed_dialog then s\<lparr>st_dialog := No_dialog\<rparr> else s)"

definition dialog_is_open :: "settings \<Rightarrow> bool" where
  "dialog_is_open s \<longleftrightarrow> st_dialog s \<noteq> No_dialog"

section \<open>A click on Apply\<close>

definition set_request :: "string \<Rightarrow> string \<Rightarrow> xml" where
  "set_request key v = leaf ''request'' [(''op'', ''set''), (''key'', key), (''value'', v)]"

lemma first_match:
  assumes "k < n" and "roms k = Rom_node x" and "ok x" and "\<forall>i < k. \<forall>y. roms i = Rom_node y \<longrightarrow> \<not> ok y"
  shows "fst (poll_from roms ok 0 n) = Some x"
proof -
  let ?P = "\<lambda>i. case roms i of Rom_node x \<Rightarrow> ok x | _ \<Rightarrow> False"
  have "\<not> ?P i" if "i < k" for i using assms(4) that by (cases "roms i") auto
  then have "find ?P [0..<n] = Some k" using assms(1-3) by (auto simp: find_Some_iff)
  then show ?thesis using assms(2) by (simp add: poll_from_result)
qed

lemma no_match:
  assumes "\<forall>i < n. \<forall>y. roms i = Rom_node y \<longrightarrow> \<not> ok y"
  shows "fst (poll_from roms ok 0 n) = None"
proof -
  have "find (\<lambda>i. case roms i of Rom_node x \<Rightarrow> ok x | _ \<Rightarrow> False) [0..<n] = None"
    using assms by (auto simp: find_None_iff split: rom.split)
  then show ?thesis by (simp add: poll_from_result)
qed

text \<open>Every request that returns ends with one outcome.\<close>

lemma request_set_outcome:
  assumes "st_client s \<or> opens"
  shows "\<exists>s'. request_set G opens key v s = Some s' \<and> st_client s' \<and>
    st_out s' = st_out s @ map Client_io (snd (de_config_set G key v))
      @ [set_outcome key v (fst (poll_from (answers G 0) (config_match ''set'' key (Some v)) 0 60))]"
  using assms by (auto simp: request_set_def de_config_set_def send_and_poll_def st_emit_def case_prod_beta)

text \<open>The daemon's last word on a write of a key that can be written.\<close>

lemma set_refused:
  assumes "lengths.good st" and "key \<notin> bake_keys" and "writable st key" and "value_valid G (key_def_of key) v = Some why"
  obtains st' where "do_set G key v io roms st = report_error ''set'' key why st'"
    and "\<forall>k. k \<noteq> key \<longrightarrow> cfg_lookup st' k = cfg_lookup st k" and "active_channel st' = active_channel st" and "cfg_blocked st' = cfg_blocked st"
proof (cases "find_key key")
  case (Some i)
  then show thesis using that [of st] assms
    by (simp add: do_set_unfold resolve_slot_def write_slot_def Let_def key_def_of_def writable_def)
next
  case None
  have sh: "shape_inv st" using assms(1) by (simp add: lengths.good_def)
  have pk: "pattern_key key" using assms(3) None by (simp add: writable_def)
  show thesis
  proof (cases "find_instantiated st key")
    case (Some i)
    have i: "i < length (instantiated st)" using find_inst_Some [OF Some] by simp
    then have "clone_of (kname (instantiated st ! i)) = instantiated st ! i"
      using sh nth_mem [of i "instantiated st"] by (simp add: shape_inv_def)
    then have "instantiated st ! i = clone_of key" using find_inst_Some [OF Some] by simp
    then show thesis using that [of st] Some None i assms
      by (simp add: do_set_unfold resolve_slot_def write_slot_def Let_def key_def_of_def)
  next
    case fresh: None
    then have room: "length (instantiated st) < MAX_PATTERN_KEYS" using assms(3) None by (simp add: writable_def)
    let ?s1 = "st\<lparr>instantiated := instantiated st @ [clone_of key]\<rparr>"
    note fr = lookup_fresh [OF assms(1) None pk fresh room]
    have "do_set G key v io roms st = report_error ''set'' key why ?s1"
      using assms(2,4) None fresh fr(3) [of G]
      by (simp add: do_set_unfold resolve_slot_def write_slot_def Let_def key_def_of_def)
    then show thesis using that [of ?s1] fr(1) by simp
  qed
qed

text \<open>The daemon serves a request of the shell that is not the last one repeated.\<close>

lemma de_request_served:
  assumes "key \<noteq> []" and "length key < 128" and "length v < 128" and "request_sig (set_request key v) \<noteq> last_sig st"
  shows "handle_de_request G (Rom_node (set_request key v)) io roms st
    = do_set G key v io roms (st\<lparr>de_channel := True, active_channel := De_side, last_sig := request_sig (set_request key v)\<rparr>)"
  using assms by (simp add: handle_de_request_def ensure_de_channel_def handle_request_impl_def dispatch_def set_request_def attr_str_def Let_def)

lemma de_request_decided:
  assumes "lengths.good st" and "key \<notin> bake_keys" and "writable st key" and "key \<noteq> []" and "length key < 128" and "length v < 128"
    and "request_sig (set_request key v) \<noteq> last_sig st"
    and t: "t = handle_de_request G (Rom_node (set_request key v)) io roms st" and nb: "\<not> cfg_blocked t"
  shows "\<exists>out x. cfg_out t = out @ [Result De_side x] \<and> has_type x ''result'' \<and> config_match ''set'' key (Some v) x
    \<and> (case value_valid G (key_def_of key) v of
         None \<Rightarrow> attr x ''status'' = Some ''ok'' \<and> cfg_lookup t = (cfg_lookup st)(key \<mapsto> v)
       | Some why \<Rightarrow> attr x ''status'' = Some ''error'' \<and> attr x ''error'' = Some why \<and> (\<forall>k. k \<noteq> key \<longrightarrow> cfg_lookup t k = cfg_lookup st k))"
proof -
  let ?st = "st\<lparr>de_channel := True, active_channel := De_side, last_sig := request_sig (set_request key v)\<rparr>"
  have same: "same_store st ?st" by (simp add: same_store_def)
  have l: "cfg_lookup ?st = cfg_lookup st" by (rule cfg_lookup_cong [OF same])
  have g: "lengths.good ?st" using assms(1) lengths.good_cong [OF same] by simp
  have w: "writable ?st key" using assms(3) by (simp add: writable_def find_instantiated_def split: option.splits)
  have e: "t = do_set G key v io roms ?st" unfolding t by (rule de_request_served [OF assms(4-7)])
  show ?thesis
  proof (cases "value_valid G (key_def_of key) v")
    case None
    obtain s1 where s1: "do_set G key v io roms ?st = publish_set key v io s1" "cfg_lookup s1 = (cfg_lookup ?st)(key \<mapsto> v)"
      "active_channel s1 = active_channel ?st"
      using set_accepted [OF g assms(2) w assms(6) None] by metis
    have "\<not> (if store_enabled s1 then snd (save_ops (store_text s1) io) else cfg_blocked s1)"
      using nb e s1(1) by (auto simp: publish_set_def unless_blocked_def save_store_def report_defs split: if_splits prod.splits)
    then have "\<exists>out. cfg_out t = out @ [Result De_side (leaf ''result'' [(''status'', ''ok''), (''op'', ''set''),
        (''key'', gstr 128 key), (''value'', gstr 128 v)])]"
      using s1(3) unfolding e s1(1) publish_set_out by simp
    moreover have "cfg_lookup t = (cfg_lookup st)(key \<mapsto> v)"
      using cfg_lookup_cong [OF publish_set_frame(1)] s1(1,2) l e by simp
    ultimately show ?thesis using None by (auto simp: config_match_def attr_str_def)
  next
    case (Some why)
    obtain st' where s1: "do_set G key v io roms ?st = report_error ''set'' key why st'"
      "\<forall>k. k \<noteq> key \<longrightarrow> cfg_lookup st' k = cfg_lookup ?st k" "active_channel st' = active_channel ?st"
      using set_refused [OF g assms(2) w Some] by metis
    have "cfg_lookup (report_error ''set'' key why st') = cfg_lookup st'" by (rule cfg_lookup_cong) (rule same_store_report)
    then show ?thesis using Some s1 l e by (auto simp: report_defs config_match_def attr_str_def)
  qed
qed


section \<open>What the user is told wrongly\<close>

definition refusal :: "string \<Rightarrow> string \<Rightarrow> xml" where
  "refusal key why = leaf ''result'' [(''status'', ''error''), (''op'', ''set''), (''key'', key), (''error'', why)]"

text \<open>
  An old refusal is believed. The refusal of a value does not say which value it is about; when the
  result ROM still holds the refusal of an earlier write of the same key at the first poll, the shell
  reports the earlier complaint, although the daemon accepts the new value and holds it.
\<close>

theorem stale_refusal_believed:
  assumes "lengths.good st" and "key \<notin> bake_keys" and "writable st key" and "key \<noteq> []" and "length key < 128" and "length v < 128"
    and "request_sig (set_request key v) \<noteq> last_sig st"
    and "t = handle_de_request G (Rom_node (set_request key v)) io roms st" and "\<not> cfg_blocked t"
    and "value_valid G (key_def_of key) v = None" and "st_client s" and "answers V 0 0 = Rom_node (refusal key why)"
  shows "\<exists>s'. request_set V opens key v s = Some s' \<and> last (st_out s') = Request_failed key (gstr 256 why)
    \<and> cfg_lookup t = (cfg_lookup st)(key \<mapsto> v)"
proof -
  have "fst (poll_from (answers V 0) (config_match ''set'' key (Some v)) 0 60) = Some (refusal key why)"
    using assms(5,12) by (intro first_match [where k = 0]) (auto simp: config_match_def refusal_def attr_str_def)
  then obtain s' where "request_set V opens key v s = Some s'" "last (st_out s') = set_outcome key v (Some (refusal key why))"
    using request_set_outcome [of s opens V key v] assms(11) by force
  moreover have "set_outcome key v (Some (refusal key why)) = Request_failed key (gstr 256 why)"
    by (simp add: set_outcome_def refusal_def attr_str_def)
  ultimately show ?thesis using de_request_decided [OF assms(1-9)] assms(10) by auto
qed

text \<open>
  A write that repeats the last one of the other client is never answered. The daemon keeps one
  signature for both channels; when \<open>vct\<close> wrote the same value last, the shell's write is passed over
  without an answer, and the shell reports a time-out for a value that is in force.
\<close>

theorem repeated_write_times_out:
  assumes "last_sig st = request_sig (set_request key v)" and "t = handle_de_request G (Rom_node (set_request key v)) io roms st"
    and "st_client s" and "\<forall>i < 60. \<forall>y. answers V 0 i = Rom_node y \<longrightarrow> \<not> config_match ''set'' key (Some v) y"
  shows "cfg_out t = cfg_out st \<and> cfg_lookup t = cfg_lookup st
    \<and> (\<exists>s'. request_set V opens key v s = Some s' \<and> last (st_out s') = Request_failed key ''configd did not answer (timeout)'')"
proof -
  have e: "t = st\<lparr>de_channel := True, active_channel := De_side\<rparr>"
    using assms(1,2) by (simp add: handle_de_request_def ensure_de_channel_def handle_request_impl_def set_request_def Let_def)
  have "cfg_lookup t = cfg_lookup st" by (rule cfg_lookup_cong) (simp add: e same_store_def)
  moreover have "fst (poll_from (answers V 0) (config_match ''set'' key (Some v)) 0 60) = None" by (rule no_match [OF assms(4)])
  then have "\<exists>s'. request_set V opens key v s = Some s' \<and> last (st_out s') = Request_failed key ''configd did not answer (timeout)''"
    using request_set_outcome [of s opens V key v] assms(3) by (force simp: set_outcome_def)
  ultimately show ?thesis using e by simp
qed

section \<open>Concrete writes\<close>

definition polling :: "(nat \<Rightarrow> rom) \<Rightarrow> vct_env" where
  "polling roms = \<lparr>key_known = \<lambda>k. False, parse_xml = \<lambda>s. None, parse_hid = \<lambda>s. Raw s,
     to_u32 = \<lambda>s. None, to_bool = \<lambda>s. None, ser_config = \<lambda>x. None, print_nat = \<lambda>n. [],
     report_fits = \<lambda>b n. True, print_bytes = \<lambda>n. [], num_bytes = \<lambda>s. 0, state_rom = None,
     rom_at = \<lambda>l k. Rom_invalid, text_at = \<lambda>l. None, answers = \<lambda>r. roms, post_clock = 0, post_ok = True\<rparr>"

lemma answers_polling [simp]: "answers (polling roms) r = roms"
  by (simp add: polling_def)

definition clock_written :: cfgd where
  "clock_written = handle_de_request bare_genode (Rom_node (set_request ''clock.format'' ''HH'')) (ce_save quiet_env) None fresh_cfg"

definition clock_ok :: xml where
  "clock_ok = leaf ''result'' [(''status'', ''ok''), (''op'', ''set''), (''key'', ''clock.format''), (''value'', ''HH'')]"

lemma clock_facts:
  "writable fresh_cfg ''clock.format''" "value_valid bare_genode (key_def_of ''clock.format'') ''HH'' = None"
  "request_sig (set_request ''clock.format'' ''HH'') \<noteq> last_sig fresh_cfg"
  "\<not> cfg_blocked clock_written" "cfg_out clock_written = (cfg_out fresh_cfg @ [Broadcast (broadcast_xml (set_value 5 ''HH''
      (fresh_cfg\<lparr>de_channel := True, active_channel := De_side, last_sig := request_sig (set_request ''clock.format'' ''HH'')\<rparr>)))])
      @ [Result De_side clock_ok]"
  "last_sig clock_written = request_sig (set_request ''clock.format'' ''HH'')"
proof -
  let ?st = "fresh_cfg\<lparr>de_channel := True, active_channel := De_side, last_sig := request_sig (set_request ''clock.format'' ''HH'')\<rparr>"
  have k: "find_key ''clock.format'' = Some 5" by code_simp
  have i: "instantiated fresh_cfg = []" "store_enabled fresh_cfg = False" "cfg_blocked fresh_cfg = False" "last_sig fresh_cfg = []"
    by (simp_all add: fresh_cfg_def fill_defaults_def cfg_init_def)
  show "writable fresh_cfg ''clock.format''" by (simp add: writable_def k i)
  have v: "value_valid bare_genode (registry ! 5) ''HH'' = None"
    by (simp add: value_valid_def registry_def format_valid_def printable_def)
  then show "value_valid bare_genode (key_def_of ''clock.format'') ''HH'' = None" by (simp add: key_def_of_def k)
  show r: "request_sig (set_request ''clock.format'' ''HH'') \<noteq> last_sig fresh_cfg"
    by (simp add: i request_sig_def set_request_def attr_str_def)
  have "clock_written = do_set bare_genode ''clock.format'' ''HH'' (ce_save quiet_env) None ?st"
    unfolding clock_written_def using r by (intro de_request_served) simp_all
  also have "\<dots> = publish_set ''clock.format'' ''HH'' (ce_save quiet_env) (set_value 5 ''HH'' ?st)"
    using v by (simp add: do_set_unfold resolve_slot_def write_slot_def Let_def k i)
  finally have e: "clock_written = publish_set ''clock.format'' ''HH'' (ce_save quiet_env) (set_value 5 ''HH'' ?st)" .
  have a: "store_enabled (set_value 5 ''HH'' ?st) = False" "cfg_blocked (set_value 5 ''HH'' ?st) = False"
    "cfg_out (set_value 5 ''HH'' ?st) = cfg_out fresh_cfg" "active_channel (set_value 5 ''HH'' ?st) = De_side"
    using i by (simp_all add: set_value_def)
  show "\<not> cfg_blocked clock_written"
    using a by (simp add: e publish_set_def unless_blocked_def save_store_def report_defs)
  show "cfg_out clock_written = (cfg_out fresh_cfg @ [Broadcast (broadcast_xml (set_value 5 ''HH'' ?st))]) @ [Result De_side clock_ok]"
    using a by (simp add: e publish_set_out clock_ok_def)
  show "last_sig clock_written = request_sig (set_request ''clock.format'' ''HH'')"
    using a(1,2) by (simp add: e publish_set_def unless_blocked_def save_store_def report_defs set_value_def)
qed


theorem stale_refusal_believed_witness:
  "\<exists>s'. request_set (polling (\<lambda>k. Rom_node (refusal ''clock.format'' ''too long''))) True ''clock.format'' ''HH''
       (settings_new\<lparr>st_client := True\<rparr>) = Some s'
     \<and> last (st_out s') = Request_failed ''clock.format'' ''too long'' \<and> cfg_lookup clock_written ''clock.format'' = Some ''HH''"
proof -
  let ?V = "polling (\<lambda>k. Rom_node (refusal ''clock.format'' ''too long''))"
  show ?thesis
    using stale_refusal_believed [OF fresh_cfg_good _ clock_facts(1) _ _ _ clock_facts(3) clock_written_def clock_facts(4) clock_facts(2),
        of "settings_new\<lparr>st_client := True\<rparr>" ?V "''too long''" True]
    by force
qed

theorem repeated_write_times_out_witness:
  "cfg_out (handle_de_request bare_genode (Rom_node (set_request ''clock.format'' ''HH'')) (ce_save quiet_env) None clock_written) = cfg_out clock_written
   \<and> (\<exists>s'. request_set (polling (\<lambda>k. Rom_invalid)) True ''clock.format'' ''HH'' (settings_new\<lparr>st_client := True\<rparr>) = Some s'
     \<and> last (st_out s') = Request_failed ''clock.format'' ''configd did not answer (timeout)'')"
proof -
  have c: "st_client (settings_new\<lparr>st_client := True\<rparr>)" by simp
  show ?thesis
    using repeated_write_times_out [OF clock_facts(6) refl c, of "polling (\<lambda>k. Rom_invalid)" bare_genode "ce_save quiet_env" None True] by simp
qed

end
