(* ===== verification/Shell_Actions.thy ===== *)
theory Shell_Actions
  imports Shortcuts_Props Shell_Settings Launcher_Props Tasklist
begin

text \<open>
  What the shell does on a key or a menu entry: \<open>sponge-de/config/dismisser.{h,cc}\<close>,
  \<open>sponge-de/background/show_desktop.{h,cc}\<close>, the menu entries of \<open>background/background_widget.cc\<close> and
  the launcher button and menu of \<open>panel/panel_widget.cc\<close>, on the launcher, the settings dialog, the
  task list and the shortcuts. Open menus are counted.
\<close>

section \<open>Calls by name\<close>

text \<open>
  \<open>QMetaObject::invokeMethod\<close> with the name of a method reaches what the meta object of the class
  lists: its signals, its slots and the methods marked \<open>Q_INVOKABLE\<close>. Any other name is warned about
  and nothing is called.
\<close>

definition launcher_methods :: "string list" where
  "launcher_methods = [''appsChanged'', ''launch_problem'', ''toggle_launcher'', ''close_popup'', ''poll'', ''_poll_launch_result'']"

definition tasklist_methods :: "string list" where
  "tasklist_methods = [''applyUpdates'']"

definition settings_methods :: "string list" where
  "settings_methods = [''request_failed'', ''request_succeeded'', ''request_set'']"

definition dismisser_methods :: "string list" where
  "dismisser_methods = [''dismiss_topmost'']"

definition invoke_method :: "string list \<Rightarrow> string \<Rightarrow> ('s \<Rightarrow> 's) \<Rightarrow> 's \<Rightarrow> 's" where
  "invoke_method methods name f s = (if name \<in> set methods then f s else s)"

section \<open>The desktop\<close>

record shell =
  sh_launcher :: launcher
  sh_settings :: settings
  sh_tasks :: tasklist
  sh_menus :: nat
  sh_panel :: bool
  sh_background :: bool

text \<open>\<open>lc\<close>: whether the report of the launcher's state can be opened now.\<close>

definition dismiss_topmost :: "bool \<Rightarrow> shell \<Rightarrow> bool \<times> shell" where
  "dismiss_topmost lc s =
     (if la_view (sh_launcher s) = Some True then (True, s\<lparr>sh_launcher := close_popup lc (sh_launcher s)\<rparr>)
      else if dialog_is_open (sh_settings s) then (True, s\<lparr>sh_settings := close_settings_dialog (sh_settings s)\<rparr>)
      else if sh_panel s \<and> 0 < sh_menus s then (True, s\<lparr>sh_menus := sh_menus s - 1\<rparr>)
      else if sh_background s \<and> 0 < sh_menus s then (True, s\<lparr>sh_menus := sh_menus s - 1\<rparr>)
      else (False, s))"

text \<open>The button of the panel and the entry of the background menu work on the view itself.\<close>

definition toggle_view :: "launcher \<Rightarrow> launcher" where
  "toggle_view s =
     (case la_view s of
        None \<Rightarrow> s
      | Some True \<Rightarrow> s\<lparr>la_view := Some False\<rparr>
      | Some False \<Rightarrow> la_emit [Repopulate] (s\<lparr>la_view := Some True\<rparr>))"

definition menu_settings :: "settings \<Rightarrow> settings" where
  "menu_settings = invoke_method settings_methods ''open_settings_dialog'' open_settings_dialog"

text \<open>The toggle that shows the desktop, with its flag.\<close>

definition show_desktop :: "tl_env \<Rightarrow> rom \<Rightarrow> rom \<Rightarrow> bool \<times> tasklist \<Rightarrow> bool \<times> tasklist" where
  "show_desktop G wl lay = (\<lambda>(active, s). (\<not> active, set_all_minimized G (\<not> active) wl lay s))"

text \<open>The menu entry makes a toggle of its own for every click, which starts with its flag cleared.\<close>

definition menu_show_desktop :: "tl_env \<Rightarrow> rom \<Rightarrow> rom \<Rightarrow> tasklist \<Rightarrow> tasklist" where
  "menu_show_desktop G wl lay s = snd (show_desktop G wl lay (False, s))"

text \<open>What the call for an action does when the event loop gets to it.\<close>

definition perform_action :: "tl_env \<Rightarrow> bool \<Rightarrow> rom \<Rightarrow> rom \<Rightarrow> string \<Rightarrow> shell \<Rightarrow> shell" where
  "perform_action G lc wl lay act s =
     (if act = ''launcher'' then
        s\<lparr>sh_launcher := invoke_method launcher_methods ''toggle_launcher'' (toggle_launcher lc) (sh_launcher s)\<rparr>
      else if act = ''focus_next'' then
        s\<lparr>sh_tasks := invoke_method tasklist_methods ''cycle_focus'' (cycle_focus G wl lay) (sh_tasks s)\<rparr>
      else if act = ''dismiss'' then
        invoke_method dismisser_methods ''dismiss_topmost'' (\<lambda>s. snd (dismiss_topmost lc s)) s
      else s)"

section \<open>Dismissing\<close>

definition open_popovers :: "shell \<Rightarrow> nat" where
  "open_popovers s = (if la_view (sh_launcher s) = Some True then 1 else 0)
     + (if st_dialog (sh_settings s) = Open_dialog then 1 else 0) + sh_menus s"

text \<open>A press of the dismiss key, and then the event loop deletes what was closed.\<close>

definition dismiss_press :: "bool \<Rightarrow> shell \<Rightarrow> shell" where
  "dismiss_press lc s = (let s = snd (dismiss_topmost lc s) in s\<lparr>sh_settings := dialog_destroyed (sh_settings s)\<rparr>)"

lemma publish_state_view: "la_view (publish_state o' b s) = la_view s"
  by (simp add: publish_state_def la_emit_def Let_def)

lemma dismiss_press_step:
  assumes "sh_panel s \<or> sh_background s" and "st_dialog (sh_settings s) \<noteq> Closed_dialog"
  shows "open_popovers (dismiss_press lc s) = open_popovers s - 1 \<and> (fst (dismiss_topmost lc s) \<longleftrightarrow> 0 < open_popovers s)
    \<and> (sh_panel (dismiss_press lc s) \<or> sh_background (dismiss_press lc s)) \<and> st_dialog (sh_settings (dismiss_press lc s)) \<noteq> Closed_dialog"
proof -
  have v: "la_view (close_popup lc la) = Some False" if "la_view la = Some True" for la
    using that by (simp add: close_popup_def publish_state_view)
  show ?thesis
  proof (cases "st_dialog (sh_settings s)")
    case No_dialog
    then show ?thesis using assms v [of "sh_launcher s"]
      by (auto simp: dismiss_press_def dismiss_topmost_def open_popovers_def dialog_is_open_def dialog_destroyed_def Let_def)
  next
    case Open_dialog
    then show ?thesis using assms v [of "sh_launcher s"]
      by (auto simp: dismiss_press_def dismiss_topmost_def open_popovers_def dialog_is_open_def dialog_destroyed_def
          close_settings_dialog_def Let_def)
  next
    case Closed_dialog
    then show ?thesis using assms(2) by simp
  qed
qed

text \<open>
  The dismiss key closes everything, one popover for each press. As long as a panel or a background
  is attached and no closed dialog waits for its deletion, each of the first presses closes exactly one
  of the popup, the dialog and the menus, and after as many presses as there were open ones nothing is
  open.
\<close>

theorem dismiss_closes_one_by_one:
  assumes "sh_panel s \<or> sh_background s" and "st_dialog (sh_settings s) \<noteq> Closed_dialog"
  shows "open_popovers ((dismiss_press lc ^^ n) s) = open_popovers s - n
    \<and> (fst (dismiss_topmost lc ((dismiss_press lc ^^ n) s)) \<longleftrightarrow> n < open_popovers s)"
proof -
  have "open_popovers ((dismiss_press lc ^^ n) s) = open_popovers s - n
    \<and> (sh_panel ((dismiss_press lc ^^ n) s) \<or> sh_background ((dismiss_press lc ^^ n) s))
    \<and> st_dialog (sh_settings ((dismiss_press lc ^^ n) s)) \<noteq> Closed_dialog"
  proof (induction n)
    case (Suc n)
    then show ?case using dismiss_press_step [of "(dismiss_press lc ^^ n) s" lc] by auto
  qed (use assms in simp)
  then show ?thesis using dismiss_press_step [of "(dismiss_press lc ^^ n) s" lc] by auto
qed

section \<open>Keys and menus that do nothing\<close>

lemma cycle_focus_not_invokable: "invoke_method tasklist_methods ''cycle_focus'' f s = s"
  by (simp add: invoke_method_def tasklist_methods_def)

lemma open_dialog_not_invokable: "menu_settings s = s"
  by (simp add: menu_settings_def invoke_method_def settings_methods_def)

text \<open>The calls the shortcuts have asked for, in order.\<close>

definition asked_for :: "shortcuts \<Rightarrow> string list" where
  "asked_for s = List.map_filter (\<lambda>out. case out of Invoke a \<Rightarrow> Some a | _ \<Rightarrow> None) (sc_out s)"

text \<open>
  The key that cycles the focus does nothing. Whatever the event filter reports and whatever the
  controller of the shortcuts asks for, none of its calls changes the task list: it calls
  \<open>cycle_focus\<close> by name, and that method is neither a slot nor invokable.
\<close>

theorem focus_key_dead:
  "sh_tasks (fold (perform_action G lc wl lay) (asked_for (run (shortcut_step F) keys es)) sh) = sh_tasks sh"
proof -
  have d: "sh_tasks (snd (dismiss_topmost lc s)) = sh_tasks s" for s
    by (simp add: dismiss_topmost_def)
  have "sh_tasks (perform_action G lc wl lay a s) = sh_tasks s" for a s
    by (simp add: perform_action_def cycle_focus_not_invokable) (simp add: invoke_method_def d)
  then have "sh_tasks (fold (perform_action G lc wl lay) as sh) = sh_tasks sh" for as
    by (induction as arbitrary: sh) simp_all
  then show ?thesis .
qed

text \<open>What the user can do to the settings: the two menus, the writes of the panel's menu, the dismiss key.\<close>

datatype settings_event = Menu_settings | Menu_write vct_env bool string string | Dismiss_dialog | Loop

fun settings_step :: "settings_event \<Rightarrow> settings \<Rightarrow> settings" where
  "settings_step Menu_settings s = menu_settings s"
| "settings_step (Menu_write G opens key v) s = (case request_set G opens key v s of None \<Rightarrow> s | Some s' \<Rightarrow> s')"
| "settings_step Dismiss_dialog s = close_settings_dialog s"
| "settings_step Loop s = dialog_destroyed s"

text \<open>
  The settings dialog cannot be opened. Both menus call \<open>open_settings_dialog\<close> by name, which is
  not a slot of the controller; in every reachable state there is no dialog, and none was ever shown.
\<close>

theorem settings_dialog_unreachable:
  "st_dialog (run settings_step settings_new es) = No_dialog \<and> Dialog_shown \<notin> set (st_out (run settings_step settings_new es))"
proof -
  have "st_dialog (run settings_step s es) = No_dialog \<and> Dialog_shown \<notin> set (st_out (run settings_step s es))"
    if "st_dialog s = No_dialog" "Dialog_shown \<notin> set (st_out s)" for s
    using that
  proof (induction es arbitrary: s)
    case (Cons e es)
    have "st_dialog (settings_step e s) = No_dialog \<and> Dialog_shown \<notin> set (st_out (settings_step e s))"
      using Cons.prems
      by (cases e) (auto simp: open_dialog_not_invokable close_settings_dialog_def dialog_destroyed_def request_set_def
          st_emit_def set_outcome_def split: prod.split option.split)
    then show ?case using Cons.IH by simp
  qed simp
  then show ?thesis by (simp add: settings_new_def)
qed

text \<open>
  The desktop is shown but never restored. Every click on the menu entry makes a toggle of its own,
  whose flag is cleared: once all windows are minimized, as the first click leaves them, no number of
  further clicks changes anything.
\<close>

theorem desktop_never_restored:
  assumes "\<forall>w \<in> set (tracked s). w_minimized w"
  shows "fold (\<lambda>(wl, lay). menu_show_desktop G wl lay) clicks s = s"
proof -
  have "menu_show_desktop G wl lay s = s" for wl lay
    using assms by (simp add: menu_show_desktop_def show_desktop_def set_all_minimized_def list_all_iff)
  then show ?thesis by (induction clicks) auto
qed

text \<open>A toggle that is kept restores at its second click.\<close>

lemma kept_toggle_restores: "snd (show_desktop G wl' lay' (show_desktop G wl lay (False, s)))
    = set_all_minimized G False wl' lay' (set_all_minimized G True wl lay s)"
  by (simp add: show_desktop_def)

text \<open>The button of the panel shows and hides the popup without reporting it.\<close>

lemma button_reports_nothing:
  assumes "la_view s = Some b"
  shows "la_view (toggle_view s) = Some (\<not> b)
    \<and> filter (\<lambda>out. \<exists>x. out = State_report x) (la_out (toggle_view s)) = filter (\<lambda>out. \<exists>x. out = State_report x) (la_out s)"
  using assms by (cases b) (simp_all add: toggle_view_def la_emit_def)

section \<open>The key that opens the launcher\<close>

text \<open>The calls of one action that a run asks for, performed on the launcher.\<close>

definition pressed_launcher :: "genode \<Rightarrow> bool \<Rightarrow> shortcuts \<Rightarrow> shortcut_event list \<Rightarrow> launcher \<Rightarrow> launcher" where
  "pressed_launcher F lc keys es =
     invoke_method launcher_methods ''toggle_launcher'' (toggle_launcher lc)
       ^^ (invocations ''launcher'' (run (shortcut_step F) keys es) - invocations ''launcher'' keys)"

lemma toggle_parity: "la_view s = Some v \<Longrightarrow> la_view ((toggle_launcher lc ^^ n) s) = Some (if even n then v else \<not> v)"
  by (induction n) (auto simp: toggle_launcher_def publish_state_view la_emit_def split: if_splits bool.split)

text \<open>
  Every press of the launcher key turns the popup over. With its subscription open and the popup
  attached, the popup is visible after any mix of broadcasts, signals and polls exactly if it was and
  the serial number of the key's report changed an even number of times between the looks at it, or it
  was not and the number is odd.
\<close>

theorem launcher_key_toggles:
  assumes "armed_for ''launcher'' keys" and "\<forall>l t d. Sc_attach l t d \<notin> set es" and "la_view la = Some v"
  shows "la_view (pressed_launcher F lc keys es la)
    = Some (if even (length (remdups_adj (last_serial keys ''launcher'' # serials_seen F ''launcher'' es)) - 1) then v else \<not> v)"
proof -
  let ?n = "length (remdups_adj (last_serial keys ''launcher'' # serials_seen F ''launcher'' es))"
  have "invocations ''launcher'' (run (shortcut_step F) keys es) = invocations ''launcher'' keys + ?n - 1"
    using hits_counted [OF assms(1) _ assms(2)] by (simp add: action_table_def)
  moreover have "0 < ?n" by (simp add: remdups_adj_length_ge1)
  moreover have "invoke_method launcher_methods ''toggle_launcher'' (toggle_launcher lc) = toggle_launcher lc"
    by (rule ext) (simp add: invoke_method_def launcher_methods_def)
  ultimately show ?thesis using toggle_parity [OF assms(3)] by (simp add: pressed_launcher_def)
qed

section \<open>Concrete runs\<close>

definition two_windows :: tasklist where
  "two_windows = \<lparr>static_rules = [], focus_request_id = 0,
     tracked = map (\<lambda>l. \<lparr>w_label = l, w_x = PARKED, w_y = PARKED, w_w = 10, w_h = 10, w_focused = False, w_minimized = True,
       w_has_alpha = False, w_hidden = False, w_resizeable = True, w_maximized = False, w_geometry_known = True\<rparr>) [''a'', ''b''],
     focused_label = [], last_emitted = [], published_sig = [], candidate_sig = [], sig_stable = False, origin_x = 0, origin_y = 0,
     area_w = 0, area_h = 0, rules_open = True, focus_open = True, has_widget = True, tl_out = []\<rparr>"

theorem desktop_never_restored_witness:
  "fold (\<lambda>(wl, lay). menu_show_desktop G wl lay) [(Rom_invalid, Rom_invalid), (Rom_malformed, Rom_invalid)] two_windows = two_windows"
  by (rule desktop_never_restored) (simp add: two_windows_def)

definition busy_shell :: shell where
  "busy_shell = \<lparr>sh_launcher = (launcher_construct small_genode None)\<lparr>la_view := Some True\<rparr>,
     sh_settings = settings_new\<lparr>st_dialog := Open_dialog\<rparr>, sh_tasks = two_windows, sh_menus = 1, sh_panel = True, sh_background = True\<rparr>"

theorem dismiss_closes_one_by_one_witness:
  "open_popovers busy_shell = 3 \<and> open_popovers ((dismiss_press False ^^ 2) busy_shell) = 1
   \<and> open_popovers ((dismiss_press False ^^ 3) busy_shell) = 0"
proof -
  have b: "sh_panel busy_shell \<or> sh_background busy_shell" "st_dialog (sh_settings busy_shell) \<noteq> Closed_dialog" "open_popovers busy_shell = 3"
    by (simp_all add: busy_shell_def open_popovers_def)
  show ?thesis using dismiss_closes_one_by_one [OF b(1,2), where lc = False and n = 2]
      dismiss_closes_one_by_one [OF b(1,2), where lc = False and n = 3] b(3) by simp
qed

theorem launcher_key_toggles_witness:
  "la_view (pressed_launcher counting_genode False armed_shortcuts
     [Sc_hit ''launcher'' (pressed 1), Sc_poll (\<lambda>l. True) None (\<lambda>a. pressed 1)] ((launcher_construct small_genode None)\<lparr>la_view := Some False\<rparr>)) = Some True"
proof -
  let ?es = "[Sc_hit ''launcher'' (pressed 1), Sc_poll (\<lambda>l. True) None (\<lambda>a. pressed 1)]"
  have a: "armed_for ''launcher'' armed_shortcuts" "last_serial armed_shortcuts ''launcher'' = 0"
    by (simp_all add: armed_for_def armed_shortcuts_def wired_shortcuts_eq target_attached_def)
  have "rom_serial counting_genode ''launcher'' (pressed n) = Some (of_nat n)" for n
    by (simp add: rom_serial_def pressed_def attr_str_def attr_u32_def counting_genode_def)
  then have s: "serials_seen counting_genode ''launcher'' ?es = [1, 1]"
    by (simp add: serials_seen_def List.map_filter_simps)
  show ?thesis
    using launcher_key_toggles [OF a(1), where es = ?es and F = counting_genode and lc = False
        and la = "(launcher_construct small_genode None)\<lparr>la_view := Some False\<rparr>" and v = False] a(2)
    unfolding s by simp
qed

end
