(* ===== verification/Panel_Widget.thy ===== *)
theory Panel_Widget
  imports Theme_Loader De_Common Machine
begin

text \<open>
  \<open>sponge-de/panel/panel_widget.{h,cc}\<close>: one panel of the shell, as far as it decides anything: its
  geometry, which of its parts are shown, the label that shows problems, the count of clicks, and the
  writes of its context menu. A widget is the values the code sets on it; painting and the layout of
  Qt are left out. \<open>screen_width\<close> is the width Qt reports (0 without a screen), \<open>first_geometry\<close> the rectangle of a new widget, \<open>qt_num\<close> prints a number,
  \<open>clock_text\<close> and \<open>date_text\<close> are the current time and date in a format.
\<close>

datatype role = Singleton | Top | Bottom

record panel_env =
  screen_width :: int
  first_geometry :: "int \<times> int \<times> int \<times> int"
  qt_num :: "int \<Rightarrow> string"
  clock_text :: "string \<Rightarrow> string"
  date_text :: "string \<Rightarrow> string"

record panel =
  p_id :: string
  p_role :: role
  p_height :: u32
  p_visible_list :: string
  p_clock_format :: string
  p_position :: string
  p_position_seen :: bool
  p_shown :: bool
  p_geometry :: "int \<times> int \<times> int \<times> int"
  p_resized :: nat
  p_css :: string
  p_margins :: "u32 \<times> u32"
  p_toggle_size :: "int \<times> int"
  p_toggle_visible :: bool
  p_title_visible :: bool
  p_clock_visible :: bool
  p_tasklist :: bool
  p_tasklist_visible :: bool
  p_title :: string
  p_clock :: string
  p_health :: string
  p_message :: string
  p_message_active :: bool
  p_message_timer :: "nat option"
  p_label :: string
  p_label_visible :: bool
  p_clicks :: nat
  p_last_click :: int
  p_reporter :: bool
  p_click_reports :: "(string \<times> nat) list"

section \<open>Theme and geometry\<close>

definition panel_css :: "theme \<Rightarrow> string" where
  "panel_css th =
     (let bg = to_css (th_panel_bg th); fg = to_css (th_panel_text th); ac = to_css (th_accent th)
      in ''QWidget { background-color: '' @ bg @ ''; color: '' @ fg @ ''; border: none; }''
         @ ''QPushButton { background-color: '' @ ac @ ''; color: '' @ bg @ ''; border-radius: 4px; }''
         @ ''QPushButton:pressed { background-color: '' @ fg @ ''; color: '' @ bg @ ''; }'')"

definition apply_style :: "theme \<Rightarrow> panel \<Rightarrow> panel" where
  "apply_style th s = (if panel_css th \<noteq> p_css s then s\<lparr>p_css := panel_css th\<rparr> else s)"

definition bar_height :: "theme \<Rightarrow> panel \<Rightarrow> int" where
  "bar_height th s = (if 0 < p_height s then sint (p_height s) else sint (th_panel_height th))"

definition apply_geometry :: "panel_env \<Rightarrow> theme \<Rightarrow> panel \<Rightarrow> panel" where
  "apply_geometry E th s =
     (let width = (if 64 < screen_width E then screen_width E else 1024);
          y = (if p_role s = Bottom then 740 else 0);
          target = (0, y, width, bar_height th s)
      in if p_geometry s \<noteq> target then s\<lparr>p_geometry := target, p_resized := p_resized s + 1\<rparr> else s)"

definition apply_layout :: "theme \<Rightarrow> panel \<Rightarrow> panel" where
  "apply_layout th s =
     s\<lparr>p_margins := (th_padding th, th_margin th),
       p_toggle_size := (sint (th_launcher_width th), bar_height th s - 2 * sint (th_margin th))\<rparr>"

definition apply_visibility :: "panel \<Rightarrow> panel" where
  "apply_visibility s =
     (let tokens = map trimmed (split_on CHR '','' (p_visible_list s));
          launcher = ''launcher'' \<in> set tokens; clock = ''clock'' \<in> set tokens; tasks = ''tasklist'' \<in> set tokens
      in s\<lparr>p_toggle_visible := launcher, p_title_visible := launcher \<or> clock \<or> tasks, p_clock_visible := clock,
           p_tasklist_visible := (if p_tasklist s then tasks else p_tasklist_visible s)\<rparr>)"

definition semantic_format_fallback :: "panel_env \<Rightarrow> string \<Rightarrow> string" where
  "semantic_format_fallback E format =
     (if format = [] then ''HH:mm'' else if date_text E format = [] then ''HH:mm'' else format)"

definition refresh_clock_text :: "panel_env \<Rightarrow> panel \<Rightarrow> panel" where
  "refresh_clock_text E s = s\<lparr>p_clock := clock_text E (semantic_format_fallback E (p_clock_format s))\<rparr>"

definition restyle :: "panel_env \<Rightarrow> theme \<Rightarrow> panel \<Rightarrow> panel" where
  "restyle E th s = refresh_clock_text E (apply_visibility (apply_layout th (apply_geometry E th (apply_style th s))))"

section \<open>Settings\<close>

definition apply_height :: "panel_env \<Rightarrow> u32 \<Rightarrow> panel \<Rightarrow> panel" where
  "apply_height E h s =
     (if h = 0 \<or> h = p_height s then s
      else apply_layout default_theme (apply_geometry E default_theme (s\<lparr>p_height := h\<rparr>)))"

definition apply_visible_widgets :: "string \<Rightarrow> panel \<Rightarrow> panel" where
  "apply_visible_widgets l s = (if l = p_visible_list s then s else apply_visibility (s\<lparr>p_visible_list := l\<rparr>))"

definition apply_clock_format :: "panel_env \<Rightarrow> string \<Rightarrow> panel \<Rightarrow> panel" where
  "apply_clock_format E f s = (if f = p_clock_format s then s else refresh_clock_text E (s\<lparr>p_clock_format := f\<rparr>))"

definition apply_position :: "panel_env \<Rightarrow> string \<Rightarrow> panel \<Rightarrow> panel" where
  "apply_position E position s =
     (if position = p_position s \<and> p_position_seen s then s
      else let s = s\<lparr>p_position := position, p_position_seen := True\<rparr> in
        if p_role s = Singleton then s
        else (apply_geometry E default_theme s)\<lparr>p_shown :=
          (if p_role s = Top then position = ''top''
           else position = ''bottom'' \<or> position = ''left'' \<or> position = ''right'')\<rparr>)"

section \<open>The title and the label of problems\<close>

definition MIDDOT :: string where "MIDDOT = [SP, CHR 0xC2, CHR 0xB7, SP]"
definition WARN_SIGN :: string where "WARN_SIGN = [CHR 0xE2, CHR 0x9A, CHR 0xA0, SP]"

definition show_running_set ::
    "panel_env \<Rightarrow> string \<Rightarrow> int \<Rightarrow> int \<Rightarrow> int \<Rightarrow> int \<Rightarrow> int \<Rightarrow> int \<Rightarrow> int \<Rightarrow> string \<Rightarrow> panel \<Rightarrow> panel" where
  "show_running_set E names windows children writes starts bytes ram changes extra s =
     s\<lparr>p_title := ''Sponge DE''
        @ (if names = [] then [] else MIDDOT @ ''R:'' @ names)
        @ (if 0 \<le> writes then MIDDOT @ ''N:'' @ qt_num E writes else [])
        @ (if 0 \<le> children then MIDDOT @ ''C:'' @ qt_num E children else [])
        @ (if 0 \<le> starts then MIDDOT @ ''S:'' @ qt_num E starts @ ''('' @ qt_num E bytes @ ''b)'' else [])
        @ (if 0 \<le> ram then MIDDOT @ ''M:'' @ qt_num E ram @ ''k'' else [])
        @ MIDDOT @ ''U:'' @ qt_num E changes @ MIDDOT @ ''W:'' @ qt_num E windows @ extra\<rparr>"

definition refresh_health_label :: "panel \<Rightarrow> panel" where
  "refresh_health_label s =
     (if p_health s = [] then s\<lparr>p_label_visible := False\<rparr>
      else s\<lparr>p_label := WARN_SIGN @ p_health s, p_label_visible := True\<rparr>)"

definition set_health :: "string \<Rightarrow> panel \<Rightarrow> panel" where
  "set_health w s = (let s = s\<lparr>p_health := w\<rparr> in if p_message_active s then s else refresh_health_label s)"

definition clear_user_message :: "panel \<Rightarrow> panel" where
  "clear_user_message s =
     refresh_health_label (s\<lparr>p_message_timer := None, p_message_active := False, p_message := []\<rparr>)"

definition set_user_message :: "string \<Rightarrow> nat \<Rightarrow> panel \<Rightarrow> panel" where
  "set_user_message text ttl s =
     (if text = [] then clear_user_message s
      else s\<lparr>p_message := text, p_message_active := True, p_label := WARN_SIGN @ text, p_label_visible := True,
             p_message_timer := (if 0 < ttl then Some ttl else p_message_timer s)\<rparr>)"

section \<open>Clicks\<close>

definition report_click :: "panel \<Rightarrow> panel" where
  "report_click s = (if \<not> p_reporter s then s else s\<lparr>p_click_reports := p_click_reports s @ [(p_id s, p_clicks s)]\<rparr>)"

definition set_click_reporter :: "bool \<Rightarrow> panel \<Rightarrow> panel" where
  "set_click_reporter r s = report_click (s\<lparr>p_reporter := r\<rparr>)"

text \<open>A press somewhere on the screen, and the reading of the clock in milliseconds.\<close>

definition panel_press :: "int \<times> int \<Rightarrow> int \<Rightarrow> panel \<Rightarrow> panel" where
  "panel_press pos now s =
     (let (x, y, w, h) = p_geometry s; (px, py) = pos
      in if x \<le> px \<and> px < x + w \<and> y \<le> py \<and> py < y + h \<and> 200 \<le> now - p_last_click s
         then report_click (s\<lparr>p_last_click := now, p_clicks := p_clicks s + 1\<rparr>) else s)"

section \<open>The context menu\<close>

text \<open>The write each entry asks for: a height of the spin box, the three boxes, a position.\<close>

definition panel_key :: "panel \<Rightarrow> string \<Rightarrow> string" where
  "panel_key s k = ''panel.'' @ p_id s @ ''.'' @ k"

definition menu_height :: "panel_env \<Rightarrow> int \<Rightarrow> panel \<Rightarrow> string \<times> string" where
  "menu_height E v s = (panel_key s ''height'', qt_num E (max 16 (min 128 v)))"

definition menu_visible :: "bool \<Rightarrow> bool \<Rightarrow> bool \<Rightarrow> panel \<Rightarrow> string \<times> string" where
  "menu_visible clock launcher tasks s =
     (panel_key s ''visible_widgets'',
      (let l = (if clock then [''clock''] else []) @ (if launcher then [''launcher''] else []) @ (if tasks then [''tasklist''] else [])
       in case l of [] \<Rightarrow> [] | t # ts \<Rightarrow> t @ concat (map (\<lambda>u. CHR '','' # u) ts)))"

text \<open>The entries for the left and the right edge are disabled.\<close>

definition menu_positions :: "string list" where
  "menu_positions = [''top'', ''bottom'']"

definition menu_position :: "string \<Rightarrow> panel \<Rightarrow> string \<times> string" where
  "menu_position token s = (panel_key s ''position'', token)"

section \<open>The panel\<close>

definition panel_construct :: "panel_env \<Rightarrow> theme \<Rightarrow> string \<Rightarrow> panel" where
  "panel_construct E th i =
     (let s = \<lparr>p_id = (if i = [] then ''default'' else i), p_role = Singleton, p_height = 0,
        p_visible_list = ''clock,launcher,tasklist'', p_clock_format = ''HH:mm'', p_position = ''bottom'', p_position_seen = False,
        p_shown = False, p_geometry = first_geometry E, p_resized = 0, p_css = [], p_margins = (0, 0), p_toggle_size = (0, 0),
        p_toggle_visible = False, p_title_visible = False, p_clock_visible = False, p_tasklist = False,
        p_tasklist_visible = False, p_title = ''Sponge DE'', p_clock = [], p_health = [], p_message = [],
        p_message_active = False, p_message_timer = None, p_label = [], p_label_visible = False, p_clicks = 0,
        p_last_click = 0, p_reporter = False, p_click_reports = []\<rparr>
      in refresh_clock_text E (apply_visibility (apply_layout th (apply_geometry E th (apply_style th s)))))"

datatype panel_event =
    Restyle theme
  | Height u32
  | Visible string
  | Clock_fmt string
  | Position string
  | Role role
  | Show
  | Health string
  | Message string nat
  | Message_timeout
  | Press "int \<times> int" int
  | Tick

fun panel_step :: "panel_env \<Rightarrow> panel_event \<Rightarrow> panel \<Rightarrow> panel" where
  "panel_step E (Restyle th) s = restyle E th s"
| "panel_step E (Height h) s = apply_height E h s"
| "panel_step E (Visible l) s = apply_visible_widgets l s"
| "panel_step E (Clock_fmt f) s = apply_clock_format E f s"
| "panel_step E (Position p) s = apply_position E p s"
| "panel_step E (Role r) s = s\<lparr>p_role := r\<rparr>"
| "panel_step E Show s = s\<lparr>p_shown := True\<rparr>"
| "panel_step E (Health w) s = set_health w s"
| "panel_step E (Message t ttl) s = set_user_message t ttl s"
| "panel_step E Message_timeout s = (if p_message_timer s = None then s else clear_user_message s)"
| "panel_step E (Press pos now) s = panel_press pos now s"
| "panel_step E Tick s = refresh_clock_text E s"

end
