(* ===== verification/Panel_Props.thy ===== *)
theory Panel_Props
  imports Panel_Widget
begin

text \<open>
  A panel: its label of problems shows what it should, its reports count every click once, and of a
  top and a bottom panel one is on the screen.
\<close>

section \<open>The label of problems\<close>

definition label_right :: "panel \<Rightarrow> bool" where
  "label_right s \<longleftrightarrow>
     (if p_message_active s then p_message s \<noteq> [] \<and> p_label_visible s \<and> p_label s = WARN_SIGN @ p_message s
      else p_message s = [] \<and> p_message_timer s = None
        \<and> (p_label_visible s \<longleftrightarrow> p_health s \<noteq> []) \<and> (p_health s \<noteq> [] \<longrightarrow> p_label s = WARN_SIGN @ p_health s))"

text \<open>Operations that leave the label alone.\<close>

definition same_label :: "panel \<Rightarrow> panel \<Rightarrow> bool" where
  "same_label s t \<longleftrightarrow> p_message_active t = p_message_active s \<and> p_message t = p_message s \<and> p_label_visible t = p_label_visible s
     \<and> p_label t = p_label s \<and> p_message_timer t = p_message_timer s \<and> p_health t = p_health s"

lemma same_label_trans: "same_label s t \<Longrightarrow> same_label t u \<Longrightarrow> same_label s u"
  by (simp add: same_label_def)

lemma same_label_right: "same_label s t \<Longrightarrow> label_right s \<Longrightarrow> label_right t"
  by (simp add: same_label_def label_right_def)

lemma same_label_geometry: "same_label s (apply_geometry E th s)"
  by (auto simp: same_label_def apply_geometry_def Let_def simp del: prod.inject)

lemma same_label_visibility: "same_label s (apply_visibility s)"
  by (simp add: same_label_def apply_visibility_def Let_def del: set_map)

lemma same_label_parts:
  "same_label s (apply_style th s)" "same_label s (apply_geometry E th s)" "same_label s (apply_layout th s)"
  "same_label s (apply_visibility s)" "same_label s (refresh_clock_text E s)" "same_label s (report_click s)"
proof -
  show "same_label s (apply_style th s)" by (simp add: same_label_def apply_style_def)
  show "same_label s (apply_geometry E th s)" by (rule same_label_geometry)
  show "same_label s (apply_layout th s)" by (simp add: same_label_def apply_layout_def)
  show "same_label s (apply_visibility s)" by (rule same_label_visibility)
  show "same_label s (refresh_clock_text E s)" by (simp add: same_label_def refresh_clock_text_def)
  show "same_label s (report_click s)" by (simp add: same_label_def report_click_def)
qed

lemma same_label_refl: "same_label s s"
  by (simp add: same_label_def)

lemma same_label_updates:
  "same_label s (s\<lparr>p_height := h\<rparr>)" "same_label s (s\<lparr>p_visible_list := l\<rparr>)" "same_label s (s\<lparr>p_clock_format := f\<rparr>)"
  "same_label s (s\<lparr>p_position := p, p_position_seen := b\<rparr>)" "same_label s (s\<lparr>p_shown := b\<rparr>)"
  "same_label s (s\<lparr>p_last_click := now, p_clicks := n\<rparr>)" "same_label s (s\<lparr>p_role := r\<rparr>)"
  by (simp_all add: same_label_def)

lemmas same_label_rules = same_label_refl same_label_parts same_label_updates

lemma same_label_settings:
  "same_label s (restyle E th s)" "same_label s (apply_height E h s)" "same_label s (apply_visible_widgets l s)"
  "same_label s (apply_clock_format E f s)" "same_label s (apply_position E p s)" "same_label s (panel_press pos now s)"
proof -
  show "same_label s (restyle E th s)"
    unfolding restyle_def
    by (rule same_label_trans, rule same_label_trans, rule same_label_trans, rule same_label_trans) (rule same_label_parts)+
  show "same_label s (apply_height E h s)" unfolding apply_height_def
    by (auto split: if_split intro: same_label_trans [OF same_label_trans [OF same_label_updates(1) same_label_parts(2)] same_label_parts(3)]
        same_label_refl)
  show "same_label s (apply_visible_widgets l s)" unfolding apply_visible_widgets_def
    by (auto split: if_split intro: same_label_trans [OF same_label_updates(2) same_label_parts(4)] same_label_refl)
  show "same_label s (apply_clock_format E f s)" unfolding apply_clock_format_def
    by (auto split: if_split intro: same_label_trans [OF same_label_updates(3) same_label_parts(5)] same_label_refl)
  show "same_label s (apply_position E p s)" unfolding apply_position_def Let_def
    by (auto split: if_split simp del: panel.update_convs intro: same_label_refl same_label_updates(4)
        same_label_trans [OF same_label_trans [OF same_label_updates(4) same_label_parts(2)] same_label_updates(5)])
  show "same_label s (panel_press pos now s)" unfolding panel_press_def Let_def
    by (auto split: prod.split if_split intro: same_label_trans [OF same_label_updates(6) same_label_parts(6)] same_label_refl)
qed

lemma label_right_step: "label_right s \<Longrightarrow> label_right (panel_step E e s)"
proof (cases e)
  case (Health w)
  moreover assume "label_right s"
  ultimately show ?thesis by (auto simp: label_right_def set_health_def refresh_health_label_def Let_def)
next
  case (Message t ttl)
  moreover assume "label_right s"
  ultimately show ?thesis
    by (auto simp: label_right_def set_user_message_def clear_user_message_def refresh_health_label_def)
next
  case Message_timeout
  moreover assume "label_right s"
  ultimately show ?thesis by (auto simp: label_right_def clear_user_message_def refresh_health_label_def)
next
  case (Role r)
  moreover assume "label_right s"
  ultimately show ?thesis by (simp add: label_right_def)
next
  case Show
  moreover assume "label_right s"
  ultimately show ?thesis by (simp add: label_right_def)
qed (simp_all add: same_label_right [OF same_label_settings(1)] same_label_right [OF same_label_settings(2)]
    same_label_right [OF same_label_settings(3)] same_label_right [OF same_label_settings(4)]
    same_label_right [OF same_label_settings(5)] same_label_right [OF same_label_settings(6)]
    same_label_right [OF same_label_parts(5)])

interpretation panel_label: machine "\<lambda>s. \<exists>th i. s = panel_construct E th i" "panel_step E" label_right for E
proof unfold_locales
  fix s
  assume "\<exists>th i. s = panel_construct E th i"
  then obtain th i where s: "s = panel_construct E th i" by blast
  have "same_label t (restyle E th t)" for t by (rule same_label_settings)
  then have c: "label_right t \<Longrightarrow> label_right (restyle E th t)" for t by (rule same_label_right)
  show "label_right s" unfolding s panel_construct_def Let_def restyle_def [symmetric]
    by (rule c) (simp add: label_right_def)
qed (rule label_right_step)

text \<open>
  The label of problems. Whatever happens to a panel, the label shows the user's message while there is
  one, otherwise the warnings of the system, and it is hidden when there is neither; no timer is left
  running once the message is gone.
\<close>

theorem problem_label_right: "label_right (run (panel_step E) (panel_construct E th i) es)"
  by (rule panel_label.reach_inv) blast

text \<open>
  A message meant to stay is taken away by the timer of the message before it, which a message without
  a time does not stop.
\<close>

lemma staying_message_times_out:
  assumes "a \<noteq> []" "b \<noteq> []" "0 < ttl"
  shows "p_message (run (panel_step E) s [Message a ttl, Message b 0, Message_timeout]) = []"
  using assms by (simp add: set_user_message_def clear_user_message_def refresh_health_label_def)

section \<open>Clicks\<close>

text \<open>Nothing but a press counts or reports.\<close>

definition same_clicks :: "panel \<Rightarrow> panel \<Rightarrow> bool" where
  "same_clicks s t \<longleftrightarrow> p_clicks t = p_clicks s \<and> p_click_reports t = p_click_reports s \<and> p_reporter t = p_reporter s
     \<and> p_id t = p_id s"

lemma same_clicks_trans: "same_clicks s t \<Longrightarrow> same_clicks t u \<Longrightarrow> same_clicks s u"
  by (simp add: same_clicks_def)

lemma same_clicks_refl: "same_clicks s s"
  by (simp add: same_clicks_def)

lemma same_clicks_geometry: "same_clicks s (apply_geometry E th s)"
  by (auto simp: same_clicks_def apply_geometry_def Let_def simp del: prod.inject)

lemma same_clicks_visibility: "same_clicks s (apply_visibility s)"
  by (simp add: same_clicks_def apply_visibility_def Let_def del: set_map)

lemma same_clicks_style: "same_clicks s (apply_style th s)"
  by (simp add: same_clicks_def apply_style_def)

lemma same_clicks_layout: "same_clicks s (apply_layout th s)"
  by (simp add: same_clicks_def apply_layout_def)

lemma same_clicks_clock: "same_clicks s (refresh_clock_text E s)"
  by (simp add: same_clicks_def refresh_clock_text_def)

lemma same_clicks_updates:
  "same_clicks s (s\<lparr>p_height := h\<rparr>)" "same_clicks s (s\<lparr>p_visible_list := l\<rparr>)" "same_clicks s (s\<lparr>p_clock_format := f\<rparr>)"
  "same_clicks s (s\<lparr>p_position := p, p_position_seen := b\<rparr>)" "same_clicks s (s\<lparr>p_shown := b\<rparr>)"
  "same_clicks s (s\<lparr>p_role := r\<rparr>)"
  by (simp_all add: same_clicks_def)

lemma same_clicks_restyle: "same_clicks s (restyle E th s)"
  unfolding restyle_def
  by (rule same_clicks_trans, rule same_clicks_trans, rule same_clicks_trans, rule same_clicks_trans)
    (rule same_clicks_style same_clicks_geometry same_clicks_layout same_clicks_visibility same_clicks_clock)+

lemma same_clicks_settings:
  "same_clicks s (apply_height E h s)" "same_clicks s (apply_visible_widgets l s)"
  "same_clicks s (apply_clock_format E f s)" "same_clicks s (apply_position E p s)"
proof -
  show "same_clicks s (apply_height E h s)" unfolding apply_height_def
    by (auto split: if_split intro: same_clicks_refl
        same_clicks_trans [OF same_clicks_trans [OF same_clicks_updates(1) same_clicks_geometry] same_clicks_layout])
  show "same_clicks s (apply_visible_widgets l s)" unfolding apply_visible_widgets_def
    by (auto split: if_split intro: same_clicks_trans [OF same_clicks_updates(2) same_clicks_visibility] same_clicks_refl)
  show "same_clicks s (apply_clock_format E f s)" unfolding apply_clock_format_def
    by (auto split: if_split intro: same_clicks_trans [OF same_clicks_updates(3) same_clicks_clock] same_clicks_refl)
  show "same_clicks s (apply_position E p s)" unfolding apply_position_def Let_def
    by (auto split: if_split simp del: panel.update_convs intro: same_clicks_refl same_clicks_updates(4)
        same_clicks_trans [OF same_clicks_trans [OF same_clicks_updates(4) same_clicks_geometry] same_clicks_updates(5)])
qed

lemma same_clicks_messages:
  "same_clicks s (set_health w s)" "same_clicks s (set_user_message t ttl s)" "same_clicks s (clear_user_message s)"
  by (simp_all add: same_clicks_def set_health_def set_user_message_def clear_user_message_def refresh_health_label_def Let_def)

definition clicks_reported :: "panel \<Rightarrow> bool" where
  "clicks_reported s \<longleftrightarrow> p_reporter s \<and> p_click_reports s = map (\<lambda>n. (p_id s, n)) [0..<Suc (p_clicks s)]"

lemma same_clicks_reported: "same_clicks s t \<Longrightarrow> clicks_reported s \<Longrightarrow> clicks_reported t"
  by (simp add: same_clicks_def clicks_reported_def)

lemma press_reported: "clicks_reported s \<Longrightarrow> clicks_reported (panel_press pos now s)"
  by (auto simp: panel_press_def report_click_def clicks_reported_def Let_def split: prod.split)

lemma clicks_reported_step: "clicks_reported s \<Longrightarrow> clicks_reported (panel_step E e s)"
proof (cases e)
  case (Press pos now)
  then show "clicks_reported s \<Longrightarrow> ?thesis" by (simp add: press_reported)
next
  case (Role r)
  then show "clicks_reported s \<Longrightarrow> ?thesis" by (simp add: clicks_reported_def)
next
  case Show
  then show "clicks_reported s \<Longrightarrow> ?thesis" by (simp add: clicks_reported_def)
qed (simp_all add: same_clicks_reported [OF same_clicks_settings(1)] same_clicks_reported [OF same_clicks_settings(2)]
    same_clicks_reported [OF same_clicks_settings(3)] same_clicks_reported [OF same_clicks_settings(4)]
    same_clicks_reported [OF same_clicks_messages(1)] same_clicks_reported [OF same_clicks_messages(2)]
    same_clicks_reported [OF same_clicks_messages(3)] same_clicks_reported [OF same_clicks_restyle]
    same_clicks_reported [OF same_clicks_clock])

lemma construct_clicks:
  "p_clicks (panel_construct E th i) = 0" "p_click_reports (panel_construct E th i) = []"
proof -
  have "same_clicks t (restyle E th t)" for t by (rule same_clicks_restyle)
  then have r: "p_clicks (restyle E th t) = p_clicks t \<and> p_click_reports (restyle E th t) = p_click_reports t" for t
    by (simp add: same_clicks_def)
  show "p_clicks (panel_construct E th i) = 0" "p_click_reports (panel_construct E th i) = []"
    unfolding panel_construct_def Let_def restyle_def [symmetric] by (simp_all add: r)
qed

interpretation panel_clicks: machine "\<lambda>s. \<exists>th i. s = set_click_reporter True (panel_construct E th i)" "panel_step E" clicks_reported for E
proof unfold_locales
  fix s
  assume "\<exists>th i. s = set_click_reporter True (panel_construct E th i)"
  then show "clicks_reported s"
    by (auto simp: set_click_reporter_def report_click_def clicks_reported_def construct_clicks)
qed (rule clicks_reported_step)

text \<open>
  The reports of clicks. A panel given a reporter has reported, after any events, its own name with the
  counts 0, 1, 2, up to the clicks counted, each once and in this order.
\<close>

theorem click_reports_gapless:
  fixes E th i es
  defines "s \<equiv> run (panel_step E) (set_click_reporter True (panel_construct E th i)) es"
  shows "p_click_reports s = map (\<lambda>n. (p_id s, n)) [0..<Suc (p_clicks s)]"
proof -
  have "clicks_reported s" unfolding s_def by (rule panel_clicks.reach_inv) blast
  then show ?thesis by (simp add: clicks_reported_def)
qed

text \<open>Two presses within 200 milliseconds of one another, which Qt makes of one, count once.\<close>

lemma panel_press_last: "p_clicks (panel_press pos now s) \<noteq> p_clicks s \<Longrightarrow> p_last_click (panel_press pos now s) = now"
  by (simp add: panel_press_def report_click_def split: prod.splits if_splits)

lemma panel_press_early: "later - p_last_click s < 200 \<Longrightarrow> panel_press pos later s = s"
  by (simp add: panel_press_def split: prod.split)

lemma double_press_once:
  assumes "later - now < 200" "p_clicks (panel_press pos now s) \<noteq> p_clicks s"
  shows "panel_press pos' later (panel_press pos now s) = panel_press pos now s"
  by (rule panel_press_early) (simp add: panel_press_last [OF assms(2)] assms(1))

end
