(* ===== verification/Panel_System.thy ===== *)
theory Panel_System
  imports Panel_Props Panel_Collection Theme_Props
begin

text \<open>
  Panels in the shell. \<open>main.cc\<close> 790-860: without a collection the shell has one panel, or two of
  which one is on the screen, connected to the signals of the configuration controller; with a
  collection every panel is routed its own settings (\<open>Panel_Collection\<close>). The context menu of a panel
  writes settings through the configuration daemon.
\<close>

section \<open>Without a collection\<close>

text \<open>The slots of the two panels a signal reaches; \<open>two\<close> says whether the bottom panel exists.\<close>

fun top_events :: "bool \<Rightarrow> de_signal \<Rightarrow> panel_event list" where
  "top_events two (Panel_height h) = [Height h]"
| "top_events two (Panel_visible l) = [Visible l]"
| "top_events two (Clock_format f) = [Clock_fmt f]"
| "top_events two (Panel_position p) = (if two then [Position p] else [])"
| "top_events two _ = []"

fun bottom_events :: "de_signal \<Rightarrow> panel_event list" where
  "bottom_events (Panel_position p) = [Position p]"
| "bottom_events _ = []"

definition both_panels :: "panel_env \<Rightarrow> de_signal \<Rightarrow> panel \<times> panel \<Rightarrow> panel \<times> panel" where
  "both_panels E g tb = (run (panel_step E) (fst tb) (top_events True g), run (panel_step E) (snd tb) (bottom_events g))"

definition two_panels :: "panel_env \<Rightarrow> theme \<Rightarrow> panel \<times> panel" where
  "two_panels E th =
     (run (panel_step E) (panel_construct E th ''default'') [Role Top, Show],
      run (panel_step E) (panel_construct E th ''default'') [Role Bottom, Show])"

text \<open>What the position of a panel is decided by; nothing else changes it.\<close>

definition place :: "panel \<Rightarrow> role \<times> string \<times> bool \<times> bool" where
  "place s = (p_role s, p_position s, p_position_seen s, p_shown s)"

lemma place_parts [simp]:
  "place (apply_style th s) = place s" "place (apply_layout th s) = place s" "place (refresh_clock_text E s) = place s"
  by (simp_all add: place_def apply_style_def apply_layout_def refresh_clock_text_def)

lemma place_geometry [simp]: "place (apply_geometry E th s) = place s"
  by (auto simp: place_def apply_geometry_def Let_def)

lemma place_visibility [simp]: "place (apply_visibility s) = place s"
  by (simp add: place_def apply_visibility_def Let_def del: set_map)

lemma place_updates [simp]:
  "place (s\<lparr>p_height := h\<rparr>) = place s" "place (s\<lparr>p_visible_list := l\<rparr>) = place s" "place (s\<lparr>p_clock_format := f\<rparr>) = place s"
  by (simp_all add: place_def)

lemma place_settings [simp]:
  "place (apply_height E h s) = place s" "place (apply_visible_widgets l s) = place s"
  "place (apply_clock_format E f s) = place s" "place (restyle E th s) = place s"
  by (simp_all add: apply_height_def apply_visible_widgets_def apply_clock_format_def restyle_def)

lemma place_construct: "place (panel_construct E th i) = (Singleton, ''bottom'', False, False)"
  unfolding panel_construct_def Let_def restyle_def [symmetric] place_settings by (simp add: place_def)

definition at_edge :: "role \<Rightarrow> string \<Rightarrow> bool" where
  "at_edge r p \<longleftrightarrow> (if r = Top then p = ''top'' else p = ''bottom'' \<or> p = ''left'' \<or> p = ''right'')"

lemma place_position:
  assumes "r \<noteq> Singleton" "place s = (r, q, seen, shown)" "seen \<longrightarrow> shown = at_edge r q"
  shows "place (apply_position E p s) = (r, p, True, at_edge r p)"
proof (cases "p = q \<and> seen")
  case True
  then show ?thesis using assms by (auto simp: apply_position_def place_def)
next
  case False
  define t where "t = apply_geometry E default_theme (s\<lparr>p_position := p, p_position_seen := True\<rparr>)"
  have "place t = (r, p, True, shown)" using assms(2) by (simp add: t_def) (simp add: place_def)
  moreover have "apply_position E p s = t\<lparr>p_shown := at_edge r p\<rparr>"
    using False assms(1,2) by (auto simp: apply_position_def t_def at_edge_def place_def Let_def)
  ultimately show ?thesis by (simp add: place_def)
qed

definition edge_inv :: "role \<Rightarrow> string list \<Rightarrow> panel \<Rightarrow> bool" where
  "edge_inv r ps s \<longleftrightarrow> (if ps = [] then place s = (r, ''bottom'', False, True) else place s = (r, last ps, True, at_edge r (last ps)))"

definition positions_of :: "de_signal list \<Rightarrow> string list" where
  "positions_of gs = List.map_filter (\<lambda>g. case g of Panel_position p \<Rightarrow> Some p | _ \<Rightarrow> None) gs"

lemma positions_of_simps [simp]:
  "positions_of [] = []"
  "positions_of (gs @ [g]) = positions_of gs @ (case g of Panel_position p \<Rightarrow> [p] | _ \<Rightarrow> [])"
  by (auto simp: positions_of_def map_filter_def split: de_signal.split)

lemma edge_inv_position: "r \<noteq> Singleton \<Longrightarrow> edge_inv r ps s \<Longrightarrow> edge_inv r (ps @ [p]) (apply_position E p s)"
  using place_position [of r s "if ps = [] then ''bottom'' else last ps" "ps \<noteq> []" "if ps = [] then True else at_edge r (last ps)" E p]
  by (auto simp: edge_inv_def split: if_splits)

lemma edge_inv_run:
  "edge_inv Top (positions_of gs) (fst (run (both_panels E) (two_panels E th) gs))
   \<and> edge_inv Bottom (positions_of gs) (snd (run (both_panels E) (two_panels E th) gs))"
proof (induction gs rule: rev_induct)
  case Nil
  show ?case using place_construct [of E th "''default''"] by (simp add: two_panels_def edge_inv_def place_def)
next
  case (snoc g gs)
  then show ?case
    by (cases g) (auto simp: run_snoc both_panels_def edge_inv_position, simp_all add: edge_inv_def)
qed

text \<open>
  Of the two panels of the shell exactly one is on the screen once a position has been signalled, the
  one at the edge signalled last: the top one for \<open>top\<close>, the bottom one for the other three. Before
  the first signal both are.
\<close>

theorem one_of_two_panels:
  assumes "set (positions_of gs) \<subseteq> {''top'', ''bottom'', ''left'', ''right''}"
  shows "case run (both_panels E) (two_panels E th) gs of (t, b) \<Rightarrow>
    if positions_of gs = [] then p_shown t \<and> p_shown b
    else (p_shown t \<longleftrightarrow> last (positions_of gs) = ''top'') \<and> (p_shown b \<longleftrightarrow> \<not> p_shown t)"
proof -
  have "positions_of gs \<noteq> [] \<Longrightarrow> last (positions_of gs) \<in> {''top'', ''bottom'', ''left'', ''right''}"
    using assms last_in_set by blast
  then show ?thesis using edge_inv_run [of gs E th]
    by (auto simp: edge_inv_def place_def at_edge_def split: prod.split if_splits)
qed

theorem one_of_two_panels_witness:
  "p_shown (fst (run (both_panels \<lparr>screen_width = 1024, first_geometry = (0, 0, 0, 0), qt_num = (\<lambda>n. []), clock_text = id,
      date_text = id\<rparr>) (two_panels \<lparr>screen_width = 1024, first_geometry = (0, 0, 0, 0), qt_num = (\<lambda>n. []), clock_text = id,
      date_text = id\<rparr> default_theme) [Panel_position ''bottom'', Panel_height 40, Panel_position ''top'']))"
  (is "p_shown (fst (run (both_panels ?E) _ ?gs))")
proof -
  have "positions_of ?gs = [''bottom'', ''top'']" by (simp add: positions_of_def map_filter_def)
  then show ?thesis using one_of_two_panels [of ?gs ?E default_theme] by (auto split: prod.splits)
qed

text \<open>
  The bottom panel, which is the one on the screen by default, is connected to nothing but the
  position: no signal of the configuration changes its height, its parts or its clock. (Nor is it
  attached to the themes, \<open>main.cc\<close> 848.)
\<close>

lemma frozen_position:
  "p_height (apply_position E p s) = p_height s" "p_visible_list (apply_position E p s) = p_visible_list s"
  "p_clock_format (apply_position E p s) = p_clock_format s"
proof -
  have "p_height (apply_geometry E th t) = p_height t" "p_visible_list (apply_geometry E th t) = p_visible_list t"
    "p_clock_format (apply_geometry E th t) = p_clock_format t" for th t
    by (simp_all add: apply_geometry_def Let_def)
  then show "p_height (apply_position E p s) = p_height s" "p_visible_list (apply_position E p s) = p_visible_list s"
    "p_clock_format (apply_position E p s) = p_clock_format s"
    by (simp_all add: apply_position_def Let_def)
qed

theorem bottom_panel_frozen:
  defines "b \<equiv> \<lambda>E th gs. snd (run (both_panels E) (two_panels E th) gs)"
  shows "p_height (b E th gs) = p_height (b E th []) \<and> p_visible_list (b E th gs) = p_visible_list (b E th [])
    \<and> p_clock_format (b E th gs) = p_clock_format (b E th [])"
proof (induction gs rule: rev_induct)
  case (snoc g gs)
  then show ?case by (cases g) (simp_all add: b_def run_snoc both_panels_def frozen_position)
qed simp

section \<open>With a collection\<close>

lemma default_theme_sizes [simp]:
  "th_padding default_theme = 8" "th_margin default_theme = 4" "th_launcher_width default_theme = 48"
  "th_panel_height default_theme = 28"
  by (simp_all add: default_theme_def)

text \<open>What the collection does to one of its panels.\<close>

fun routed_events :: "panel_act \<Rightarrow> nat \<Rightarrow> panel_event list" where
  "routed_events (Apply_height w h) v = (if v = w then [Height h] else [])"
| "routed_events (Set_role w r) v = (if v = w then [Role (case r of Role_top \<Rightarrow> Top | Role_bottom \<Rightarrow> Bottom)] else [])"
| "routed_events (Apply_position w p) v = (if v = w then [Position p] else [])"
| "routed_events (Apply_visible w l) v = (if v = w then [Visible l] else [])"
| "routed_events _ v = []"

lemma position_geometry:
  assumes "p_role s \<noteq> Singleton" "\<not> (p = p_position s \<and> p_position_seen s)"
  shows "p_geometry (apply_position E p s)
    = (0, if p_role s = Bottom then 740 else 0, if 64 < screen_width E then screen_width E else 1024, bar_height default_theme s)"
  using assms by (auto simp: apply_position_def apply_geometry_def Let_def bar_height_def)

text \<open>
  A position routed to a panel of the collection takes effect: the panel is on the screen at the edge of
  its role, and without a height of its own it gets the height of the built-in theme, not of the active
  one.
\<close>

theorem routed_position_takes:
  assumes "p \<in> {''top'', ''bottom'', ''left'', ''right''}" and "find_or_default i c = Some w"
    and "\<not> (p = p_position s \<and> p_position_seen s)"
  shows "case panel_acts (apply_position_for i p c) of acts \<Rightarrow>
    (let s' = run (panel_step E) s (concat (map (\<lambda>a. routed_events a w) (drop (length (panel_acts c)) acts)))
     in p_shown s' \<and> fst (p_geometry s') = 0 \<and> fst (snd (p_geometry s')) = (if p = ''top'' then 0 else 740)
        \<and> snd (snd (snd (p_geometry s'))) = (if 0 < p_height s then sint (p_height s) else 28))"
proof -
  define r where "r = (if p = ''top'' then Role_top else Role_bottom)"
  define q where "q = (if p = ''top'' then Top else Bottom)"
  have r: "role_of p = Some r" using assms(1) by (auto simp: role_of_def r_def)
  have a: "drop (length (panel_acts c)) (panel_acts (apply_position_for i p c)) = [Set_role w r, Apply_position w p]"
    using assms(2) r by (simp add: apply_position_for_def)
  have e: "concat (map (\<lambda>a. routed_events a w) [Set_role w r, Apply_position w p]) = [Role q, Position p]"
    by (simp add: r_def q_def)
  define t where "t = s\<lparr>p_role := q\<rparr>"
  have t: "p_role t = q" "p_role t \<noteq> Singleton" "\<not> (p = p_position t \<and> p_position_seen t)" "p_height t = p_height s"
    using assms(3) by (simp_all add: t_def q_def)
  have "p_shown (apply_position E p t)"
  proof -
    have "p_shown (apply_position E p t) = at_edge q p"
      using t by (auto simp: apply_position_def Let_def at_edge_def q_def)
    then show ?thesis using assms(1) by (auto simp: at_edge_def q_def)
  qed
  moreover have "p_geometry (apply_position E p t) = (0, if q = Bottom then 740 else 0,
      if 64 < screen_width E then screen_width E else 1024, if 0 < p_height s then sint (p_height s) else 28)"
    using position_geometry [OF t(2,3), of E] t(1,4) by (simp add: bar_height_def)
  ultimately show ?thesis unfolding a e by (auto simp: t_def q_def Let_def)
qed

text \<open>An environment with a screen of 1024 points, which prints decimal numbers.\<close>

definition plain_panel_env :: panel_env where
  "plain_panel_env = \<lparr>screen_width = 1024, first_geometry = (0, 0, 640, 480), qt_num = decimal \<circ> nat, clock_text = id, date_text = id\<rparr>"

theorem routed_position_takes_witness:
  "p_shown (run (panel_step plain_panel_env) (panel_construct plain_panel_env default_theme ''alpha'') [Role Top, Position ''top''])"
proof -
  let ?c = "pcol_init\<lparr>panels := [(''alpha'', 0)], panels_built := 1\<rparr>"
  have f: "find_or_default ''alpha'' ?c = Some 0" by (simp add: find_or_default_def panel_for_id_def)
  have n: "\<not> p_position_seen (panel_construct plain_panel_env default_theme ''alpha'')"
    using place_construct [of plain_panel_env default_theme "''alpha''"] by (simp add: place_def)
  have a: "drop (length (panel_acts ?c)) (panel_acts (apply_position_for ''alpha'' ''top'' ?c)) = [Set_role 0 Role_top, Apply_position 0 ''top'']"
    using f by (simp add: apply_position_for_def role_of_def)
  show ?thesis
    using routed_position_takes [where p = "''top''" and i = "''alpha''" and c = ?c and w = 0
        and s = "panel_construct plain_panel_env default_theme ''alpha''" and E = plain_panel_env, OF _ f] n
    unfolding a by (simp add: Let_def)
qed

text \<open>
  A height or position leaves the panel with the paddings and height of the built-in theme; only the
  next change of the theme brings the active one back.
\<close>

theorem height_forgets_theme:
  assumes "h \<noteq> 0" "h \<noteq> p_height s"
  shows "p_margins (apply_height E h s) = (8, 4)
    \<and> p_toggle_size (apply_height E h s) = (48, sint h - 8)
    \<and> p_margins (restyle E th (apply_height E h s)) = (th_padding th, th_margin th)"
proof -
  have h: "0 < h" using assms(1) by (simp add: word_neq_0_conv)
  define t where "t = apply_geometry E default_theme (s\<lparr>p_height := h\<rparr>)"
  have "p_height t = h" by (simp add: t_def apply_geometry_def Let_def)
  moreover have a: "apply_height E h s = apply_layout default_theme t"
    using assms by (simp add: apply_height_def t_def)
  moreover have "p_margins (apply_visibility u) = p_margins u" for u
    by (simp add: apply_visibility_def Let_def del: set_map)
  then have "p_margins (restyle E th u) = (th_padding th, th_margin th)" for u
    by (simp add: restyle_def refresh_clock_text_def) (simp add: apply_layout_def)
  ultimately show ?thesis using h by (simp add: apply_layout_def bar_height_def)
qed

theorem height_forgets_theme_witness:
  "p_margins (apply_height plain_panel_env 40 (restyle plain_panel_env (default_theme\<lparr>th_padding := 20\<rparr>) (s\<lparr>p_height := 30\<rparr>))) = (8, 4)"
proof -
  let ?s = "restyle plain_panel_env (default_theme\<lparr>th_padding := 20\<rparr>) (s\<lparr>p_height := 30\<rparr>)"
  have "p_height (apply_geometry E th t) = p_height t" "p_height (apply_style th t) = p_height t" for E th t
    by (simp_all add: apply_geometry_def apply_style_def Let_def)
  moreover have "p_height (apply_visibility t) = p_height t" for t
    by (simp add: apply_visibility_def Let_def del: set_map)
  ultimately have "p_height ?s = 30" by (simp add: restyle_def refresh_clock_text_def apply_layout_def)
  then show ?thesis using height_forgets_theme [where h = 40 and s = ?s and E = plain_panel_env] by simp
qed

section \<open>The context menu\<close>

lemma number_snoc: "number (xs @ [c]) = number xs * 10 + digit_val c"
  by (simp add: number_def)

lemma number_decimal: "number (decimal n) = n \<and> list_all is_digit (decimal n)"
proof (induction n rule: decimal.induct)
  case (1 n)
  show ?case
  proof (cases "n < 10")
    case True
    then show ?thesis by (subst (1 2) decimal.simps) (simp add: number_def digit_char_val)
  next
    case False
    then show ?thesis using 1 by (subst (1 2) decimal.simps) (simp add: number_snoc digit_char_val)
  qed
qed

lemma clone_of_menu:
  assumes "length (p_id s) \<le> 16"
  shows "clone_of (panel_key s ''height'') = (pattern_registry ! 0)\<lparr>kname := panel_key s ''height''\<rparr>"
    and "clone_of (panel_key s ''position'') = (pattern_registry ! 1)\<lparr>kname := panel_key s ''position''\<rparr>"
    and "clone_of (panel_key s ''visible_widgets'') = (pattern_registry ! 2)\<lparr>kname := panel_key s ''visible_widgets''\<rparr>"
  using assms by (simp_all add: panel_key_def clone_of_def template_index_def id_suffixes_def upt_rec gstr_def numeral_2_eq_2)

lemma menu_id: "1 \<le> length i \<Longrightarrow> length i \<le> 16 \<Longrightarrow> list_all id_charset_ok i \<Longrightarrow> suf \<in> set id_suffixes
    \<Longrightarrow> pattern_extract_id (panel_prefix @ i @ suf) = Some i"
  by (subst pattern_extract_id_iff) (auto simp: id_suffixes_def)

text \<open>
  C33: The writes of a panel's menu and the validator of the daemon. Whatever a panel with a valid name asks
  for, the key is one of a single panel with that name; every height of the spin box and both
  positions are valid values, and a choice of parts is valid exactly when a part is chosen: the daemon
  refuses to hide them all, which the menu offers.
\<close>

theorem menu_writes_accepted:
  assumes "1 \<le> length (p_id s)" "length (p_id s) \<le> 16" "list_all id_charset_ok (p_id s)"
    and "\<And>n. qt_num E (int n) = decimal n"
  shows "(\<forall>w \<in> {menu_height E v s, menu_visible c l t s, menu_position pos s}. pattern_extract_id (fst w) = Some (p_id s))
    \<and> value_valid G (clone_of (fst (menu_height E v s))) (snd (menu_height E v s)) = None
    \<and> (pos \<in> set menu_positions \<longrightarrow> value_valid G (clone_of (fst (menu_position pos s))) (snd (menu_position pos s)) = None)
    \<and> (value_valid G (clone_of (fst (menu_visible c l t s))) (snd (menu_visible c l t s)) = None \<longleftrightarrow> c \<or> l \<or> t)"
proof (intro conjI)
  show "\<forall>w \<in> {menu_height E v s, menu_visible c l t s, menu_position pos s}. pattern_extract_id (fst w) = Some (p_id s)"
    using menu_id [OF assms(1-3), of "''.height''"] menu_id [OF assms(1-3), of "''.position''"]
      menu_id [OF assms(1-3), of "''.visible_widgets''"]
    by (simp add: menu_height_def menu_visible_def menu_position_def panel_key_def id_suffixes_def)
  define n where "n = nat (max 16 (min 128 v))"
  have "int n = max 16 (min 128 v)" by (simp add: n_def)
  then have n: "16 \<le> n" "n \<le> 128" "qt_num E (max 16 (min 128 v)) = decimal n"
    using assms(4) [of n] by (simp_all add: max_def split: if_splits)
  have "uint_valid G d (decimal n) = None" if "min_value d = 16" "max_value d = 128" for d
    using n number_decimal [of n] that by (simp add: uint_valid_iff)
  then show "value_valid G (clone_of (fst (menu_height E v s))) (snd (menu_height E v s)) = None"
    using n(3) by (simp add: menu_height_def clone_of_menu(1) [OF assms(2)] value_valid_def pattern_registry_def)
  show "pos \<in> set menu_positions \<longrightarrow> value_valid G (clone_of (fst (menu_position pos s))) (snd (menu_position pos s)) = None"
    by (auto simp: menu_position_def menu_positions_def clone_of_menu(2) [OF assms(2)] value_valid_def
        pattern_registry_def enum_valid_def)
  show "value_valid G (clone_of (fst (menu_visible c l t s))) (snd (menu_visible c l t s)) = None \<longleftrightarrow> c \<or> l \<or> t"
    by (cases c; cases l; cases t) (simp_all add: menu_visible_def clone_of_menu(3) [OF assms(2)] value_valid_def
        pattern_registry_def enum_list_valid_def enum_token_valid_def trim_def json_ws_def)
qed

theorem menu_writes_accepted_witness:
  "value_valid (bare_genode) (clone_of ''panel.alpha.visible_widgets'') ''clock,tasklist'' = None"
proof -
  let ?s = "panel_construct plain_panel_env default_theme ''alpha''"
  have i: "p_id ?s = ''alpha''"
  proof -
    have "same_clicks t (restyle E th t)" for E th t by (rule same_clicks_restyle)
    then have "p_id (restyle E th t) = p_id t" for E th t by (simp add: same_clicks_def)
    then show ?thesis unfolding panel_construct_def Let_def restyle_def [symmetric] by simp
  qed
  have env: "qt_num plain_panel_env (int n) = decimal n" for n by (simp add: plain_panel_env_def)
  have "menu_visible True False True ?s = (''panel.alpha.visible_widgets'', ''clock,tasklist'')"
    by (simp add: menu_visible_def panel_key_def i)
  then show ?thesis
    using conjunct2 [OF conjunct2 [OF conjunct2 [OF menu_writes_accepted [where s = ?s and E = plain_panel_env and c = True
        and l = False and t = True and G = bare_genode]]]] i
    by (simp add: env id_charset_ok_def is_lower_def less_eq_char_def)
qed

text \<open>
  Without a collection the menu of a panel is without effect. The keys it writes are those of a single
  panel, \<open>panel.default.\<close>, and what the configuration controller signals for their entries of the
  broadcast is connected to neither of the two panels.
\<close>

lemma per_id_lost:
  "both_panels E g tb = tb" if "g \<in> set (per_id_signal e)" for g e
  using that by (auto simp: per_id_signal_def both_panels_def Let_def split: prod.splits if_splits)

theorem own_menu_without_effect:
  assumes "w \<in> {menu_height E v s, menu_visible c l t s, menu_position pos s}" "1 \<le> length (p_id s)" "length (p_id s) \<le> 16"
  shows "\<exists>suf. parse_panel_id_key (fst w) = Some (p_id s, suf)
    \<and> run (both_panels E) tb (per_id_signal (p_id s, suf, snd w)) = tb"
proof -
  have "fst w \<in> {''panel.'' @ p_id s @ ''.height'', ''panel.'' @ p_id s @ ''.position'', ''panel.'' @ p_id s @ ''.visible_widgets''}"
    using assms(1) by (auto simp: menu_height_def menu_visible_def menu_position_def panel_key_def)
  then obtain suf where suf: "suf \<in> set panel_suffixes" "fst w = ''panel.'' @ p_id s @ CHR ''.'' # suf"
    by (auto simp: panel_suffixes_def)
  have "run (both_panels E) tb gs = tb" if "set gs \<subseteq> set (per_id_signal e)" for gs e
    using that by (induction gs) (auto simp: per_id_lost)
  then show ?thesis using suf assms(2,3) by (auto simp: parse_panel_id_key_iff)
qed

theorem own_menu_without_effect_witness:
  "\<exists>suf. parse_panel_id_key ''panel.default.position'' = Some (''default'', suf)
    \<and> run (both_panels plain_panel_env) (two_panels plain_panel_env default_theme) (per_id_signal (''default'', suf, ''top''))
      = two_panels plain_panel_env default_theme"
proof -
  let ?s = "undefined\<lparr>p_id := ''default''\<rparr> :: panel"
  have "menu_position ''top'' ?s = (''panel.default.position'', ''top'')" by (simp add: menu_position_def panel_key_def)
  then show ?thesis
    using own_menu_without_effect [where w = "menu_position ''top'' ?s" and pos = "''top''" and s = ?s and E = plain_panel_env
        and tb = "two_panels plain_panel_env default_theme"] by simp
qed

end
