(* ===== verification/Spec2Isabelle.thy ===== *)
theory Spec2Isabelle
  imports Supervisor_Props Text_Scan_Props Configd_Registry_Props Configd_Props Pkgd_Props
    Notifier_Props Logdisk_Props Vct_Output_Props Themed Decorator_Bridge Lz_Watch Vct_Tty
    Panel_Collection Tasklist_Focus Theme_System Launcher_System Shortcuts_Props Shell_Settings
    Shell_Actions Panel_System
begin

text \<open>
  Sponge OS: the daemons, the command-line tool and the controllers of the desktop shell.

  The system is a set of Genode components. A supervisor starts the others from configuration
  templates and restarts or replaces them when they fail. A configuration daemon holds the settings,
  a package daemon the installed and running packages, a notifier the notifications, and a log
  component writes the log to the disk. The command-line tool \<open>vct\<close> asks the daemons. They talk
  through reports: a component publishes a document under a label, and the others read the last one
  as a ROM; a request is a report, and so is its answer. All sources are under
  \<open>src/repos/sponge/\<close>, Genode itself is not part of the repository.

  The parts and their theories.

  \<^item> Genode\_Iface states what the code uses of Genode: nodes and their attributes, ROMs, the
    parameters whose code is not here (printing and parsing of numbers, file-system answers), the
    operations on files and a file system that executes them. Machine is the contract of a component
    that keeps an invariant and emits outputs, as two locales; each daemon interprets it. Bounded has
    the fixed arrays and buffers the components share, Prelude the rest (characters, words, sorting).
  \<^item> Text\_Scan, Supervisor: \<open>sponge_supervisor/text_scan.h\<close>, \<open>main.cc\<close>. The scanner of configuration
    texts (the copy in \<open>sponge_console\<close> is the same file), the template substitution, the state
    machine of the supervisor with its four phases and its timers. The properties are about what the
    scanner finds, the phase and the console in every reachable state, the exact time of a takeover,
    and the published configurations.
  \<^item> Configd\_Registry, Configd: \<open>sponge_configd/main.cc\<close>. The registry of keys, the validators, the
    suggestion of a similar key, the values, requests, broadcasts, the store file and its load. The
    store refines a map (\<open>set_refines_map_update\<close>), except that a write of one of the first registered
    keys goes to a per-panel key once there are such; a crash does not tear it, its text fits.
  \<^item> Pkgd\_Package, Pkgd\_Resolve, Pkgd: \<open>sponge_pkgd/main.cc\<close>. The metadata of packages and their
    rewriting, the resolver of dependencies, the two sandboxes, requests, admission, the store. The
    resolver is proved against the dependency relation, the installed set is its closure, each sandbox
    configuration starts exactly the running packages of its kind.
  \<^item> Notifier: \<open>sponge_notifier/main.cc\<close>. The bounded list, its expiry and its broadcast.
  \<^item> Logdisk: \<open>sponge_logdisk/main.cc\<close>. Lines, the backlog, rotation, the drain loop. What other threads
    do while the main thread writes is an argument of each round of the loop, which runs as many
    rounds as the argument has.
  \<^item> Vct\_Args, Vct\_State, Vct\_Client, Vct\_Commands, Vct\_System: \<open>vct/\<close> and
    \<open>lib/src/sponge_backend_client\<close>. From the configuration ROM to the invocation, the command, its
    requests, its lines and its exit code. Vct\_Props connects the client to the models of the two
    daemons through a locale of a result channel, Vct\_Output\_Props holds facts about what is printed.

  \<^item> Config\_View states how a reader finds a key in the configuration broadcast and what it finds
    after an accepted write; the theories of the readers build on it.
  \<^item> Themed, Decorator\_Bridge: \<open>sponge_themed\<close>, \<open>sponge_decorator_bridge\<close>. The theme daemon refines
    a list function on the active names, up to the first one whose module the parent denies: a denied
    ROM session stops the component, although the code has a \<open>catch\<close> for it. The bridge is shown to
    emit one color only.
  \<^item> Lz\_Watch, Vct\_Tty: \<open>lz_watch\<close>, \<open>vct_tty\<close>. The watcher of the expert subsystem with its poll
    loop, and the terminal that turns lines into requests.
  \<^item> De\_Common, Shell\_Config, Panel\_Collection: \<open>sponge-de/panel/notify_poster.cc\<close>,
    \<open>sponge-de/config/config_controller.cc\<close>, \<open>sponge-de/panel/panel_collection.cc\<close>. From the text of
    the broadcast to the signals of the shell and the set of its panels. Qt strings are byte lists,
    signals and widget calls are recorded in order.

  \<^item> Tasklist, Tasklist\_Props, Tasklist\_Focus: \<open>sponge-de/panel/tasklist_controller.cc\<close>. What the shell
    tracks of the windows and the rules and focus requests it publishes; the rules settle, cycling the
    focus reaches every visible window, a parked window comes back.
  \<^item> Theme\_Loader, Theme\_Props, Theme\_Controller, Theme\_System: \<open>sponge-de/theme\<close>. The parser of theme
    files with its loop over positions, its termination, the round trip of a written theme, the
    controller that applies themes, and the way of a theme from the configuration to the screen.
  \<^item> Launcher, Launcher\_Props, Launcher\_System: \<open>sponge-de/launcher/launcher_controller.cc\<close>. The list
    of applications, the popup, the request that starts one and the polls for its answer; with the
    model of the package daemon, what a click does and what the list shows.
  \<^item> Shortcuts, Shortcuts\_Props: \<open>sponge-de/config/shortcut_controller.cc\<close>. From the bindings to the
    configuration of the event filter, and from its reports to the actions; with the model of the
    configuration daemon, what accepted bindings do.
  \<^item> Shell\_Settings, Shell\_Actions: \<open>sponge-de/config/settings_controller.cc\<close>, \<open>config/dismisser.cc\<close>,
    \<open>background/show_desktop.cc\<close> and the calls by name of the shell. What the Apply button tells, what
    the dismiss key closes, and which keys and menu entries reach no method.
  \<^item> Panel\_Widget, Panel\_Props, Panel\_System: \<open>sponge-de/panel/panel_widget.cc\<close> and its wiring in
    \<open>main.cc\<close>. Geometry, style, visible parts, title, label of problems, clicks and the writes of the
    context menu; which panel is on the screen, and what the daemon says to the writes.

  In each theory of a component the definitions stand in the order of the code and carry its names. A
  machine integer is a word of its width, a fixed buffer is a list with the bound of the code, a call
  that may not return is a value of its own. Each daemon has a start, a step function and the states
  reached by a list of events; the invariants are about all of them.

  Bounds. The resolver runs with as much fuel as a package array can hold plus one, and
  \<open>resolve_correct\<close> shows that it is never used up. A poll of the client looks sixty times, that of
  the state report thirty times, as in the code. The loops of the file system take their answers
  from a list; where it ends the call does not return, which is a case of its own.

  The disk. A save is a list of operations; \<open>after_crash\<close> allows any content in a file that was not
  synchronised since its last change, after any number of operations. The daemons look neither at the
  answer of the truncation nor at that of the synchronisation, which are arguments of the save; the
  properties of the store say where they must be good.

  Texts. Strings are byte lists, also those of Qt, whose conversion from and to UTF-8 is taken as the
  identity. \<open>Rom_malformed\<close> is a ROM content on which the look at the node throws
  \<open>Invalid_syntax\<close>; \<open>xml()\<close> itself never throws.

  Left out. Log lines of the daemons. Of the tool the help pages, the Korean texts (named instead of
  spelled out) and the warnings of the argument parser and the dispatcher. Sessions, threads, memory
  and capabilities of Genode, except where the code reads their figures. Of the desktop shell
  \<open>sponge-de\<close> painting and the Qt event loop, the views of the launcher and the task list, the tabs of
  the settings dialog, the popover of notifications, the painting of the background and the rest of
  \<open>main.cc\<close> (construction, the watch on the health of components). The file manager \<open>sponge_files\<close>,
  the console \<open>sponge_console\<close> and the debug window are Qt and framebuffer code around pixels.
\<close>

end
